(* ===== verification/Prelude.thy ===== *)
theory Prelude
  imports Complex_Main "HOL-Library.Char_ord" "HOL-Library.List_Lexorder"
    "HOL-Library.Product_Lexorder" "HOL-Library.Word"
begin

text \<open>
  Shared material of the development: Python exceptions as values, the effect of an SQLite
  transaction, the string operations of Python the code relies on, the SQL statements of the
  store as operations on lists of rows, and the generic lemmas about them.

  A table is the list of its rows in rowid order.  \<open>SELECT ... fetchone()\<close> on a key is
  \<^const>\<open>List.find\<close>, \<open>ORDER BY\<close> is \<^const>\<open>sort_key\<close> (stable, so rows that SQL leaves
  unordered stay in rowid order), \<open>LIMIT\<close> is \<^const>\<open>take\<close>.
  Python text is a list of Latin-1 characters.
\<close>

section \<open>Exceptions, results and transactions\<close>

datatype exn =
    ValueError string
  | PermissionError string
  | KeyError string
  | RuntimeError string
  | TypeError string
  | IntegrityError string
  | OverflowError string
  | OperationalError string
  | CryptoError string

type_synonym 'a result = "exn + 'a"
type_synonym ('s, 'a) outcome = "'s \<times> (exn + 'a)"
type_synonym byte = "8 word"
type_synonym bytes = "byte list"
type_synonym time_ms = int

named_theorems sql
named_theorems row_simps
named_theorems keep_inv

definition and_then :: "'e + 'a \<Rightarrow> ('a \<Rightarrow> 'e + 'b) \<Rightarrow> 'e + 'b" where
  "and_then r k = (case r of Inl e \<Rightarrow> Inl e | Inr a \<Rightarrow> k a)"

text \<open>
  \<open>BEGIN IMMEDIATE\<close> ... \<open>COMMIT\<close>, with \<open>except: ROLLBACK; raise\<close> around it: an exception
  leaves the state of the database as it was before the block.
\<close>

definition transaction :: "('s \<Rightarrow> exn + 's \<times> 'a) \<Rightarrow> 's \<Rightarrow> ('s, 'a) outcome" where
  "transaction body s =
     (case body s of Inl e \<Rightarrow> (s, Inl e) | Inr (s', a) \<Rightarrow> (s', Inr a))"

text \<open>An argument check in front of a database operation: nothing is touched when it fails.\<close>

definition checked :: "'s \<Rightarrow> exn + 'a \<Rightarrow> ('a \<Rightarrow> ('s, 'b) outcome) \<Rightarrow> ('s, 'b) outcome" where
  "checked s r k = (case r of Inl e \<Rightarrow> (s, Inl e) | Inr a \<Rightarrow> k a)"

fun map_result :: "('a \<Rightarrow> exn + 'b) \<Rightarrow> 'a list \<Rightarrow> exn + 'b list" where
  "map_result f [] = Inr []"
| "map_result f (x # xs) =
     and_then (f x) (\<lambda>y. and_then (map_result f xs) (\<lambda>ys. Inr (y # ys)))"

lemma and_then_simps [simp]:
  "and_then (Inl e) k = Inl e"
  "and_then (Inr a) k = k a"
  by (simp_all add: and_then_def)

lemma and_then_eq_Inr [simp]:
  "and_then r k = Inr b \<longleftrightarrow> (\<exists>a. r = Inr a \<and> k a = Inr b)"
  by (cases r) auto

text \<open>A guarded continuation that returned: the guard did not raise.\<close>

lemma guard_eq_Inr [simp]:
  "(if c then Inl e else k) = Inr x \<longleftrightarrow> \<not> c \<and> k = Inr x"
  "(if c then k else Inl e) = Inr x \<longleftrightarrow> c \<and> k = Inr x"
  by auto

lemma case_option_eq_Inr [simp]:
  "(case v of None \<Rightarrow> Inl e | Some y \<Rightarrow> f y) = Inr x \<longleftrightarrow> (\<exists>y. v = Some y \<and> f y = Inr x)"
  "(case v of None \<Rightarrow> k | Some y \<Rightarrow> Inl (g y)) = Inr x \<longleftrightarrow> v = None \<and> k = Inr x"
  by (cases v; simp)+

lemma and_then_split:
  "P (and_then r k) \<longleftrightarrow> (\<forall>e. r = Inl e \<longrightarrow> P (Inl e)) \<and> (\<forall>a. r = Inr a \<longrightarrow> P (k a))"
  by (cases r) auto

lemma checked_simps [simp]:
  "checked s (Inl e) k = (s, Inl e)"
  "checked s (Inr a) k = k a"
  by (simp_all add: checked_def)

text \<open>Atomicity: a transaction that raises leaves the state alone.\<close>

lemma transaction_rollback: "snd (transaction body s) = Inl e \<Longrightarrow> fst (transaction body s) = s"
  by (auto simp: transaction_def split: sum.splits)

lemma transaction_Inr:
  "transaction body s = (s', Inr a) \<longleftrightarrow> body s = Inr (s', a)"
  by (auto simp: transaction_def split: sum.splits)

lemma fst_transaction:
  "fst (transaction body s) = (case body s of Inl e \<Rightarrow> s | Inr (s', a) \<Rightarrow> s')"
  by (auto simp: transaction_def split: sum.splits)

lemma transaction_preserves [intro]:
  assumes "P s" and "\<And>s' a. body s = Inr (s', a) \<Longrightarrow> P s'"
  shows "P (fst (transaction body s))"
  using assms by (auto simp: fst_transaction split: sum.splits)

lemma checked_preserves [intro]:
  assumes "P s" and "\<And>a. r = Inr a \<Longrightarrow> P (fst (k a))"
  shows "P (fst (checked s r k))"
  using assms by (cases r) auto

lemma checked_Inr:
  "checked s r k = (s', Inr b) \<longleftrightarrow> (\<exists>a. r = Inr a \<and> k a = (s', Inr b))"
  by (cases r) auto

lemma outcome_preserves:
  assumes "P s" and "\<And>e. snd q = Inl e \<Longrightarrow> fst q = s" and "\<And>s' a. q = (s', Inr a) \<Longrightarrow> P s'"
  shows "P (fst q)"
  using assms by (cases q; cases "snd q") auto

lemma map_result_Inr_length: "map_result f xs = Inr ys \<Longrightarrow> length ys = length xs"
  by (induction xs arbitrary: ys) auto

section \<open>Python strings\<close>

definition code :: "char \<Rightarrow> nat" where
  "code c = of_char c"

text \<open>\<open>str.isspace\<close> on the Latin-1 range, which is what \<open>str.strip()\<close> removes.\<close>

definition py_space :: "char \<Rightarrow> bool" where
  "py_space c = (let n = code c in
     (9 \<le> n \<and> n \<le> 13) \<or> (28 \<le> n \<and> n \<le> 32) \<or> n = 133 \<or> n = 160)"

definition strip :: "string \<Rightarrow> string" where
  "strip s = rev (dropWhile py_space (rev (dropWhile py_space s)))"

definition lower_char :: "char \<Rightarrow> char" where
  "lower_char c = (let n = code c in
     if (65 \<le> n \<and> n \<le> 90) \<or> (192 \<le> n \<and> n \<le> 222 \<and> n \<noteq> 215) then char_of (n + 32) else c)"

definition lower :: "string \<Rightarrow> string" where
  "lower s = map lower_char s"

definition is_digit :: "char \<Rightarrow> bool" where
  "is_digit c = (let n = code c in 48 \<le> n \<and> n \<le> 57)"

definition is_lower :: "char \<Rightarrow> bool" where
  "is_lower c = (let n = code c in 97 \<le> n \<and> n \<le> 122)"

definition is_upper :: "char \<Rightarrow> bool" where
  "is_upper c = (let n = code c in 65 \<le> n \<and> n \<le> 90)"

definition is_lower_hex :: "char \<Rightarrow> bool" where
  "is_lower_hex c = (is_digit c \<or> (let n = code c in 97 \<le> n \<and> n \<le> 102))"

text \<open>\<open>re.fullmatch(r"[0-9a-f]{n}", s)\<close>.\<close>

definition hex_string :: "nat \<Rightarrow> string \<Rightarrow> bool" where
  "hex_string n s = (length s = n \<and> list_all is_lower_hex s)"

text \<open>\<open>re.fullmatch(r"[first][rest]{0,n}", s)\<close>.\<close>

fun token_match :: "(char \<Rightarrow> bool) \<Rightarrow> (char \<Rightarrow> bool) \<Rightarrow> nat \<Rightarrow> string \<Rightarrow> bool" where
  "token_match first rest n [] = False"
| "token_match first rest n (c # cs) = (first c \<and> list_all rest cs \<and> length cs \<le> n)"

definition starts_with :: "string \<Rightarrow> string \<Rightarrow> bool" where
  "starts_with s p = (take (length p) s = p)"

definition ends_with :: "string \<Rightarrow> string \<Rightarrow> bool" where
  "ends_with s p = (length p \<le> length s \<and> drop (length s - length p) s = p)"

lemma strip_Nil [simp]: "strip [] = []"
  by (simp add: strip_def)

lemma hex_string_nonempty: "hex_string n s \<Longrightarrow> 0 < n \<Longrightarrow> s \<noteq> []"
  by (auto simp: hex_string_def)

lemma starts_with_append [simp]: "starts_with (p @ s) p"
  by (simp add: starts_with_def)

lemma starts_with_iff: "starts_with s p \<longleftrightarrow> (\<exists>t. s = p @ t)"
  by (metis append_take_drop_id starts_with_append starts_with_def)

section \<open>SQL statements on lists of rows\<close>

definition update_where :: "('r \<Rightarrow> bool) \<Rightarrow> ('r \<Rightarrow> 'r) \<Rightarrow> 'r list \<Rightarrow> 'r list" where
  "update_where P f rs = map (\<lambda>r. if P r then f r else r) rs"

definition delete_where :: "('r \<Rightarrow> bool) \<Rightarrow> 'r list \<Rightarrow> 'r list" where
  "delete_where P rs = filter (\<lambda>r. \<not> P r) rs"

definition count_where :: "('r \<Rightarrow> bool) \<Rightarrow> 'r list \<Rightarrow> nat" where
  "count_where P rs = length (filter P rs)"

definition exists_where :: "('r \<Rightarrow> bool) \<Rightarrow> 'r list \<Rightarrow> bool" where
  "exists_where P rs = list_ex P rs"

text \<open>\<open>INSERT INTO ... ON CONFLICT(key) DO UPDATE SET ...\<close>\<close>

definition upsert :: "('r \<Rightarrow> 'k) \<Rightarrow> 'r \<Rightarrow> ('r \<Rightarrow> 'r) \<Rightarrow> 'r list \<Rightarrow> 'r list" where
  "upsert key new merge rs =
     (if exists_where (\<lambda>r. key r = key new) rs
      then update_where (\<lambda>r. key r = key new) merge rs else rs @ [new])"

text \<open>\<open>INSERT OR IGNORE INTO ...\<close>\<close>

definition insert_or_ignore :: "('r \<Rightarrow> 'k) \<Rightarrow> 'r \<Rightarrow> 'r list \<Rightarrow> 'r list" where
  "insert_or_ignore key new rs =
     (if exists_where (\<lambda>r. key r = key new) rs then rs else rs @ [new])"

text \<open>\<open>COALESCE(MAX(f), 0)\<close> of a column.\<close>

definition max_or_zero :: "int list \<Rightarrow> int" where
  "max_or_zero xs = (case xs of [] \<Rightarrow> 0 | y # ys \<Rightarrow> fold max ys y)"

text \<open>A primary key (or another unique index) over a table.\<close>

definition unique_key :: "('r \<Rightarrow> 'k) \<Rightarrow> 'r list \<Rightarrow> bool" where
  "unique_key key rs = distinct (map key rs)"

text \<open>A partial unique index: \<open>CREATE UNIQUE INDEX ... WHERE p\<close>.\<close>

definition unique_key_where :: "('r \<Rightarrow> bool) \<Rightarrow> ('r \<Rightarrow> 'k) \<Rightarrow> 'r list \<Rightarrow> bool" where
  "unique_key_where p key rs = distinct (map key (filter p rs))"

subsection \<open>Lemmas on rows\<close>

lemma exists_where_iff [simp]: "exists_where P rs \<longleftrightarrow> (\<exists>r\<in>set rs. P r)"
  by (simp add: exists_where_def list_ex_iff)

lemma set_update_where: "set (update_where P f rs) = (\<lambda>r. if P r then f r else r) ` set rs"
  by (simp add: update_where_def)

lemma length_update_where [simp]: "length (update_where P f rs) = length rs"
  by (simp add: update_where_def)

lemma in_update_where [sql]:
  "r \<in> set (update_where P f rs) \<longleftrightarrow>
     (\<exists>r0\<in>set rs. (P r0 \<and> r = f r0) \<or> (\<not> P r0 \<and> r = r0))"
  by (auto simp: set_update_where)

lemma update_where_hit: "r \<in> set rs \<Longrightarrow> P r \<Longrightarrow> f r \<in> set (update_where P f rs)"
  by (auto simp: set_update_where)

lemma update_where_miss: "r \<in> set rs \<Longrightarrow> \<not> P r \<Longrightarrow> r \<in> set (update_where P f rs)"
  by (auto simp: set_update_where)

lemma update_where_simps [simp]:
  "update_where P f [] = []"
  "update_where P f (r # rs) = (if P r then f r else r) # update_where P f rs"
  by (simp_all add: update_where_def)

lemma update_where_append: "update_where P f (xs @ ys) = update_where P f xs @ update_where P f ys"
  by (simp add: update_where_def)

lemma in_delete_where [sql]: "r \<in> set (delete_where P rs) \<longleftrightarrow> r \<in> set rs \<and> \<not> P r"
  by (simp add: delete_where_def)

lemma in_upsert [sql]:
  "r \<in> set (upsert key new merge rs) \<longleftrightarrow>
     (if \<exists>q\<in>set rs. key q = key new
      then (\<exists>r0\<in>set rs. (key r0 = key new \<and> r = merge r0) \<or> (key r0 \<noteq> key new \<and> r = r0))
      else r \<in> set rs \<or> r = new)"
  by (auto simp: upsert_def in_update_where)

lemma in_insert_or_ignore [sql]:
  "r \<in> set (insert_or_ignore key new rs) \<longleftrightarrow>
     r \<in> set rs \<or> (r = new \<and> (\<forall>q\<in>set rs. key q \<noteq> key new))"
  by (auto simp: insert_or_ignore_def)

lemma map_key_update_where:
  "(\<And>r. key (f r) = key r) \<Longrightarrow> map key (update_where P f rs) = map key rs"
  by (simp add: update_where_def)

lemma unique_key_update_where [intro]:
  "unique_key key rs \<Longrightarrow> (\<And>r. key (f r) = key r) \<Longrightarrow> unique_key key (update_where P f rs)"
  by (simp add: unique_key_def map_key_update_where)

lemma unique_key_delete_where [intro]: "unique_key key rs \<Longrightarrow> unique_key key (delete_where P rs)"
  by (simp add: unique_key_def delete_where_def distinct_map_filter)

lemma unique_key_upsert [intro]:
  "unique_key key rs \<Longrightarrow> (\<And>r. key (merge r) = key r) \<Longrightarrow>
   unique_key key (upsert key new merge rs)"
  by (auto simp: upsert_def unique_key_def map_key_update_where)

lemma unique_key_insert_or_ignore [intro]:
  "unique_key key rs \<Longrightarrow> unique_key key (insert_or_ignore key new rs)"
  by (auto simp: insert_or_ignore_def unique_key_def)

lemma unique_key_append [intro]:
  "unique_key key rs \<Longrightarrow> (\<And>r. r \<in> set rs \<Longrightarrow> key r \<noteq> key new) \<Longrightarrow> unique_key key (rs @ [new])"
  by (fastforce simp: unique_key_def)

lemma unique_key_Nil [simp]: "unique_key key []"
  by (simp add: unique_key_def)

lemma unique_keyD:
  "unique_key key rs \<Longrightarrow> r \<in> set rs \<Longrightarrow> r' \<in> set rs \<Longrightarrow> key r = key r' \<Longrightarrow> r = r'"
  by (auto simp: unique_key_def distinct_map inj_on_def)

text \<open>A row condition over a changed table, as introduction rules.\<close>

lemma ball_update_where:
  "(\<And>r. r \<in> set rs \<Longrightarrow> P r \<Longrightarrow> Q (f r)) \<Longrightarrow> (\<And>r. r \<in> set rs \<Longrightarrow> \<not> P r \<Longrightarrow> Q r) \<Longrightarrow>
   \<forall>r\<in>set (update_where P f rs). Q r"
  by (auto simp: in_update_where)

lemma ball_upsert:
  "\<forall>r\<in>set rs. Q r \<Longrightarrow> Q new \<Longrightarrow> (\<And>r. r \<in> set rs \<Longrightarrow> Q r \<Longrightarrow> Q (merge r)) \<Longrightarrow>
   \<forall>r\<in>set (upsert key new merge rs). Q r"
  by (auto simp: in_upsert split: if_splits)

lemma ball_delete_where: "\<forall>r\<in>set rs. Q r \<Longrightarrow> \<forall>r\<in>set (delete_where P rs). Q r"
  by (auto simp: in_delete_where)

lemma ball_append_row: "\<forall>r\<in>set rs. Q r \<Longrightarrow> Q new \<Longrightarrow> \<forall>r\<in>set (rs @ [new]). Q r"
  by auto

lemma bex_upsert:
  "r \<in> set rs \<Longrightarrow> Q r \<Longrightarrow> (\<And>r. Q r \<Longrightarrow> Q (merge r)) \<Longrightarrow> \<exists>r\<in>set (upsert key new merge rs). Q r"
  unfolding Bex_def in_upsert by metis

lemma bex_update_where:
  "r \<in> set rs \<Longrightarrow> Q r \<Longrightarrow> (\<And>r. Q r \<Longrightarrow> Q (f r)) \<Longrightarrow> \<exists>r\<in>set (update_where P f rs). Q r"
  unfolding Bex_def in_update_where by metis

lemma bex_upsert_new:
  "Q new \<Longrightarrow> (\<And>r. r \<in> set rs \<Longrightarrow> key r = key new \<Longrightarrow> Q (merge r)) \<Longrightarrow>
   \<exists>r\<in>set (upsert key new merge rs). Q r"
  unfolding Bex_def in_upsert by metis

lemmas table_intros = conjI unique_key_update_where unique_key_upsert unique_key_delete_where
  unique_key_insert_or_ignore unique_key_append ball_update_where ball_upsert ball_delete_where
  ball_append_row

lemma fold_preserves: "P s \<Longrightarrow> (\<And>x s. P s \<Longrightarrow> P (f x s)) \<Longrightarrow> P (fold f xs s)"
  by (induction xs arbitrary: s) auto

lemma find_SomeD: "find P rs = Some r \<Longrightarrow> r \<in> set rs \<and> P r"
  by (induction rs) (auto split: if_splits)

lemma find_NoneD: "find P rs = None \<Longrightarrow> r \<in> set rs \<Longrightarrow> \<not> P r"
  by (induction rs) (auto split: if_splits)

lemma find_None_iff_all: "find P rs = None \<longleftrightarrow> (\<forall>r\<in>set rs. \<not> P r)"
  by (auto simp: find_None_iff)

lemma find_append:
  "find P (xs @ ys) = (case find P xs of None \<Rightarrow> find P ys | Some x \<Rightarrow> Some x)"
  by (induction xs) auto

lemma find_update_key:
  assumes "\<And>r. key (f r) = key r"
  shows "find (\<lambda>r. key r = k') (update_where (\<lambda>r. key r = k \<and> P r) f rs) =
     (if k' = k then map_option (\<lambda>r. if P r then f r else r) (find (\<lambda>r. key r = k) rs)
      else find (\<lambda>r. key r = k') rs)"
  by (induction rs) (auto simp: assms)

lemma find_unique:
  "unique_key key rs \<Longrightarrow> r \<in> set rs \<Longrightarrow> find (\<lambda>q. key q = key r) rs = Some r"
  by (induction rs) (auto simp: unique_key_def)

lemma unique_key_length_le_1:
  assumes "unique_key key rs" and "\<And>r. P r \<Longrightarrow> key r = k"
  shows "count_where P rs \<le> 1"
  using assms(1)
proof (induction rs)
  case Nil
  then show ?case by (simp add: count_where_def)
next
  case (Cons r rs)
  have "P r \<Longrightarrow> filter P rs = []"
    using Cons.prems assms(2) by (force simp: unique_key_def filter_empty_conv)
  with Cons show ?case by (auto simp: count_where_def unique_key_def)
qed

lemma count_where_pos: "count_where P rs \<noteq> 0 \<longleftrightarrow> (\<exists>r\<in>set rs. P r)"
  by (auto simp: count_where_def filter_empty_conv)

lemma count_where_1:
  assumes "unique_key key rs" and "\<And>r. P r \<Longrightarrow> key r = k"
  shows "count_where P rs = 1 \<longleftrightarrow> (\<exists>r\<in>set rs. P r)"
proof -
  have "count_where P rs \<le> 1" using assms by (rule unique_key_length_le_1)
  then have "count_where P rs = 1 \<longleftrightarrow> count_where P rs \<noteq> 0" by auto
  then show ?thesis using count_where_pos [of P rs] by blast
qed

lemma max_or_zero_ge: "x \<in> set xs \<Longrightarrow> x \<le> max_or_zero xs"
proof (cases xs)
  case (Cons y ys)
  assume "x \<in> set xs"
  then show ?thesis
    by (simp add: max_or_zero_def Cons Max.set_eq_fold [symmetric])
qed simp

lemma sort_key_Nil_iff: "sort_key f xs = [] \<longleftrightarrow> xs = []"
  by (metis set_empty set_sort)

lemma set_sort_key_take: "x \<in> set (take n (sort_key f xs)) \<Longrightarrow> x \<in> set xs"
  by (metis in_set_takeD set_sort)

lemma sorted_take_sort_key: "sorted (map f (take n (sort_key f xs)))"
  by (metis sorted_sort_key sorted_wrt_take take_map)

lemma unique_key_whereD:
  "unique_key_where p key rs \<Longrightarrow> r \<in> set rs \<Longrightarrow> r' \<in> set rs \<Longrightarrow> p r \<Longrightarrow> p r' \<Longrightarrow>
   key r = key r' \<Longrightarrow> r = r'"
  by (auto simp: unique_key_where_def distinct_map inj_on_def)

section \<open>Machines and their invariants\<close>

text \<open>
  The interface every stateful component offers: a start state, one state transformer per call,
  and an invariant that holds at the start and is kept by each call.  What a client may rely on,
  whatever the sequence of calls was, is proved once here.
\<close>

locale machine =
  fixes start :: 's
    and step :: "'c \<Rightarrow> 's \<Rightarrow> 's"
    and inv :: "'s \<Rightarrow> bool"
  assumes inv_start: "inv start"
    and inv_step: "inv s \<Longrightarrow> inv (step c s)"
begin

lemma inv_run: "inv s \<Longrightarrow> inv (fold step cs s)"
  by (induction cs arbitrary: s) (auto intro: inv_step)

lemma inv_reachable: "inv (fold step cs start)"
  by (rule inv_run [OF inv_start])

end

text \<open>A machine in which some fact about the state, once true, stays true.\<close>

locale stable_machine = machine +
  fixes fact :: "'a \<Rightarrow> 'b \<Rightarrow> bool"
  assumes fact_step: "inv s \<Longrightarrow> fact k s \<Longrightarrow> fact k (step c s)"
begin

lemma fact_run: "inv s \<Longrightarrow> fact k s \<Longrightarrow> fact k (fold step cs s)"
  by (induction cs arbitrary: s) (auto intro: inv_step fact_step)

end

text \<open>
  A refinement mapping: what \<open>view\<close> shows of the state moves along \<open>flow\<close> or stays, whatever the
  call.  Facts about the reachable views are then rule inductions on \<open>flow\<close>.
\<close>

locale refinement_map = machine +
  fixes view :: "'a \<Rightarrow> 'v" and flow :: "'v \<Rightarrow> 'v \<Rightarrow> bool"
  assumes view_step: "inv s \<Longrightarrow> view (step c s) = view s \<or> flow (view s) (view (step c s))"
begin

lemma view_run: "inv s \<Longrightarrow> flow\<^sup>*\<^sup>* (view s) (view (fold step cs s))"
proof (induction cs arbitrary: s)
  case (Cons c cs)
  have "flow\<^sup>*\<^sup>* (view s) (view (step c s))" using view_step [OF Cons.prems, of c] by auto
  then show ?case using Cons.IH [OF inv_step [OF Cons.prems, of c]] by simp
qed simp

end

text \<open>
  A machine that hands out items to holders: what it grants is held from then on, and an item that
  somebody holds is only ever granted to its holder.
\<close>

locale exclusive_grants = stable_machine start step inv fact
  for start :: 's and step :: "'c \<Rightarrow> 's \<Rightarrow> 's" and inv :: "'s \<Rightarrow> bool"
    and fact :: "'k \<times> 'h \<Rightarrow> 's \<Rightarrow> bool" +
  fixes granted :: "'c \<Rightarrow> 's \<Rightarrow> ('k \<times> 'h) option"
  assumes grant_holds: "inv s \<Longrightarrow> granted c s = Some kh \<Longrightarrow> fact kh (step c s)"
    and grant_respects: "inv s \<Longrightarrow> fact (k, h) s \<Longrightarrow> granted c s = Some (k, h') \<Longrightarrow> h' = h"
begin

lemma granted_once:
  assumes "inv s" and "granted c s = Some (k, h)" and "granted d (fold step cs (step c s)) = Some (k, h')"
  shows "h' = h"
proof -
  have inv: "inv (step c s)" using assms(1) by (rule inv_step)
  have "fact (k, h) (fold step cs (step c s))"
    using inv grant_holds [OF assms(1,2)] by (rule fact_run)
  with inv_run [OF inv] show ?thesis using assms(3) by (rule grant_respects)
qed

end

section \<open>Argument checks\<close>

text \<open>\<open>if not c: raise ValueError(m)\<close>, and a sequence of such checks: the first that fails raises.\<close>

definition require :: "bool \<Rightarrow> string \<Rightarrow> exn + unit" where
  "require c m = (if c then Inr () else Inl (ValueError m))"

fun checks :: "(exn + unit) list \<Rightarrow> exn + unit" where
  "checks [] = Inr ()"
| "checks (c # cs) = and_then c (\<lambda>_. checks cs)"

lemma require_Inr [simp]: "require c m = Inr u \<longleftrightarrow> c"
  by (simp add: require_def)

lemma checks_Inr [simp]: "checks (c # cs) = Inr u \<longleftrightarrow> c = Inr () \<and> checks cs = Inr ()"
  by simp

end
