(* ===== verification/Values.thy ===== *)
theory Values
  imports Prelude
begin

text \<open>
  The dynamic Python values that travel in messages, the conversions \<open>int(...)\<close>, \<open>str(...)\<close> and
  \<open>bytes(...)\<close> the code applies to them, and \<open>encoding.py\<close>.  \<open>msgpack\<close> and the hash functions
  are parameters, collected in the record \<open>ext\<close> that the operations take as an argument.
  Dictionary keys are text; a float is its exact rational value.
\<close>

section \<open>Values\<close>

datatype pyval =
    PNone
  | PBool bool
  | PInt int
  | PFloat rat
  | PStr string
  | PBytes bytes
  | PList "pyval list"
  | PDict "(string \<times> pyval) list"

type_synonym pydict = "(string \<times> pyval) list"

record ext =
  packb :: "pyval \<Rightarrow> bytes"
  unpackb :: "bytes \<Rightarrow> exn + pyval"
  repr :: "pyval \<Rightarrow> string"
  blake2s :: "nat \<Rightarrow> string \<Rightarrow> bytes \<Rightarrow> bytes"
  sha256 :: "bytes \<Rightarrow> bytes"

text \<open>\<open>d.get(key, default)\<close> and \<open>d[key]\<close>.\<close>

definition dict_get :: "pydict \<Rightarrow> string \<Rightarrow> pyval \<Rightarrow> pyval" where
  "dict_get d k dflt = (case map_of d k of None \<Rightarrow> dflt | Some v \<Rightarrow> v)"

definition dict_item :: "pydict \<Rightarrow> string \<Rightarrow> exn + pyval" where
  "dict_item d k = (case map_of d k of None \<Rightarrow> Inl (KeyError k) | Some v \<Rightarrow> Inr v)"

section \<open>Conversions of the language\<close>

definition digit_value :: "char \<Rightarrow> int" where
  "digit_value c = int (code c) - 48"

fun parse_digits :: "int \<Rightarrow> bool \<Rightarrow> string \<Rightarrow> int option" where
  "parse_digits acc prev [] = (if prev then Some acc else None)"
| "parse_digits acc prev (c # cs) =
     (if is_digit c then parse_digits (acc * 10 + digit_value c) True cs
      else if c = CHR ''_'' \<and> prev then parse_digits acc False cs
      else None)"

definition int_space :: "char \<Rightarrow> bool" where
  "int_space c = (let n = code c in (9 \<le> n \<and> n \<le> 13) \<or> n = 32 \<or> n = 133 \<or> n = 160)"

definition int_of_text :: "string \<Rightarrow> exn + int" where
  "int_of_text s =
     (let t = rev (dropWhile int_space (rev (dropWhile int_space s)));
          r = (case t of
                 [] \<Rightarrow> None
               | c # cs \<Rightarrow>
                   if c = CHR ''-'' then map_option uminus (parse_digits 0 False cs)
                   else if c = CHR ''+'' then parse_digits 0 False cs
                   else parse_digits 0 False t)
      in case r of None \<Rightarrow> Inl (ValueError ''invalid literal for int() with base 10'')
         | Some i \<Rightarrow> Inr i)"

definition text_of_bytes :: "bytes \<Rightarrow> string" where
  "text_of_bytes bs = map (\<lambda>b. char_of (unat b)) bs"

definition bytes_of_text :: "string \<Rightarrow> bytes" where
  "bytes_of_text s = map (\<lambda>c. of_nat (code c)) s"

fun py_int :: "pyval \<Rightarrow> exn + int" where
  "py_int (PInt i) = Inr i"
| "py_int (PBool b) = Inr (if b then 1 else 0)"
| "py_int (PFloat q) = Inr (if 0 \<le> q then \<lfloor>q\<rfloor> else \<lceil>q\<rceil>)"
| "py_int (PStr s) = int_of_text s"
| "py_int (PBytes bs) = int_of_text (text_of_bytes bs)"
| "py_int _ = Inl (TypeError ''int() argument must be a string or a number'')"

fun text_of_nat :: "nat \<Rightarrow> string" where
  "text_of_nat n =
     (if n < 10 then [char_of (48 + n)] else text_of_nat (n div 10) @ [char_of (48 + n mod 10)])"

declare text_of_nat.simps [simp del]

definition text_of_int :: "int \<Rightarrow> string" where
  "text_of_int i = (if i < 0 then CHR ''-'' # text_of_nat (nat (- i)) else text_of_nat (nat i))"

definition py_str :: "ext \<Rightarrow> pyval \<Rightarrow> string" where
  "py_str E v =
     (case v of
        PStr s \<Rightarrow> s
      | PNone \<Rightarrow> ''None''
      | PBool b \<Rightarrow> (if b then ''True'' else ''False'')
      | PInt i \<Rightarrow> text_of_int i
      | _ \<Rightarrow> repr E v)"

definition byte_of_item :: "pyval \<Rightarrow> exn + byte" where
  "byte_of_item v =
     (case v of
        PInt i \<Rightarrow> (if 0 \<le> i \<and> i < 256 then Inr (of_int i)
                  else Inl (ValueError ''bytes must be in range(0, 256)''))
      | PBool b \<Rightarrow> Inr (if b then 1 else 0)
      | _ \<Rightarrow> Inl (TypeError ''object cannot be interpreted as an integer''))"

fun py_bytes :: "pyval \<Rightarrow> exn + bytes" where
  "py_bytes (PBytes bs) = Inr bs"
| "py_bytes (PInt n) =
     (if n < 0 then Inl (ValueError ''negative count'') else Inr (replicate (nat n) 0))"
| "py_bytes (PBool b) = Inr (if b then [0] else [])"
| "py_bytes (PList vs) = map_result byte_of_item vs"
| "py_bytes (PDict kvs) =
     (if kvs = [] then Inr [] else Inl (TypeError ''object cannot be interpreted as an integer''))"
| "py_bytes _ = Inl (TypeError ''cannot convert object to bytes'')"

text \<open>\<open>list(v)\<close>, and what a \<open>for\<close> loop over \<open>v\<close> visits.\<close>

fun py_list :: "pyval \<Rightarrow> exn + pyval list" where
  "py_list (PList vs) = Inr vs"
| "py_list (PStr s) = Inr (map (\<lambda>c. PStr [c]) s)"
| "py_list (PBytes bs) = Inr (map (\<lambda>b. PInt (uint b)) bs)"
| "py_list (PDict kvs) = Inr (map (\<lambda>kv. PStr (fst kv)) kvs)"
| "py_list _ = Inl (TypeError ''object is not iterable'')"

section \<open>Hexadecimal text\<close>

definition hex_digit :: "nat \<Rightarrow> char" where
  "hex_digit n = (if n < 10 then char_of (48 + n) else char_of (87 + n))"

definition hex_of_bytes :: "bytes \<Rightarrow> string" where
  "hex_of_bytes bs = concat (map (\<lambda>b. [hex_digit (unat b div 16), hex_digit (unat b mod 16)]) bs)"

definition hex_value :: "char \<Rightarrow> nat option" where
  "hex_value c = (let n = code c in
     if 48 \<le> n \<and> n \<le> 57 then Some (n - 48)
     else if 97 \<le> n \<and> n \<le> 102 then Some (n - 87)
     else if 65 \<le> n \<and> n \<le> 70 then Some (n - 55)
     else None)"

definition ascii_space :: "char \<Rightarrow> bool" where
  "ascii_space c = (let n = code c in (9 \<le> n \<and> n \<le> 13) \<or> n = 32)"

text \<open>\<open>bytes.fromhex\<close>: ASCII whitespace between the pairs is skipped.\<close>

fun fromhex :: "string \<Rightarrow> bytes option" where
  "fromhex [] = Some []"
| "fromhex (c # cs) =
     (if ascii_space c then fromhex cs
      else case cs of [] \<Rightarrow> None
        | d # ds \<Rightarrow>
           (case (hex_value c, hex_value d) of
              (Some h, Some l) \<Rightarrow>
                map_option (\<lambda>bs. of_nat (16 * h + l) # bs) (fromhex ds)
            | _ \<Rightarrow> None))"

section \<open>encoding.py\<close>

definition MAX_WIRE_BYTES :: nat where
  "MAX_WIRE_BYTES = 16 * 1024 * 1024"

primrec canonical :: "pyval \<Rightarrow> pyval" where
  "canonical PNone = PNone"
| "canonical (PBool b) = PBool b"
| "canonical (PInt i) = PInt i"
| "canonical (PFloat q) = PFloat q"
| "canonical (PStr s) = PStr s"
| "canonical (PBytes bs) = PBytes bs"
| "canonical (PList vs) = PList (map canonical vs)"
| "canonical (PDict kvs) = PDict (sort_key fst (map (map_prod id canonical) kvs))"

definition pack :: "ext \<Rightarrow> pyval \<Rightarrow> bytes" where
  "pack E v = packb E v"

definition canonical_pack :: "ext \<Rightarrow> pyval \<Rightarrow> bytes" where
  "canonical_pack E v = packb E (canonical v)"

definition unpack :: "ext \<Rightarrow> bytes \<Rightarrow> exn + pyval" where
  "unpack E raw =
     (if MAX_WIRE_BYTES < length raw then Inl (ValueError ''wire object exceeds size limit'')
      else unpackb E raw)"

section \<open>Lemmas\<close>

lemma code_less: "code c < 256"
  by (simp add: code_def)

lemma char_of_code [simp]: "char_of (code c) = c"
  by (simp add: code_def)

lemma code_char_of: "n < 256 \<Longrightarrow> code (char_of n) = n"
  by (simp add: code_def)

lemma hex_value_digit: "n < 16 \<Longrightarrow> hex_value (hex_digit n) = Some n"
  by (auto simp: hex_value_def hex_digit_def code_char_of)

lemma hex_digit_not_space: "n < 16 \<Longrightarrow> \<not> ascii_space (hex_digit n)"
  by (auto simp: ascii_space_def hex_digit_def code_char_of)

lemma is_lower_hex_digit: "n < 16 \<Longrightarrow> is_lower_hex (hex_digit n)"
  by (auto simp: is_lower_hex_def is_digit_def hex_digit_def code_char_of)

lemma unat_byte_less: "unat (b :: byte) < 256"
  using unsigned_less [of b] by simp

lemma length_hex_of_bytes [simp]: "length (hex_of_bytes bs) = 2 * length bs"
  by (induction bs) (auto simp: hex_of_bytes_def)

lemma hex_of_bytes_Cons:
  "hex_of_bytes (b # bs) = hex_digit (unat b div 16) # hex_digit (unat b mod 16) # hex_of_bytes bs"
  by (simp add: hex_of_bytes_def)

lemma hex_string_hex_of_bytes: "hex_string (2 * length bs) (hex_of_bytes bs)"
proof (induction bs)
  case Nil
  then show ?case by (simp add: hex_string_def hex_of_bytes_def)
next
  case (Cons b bs)
  have "unat b div 16 < 16" using unat_byte_less [of b] by linarith
  with Cons show ?case
    by (auto simp: hex_string_def hex_of_bytes_Cons is_lower_hex_digit)
qed

lemma fromhex_hex_of_bytes: "fromhex (hex_of_bytes bs) = Some bs"
proof (induction bs)
  case Nil
  then show ?case by (simp add: hex_of_bytes_def)
next
  case (Cons b bs)
  have d: "unat b div 16 < 16" using unat_byte_less [of b] by linarith
  have "of_nat (16 * (unat b div 16) + unat b mod 16) = b"
    by (simp only: mult_div_mod_eq) simp
  with d Cons show ?case
    by (simp add: hex_of_bytes_Cons hex_digit_not_space hex_value_digit)
qed

lemma fst_map_prod_id: "map fst (map (map_prod id f) kvs) = map fst kvs"
  by (induction kvs) auto

lemma canonical_idem: "canonical (canonical v) = canonical v"
proof (induction v)
  case (PDict kvs)
  have IH: "canonical (canonical (snd kv)) = canonical (snd kv)" if "kv \<in> set kvs" for kv
    using PDict that by (cases kv) auto
  let ?ms = "sort_key fst (map (map_prod id canonical) kvs)"
  have "map (map_prod id canonical) ?ms = ?ms"
    by (rule map_idI) (auto dest: IH)
  moreover have "sorted (map fst ?ms)" by simp
  ultimately show ?case by (simp add: sort_key_id_if_sorted)
qed (auto simp: comp_def)

end
