(* ===== verification/Packets.thy ===== *)
theory Packets
  imports Values
begin

text \<open>
  \<open>packet.py\<close>, with \<open>derive_node_id\<close> of \<open>identity.py\<close>: the outer packet map and its
  validation, sealing and opening.  X25519, HKDF, ChaCha20-Poly1305 and Ed25519 are fields of
  the record \<open>crypto\<close>, an argument of the operations; random bytes and clock readings are
  arguments too.
\<close>

unbundle bit_operations_syntax

section \<open>Parameters: the cryptographic library\<close>

record crypto = ext +
  x_public :: "bytes \<Rightarrow> bytes"
  x_exchange :: "bytes \<Rightarrow> bytes \<Rightarrow> exn + bytes"
  hkdf :: "bytes \<Rightarrow> bytes \<Rightarrow> bytes \<Rightarrow> bytes"
  aead_encrypt :: "bytes \<Rightarrow> bytes \<Rightarrow> bytes \<Rightarrow> bytes \<Rightarrow> bytes"
  aead_decrypt :: "bytes \<Rightarrow> bytes \<Rightarrow> bytes \<Rightarrow> bytes \<Rightarrow> exn + bytes"
  ed_public :: "bytes \<Rightarrow> bytes"
  ed_sign :: "bytes \<Rightarrow> bytes \<Rightarrow> bytes"
  ed_verify :: "bytes \<Rightarrow> bytes \<Rightarrow> bytes \<Rightarrow> exn + unit"

section \<open>Data\<close>

datatype qos = QControl | QInteractive | QNormal | QBulk

definition qos_name :: "qos \<Rightarrow> string" where
  "qos_name q = (case q of QControl \<Rightarrow> ''control'' | QInteractive \<Rightarrow> ''interactive''
     | QNormal \<Rightarrow> ''normal'' | QBulk \<Rightarrow> ''bulk'')"

definition qos_of_name :: "string \<Rightarrow> qos option" where
  "qos_of_name s = (if s = ''control'' then Some QControl
     else if s = ''interactive'' then Some QInteractive
     else if s = ''normal'' then Some QNormal
     else if s = ''bulk'' then Some QBulk else None)"

datatype key_mode = Static | Opk

definition key_mode_name :: "key_mode \<Rightarrow> string" where
  "key_mode_name m = (case m of Static \<Rightarrow> ''static'' | Opk \<Rightarrow> ''opk'')"

definition key_mode_of_name :: "string \<Rightarrow> key_mode option" where
  "key_mode_of_name s =
     (if s = ''static'' then Some Static else if s = ''opk'' then Some Opk else None)"

record packet_info =
  packet_id :: string
  destination_id :: string
  created_ms :: time_ms
  expires_ms :: time_ms
  max_hops :: int
  info_qos :: qos
  raw :: bytes
  info_key_mode :: key_mode
  info_prekey_id :: string
  version :: int

record opened_message =
  om_packet_id :: string
  om_sender_id :: string
  om_sign_public :: bytes
  om_box_public :: bytes
  om_kind :: string
  om_created_ms :: time_ms
  om_body :: pyval
  om_causal :: "string list"
  om_codec :: string
  om_reply_to :: string
  om_qos :: qos
  om_key_mode :: key_mode
  om_prekey_id :: string

record identity =
  label :: string
  sign_private :: bytes
  box_private :: bytes

definition PACKET_VERSION :: int where "PACKET_VERSION = 3"
definition INNER_VERSION :: int where "INNER_VERSION = 1"
definition MAX_PLAINTEXT_BYTES :: nat where "MAX_PLAINTEXT_BYTES = 8 * 1024 * 1024"
definition MAX_TTL_SECONDS :: int where "MAX_TTL_SECONDS = 30 * 86400"
definition MAX_CLOCK_SKEW_MS :: int where "MAX_CLOCK_SKEW_MS = 15 * 60 * 1000"

text \<open>\<open>re.match(r"^[a-z][a-z0-9_.-]{0,63}$", s)\<close>: \<open>$\<close> also matches before a final newline.\<close>

definition kind_char :: "char \<Rightarrow> bool" where
  "kind_char c = (is_lower c \<or> is_digit c \<or> c = CHR ''_'' \<or> c = CHR ''.'' \<or> c = CHR ''-'')"

definition kind_match :: "string \<Rightarrow> bool" where
  "kind_match s = (token_match is_lower kind_char 63 s \<or>
     (s \<noteq> [] \<and> last s = char_of (10 :: nat) \<and> token_match is_lower kind_char 63 (butlast s)))"

section \<open>Identities\<close>

definition b32_char :: "nat \<Rightarrow> char" where
  "b32_char n = (if n < 26 then char_of (97 + n) else char_of (24 + n))"

text \<open>Lower-case base 32 without padding, on the groups of five bytes the node ids are made of.\<close>

fun b32_groups :: "bytes \<Rightarrow> string" where
  "b32_groups (a # b # c # d # e # rest) =
     (let n = (((unat a * 256 + unat b) * 256 + unat c) * 256 + unat d) * 256 + unat e
      in map (\<lambda>i. b32_char ((n div 32 ^ i) mod 32)) [7, 6, 5, 4, 3, 2, 1, 0] @ b32_groups rest)"
| "b32_groups _ = []"

definition derive_node_id :: "'a ext_scheme \<Rightarrow> bytes \<Rightarrow> bytes \<Rightarrow> string" where
  "derive_node_id E sign_public box_public =
     ''an1'' @ b32_groups (blake2s E 20 ''ainet-id'' (sign_public @ box_public))"

definition sign_public :: "'a crypto_scheme \<Rightarrow> identity \<Rightarrow> bytes" where
  "sign_public E i = ed_public E (sign_private i)"

definition box_public :: "'a crypto_scheme \<Rightarrow> identity \<Rightarrow> bytes" where
  "box_public E i = x_public E (box_private i)"

definition node_id :: "'a crypto_scheme \<Rightarrow> identity \<Rightarrow> string" where
  "node_id E i = derive_node_id E (sign_public E i) (box_public E i)"

section \<open>Fields and validation of the outer map\<close>

definition ext_of :: "'a ext_scheme \<Rightarrow> ext" where
  "ext_of E = ext.truncate E"

definition derived_prekey_id :: "'a ext_scheme \<Rightarrow> bytes \<Rightarrow> string" where
  "derived_prekey_id E public_key = hex_of_bytes (blake2s E 16 ''anet-opk'' public_key)"

definition aad_fields :: "ext \<Rightarrow> pydict \<Rightarrow> exn + pyval list" where
  "aad_fields E value =
     and_then (and_then (dict_item value ''v'') py_int) (\<lambda>v.
     and_then (dict_item value ''id'') (\<lambda>i.
     and_then (dict_item value ''dst'') (\<lambda>dst.
     and_then (and_then (dict_item value ''ts'') py_int) (\<lambda>ts.
     and_then (and_then (dict_item value ''exp'') py_int) (\<lambda>ex.
     and_then (and_then (dict_item value ''hops'') py_int) (\<lambda>hops.
     and_then (and_then (dict_item value ''epk'') py_bytes) (\<lambda>epk.
     and_then (and_then (dict_item value ''nonce'') py_bytes) (\<lambda>nonce.
     and_then (if 2 \<le> v then and_then (dict_item value ''qos'') (\<lambda>q. Inr [PStr (py_str E q)])
               else Inr []) (\<lambda>q.
     and_then (if 3 \<le> v
               then and_then (dict_item value ''km'') (\<lambda>km.
                    and_then (dict_item value ''kid'') (\<lambda>kid.
                      Inr [PStr (py_str E km), PStr (py_str E kid)]))
               else Inr []) (\<lambda>k.
       Inr ([PInt v, PStr (py_str E i), PStr (py_str E dst), PInt ts, PInt ex, PInt hops,
             PBytes epk, PBytes nonce] @ q @ k)))))))))))"

definition validate_outer :: "ext \<Rightarrow> time_ms \<Rightarrow> pydict \<Rightarrow> bytes \<Rightarrow> exn + packet_info" where
  "validate_outer E current value raw_bytes =
     and_then (py_int (dict_get value ''v'' (PInt 0))) (\<lambda>ver.
     if ver \<notin> {1, 2, 3} then Inl (ValueError ''unsupported packet version'') else
     let pid = py_str E (dict_get value ''id'' (PStr ''''))
     in if length pid \<noteq> 32 then Inl (ValueError ''invalid packet id'')
     else if fromhex pid = None then Inl (ValueError ''invalid packet id'') else
     let dst = py_str E (dict_get value ''dst'' (PStr ''''))
     in if \<not> starts_with dst ''an1'' \<or> length dst < 20
        then Inl (ValueError ''invalid packet destination'') else
     and_then (py_int (dict_get value ''ts'' (PInt 0))) (\<lambda>created.
     and_then (py_int (dict_get value ''exp'' (PInt 0))) (\<lambda>expires.
     and_then (py_int (dict_get value ''hops'' (PInt 0))) (\<lambda>hops.
     if created \<le> 0 \<or> expires \<le> created then Inl (ValueError ''invalid packet lifetime'')
     else if created > current + MAX_CLOCK_SKEW_MS
       then Inl (ValueError ''packet creation time is too far in the future'')
     else if expires > current + MAX_TTL_SECONDS * 1000 + MAX_CLOCK_SKEW_MS
       then Inl (ValueError ''packet expiry is too far in the future'')
     else if expires - created > MAX_TTL_SECONDS * 1000
       then Inl (ValueError ''packet lifetime exceeds protocol limit'')
     else if \<not> (1 \<le> hops \<and> hops \<le> 32) then Inl (ValueError ''invalid hop limit'') else
     and_then (py_bytes (dict_get value ''epk'' (PBytes []))) (\<lambda>epk.
     if length epk \<noteq> 32 then Inl (ValueError ''invalid ephemeral key'') else
     and_then (py_bytes (dict_get value ''nonce'' (PBytes []))) (\<lambda>nonce.
     if length nonce \<noteq> 12 then Inl (ValueError ''invalid packet nonce'') else
     let q = (if ver = 1 then ''normal'' else py_str E (dict_get value ''qos'' (PStr '''')))
     in case qos_of_name q of None \<Rightarrow> Inl (ValueError ''invalid packet QoS class'') | Some qos \<Rightarrow>
     let km = (if ver \<le> 2 then ''static'' else py_str E (dict_get value ''km'' (PStr '''')));
         kid = (if ver \<le> 2 then '''' else py_str E (dict_get value ''kid'' (PStr '''')))
     in case key_mode_of_name km of None \<Rightarrow> Inl (ValueError ''invalid packet key mode'') | Some mode \<Rightarrow>
     if mode = Static \<and> kid \<noteq> '''' then Inl (ValueError ''static packet cannot name a prekey'')
     else if mode = Opk \<and> \<not> hex_string 32 kid
       then Inl (ValueError ''invalid packet prekey ID'') else
     and_then (py_bytes (dict_get value ''ct'' (PBytes []))) (\<lambda>ct.
     if length ct < 32 \<or> length ct > MAX_PLAINTEXT_BYTES + 16
       then Inl (ValueError ''invalid ciphertext size'')
     else Inr \<lparr>packet_id = pid, destination_id = dst, created_ms = created, expires_ms = expires,
            max_hops = hops, info_qos = qos, raw = raw_bytes, info_key_mode = mode,
            info_prekey_id = kid, version = ver\<rparr>)))))))"

text \<open>
  \<open>inspect_packet\<close> reads the clock twice: once in the validation of the map (\<open>now\<close>) and once
  for the expiry test (\<open>later\<close>).
\<close>

definition inspect_packet ::
    "ext \<Rightarrow> time_ms \<Rightarrow> time_ms \<Rightarrow> bool \<Rightarrow> bytes \<Rightarrow> exn + packet_info" where
  "inspect_packet E now later allow_expired raw_bytes =
     (if MAX_WIRE_BYTES < length raw_bytes
      then Inl (ValueError ''packet exceeds wire size limit'')
      else and_then (unpack E raw_bytes) (\<lambda>value.
        case value of
          PDict d \<Rightarrow>
            and_then (validate_outer E now d raw_bytes) (\<lambda>info.
            if \<not> allow_expired \<and> expires_ms info \<le> later
            then Inl (ValueError ''packet expired'') else Inr info)
        | _ \<Rightarrow> Inl (ValueError ''packet must be a map'')))"

section \<open>Padding and framing\<close>

fun bit_length :: "nat \<Rightarrow> nat" where
  "bit_length n = (if n = 0 then 0 else Suc (bit_length (n div 2)))"

declare bit_length.simps [simp del]

definition padding_bucket :: "int \<Rightarrow> nat \<Rightarrow> nat" where
  "padding_bucket padding_min needed =
     (let b0 = nat (max 256 padding_min);
          b1 = (if b0 AND (b0 - 1) \<noteq> 0 then 2 ^ bit_length (b0 - 1) else b0)
      in if needed > b1 then 2 ^ bit_length (needed - 1) else b1)"

definition to_bytes4 :: "nat \<Rightarrow> bytes" where
  "to_bytes4 n = [of_nat (n div 2 ^ 24), of_nat (n div 2 ^ 16), of_nat (n div 2 ^ 8), of_nat n]"

definition from_bytes_big :: "bytes \<Rightarrow> nat" where
  "from_bytes_big bs = foldl (\<lambda>a b. a * 256 + unat b) 0 bs"

section \<open>Sealing and opening\<close>

definition packet_key ::
    "'a crypto_scheme \<Rightarrow> bytes \<Rightarrow> int \<Rightarrow> string \<Rightarrow> bytes \<Rightarrow> bytes \<Rightarrow> key_mode \<Rightarrow> string \<Rightarrow> exn + bytes" where
  "packet_key E shared ver pid recipient_box ephemeral_public mode kid =
     (let info = (if ver \<le> 2
                  then bytes_of_text (''ainet/sealed-packet/v1'' @ [char_of (0 :: nat)])
                       @ recipient_box @ ephemeral_public
                  else canonical_pack (ext_of E)
                         (PList [PStr ''ainet/sealed-packet/v3'', PBytes recipient_box,
                            PBytes ephemeral_public, PStr (key_mode_name mode), PStr kid]))
      in case fromhex pid of
           None \<Rightarrow> Inl (ValueError ''non-hexadecimal number found in fromhex() arg'')
         | Some salt \<Rightarrow> Inr (hkdf E salt info shared))"

definition inner_fields :: "ext \<Rightarrow> pydict \<Rightarrow> exn + pyval list" where
  "inner_fields E value =
     and_then (and_then (dict_item value ''v'') py_int) (\<lambda>v.
     and_then (dict_item value ''sid'') (\<lambda>sid.
     and_then (and_then (dict_item value ''spk'') py_bytes) (\<lambda>spk.
     and_then (and_then (dict_item value ''bpk'') py_bytes) (\<lambda>bpk.
     and_then (dict_item value ''kind'') (\<lambda>kind.
     and_then (and_then (dict_item value ''ts'') py_int) (\<lambda>ts.
     and_then (py_list (dict_get value ''causal'' (PList []))) (\<lambda>cs.
         Inr [PInt v, PStr (py_str E sid), PBytes spk, PBytes bpk, PStr (py_str E kind), PInt ts,
              dict_get value ''body'' PNone, PList cs,
              PStr (py_str E (dict_get value ''codec'' (PStr ''msgpack''))),
              PStr (py_str E (dict_get value ''reply'' (PStr '''')))])))))))"

record seal_args =
  sa_kind :: string
  sa_body :: pyval
  sa_ttl_seconds :: int
  sa_max_hops :: int
  sa_causal :: "string list"
  sa_codec :: string
  sa_reply_to :: string
  sa_padding_min :: int
  sa_qos :: string
  sa_prekey_public :: "bytes option"
  sa_prekey_id :: string
  sa_version :: "int option"

record seal_random =
  sr_packet_id :: bytes
  sr_padding :: "nat \<Rightarrow> bytes"
  sr_ephemeral :: bytes
  sr_nonce :: bytes

definition seal_ttl :: "seal_args \<Rightarrow> int" where
  "seal_ttl a = max 30 (min (sa_ttl_seconds a) MAX_TTL_SECONDS)"

definition seal_hops :: "seal_args \<Rightarrow> int" where
  "seal_hops a = max 1 (min (sa_max_hops a) 32)"

definition seal_version :: "seal_args \<Rightarrow> int" where
  "seal_version a = (case sa_version a of None \<Rightarrow> PACKET_VERSION | Some v \<Rightarrow> v)"

text \<open>The key choice of \<open>seal_packet\<close>: key mode, recipient public key and prekey id.\<close>

definition seal_key_choice ::
    "'a crypto_scheme \<Rightarrow> bytes \<Rightarrow> seal_args \<Rightarrow> exn + key_mode \<times> bytes \<times> string" where
  "seal_key_choice E recipient_box a =
     (case sa_prekey_public a of
        None \<Rightarrow>
          if sa_prekey_id a \<noteq> '''' then Inl (ValueError ''prekey ID requires a prekey public key'')
          else Inr (Static, recipient_box, '''')
      | Some pub \<Rightarrow>
          if seal_version a < 3
            then Inl (ValueError ''one-time prekeys require packet version 3'')
          else if length pub \<noteq> 32 then Inl (ValueError ''prekey public key must be 32 bytes'')
          else let kid = lower (strip (sa_prekey_id a))
               in if kid \<noteq> derived_prekey_id E pub
                  then Inl (ValueError ''prekey ID does not match public key'')
                  else Inr (Opk, pub, kid))"

definition inner_unsigned ::
    "'a crypto_scheme \<Rightarrow> identity \<Rightarrow> time_ms \<Rightarrow> string \<Rightarrow> seal_args \<Rightarrow> pydict" where
  "inner_unsigned E sender now kind a =
     [(''v'', PInt INNER_VERSION), (''sid'', PStr (node_id E sender)),
      (''spk'', PBytes (sign_public E sender)), (''bpk'', PBytes (box_public E sender)),
      (''kind'', PStr kind), (''ts'', PInt now), (''body'', sa_body a),
      (''causal'', PList (map PStr (sa_causal a))),
      (''codec'', PStr (if sa_codec a = '''' then ''msgpack'' else sa_codec a)),
      (''reply'', PStr (sa_reply_to a))]"

definition signed_inner ::
    "'a crypto_scheme \<Rightarrow> identity \<Rightarrow> time_ms \<Rightarrow> string \<Rightarrow> seal_args \<Rightarrow> exn + pydict" where
  "signed_inner E sender now kind a =
     (let inner = inner_unsigned E sender now kind a
      in and_then (inner_fields (ext_of E) inner) (\<lambda>fs.
         Inr (inner @ [(''sig'', PBytes (ed_sign E (sign_private sender)
                                 (canonical_pack (ext_of E) (PList fs))))])))"

definition outer_header ::
    "seal_args \<Rightarrow> string \<Rightarrow> string \<Rightarrow> time_ms \<Rightarrow> bytes \<Rightarrow> bytes \<Rightarrow> qos \<Rightarrow> key_mode \<Rightarrow> string \<Rightarrow> pydict" where
  "outer_header a pid dst now epk nonce q mode kid =
     [(''v'', PInt (seal_version a)), (''id'', PStr pid), (''dst'', PStr dst), (''ts'', PInt now),
      (''exp'', PInt (now + seal_ttl a * 1000)), (''hops'', PInt (seal_hops a)),
      (''epk'', PBytes epk), (''nonce'', PBytes nonce), (''qos'', PStr (qos_name q))]
     @ (if 3 \<le> seal_version a
        then [(''km'', PStr (key_mode_name mode)), (''kid'', PStr kid)] else [])"

text \<open>The outer map, ciphertext included, that \<open>seal_packet\<close> encodes.\<close>

definition seal_outer ::
    "'a crypto_scheme \<Rightarrow> time_ms \<Rightarrow> seal_random \<Rightarrow> identity \<Rightarrow>
     string \<Rightarrow> bytes \<Rightarrow> seal_args \<Rightarrow> exn + pydict" where
  "seal_outer E now rnd sender recipient_id recipient_box a =
     (let kind = lower (strip (sa_kind a))
      in if \<not> kind_match kind then Inl (ValueError ''invalid message kind'') else
      case qos_of_name (lower (strip (sa_qos a))) of
        None \<Rightarrow> Inl (ValueError ''invalid packet QoS class'')
      | Some q \<Rightarrow>
      if seal_version a \<notin> {1, 2, 3} then Inl (ValueError ''unsupported packet version'') else
      and_then (seal_key_choice E recipient_box a) (\<lambda>(mode, key_public, kid).
      let pid = hex_of_bytes (sr_packet_id rnd)
      in and_then (signed_inner E sender now kind a) (\<lambda>inner.
      let encoded = pack (ext_of E) (PDict inner);
          needed = 4 + length encoded;
          bucket = padding_bucket (sa_padding_min a) needed
      in if bucket > MAX_PLAINTEXT_BYTES then Inl (ValueError ''message is too large'') else
      let plaintext = to_bytes4 (length encoded) @ encoded @ sr_padding rnd (bucket - needed);
          epk = x_public E (sr_ephemeral rnd)
      in and_then (x_exchange E (sr_ephemeral rnd) key_public) (\<lambda>shared.
      let outer = outer_header a pid recipient_id now epk (sr_nonce rnd) q mode kid
      in and_then (packet_key E shared (seal_version a) pid key_public epk mode kid) (\<lambda>key.
      and_then (aad_fields (ext_of E) outer) (\<lambda>aad.
      Inr (outer @
             [(''ct'', PBytes (aead_encrypt E key (sr_nonce rnd) plaintext
                        (canonical_pack (ext_of E) (PList aad))))])))))))"

text \<open>Clock readings of \<open>seal_packet\<close>: the creation time \<open>now\<close>, and the two of the final inspection.\<close>

definition seal_packet ::
    "'a crypto_scheme \<Rightarrow> time_ms \<Rightarrow> time_ms \<Rightarrow> time_ms \<Rightarrow> seal_random \<Rightarrow> identity \<Rightarrow>
     string \<Rightarrow> bytes \<Rightarrow> seal_args \<Rightarrow> exn + bytes" where
  "seal_packet E now now1 now2 rnd sender recipient_id recipient_box a =
     and_then (seal_outer E now rnd sender recipient_id recipient_box a) (\<lambda>outer.
     let raw_bytes = pack (ext_of E) (PDict outer)
     in and_then (inspect_packet (ext_of E) now1 now2 False raw_bytes) (\<lambda>_. Inr raw_bytes))"

definition open_recipient_key ::
    "'a crypto_scheme \<Rightarrow> identity \<Rightarrow> packet_info \<Rightarrow> bytes option \<Rightarrow> exn + bytes \<times> bytes" where
  "open_recipient_key E me info prekey_private =
     (if info_key_mode info = Opk then
        (case prekey_private of
           None \<Rightarrow> Inl (ValueError ''packet requires a one-time prekey'')
         | Some priv \<Rightarrow>
             if length priv \<noteq> 32 then Inl (ValueError ''prekey private key must be 32 bytes'')
             else if derived_prekey_id E (x_public E priv) \<noteq> info_prekey_id info
               then Inl (ValueError ''packet prekey does not match private key'')
             else Inr (priv, x_public E priv))
      else if prekey_private \<noteq> None
        then Inl (ValueError ''static packet does not use a one-time prekey'')
      else Inr (box_private me, box_public E me))"

definition unframe :: "bytes \<Rightarrow> exn + bytes" where
  "unframe plaintext =
     (if length plaintext < 4 then Inl (ValueError ''decrypted packet is truncated'') else
      let n = from_bytes_big (take 4 plaintext)
      in if n = 0 \<or> length plaintext - 4 < n then Inl (ValueError ''invalid inner packet length'')
         else Inr (take n (drop 4 plaintext)))"

definition causal_texts :: "ext \<Rightarrow> pyval \<Rightarrow> exn + string list" where
  "causal_texts E v = and_then (py_list v) (\<lambda>cs. Inr (map (py_str E) cs))"

definition check_inner ::
    "'a crypto_scheme \<Rightarrow> packet_info \<Rightarrow> pydict \<Rightarrow> exn + opened_message" where
  "check_inner E info inner =
     and_then (py_int (dict_get inner ''v'' (PInt 0))) (\<lambda>ver.
     if ver \<noteq> INNER_VERSION then Inl (ValueError ''unsupported inner packet'') else
     and_then (py_bytes (dict_get inner ''spk'' (PBytes []))) (\<lambda>spk.
     and_then (py_bytes (dict_get inner ''bpk'' (PBytes []))) (\<lambda>bpk.
     let sid = py_str (ext_of E) (dict_get inner ''sid'' (PStr ''''))
     in if length spk \<noteq> 32 \<or> length bpk \<noteq> 32 then Inl (ValueError ''invalid sender keys'')
     else if derive_node_id E spk bpk \<noteq> sid
       then Inl (ValueError ''sender id does not match sender keys'') else
     and_then (py_bytes (dict_get inner ''sig'' (PBytes []))) (\<lambda>sig.
     and_then (inner_fields (ext_of E) inner) (\<lambda>fs.
     and_then (ed_verify E spk sig (canonical_pack (ext_of E) (PList fs))) (\<lambda>_.
     let kind = py_str (ext_of E) (dict_get inner ''kind'' (PStr ''''))
     in if \<not> kind_match kind then Inl (ValueError ''invalid inner message kind'') else
     and_then (causal_texts (ext_of E) (dict_get inner ''causal'' (PList []))) (\<lambda>causal.
     and_then (py_int (dict_get inner ''ts'' (PInt 0))) (\<lambda>ts.
       Inr \<lparr>om_packet_id = packet_id info, om_sender_id = sid, om_sign_public = spk,
            om_box_public = bpk, om_kind = kind, om_created_ms = ts,
            om_body = dict_get inner ''body'' PNone, om_causal = causal,
            om_codec = py_str (ext_of E) (dict_get inner ''codec'' (PStr ''msgpack'')),
            om_reply_to = py_str (ext_of E) (dict_get inner ''reply'' (PStr '''')),
            om_qos = info_qos info, om_key_mode = info_key_mode info,
            om_prekey_id = info_prekey_id info\<rparr>))))))))"

definition open_packet ::
    "'a crypto_scheme \<Rightarrow> time_ms \<Rightarrow> time_ms \<Rightarrow> identity \<Rightarrow> bytes option \<Rightarrow> bytes \<Rightarrow> exn + opened_message" where
  "open_packet E now1 now2 me prekey_private raw_bytes =
     and_then (inspect_packet (ext_of E) now1 now2 False raw_bytes) (\<lambda>info.
     if destination_id info \<noteq> node_id E me
     then Inl (ValueError ''packet is addressed to another node'') else
     and_then (unpack (ext_of E) raw_bytes) (\<lambda>value.
     case value of
       PDict outer \<Rightarrow>
         and_then (and_then (dict_item outer ''epk'') py_bytes) (\<lambda>epk.
         and_then (open_recipient_key E me info prekey_private) (\<lambda>(priv, pub).
         and_then (x_exchange E priv epk) (\<lambda>shared.
         and_then (and_then (dict_item outer ''v'') py_int) (\<lambda>ver.
         and_then (packet_key E shared ver (packet_id info) pub epk
                     (info_key_mode info) (info_prekey_id info)) (\<lambda>key.
         and_then (and_then (dict_item outer ''nonce'') py_bytes) (\<lambda>nonce.
         and_then (and_then (dict_item outer ''ct'') py_bytes) (\<lambda>ct.
         and_then (aad_fields (ext_of E) outer) (\<lambda>aad.
         and_then (aead_decrypt E key nonce ct (canonical_pack (ext_of E) (PList aad))) (\<lambda>plaintext.
         and_then (unframe plaintext) (\<lambda>encoded.
         and_then (unpack (ext_of E) encoded) (\<lambda>inner.
           case inner of
             PDict d \<Rightarrow> check_inner E info d
           | _ \<Rightarrow> Inl (ValueError ''unsupported inner packet''))))))))))))
     | _ \<Rightarrow> Inl (TypeError ''packet is not a map'')))"

section \<open>Padding buckets\<close>

lemma bit_length_bound: "n < 2 ^ bit_length n"
proof (induction n rule: bit_length.induct)
  case (1 n)
  then show ?case
    by (cases "n = 0") (auto simp: bit_length.simps [of n])
qed

lemma bit_length_tight: "0 < n \<Longrightarrow> 2 ^ bit_length n \<le> 2 * n"
proof (induction n rule: bit_length.induct)
  case (1 n)
  show ?case
  proof (cases "n = 1")
    case True
    then show ?thesis by (simp add: bit_length.simps)
  next
    case False
    with 1 have "2 ^ bit_length (n div 2) \<le> 2 * (n div 2)" by simp
    with 1 show ?thesis by (simp add: bit_length.simps [of n])
  qed
qed

lemma and_pred_zero_power: "n AND (n - 1) = 0 \<Longrightarrow> 0 < n \<Longrightarrow> \<exists>k. n = 2 ^ k" for n :: nat
proof (induction n rule: less_induct)
  case (less n)
  show ?case
  proof (cases "even n")
    case True
    with less.prems obtain m where m: "n = 2 * m" "0 < m" by (auto elim: evenE)
    have "(2 * m - 1) div 2 = m - 1" using m(2) by presburger
    then have "n AND (n - 1) = 2 * (m AND (m - 1))"
      using m and_rec [of n "n - 1"] by simp
    with less.prems have "m AND (m - 1) = 0" by simp
    with less.IH [of m] m obtain k where "m = 2 ^ k" by auto
    with m have "n = 2 ^ Suc k" by simp
    then show ?thesis by blast
  next
    case False
    show ?thesis
    proof (cases "n = 1")
      case True
      then have "n = 2 ^ 0" by simp
      then show ?thesis by blast
    next
      case n1: False
      with False obtain m where m: "n = 2 * m + 1" "0 < m"
        by (metis mult_0_right oddE add_0 gr0I)
      have "n AND (n - 1) = 2 * m"
        using m and_rec [of n "n - 1"] by simp
      with less.prems m show ?thesis by simp
    qed
  qed
qed

lemma round_up_power:
  assumes "2 \<le> n"
  shows "n \<le> 2 ^ bit_length (n - 1) \<and> 2 ^ bit_length (n - 1) < 2 * n"
proof -
  have "n - 1 < 2 ^ bit_length (n - 1)" by (rule bit_length_bound)
  moreover have "2 ^ bit_length (n - 1) \<le> 2 * (n - 1)"
    using assms by (intro bit_length_tight) simp
  ultimately show ?thesis using assms by linarith
qed

lemma padding_base:
  fixes pmin :: int
  defines "b0 \<equiv> nat (max 256 pmin)"
  defines "b1 \<equiv> (if b0 AND (b0 - 1) \<noteq> 0 then 2 ^ bit_length (b0 - 1) else b0)"
  shows "(\<exists>k. b1 = 2 ^ k) \<and> b0 \<le> b1 \<and> b1 < 2 * b0"
proof (cases "b0 AND (b0 - 1) \<noteq> 0")
  case True
  moreover have "2 \<le> b0" by (simp add: b0_def)
  ultimately show ?thesis using round_up_power [of b0] by (auto simp: b1_def)
next
  case False
  moreover have "0 < b0" by (simp add: b0_def)
  ultimately show ?thesis using and_pred_zero_power [of b0] by (auto simp: b1_def)
qed

text \<open>
  The padded plaintext of a packet has a size that is a power of two, at least 256 and at
  least the configured minimum, that holds the length prefix and the message, and that is less
  than twice what is needed: the size reveals only the bucket, and padding never doubles a packet.
\<close>

theorem padding_bucket_spec:
  assumes "4 \<le> needed"
  shows "(\<exists>k. padding_bucket pmin needed = 2 ^ k)
    \<and> needed \<le> padding_bucket pmin needed
    \<and> nat (max 256 pmin) \<le> padding_bucket pmin needed
    \<and> padding_bucket pmin needed < 2 * max needed (nat (max 256 pmin))"
proof -
  define b0 where "b0 = nat (max 256 pmin)"
  define b1 where "b1 = (if b0 AND (b0 - 1) \<noteq> 0 then 2 ^ bit_length (b0 - 1) else b0)"
  have pb: "padding_bucket pmin needed = (if needed > b1 then 2 ^ bit_length (needed - 1) else b1)"
    by (simp only: padding_bucket_def Let_def b0_def b1_def)
  have b1: "(\<exists>k. b1 = 2 ^ k) \<and> b0 \<le> b1 \<and> b1 < 2 * b0"
    using padding_base [of pmin] by (simp only: b0_def b1_def)
  have "needed \<le> 2 ^ bit_length (needed - 1)" "2 ^ bit_length (needed - 1) < 2 * needed"
    using assms round_up_power [of needed] by simp_all
  with pb b1 show ?thesis
    unfolding b0_def [symmetric] by (cases "needed > b1") auto
qed

theorem padding_bucket_witness:
  "(4::nat) \<le> 700 \<and> (\<exists>k. padding_bucket 512 700 = 2 ^ k) \<and> 700 \<le> padding_bucket 512 700
   \<and> nat (max 256 512) \<le> padding_bucket 512 700
   \<and> padding_bucket 512 700 < 2 * max 700 (nat (max 256 512))"
  using padding_bucket_spec [of 700 512] by simp

section \<open>Framing\<close>

lemma from_to_bytes4: "n < 2 ^ 32 \<Longrightarrow> from_bytes_big (to_bytes4 n) = n"
proof -
  assume n: "n < 2 ^ 32"
  have u: "unat (of_nat k :: byte) = k mod 256" for k :: nat
    by (simp add: unsigned_of_nat take_bit_eq_mod)
  have a: "n div 2 ^ 24 mod 256 = n div 2 ^ 16 div 256"
    using n by (simp add: div_mult2_eq [symmetric] less_mult_imp_div_less)
  have b: "n div 2 ^ 16 = n div 2 ^ 8 div 256" and c: "n div 2 ^ 8 = n div 256"
    by (simp_all add: div_mult2_eq [symmetric])
  show ?thesis
    by (simp only: from_bytes_big_def to_bytes4_def u a foldl.simps mult_0 add_0 div_mult_mod_eq b)
      (simp only: c div_mult_mod_eq)
qed

lemma length_to_bytes4 [simp]: "length (to_bytes4 n) = 4"
  by (simp add: to_bytes4_def)

lemma unframe_frame:
  assumes "0 < length enc" and "length enc < 2 ^ 32"
  shows "unframe (to_bytes4 (length enc) @ enc @ pad) = Inr enc"
  using assms by (simp add: unframe_def from_to_bytes4)

section \<open>Validation\<close>

lemma validate_outer_later:
  assumes "validate_outer E c d rw = Inr info" and "c \<le> c'"
  shows "validate_outer E c' d rw = Inr info"
  using assms unfolding validate_outer_def Let_def and_then_eq_Inr guard_eq_Inr case_option_eq_Inr
  apply -
  apply (elim exE conjE)
  apply (intro exI conjI)
            apply assumption+
    apply linarith+
  apply assumption+
  done

lemma validate_outer_bounds:
  assumes "validate_outer E c d rw = Inr info"
  shows "0 < created_ms info \<and> created_ms info < expires_ms info
    \<and> created_ms info \<le> c + MAX_CLOCK_SKEW_MS
    \<and> expires_ms info - created_ms info \<le> MAX_TTL_SECONDS * 1000
    \<and> 1 \<le> max_hops info \<and> max_hops info \<le> 32
    \<and> length (packet_id info) = 32 \<and> raw info = rw
    \<and> starts_with (destination_id info) ''an1''
    \<and> (info_key_mode info = Static \<longrightarrow> info_prekey_id info = [])
    \<and> (info_key_mode info = Opk \<longrightarrow> hex_string 32 (info_prekey_id info) \<and> version info = 3)"
  using assms unfolding validate_outer_def Let_def
  by (simp, elim exE conjE) (auto simp: key_mode_of_name_def split: if_splits)

lemma inspect_packet_Inr:
  "inspect_packet E n1 n2 b rw = Inr info \<longleftrightarrow>
     length rw \<le> MAX_WIRE_BYTES
     \<and> (\<exists>d. unpackb E rw = Inr (PDict d) \<and> validate_outer E n1 d rw = Inr info)
     \<and> (b \<or> n2 < expires_ms info)"
proof -
  have "(case v of PDict d \<Rightarrow> f d | _ \<Rightarrow> Inl e) = Inr x \<longleftrightarrow> (\<exists>d. v = PDict d \<and> f d = Inr x)"
    for v and f :: "pydict \<Rightarrow> exn + packet_info" and e x
    by (cases v) auto
  then show ?thesis
    by (auto simp: inspect_packet_def unpack_def not_less not_le)
qed

section \<open>Sealing, then opening\<close>

text \<open>
  What the code relies on of \<open>msgpack\<close> (an encoded value decodes to itself) and of the
  cryptographic library: both sides of a key exchange agree, decryption inverts encryption under
  the same key, nonce and associated data, a signature verifies, raw public keys are 32 bytes.
\<close>

definition msgpack_ok :: "'a ext_scheme \<Rightarrow> pyval \<Rightarrow> bool" where
  "msgpack_ok E v \<longleftrightarrow> packb E v \<noteq> [] \<and> unpackb E (packb E v) = Inr v"

definition crypto_ok :: "'a crypto_scheme \<Rightarrow> bool" where
  "crypto_ok E \<longleftrightarrow>
     (\<forall>a b. x_exchange E a (x_public E b) = x_exchange E b (x_public E a))
     \<and> (\<forall>k n p ad. aead_decrypt E k n (aead_encrypt E k n p ad) ad = Inr p)
     \<and> (\<forall>k m. ed_verify E (ed_public E k) (ed_sign E k m) m = Inr ())
     \<and> (\<forall>k. length (ed_public E k) = 32 \<and> length (x_public E k) = 32)"

text \<open>The private key the recipient opens with, for the public key the sender sealed to.\<close>

definition sealed_for ::
    "'a crypto_scheme \<Rightarrow> identity \<Rightarrow> bytes option \<Rightarrow> bytes \<Rightarrow> seal_args \<Rightarrow> bool" where
  "sealed_for E me prekey_private recipient_box a =
     (case sa_prekey_public a of
        None \<Rightarrow> recipient_box = box_public E me \<and> prekey_private = None
      | Some pub \<Rightarrow> (\<exists>p. prekey_private = Some p \<and> length p = 32 \<and> pub = x_public E p))"

lemma ext_of_simps [simp]:
  "packb (ext_of E) = packb E" "unpackb (ext_of E) = unpackb E" "repr (ext_of E) = repr E"
  by (simp_all add: ext_of_def ext.defs)

lemma py_str_PStr [simp]: "py_str E (PStr s) = s"
  by (simp add: py_str_def)

lemma qos_of_name_name [simp]: "qos_of_name (qos_name q) = Some q"
  by (cases q) (simp_all add: qos_of_name_def qos_name_def)

lemma key_mode_of_name_name [simp]: "key_mode_of_name (key_mode_name m) = Some m"
  by (cases m) (simp_all add: key_mode_of_name_def key_mode_name_def)

lemma seal_key_choice_Inr:
  assumes "seal_key_choice E rb a = Inr (mode, pub, kid)"
  shows "(mode = Static \<and> sa_prekey_public a = None \<and> pub = rb \<and> kid = [])
    \<or> (mode = Opk \<and> sa_prekey_public a = Some pub \<and> kid = derived_prekey_id E pub
        \<and> 3 \<le> seal_version a)"
  using assms by (auto simp: seal_key_choice_def Let_def split: option.splits)

lemma open_recipient_key_sealed:
  assumes "seal_key_choice E rb a = Inr (mode, pub, kid)"
    and "sealed_for E me pk rb a"
    and "info_key_mode info = mode" and "info_prekey_id info = kid"
  shows "\<exists>priv. open_recipient_key E me info pk = Inr (priv, pub) \<and> pub = x_public E priv"
  using seal_key_choice_Inr [OF assms(1)] assms(2-)
  by (auto simp: sealed_for_def open_recipient_key_def box_public_def)

lemma validate_outer_sealed:
  assumes "validate_outer X c (outer_header a pid dst now epk nonce q mode kid
             @ [(''ct'', PBytes ct)]) rw = Inr info"
    and "mode = Static \<and> kid = [] \<or> 3 \<le> seal_version a"
  shows "info = \<lparr>packet_id = pid, destination_id = dst, created_ms = now,
     expires_ms = now + seal_ttl a * 1000, max_hops = seal_hops a,
     info_qos = (if seal_version a = 1 then QNormal else q), raw = rw,
     info_key_mode = mode, info_prekey_id = kid, version = seal_version a\<rparr>"
  using assms unfolding validate_outer_def Let_def
  by (auto simp: outer_header_def dict_get_def qos_of_name_def [of "''normal''"]
      key_mode_of_name_def [of "''static''"] split: if_splits)

lemma aad_fields_ct:
  "aad_fields X (outer_header a pid dst now epk nonce q mode kid @ [(''ct'', v)])
   = aad_fields X (outer_header a pid dst now epk nonce q mode kid)"
  by (simp add: aad_fields_def outer_header_def dict_item_def)

lemma outer_items:
  "dict_item (outer_header a pid dst now epk nonce q mode kid @ [(''ct'', v)]) ''v'' = Inr (PInt (seal_version a))"
  "dict_item (outer_header a pid dst now epk nonce q mode kid @ [(''ct'', v)]) ''epk'' = Inr (PBytes epk)"
  "dict_item (outer_header a pid dst now epk nonce q mode kid @ [(''ct'', v)]) ''nonce'' = Inr (PBytes nonce)"
  "dict_item (outer_header a pid dst now epk nonce q mode kid @ [(''ct'', v)]) ''ct'' = Inr v"
  by (simp_all add: outer_header_def dict_item_def)

lemma inner_fields_sig:
  "inner_fields X (inner_unsigned E sender now kind a @ [(''sig'', v)])
   = inner_fields X (inner_unsigned E sender now kind a)"
  by (simp add: inner_fields_def inner_unsigned_def dict_item_def dict_get_def)

definition sealed_message ::
    "'a crypto_scheme \<Rightarrow> identity \<Rightarrow> time_ms \<Rightarrow> seal_args \<Rightarrow> packet_info \<Rightarrow> opened_message" where
  "sealed_message E sender now a info =
     \<lparr>om_packet_id = packet_id info, om_sender_id = node_id E sender,
      om_sign_public = sign_public E sender, om_box_public = box_public E sender,
      om_kind = lower (strip (sa_kind a)), om_created_ms = now, om_body = sa_body a,
      om_causal = sa_causal a,
      om_codec = (if sa_codec a = '''' then ''msgpack'' else sa_codec a),
      om_reply_to = sa_reply_to a, om_qos = info_qos info, om_key_mode = info_key_mode info,
      om_prekey_id = info_prekey_id info\<rparr>"

lemma check_inner_signed:
  assumes "signed_inner E sender now kind a = Inr inner" and "crypto_ok E"
    and "kind = lower (strip (sa_kind a))" and "kind_match kind"
  shows "check_inner E info inner = Inr (sealed_message E sender now a info)"
proof -
  from assms(1) obtain fs where fs: "inner_fields (ext_of E) (inner_unsigned E sender now kind a) = Inr fs"
    and inner: "inner = inner_unsigned E sender now kind a
      @ [(''sig'', PBytes (ed_sign E (sign_private sender) (canonical_pack (ext_of E) (PList fs))))]"
    by (auto simp: signed_inner_def Let_def)
  have len: "length (sign_public E sender) = 32" "length (box_public E sender) = 32"
    and ver: "ed_verify E (sign_public E sender)
       (ed_sign E (sign_private sender) m) m = Inr ()" for m
    using assms(2) by (simp_all add: crypto_ok_def sign_public_def box_public_def)
  have gets: "dict_get inner ''v'' (PInt 0) = PInt 1"
    "dict_get inner ''spk'' (PBytes []) = PBytes (sign_public E sender)"
    "dict_get inner ''bpk'' (PBytes []) = PBytes (box_public E sender)"
    "dict_get inner ''sid'' (PStr '''') = PStr (node_id E sender)"
    "dict_get inner ''kind'' (PStr '''') = PStr kind"
    "dict_get inner ''ts'' (PInt 0) = PInt now"
    "dict_get inner ''body'' PNone = sa_body a"
    "dict_get inner ''causal'' (PList []) = PList (map PStr (sa_causal a))"
    "dict_get inner ''codec'' (PStr ''msgpack'') = PStr (if sa_codec a = '''' then ''msgpack'' else sa_codec a)"
    "dict_get inner ''reply'' (PStr '''') = PStr (sa_reply_to a)"
    "dict_get inner ''sig'' (PBytes []) = PBytes (ed_sign E (sign_private sender)
        (canonical_pack (ext_of E) (PList fs)))"
    by (simp_all add: inner inner_unsigned_def dict_get_def INNER_VERSION_def)
  have "inner_fields (ext_of E) inner = Inr fs"
    by (simp add: inner inner_fields_sig fs)
  then show ?thesis
    using assms(4)
    by (simp add: check_inner_def gets len ver assms(3) [symmetric] Let_def INNER_VERSION_def
        node_id_def [symmetric] causal_texts_def comp_def sealed_message_def)
qed

lemma seal_outer_Inr:
  assumes "seal_outer E now rnd sender rid rbox a = Inr outer"
  obtains q mode pub kid inner shared key aad where
    "kind_match (lower (strip (sa_kind a)))"
    "seal_key_choice E rbox a = Inr (mode, pub, kid)"
    "signed_inner E sender now (lower (strip (sa_kind a))) a = Inr inner"
    "length (packb E (PDict inner)) + 4 \<le> MAX_PLAINTEXT_BYTES"
    "x_exchange E (sr_ephemeral rnd) pub = Inr shared"
    "packet_key E shared (seal_version a) (hex_of_bytes (sr_packet_id rnd)) pub
       (x_public E (sr_ephemeral rnd)) mode kid = Inr key"
    "aad_fields (ext_of E) (outer_header a (hex_of_bytes (sr_packet_id rnd)) rid now
       (x_public E (sr_ephemeral rnd)) (sr_nonce rnd) q mode kid) = Inr aad"
    "outer = outer_header a (hex_of_bytes (sr_packet_id rnd)) rid now
       (x_public E (sr_ephemeral rnd)) (sr_nonce rnd) q mode kid
       @ [(''ct'', PBytes (aead_encrypt E key (sr_nonce rnd)
           (to_bytes4 (length (packb E (PDict inner))) @ packb E (PDict inner)
            @ sr_padding rnd (padding_bucket (sa_padding_min a) (4 + length (packb E (PDict inner)))
                - (4 + length (packb E (PDict inner)))))
           (canonical_pack (ext_of E) (PList aad))))]"
proof -
  have "4 + n \<le> padding_bucket p (4 + n)" for n p
    using padding_base [of p] round_up_power [of "4 + n"]
    by (auto simp: padding_bucket_def Let_def)
  then have bound: "padding_bucket p (4 + n) \<le> MAX_PLAINTEXT_BYTES \<Longrightarrow> n + 4 \<le> MAX_PLAINTEXT_BYTES" for n p
    by (metis add.commute le_trans)
  show thesis
    using assms unfolding seal_outer_def Let_def
    by (auto simp: not_less pack_def intro!: that dest: bound)
qed

text \<open>
  C7: a sealed packet opens.  Whenever \<open>seal_packet\<close> returns a packet for a recipient, by its
  static key or by a one-time prekey, the recipient that holds the matching private key opens it
  at any later time before the expiry and obtains the sender's id and keys, kind, body, causal
  list, codec and reply reference that were sealed, with the packet id, QoS class and key mode of
  the outer map.
\<close>

theorem seal_open_roundtrip:
  assumes ok: "crypto_ok E"
    and sealed: "seal_packet E now n1 n2 rnd sender (node_id E me) rbox a = Inr rw"
    and for_me: "sealed_for E me pk rbox a"
    and inner: "signed_inner E sender now (lower (strip (sa_kind a))) a = Inr inner"
      "msgpack_ok E (PDict inner)"
    and outer: "seal_outer E now rnd sender (node_id E me) rbox a = Inr outer"
      "msgpack_ok E (PDict outer)"
    and time: "n1 \<le> t1" "t2 < now + seal_ttl a * 1000"
  shows "\<exists>info. inspect_packet (ext_of E) n1 n2 False rw = Inr info
    \<and> packet_id info = hex_of_bytes (sr_packet_id rnd)
    \<and> open_packet E t1 t2 me pk rw = Inr (sealed_message E sender now a info)"
proof -
  obtain q mode pub kid shared key aad where
    km: "kind_match (lower (strip (sa_kind a)))"
    and choice: "seal_key_choice E rbox a = Inr (mode, pub, kid)"
    and len: "length (packb E (PDict inner)) + 4 \<le> MAX_PLAINTEXT_BYTES"
    and ex: "x_exchange E (sr_ephemeral rnd) pub = Inr shared"
    and key: "packet_key E shared (seal_version a) (hex_of_bytes (sr_packet_id rnd)) pub
       (x_public E (sr_ephemeral rnd)) mode kid = Inr key"
    and aad: "aad_fields (ext_of E) (outer_header a (hex_of_bytes (sr_packet_id rnd)) (node_id E me) now
       (x_public E (sr_ephemeral rnd)) (sr_nonce rnd) q mode kid) = Inr aad"
    and o: "outer = outer_header a (hex_of_bytes (sr_packet_id rnd)) (node_id E me) now
       (x_public E (sr_ephemeral rnd)) (sr_nonce rnd) q mode kid
       @ [(''ct'', PBytes (aead_encrypt E key (sr_nonce rnd)
           (to_bytes4 (length (packb E (PDict inner))) @ packb E (PDict inner)
            @ sr_padding rnd (padding_bucket (sa_padding_min a) (4 + length (packb E (PDict inner)))
                - (4 + length (packb E (PDict inner)))))
           (canonical_pack (ext_of E) (PList aad))))]"
    by (rule seal_outer_Inr [OF outer(1)]) (simp add: inner(1))
  from sealed outer(1) obtain info where rw: "rw = packb E (PDict outer)"
    and info: "inspect_packet (ext_of E) n1 n2 False rw = Inr info"
    by (auto simp: seal_packet_def Let_def pack_def)
  from outer(2) rw have un: "unpackb E rw = Inr (PDict outer)" by (simp add: msgpack_ok_def)
  with info have val: "validate_outer (ext_of E) n1 outer rw = Inr info"
    and wire: "length rw \<le> MAX_WIRE_BYTES"
    by (auto simp: inspect_packet_Inr)
  have info_eq: "packet_id info = hex_of_bytes (sr_packet_id rnd)" "destination_id info = node_id E me"
    "info_key_mode info = mode" "info_prekey_id info = kid" "expires_ms info = now + seal_ttl a * 1000"
    using validate_outer_sealed [OF val [unfolded o]] seal_key_choice_Inr [OF choice] by auto
  have later: "inspect_packet (ext_of E) t1 t2 False rw = Inr info"
    using validate_outer_later [OF val time(1)] un wire time(2) info_eq(5)
    by (auto simp: inspect_packet_Inr)
  obtain priv where priv: "open_recipient_key E me info pk = Inr (priv, pub)" "pub = x_public E priv"
    using open_recipient_key_sealed [OF choice for_me info_eq(3,4)] by blast
  have ex': "x_exchange E priv (x_public E (sr_ephemeral rnd)) = Inr shared"
    using ok ex priv(2) by (simp add: crypto_ok_def)
  have dec: "aead_decrypt E k n (aead_encrypt E k n p ad) ad = Inr p" for k n p ad
    using ok by (simp add: crypto_ok_def)
  have fr: "unframe (to_bytes4 (length (packb E (PDict inner))) @ packb E (PDict inner) @ pad)
      = Inr (packb E (PDict inner))" for pad
    using inner(2) len by (intro unframe_frame) (auto simp: msgpack_ok_def MAX_PLAINTEXT_BYTES_def)
  have ui: "unpack (ext_of E) (packb E (PDict inner)) = Inr (PDict inner)"
    using inner(2) len by (simp add: unpack_def msgpack_ok_def MAX_WIRE_BYTES_def MAX_PLAINTEXT_BYTES_def)
  have uo: "unpack (ext_of E) rw = Inr (PDict outer)"
    using un wire by (simp add: unpack_def)
  have "open_packet E t1 t2 me pk rw = check_inner E info inner"
    by (simp add: open_packet_def later info_eq uo o outer_items aad_fields_ct priv(1) ex' key aad dec fr ui)
  then show ?thesis
    using check_inner_signed [OF inner(1) ok refl km] info info_eq(1) by auto
qed

subsection \<open>A concrete run\<close>

definition demo_id :: string where
  "demo_id = ''an1aaaaaaaaaaaaaaaaaaaaaaaaaaaaaaaa''"

definition demo_inner :: pydict where
  "demo_inner = [(''v'', PInt 1), (''sid'', PStr demo_id), (''spk'', PBytes (replicate 32 0)),
     (''bpk'', PBytes (replicate 32 0)), (''kind'', PStr ''chat''), (''ts'', PInt 1000),
     (''body'', PStr ''hi''), (''causal'', PList []), (''codec'', PStr ''msgpack''),
     (''reply'', PStr ''''), (''sig'', PBytes [])]"

definition demo_outer :: pydict where
  "demo_outer = [(''v'', PInt 3), (''id'', PStr (hex_of_bytes (replicate 16 0))),
     (''dst'', PStr demo_id), (''ts'', PInt 1000), (''exp'', PInt 86401000), (''hops'', PInt 8),
     (''epk'', PBytes (replicate 32 0)), (''nonce'', PBytes (replicate 12 0)),
     (''qos'', PStr ''normal''), (''km'', PStr ''static''), (''kid'', PStr ''''),
     (''ct'', PBytes (to_bytes4 40 @ replicate 40 1 @ replicate 468 0 @ replicate 16 0))]"

definition demo_crypto :: crypto where
  "demo_crypto = \<lparr>
     packb = (\<lambda>v. case v of PDict ((k, PInt i) # d) \<Rightarrow> if i = 1 then replicate 40 1 else replicate 60 2
                  | _ \<Rightarrow> [3]),
     unpackb = (\<lambda>bs. if length bs = 40 then Inr (PDict demo_inner)
                     else if length bs = 60 then Inr (PDict demo_outer)
                     else Inl (ValueError ''unpack'')),
     repr = (\<lambda>v. ''''),
     blake2s = (\<lambda>n p m. replicate n 0),
     sha256 = (\<lambda>m. replicate 32 0),
     x_public = (\<lambda>k. replicate 32 0),
     x_exchange = (\<lambda>a b. Inr []),
     hkdf = (\<lambda>s i m. replicate 32 0),
     aead_encrypt = (\<lambda>k n p ad. p @ replicate 16 0),
     aead_decrypt = (\<lambda>k n c ad. Inr (take (length c - 16) c)),
     ed_public = (\<lambda>k. replicate 32 0),
     ed_sign = (\<lambda>k m. []),
     ed_verify = (\<lambda>k s m. Inr ())\<rparr>"

definition demo_args :: seal_args where
  "demo_args = \<lparr>sa_kind = ''Chat '', sa_body = PStr ''hi'', sa_ttl_seconds = 86400, sa_max_hops = 8,
     sa_causal = [], sa_codec = '''', sa_reply_to = '''', sa_padding_min = 512, sa_qos = ''normal'',
     sa_prekey_public = None, sa_prekey_id = '''', sa_version = None\<rparr>"

definition demo_random :: seal_random where
  "demo_random = \<lparr>sr_packet_id = replicate 16 0, sr_padding = (\<lambda>n. replicate n 0),
     sr_ephemeral = replicate 32 0, sr_nonce = replicate 12 0\<rparr>"

definition demo_node :: identity where
  "demo_node = \<lparr>label = ''a'', sign_private = replicate 32 0, box_private = replicate 32 0\<rparr>"

lemma demo_crypto_ok: "crypto_ok demo_crypto"
  by (simp add: crypto_ok_def demo_crypto_def)

lemma demo_node_id: "node_id demo_crypto demo_node = demo_id"
proof -
  have bs: "replicate 20 (0::byte) = [0,0,0,0,0,0,0,0,0,0,0,0,0,0,0,0,0,0,0,0]"
    by (simp add: numeral_eq_Suc)
  have "b32_char 0 = CHR ''a''" by (simp add: b32_char_def char_of_eq_iff)
  then have "b32_groups (0 # 0 # 0 # 0 # 0 # xs) = ''aaaaaaaa'' @ b32_groups xs" for xs by simp
  then have "''an1'' @ b32_groups (replicate 20 0) = demo_id" by (simp add: bs demo_id_def)
  then show ?thesis by (simp add: node_id_def derive_node_id_def demo_crypto_def)
qed

lemma demo_args_simps:
  "seal_version demo_args = 3" "seal_ttl demo_args = 86400" "seal_hops demo_args = 8"
  by (simp_all add: seal_version_def seal_ttl_def seal_hops_def demo_args_def PACKET_VERSION_def
      MAX_TTL_SECONDS_def)

lemma demo_kind: "lower (strip (sa_kind demo_args)) = ''chat''"
  by code_simp

lemma demo_signed_inner:
  "signed_inner demo_crypto demo_node 1000 ''chat'' demo_args = Inr demo_inner"
  by (simp add: signed_inner_def Let_def inner_fields_def inner_unsigned_def dict_item_def dict_get_def
      demo_node_id INNER_VERSION_def demo_inner_def demo_args_def)
    (simp add: sign_public_def box_public_def demo_crypto_def)

lemma demo_pack:
  "packb demo_crypto (PDict demo_inner) = replicate 40 1"
  "packb demo_crypto (PDict demo_outer) = replicate 60 2"
  by (simp_all add: demo_crypto_def demo_inner_def demo_outer_def)

lemma demo_msgpack: "msgpack_ok demo_crypto (PDict demo_inner)" "msgpack_ok demo_crypto (PDict demo_outer)"
  by (simp_all add: msgpack_ok_def demo_pack) (simp_all add: demo_crypto_def)

lemma demo_bucket: "padding_bucket 512 44 = 512"
  by (simp add: padding_bucket_def)

lemma demo_seal_outer:
  "seal_outer demo_crypto 1000 demo_random demo_node demo_id (replicate 32 0) demo_args = Inr demo_outer"
proof -
  have km: "kind_match ''chat''"
    by (simp add: kind_match_def is_lower_def kind_char_def code_def)
  have q: "qos_of_name (lower (strip (sa_qos demo_args))) = Some QNormal"
    by code_simp
  have c: "seal_key_choice demo_crypto (replicate 32 0) demo_args = Inr (Static, replicate 32 0, '''')"
    by (simp add: seal_key_choice_def demo_args_def)
  have key: "packet_key demo_crypto s v (hex_of_bytes b) p e m k = Inr (replicate 32 0)" for s v b p e m k
    by (simp add: packet_key_def fromhex_hex_of_bytes Let_def) (simp add: demo_crypto_def)
  have pm: "sa_padding_min demo_args = 512" by (simp add: demo_args_def)
  have aad: "\<exists>fs. aad_fields X (outer_header demo_args i d n e x QNormal Static []) = Inr fs" for X i d n e x
    by (simp add: aad_fields_def outer_header_def dict_item_def demo_args_simps)
  have ex: "x_exchange demo_crypto = (\<lambda>a b. Inr [])" "x_public demo_crypto = (\<lambda>k. replicate 32 0)"
    "aead_encrypt demo_crypto = (\<lambda>k n p ad. p @ replicate 16 0)"
    by (simp_all add: demo_crypto_def)
  show ?thesis
    using aad [of "ext_of demo_crypto" "hex_of_bytes (replicate 16 0)" demo_id 1000 "replicate 32 0" "replicate 12 0"]
    by (auto simp: seal_outer_def demo_kind km q demo_args_simps c demo_signed_inner pack_def demo_pack pm
        demo_bucket MAX_PLAINTEXT_BYTES_def ex key demo_random_def Let_def)
      (simp add: outer_header_def demo_args_simps demo_outer_def qos_name_def key_mode_name_def)
qed

lemma demo_inspect:
  "\<exists>info. inspect_packet (ext_of demo_crypto) 1000 1000 False (replicate 60 2) = Inr info"
proof -
  have "unpackb demo_crypto (replicate 60 2) = Inr (PDict demo_outer)" by (simp add: demo_crypto_def)
  moreover have "\<exists>info. validate_outer (ext_of demo_crypto) 1000 demo_outer (replicate 60 2) = Inr info
      \<and> 1000 < expires_ms info"
    by (simp add: validate_outer_def demo_outer_def dict_get_def Let_def fromhex_hex_of_bytes
        MAX_CLOCK_SKEW_MS_def MAX_TTL_SECONDS_def qos_of_name_def key_mode_of_name_def
        MAX_PLAINTEXT_BYTES_def demo_id_def starts_with_def)
  ultimately show ?thesis by (auto simp: inspect_packet_Inr MAX_WIRE_BYTES_def)
qed

lemma demo_seal:
  "seal_packet demo_crypto 1000 1000 1000 demo_random demo_node (node_id demo_crypto demo_node)
     (replicate 32 0) demo_args = Inr (replicate 60 2)"
  using demo_inspect
  by (auto simp: seal_packet_def demo_node_id demo_seal_outer pack_def demo_pack Let_def)

theorem seal_open_roundtrip_witness:
  "\<exists>info. inspect_packet (ext_of demo_crypto) 1000 1000 False (replicate 60 2) = Inr info
    \<and> packet_id info = hex_of_bytes (sr_packet_id demo_random)
    \<and> open_packet demo_crypto 2000 3000 demo_node None (replicate 60 2)
        = Inr (sealed_message demo_crypto demo_node 1000 demo_args info)"
proof (rule seal_open_roundtrip [OF demo_crypto_ok demo_seal])
  show "sealed_for demo_crypto demo_node None (replicate 32 0) demo_args"
    by (simp add: sealed_for_def demo_args_def box_public_def demo_crypto_def)
  show "signed_inner demo_crypto demo_node 1000 (lower (strip (sa_kind demo_args))) demo_args = Inr demo_inner"
    by (simp add: demo_kind demo_signed_inner)
  show "seal_outer demo_crypto 1000 demo_random demo_node (node_id demo_crypto demo_node)
     (replicate 32 0) demo_args = Inr demo_outer"
    by (simp add: demo_node_id demo_seal_outer)
qed (simp_all add: demo_msgpack demo_args_simps)

section \<open>What an accepted packet guarantees\<close>

lemma dict_item_Inr: "dict_item d k = Inr v \<longleftrightarrow> map_of d k = Some v"
  by (auto simp: dict_item_def split: option.splits)

lemma dict_get_Some: "map_of d k = Some v \<Longrightarrow> dict_get d k dflt = v"
  by (auto simp: dict_get_def)

lemma check_inner_Inr:
  assumes "check_inner E info d = Inr m"
  shows "om_packet_id m = packet_id info
    \<and> om_sender_id m = derive_node_id E (om_sign_public m) (om_box_public m)
    \<and> (\<exists>sig cs. om_causal m = map (py_str (ext_of E)) cs
        \<and> ed_verify E (om_sign_public m) sig (canonical_pack (ext_of E) (PList
            [PInt 1, PStr (om_sender_id m), PBytes (om_sign_public m), PBytes (om_box_public m),
             PStr (om_kind m), PInt (om_created_ms m), om_body m, PList cs, PStr (om_codec m),
             PStr (om_reply_to m)])) = Inr ())"
proof -
  from assms obtain ver spk bpk sig fs kind causal ts where
    ver: "py_int (dict_get d ''v'' (PInt 0)) = Inr ver" "ver = INNER_VERSION"
    and keys: "py_bytes (dict_get d ''spk'' (PBytes [])) = Inr spk"
      "py_bytes (dict_get d ''bpk'' (PBytes [])) = Inr bpk"
    and sid: "derive_node_id E spk bpk = py_str (ext_of E) (dict_get d ''sid'' (PStr ''''))"
    and fs: "inner_fields (ext_of E) d = Inr fs"
      "ed_verify E spk sig (canonical_pack (ext_of E) (PList fs)) = Inr ()"
    and kind: "kind = py_str (ext_of E) (dict_get d ''kind'' (PStr ''''))"
    and causal: "causal_texts (ext_of E) (dict_get d ''causal'' (PList [])) = Inr causal"
    and ts: "py_int (dict_get d ''ts'' (PInt 0)) = Inr ts"
    and m: "m = \<lparr>om_packet_id = packet_id info,
            om_sender_id = py_str (ext_of E) (dict_get d ''sid'' (PStr '''')), om_sign_public = spk,
            om_box_public = bpk, om_kind = kind, om_created_ms = ts,
            om_body = dict_get d ''body'' PNone, om_causal = causal,
            om_codec = py_str (ext_of E) (dict_get d ''codec'' (PStr ''msgpack'')),
            om_reply_to = py_str (ext_of E) (dict_get d ''reply'' (PStr '''')),
            om_qos = info_qos info, om_key_mode = info_key_mode info,
            om_prekey_id = info_prekey_id info\<rparr>"
    unfolding check_inner_def Let_def by auto
  from causal obtain cs where cs: "py_list (dict_get d ''causal'' (PList [])) = Inr cs"
    "causal = map (py_str (ext_of E)) cs"
    by (auto simp: causal_texts_def)
  have "fs = [PInt 1, PStr (om_sender_id m), PBytes spk, PBytes bpk, PStr kind, PInt ts, om_body m,
      PList cs, PStr (om_codec m), PStr (om_reply_to m)]"
    using fs(1) ver keys ts cs(1) kind unfolding inner_fields_def
    by (auto simp: m INNER_VERSION_def dict_item_Inr dict_get_Some)
  with fs(2) have "ed_verify E spk sig (canonical_pack (ext_of E) (PList
      [PInt 1, PStr (om_sender_id m), PBytes spk, PBytes bpk, PStr kind, PInt ts, om_body m,
       PList cs, PStr (om_codec m), PStr (om_reply_to m)])) = Inr ()" by simp
  then show ?thesis using sid cs(2) by (auto simp: m)
qed

lemma open_packet_Inr:
  assumes "open_packet E t1 t2 me pk rw = Inr m"
  shows "\<exists>info d. inspect_packet (ext_of E) t1 t2 False rw = Inr info
    \<and> destination_id info = node_id E me \<and> check_inner E info d = Inr m"
proof -
  have dict: "(case v of PDict d \<Rightarrow> f d | _ \<Rightarrow> Inl e) = Inr x \<Longrightarrow> \<exists>d. v = PDict d \<and> f d = Inr x"
    for v and f :: "pydict \<Rightarrow> exn + opened_message" and e x
    by (cases v) auto
  show ?thesis
    using assms unfolding open_packet_def
    by (auto dest!: dict)
qed

text \<open>
  C8: authenticity of opened messages.  A message that \<open>open_packet\<close> returns was addressed to
  this node and carries a sender id that is the digest of the sender keys in the message, and a
  signature under that signing key verified over exactly the sender id, keys, kind, time, body,
  causal list, codec and reply reference that are returned.
\<close>

theorem opened_message_authentic:
  assumes "open_packet E t1 t2 me pk rw = Inr m"
  shows "om_sender_id m = derive_node_id E (om_sign_public m) (om_box_public m)
    \<and> (\<exists>info. inspect_packet (ext_of E) t1 t2 False rw = Inr info
         \<and> destination_id info = node_id E me \<and> om_packet_id m = packet_id info)
    \<and> (\<exists>sig cs. om_causal m = map (py_str (ext_of E)) cs
        \<and> ed_verify E (om_sign_public m) sig (canonical_pack (ext_of E) (PList
            [PInt 1, PStr (om_sender_id m), PBytes (om_sign_public m), PBytes (om_box_public m),
             PStr (om_kind m), PInt (om_created_ms m), om_body m, PList cs, PStr (om_codec m),
             PStr (om_reply_to m)])) = Inr ())"
proof -
  obtain info d where i: "inspect_packet (ext_of E) t1 t2 False rw = Inr info"
      "destination_id info = node_id E me" and c: "check_inner E info d = Inr m"
    using open_packet_Inr [OF assms] by blast
  show ?thesis using check_inner_Inr [OF c] i by blast
qed

lemma demo_open: "\<exists>info. open_packet demo_crypto 2000 3000 demo_node None (replicate 60 2)
    = Inr (sealed_message demo_crypto demo_node 1000 demo_args info)"
proof -
  obtain info where "validate_outer (ext_of demo_crypto) 1000 demo_outer (replicate 60 2) = Inr info"
    using demo_inspect by (auto simp: inspect_packet_Inr) (simp add: demo_crypto_def)
  then have v: "validate_outer (ext_of demo_crypto) 2000 demo_outer (replicate 60 2) = Inr info"
    by (rule validate_outer_later) simp
  have u: "unpackb demo_crypto (replicate 60 2) = Inr (PDict demo_outer)" by (simp add: demo_crypto_def)
  have f: "destination_id info = demo_id" "info_key_mode info = Static" "info_prekey_id info = []"
     "expires_ms info = 86401000" "packet_id info = hex_of_bytes (replicate 16 0)"
    using v by (auto simp: validate_outer_def demo_outer_def dict_get_def Let_def key_mode_of_name_def)
  have i: "inspect_packet (ext_of demo_crypto) 2000 3000 False (replicate 60 2) = Inr info"
    using v u f by (auto simp: inspect_packet_Inr MAX_WIRE_BYTES_def)
  have fr: "unframe (to_bytes4 40 @ replicate 40 1 @ replicate 468 0) = Inr (replicate 40 1)"
    using unframe_frame [of "replicate 40 1" "replicate 468 0"] by simp
  have ui: "unpack (ext_of demo_crypto) (replicate 40 1) = Inr (PDict demo_inner)"
    by (simp add: unpack_def MAX_WIRE_BYTES_def) (simp add: demo_crypto_def)
  have items: "dict_item demo_outer ''v'' = Inr (PInt 3)" "dict_item demo_outer ''epk'' = Inr (PBytes (replicate 32 0))"
    "dict_item demo_outer ''nonce'' = Inr (PBytes (replicate 12 0))"
    "dict_item demo_outer ''ct'' = Inr (PBytes (to_bytes4 40 @ replicate 40 1 @ replicate 468 0 @ replicate 16 0))"
    "\<exists>fs. aad_fields X demo_outer = Inr fs" for X
    by (simp_all add: demo_outer_def dict_item_def aad_fields_def)
  have c: "check_inner demo_crypto info demo_inner = Inr (sealed_message demo_crypto demo_node 1000 demo_args info)"
    using check_inner_signed [OF demo_signed_inner demo_crypto_ok demo_kind [symmetric]]
    by (simp add: kind_match_def is_lower_def kind_char_def code_def)
  have k: "packet_key demo_crypto s v (hex_of_bytes b) p e m kid = Inr (replicate 32 0)" for s v b p e m kid
    by (simp add: packet_key_def fromhex_hex_of_bytes Let_def) (simp add: demo_crypto_def)
  have ex: "x_exchange demo_crypto a b = Inr []" "aead_decrypt demo_crypto ky n ct ad = Inr (take (length ct - 16) ct)"
    for a b ky n ct ad
    by (simp_all add: demo_crypto_def)
  have uo: "unpack (ext_of demo_crypto) (replicate 60 2) = Inr (PDict demo_outer)"
    using u by (simp add: unpack_def MAX_WIRE_BYTES_def)
  show ?thesis
    using items(5) [of "ext_of demo_crypto"]
    by (auto simp: open_packet_def i f demo_node_id uo items open_recipient_key_def ex k fr ui c)
qed

theorem opened_message_authentic_witness:
  "\<exists>m. open_packet demo_crypto 2000 3000 demo_node None (replicate 60 2) = Inr m
     \<and> om_sender_id m = derive_node_id demo_crypto (om_sign_public m) (om_box_public m)"
proof -
  obtain m where m: "open_packet demo_crypto 2000 3000 demo_node None (replicate 60 2) = Inr m"
    using demo_open by blast
  show ?thesis using opened_message_authentic [OF m] m by blast
qed

text \<open>
  C17: bounds of an inspected packet.  A packet that \<open>inspect_packet\<close> accepts was created at a
  positive time not more than the clock skew ahead of the node, lives for at most thirty days, has
  between 1 and 32 hops, a 32-character id and a node id as destination, and is not expired; it
  names a prekey exactly when its key mode is one-time prekey, which only version 3 has.
\<close>

theorem inspect_packet_bounds:
  assumes "inspect_packet E now later False rw = Inr info"
  shows "0 < created_ms info \<and> created_ms info < expires_ms info
    \<and> created_ms info \<le> now + MAX_CLOCK_SKEW_MS
    \<and> expires_ms info - created_ms info \<le> MAX_TTL_SECONDS * 1000
    \<and> later < expires_ms info
    \<and> 1 \<le> max_hops info \<and> max_hops info \<le> 32
    \<and> length (packet_id info) = 32 \<and> raw info = rw
    \<and> starts_with (destination_id info) ''an1''
    \<and> (info_key_mode info = Static \<longrightarrow> info_prekey_id info = [])
    \<and> (info_key_mode info = Opk \<longrightarrow> hex_string 32 (info_prekey_id info) \<and> version info = 3)"
  using assms validate_outer_bounds unfolding inspect_packet_Inr by blast

theorem inspect_packet_bounds_witness:
  "\<exists>info. inspect_packet (ext_of demo_crypto) 1000 1000 False (replicate 60 2) = Inr info
     \<and> 1 \<le> max_hops info \<and> max_hops info \<le> 32"
  using demo_inspect inspect_packet_bounds by blast

end
