(* ===== verification/Store_State.thy ===== *)
theory Store_State
  imports Packets
begin

text \<open>
  The database of \<open>store.py\<close> (class \<open>PacketStore\<close>): a record per table row with the columns of
  \<open>_init_schema\<close>, and the record \<open>store\<close> with one field per table.  A table is the list of its
  rows in rowid order; columns that hold a state name are datatypes with the names the code uses,
  flags are \<^typ>\<open>bool\<close>, \<open>REAL\<close> columns are rationals.  The table \<open>inbox\<close> carries its rowid as a
  column because consumer groups refer to it.
\<close>

section \<open>State names\<close>

datatype delivery_state = Sent | Custodied | Acked
datatype claim_state = Leased | RetryLater | ClaimAcked | ClaimRevoked
datatype task_state = Working | Canceling | Retry | Completed | Failed | Canceled | Rejected
datatype cancel_state = Requested | Applied | TooLate
datatype local_prekey_state =
  LAvailable | LConsumed | LRetired | LExpired | LRevoked
datatype peer_prekey_state = PAvailable | PReserved | PUsed | PBurned | PExpired | PRevoked

section \<open>Rows\<close>

record packet_row =
  pk_id :: string
  pk_destination :: string
  pk_created_ms :: time_ms
  pk_expires_ms :: time_ms
  pk_max_hops :: int
  pk_depth :: int
  pk_raw :: bytes
  pk_origin :: string
  pk_received_from :: string
  pk_inserted_ms :: time_ms
  pk_delivered :: bool
  pk_qos :: qos

record delivery_row =
  dl_packet :: string
  dl_peer :: string
  dl_state :: delivery_state
  dl_attempts :: int
  dl_last_attempt_ms :: time_ms
  dl_last_error :: string

record delivery_path_row =
  dp_packet :: string
  dp_peer :: string
  dp_path :: string
  dp_state :: delivery_state
  dp_attempts :: int
  dp_last_attempt_ms :: time_ms
  dp_last_error :: string

record receipt_row =
  rc_packet :: string
  rc_recipient :: string
  rc_delivered_ms :: time_ms

record rejection_row =
  rj_packet :: string
  rj_peer :: string
  rj_rejected_ms :: time_ms
  rj_reason :: string

record inbox_row =
  ib_rowid :: int
  ib_packet :: string
  ib_sender :: string
  ib_kind :: string
  ib_created_ms :: time_ms
  ib_received_ms :: time_ms
  ib_codec :: string
  ib_body :: bytes
  ib_causal :: bytes
  ib_reply_to :: string
  ib_trusted :: bool
  ib_is_read :: bool
  ib_qos :: qos
  ib_visible :: bool

record group_row =
  cg_group :: string
  cg_created_ms :: time_ms
  cg_start_after :: int
  cg_kind_prefix :: string
  cg_sender :: string
  cg_trusted_only :: bool
  cg_include_transient :: bool

record claim_row =
  cd_group :: string
  cd_packet :: string
  cd_state :: claim_state
  cd_owner :: string
  cd_token :: string
  cd_lease_until_ms :: time_ms
  cd_retry_after_ms :: time_ms
  cd_attempts :: int
  cd_acked_ms :: time_ms
  cd_last_error :: string

record task_row =
  tx_group :: string
  tx_sender :: string
  tx_task :: string
  tx_request_packet :: string
  tx_request_hash :: string
  tx_state :: task_state
  tx_owner :: string
  tx_claim_token :: string
  tx_execution_token :: string
  tx_attempts :: int
  tx_started_ms :: time_ms
  tx_updated_ms :: time_ms
  tx_completed_ms :: time_ms
  tx_output :: "bytes option"
  tx_error :: string

record cancel_row =
  tc_group :: string
  tc_sender :: string
  tc_task :: string
  tc_packet :: string
  tc_hash :: string
  tc_reason :: string
  tc_state :: cancel_state
  tc_terminal_state :: "task_state option"
  tc_requested_ms :: time_ms
  tc_updated_ms :: time_ms
  tc_applied_ms :: time_ms

record local_prekey_row =
  lk_id :: string
  lk_peer :: string
  lk_bundle_version :: int
  lk_public :: bytes
  lk_private :: "bytes option"
  lk_generation :: int
  lk_created_ms :: time_ms
  lk_expires_ms :: time_ms
  lk_state :: local_prekey_state
  lk_consumed_ms :: time_ms
  lk_packet :: string

record peer_bundle_row =
  pb_peer :: string
  pb_generation :: int
  pb_version :: int
  pb_intended_peer :: string
  pb_hash :: string
  pb_created_ms :: time_ms
  pb_expires_ms :: time_ms
  pb_imported_ms :: time_ms

record peer_prekey_row =
  pp_peer :: string
  pp_id :: string
  pp_bundle_version :: int
  pp_public :: bytes
  pp_generation :: int
  pp_expires_ms :: time_ms
  pp_state :: peer_prekey_state
  pp_reservation :: string
  pp_packet :: string
  pp_used_ms :: time_ms

record path_metric_row =
  pm_peer :: string
  pm_path :: string
  pm_attempts :: int
  pm_successes :: int
  pm_failures :: int
  pm_consecutive_successes :: int
  pm_consecutive_failures :: int
  pm_ewma_rtt_ms :: rat
  pm_last_attempt_ms :: time_ms
  pm_last_ok_ms :: time_ms
  pm_last_failure_ms :: time_ms
  pm_last_error :: string

record route_row =
  rt_peer :: string
  rt_selected_path :: string
  rt_switched_ms :: time_ms
  rt_reason :: string

section \<open>The store\<close>

record store =
  t_packets :: "packet_row list"
  t_deliveries :: "delivery_row list"
  t_delivery_paths :: "delivery_path_row list"
  t_receipts :: "receipt_row list"
  t_rejections :: "rejection_row list"
  t_inbox :: "inbox_row list"
  t_groups :: "group_row list"
  t_claims :: "claim_row list"
  t_tasks :: "task_row list"
  t_cancels :: "cancel_row list"
  t_metadata :: "string \<rightharpoonup> int"
  t_local_prekeys :: "local_prekey_row list"
  t_peer_bundles :: "peer_bundle_row list"
  t_peer_prekeys :: "peer_prekey_row list"
  t_path_metrics :: "path_metric_row list"
  t_routes :: "route_row list"

definition empty_store :: store where
  "empty_store = \<lparr>t_packets = [], t_deliveries = [], t_delivery_paths = [], t_receipts = [],
     t_rejections = [], t_inbox = [], t_groups = [], t_claims = [], t_tasks = [], t_cancels = [],
     t_metadata = Map.empty, t_local_prekeys = [], t_peer_bundles = [], t_peer_prekeys = [],
     t_path_metrics = [], t_routes = []\<rparr>"

text \<open>
  What opening an existing database changes: transient kinds in the inbox are hidden, and packets
  that their destination acknowledged are reconciled as delivered.  The \<open>ALTER TABLE\<close> statements
  of \<open>_init_schema\<close> add columns with defaults; every row here has all columns.
\<close>

definition hide_transient :: "store \<Rightarrow> store" where
  "hide_transient s = s\<lparr>t_inbox :=
     update_where (\<lambda>r. ib_kind r = ''receipt'' \<or> ib_kind r = ''network.probe'')
       (\<lambda>r. r\<lparr>ib_visible := False\<rparr>) (t_inbox s)\<rparr>"

definition reconcile_delivered :: "store \<Rightarrow> store" where
  "reconcile_delivered s = s\<lparr>t_packets :=
     update_where (\<lambda>p. \<not> pk_delivered p \<and> exists_where (\<lambda>d. dl_packet d = pk_id p
         \<and> dl_peer d = pk_destination p \<and> dl_state d = Acked) (t_deliveries s))
       (\<lambda>p. p\<lparr>pk_delivered := True\<rparr>) (t_packets s)\<rparr>"

definition open_store :: "store \<Rightarrow> store" where
  "open_store s = reconcile_delivered (hide_transient s)"

section \<open>Keys of the tables\<close>

definition delivery_key :: "delivery_row \<Rightarrow> string \<times> string" where
  "delivery_key d = (dl_packet d, dl_peer d)"

definition path_key :: "delivery_path_row \<Rightarrow> string \<times> string \<times> string" where
  "path_key d = (dp_packet d, dp_peer d, dp_path d)"

definition claim_key :: "claim_row \<Rightarrow> string \<times> string" where
  "claim_key d = (cd_group d, cd_packet d)"

definition task_key :: "task_row \<Rightarrow> string \<times> string \<times> string" where
  "task_key t = (tx_group t, tx_sender t, tx_task t)"

definition cancel_key :: "cancel_row \<Rightarrow> string \<times> string \<times> string" where
  "cancel_key c = (tc_group c, tc_sender c, tc_task c)"

definition bundle_key :: "peer_bundle_row \<Rightarrow> string \<times> int" where
  "bundle_key b = (pb_peer b, pb_generation b)"

definition peer_prekey_key :: "peer_prekey_row \<Rightarrow> string \<times> string" where
  "peer_prekey_key p = (pp_peer p, pp_id p)"

definition metric_key :: "path_metric_row \<Rightarrow> string \<times> string" where
  "metric_key m = (pm_peer m, pm_path m)"

lemmas key_defs = delivery_key_def path_key_def claim_key_def task_key_def cancel_key_def
  bundle_key_def peer_prekey_key_def metric_key_def

section \<open>Random tokens\<close>

text \<open>\<open>secrets.token_hex(16)\<close>: the sixteen random bytes are a 128-bit word, an argument.\<close>

definition token_hex :: "128 word \<Rightarrow> string" where
  "token_hex w = hex_of_bytes (map (\<lambda>i. ucast (drop_bit (8 * i) w)) (rev [0..<16]))"

lemma token_hex_wf: "hex_string 32 (token_hex w)"
  using hex_string_hex_of_bytes [of "map (\<lambda>i. ucast (drop_bit (8 * i) w)) (rev [0..<16])"]
  by (simp add: token_hex_def)

lemma token_hex_nonempty [simp]: "token_hex w \<noteq> []"
  using hex_string_nonempty [OF token_hex_wf] by simp

text \<open>Distinct random words give distinct tokens.\<close>

lemma hex_of_bytes_inj: "hex_of_bytes a = hex_of_bytes b \<Longrightarrow> a = b"
  using fromhex_hex_of_bytes by (metis option.inject)

lemma token_hex_inj: "token_hex v = token_hex w \<longleftrightarrow> v = w"
proof
  assume "token_hex v = token_hex w"
  then have bytes: "(ucast (drop_bit (8 * i) v) :: byte) = ucast (drop_bit (8 * i) w)" if "i < 16" for i
    using that unfolding token_hex_def
    by (auto dest!: hex_of_bytes_inj simp del: upt_rec_numeral simp: rev_map [symmetric])
  show "v = w"
  proof (rule bit_eqI)
    fix n assume n: "possible_bit TYPE(128 word) n"
    then have lt: "n < 128" by simp
    have "bit (ucast (drop_bit (8 * (n div 8)) v) :: byte) (n mod 8)
        = bit (ucast (drop_bit (8 * (n div 8)) w) :: byte) (n mod 8)"
      using bytes [of "n div 8"] lt by simp
    then show "bit v n = bit w n"
      by (simp add: bit_ucast_iff bit_drop_bit_eq)
  qed
qed simp

end
