(* ===== verification/Store_Packets.thy ===== *)
theory Store_Packets
  imports Store_State
begin

text \<open>
  The packet queue of \<open>store.py\<close>: accepting packets, selecting what to send to a peer, recording
  attempts, custody and acknowledgements per peer and per path, receipts and rejections.
\<close>

section \<open>Operations\<close>

definition set_delivered :: "(packet_row \<Rightarrow> bool) \<Rightarrow> store \<Rightarrow> store" where
  "set_delivered P s = s\<lparr>t_packets := update_where P (\<lambda>p. p\<lparr>pk_delivered := True\<rparr>) (t_packets s)\<rparr>"

definition add_packet ::
    "ext \<Rightarrow> time_ms \<Rightarrow> time_ms \<Rightarrow> time_ms \<Rightarrow> bytes \<Rightarrow> int \<Rightarrow> string \<Rightarrow> string \<Rightarrow> store \<Rightarrow> (store, bool) outcome" where
  "add_packet E now later stamp rw depth origin received_from s =
     checked s (inspect_packet E now later False rw) (\<lambda>info.
     if depth < 0 \<or> max_hops info < depth
     then (s, Inl (ValueError ''packet relay depth exceeds hop limit''))
     else if exists_where (\<lambda>p. pk_id p = packet_id info) (t_packets s)
     then (s\<lparr>t_packets := update_where (\<lambda>p. pk_id p = packet_id info)
               (\<lambda>p. p\<lparr>pk_depth := min (pk_depth p) depth\<rparr>) (t_packets s)\<rparr>, Inr False)
     else (s\<lparr>t_packets := t_packets s @
              [\<lparr>pk_id = packet_id info, pk_destination = destination_id info,
                pk_created_ms = created_ms info, pk_expires_ms = expires_ms info,
                pk_max_hops = max_hops info, pk_depth = depth, pk_raw = rw, pk_origin = origin,
                pk_received_from = received_from, pk_inserted_ms = stamp, pk_delivered = False,
                pk_qos = info_qos info\<rparr>]\<rparr>, Inr True))"

definition has_packet :: "store \<Rightarrow> string \<Rightarrow> bool" where
  "has_packet s pid = exists_where (\<lambda>p. pk_id p = pid) (t_packets s)"

definition get_packet :: "store \<Rightarrow> string \<Rightarrow> bytes option" where
  "get_packet s pid = map_option pk_raw (find (\<lambda>p. pk_id p = pid) (t_packets s))"

definition packet_delivered :: "store \<Rightarrow> string \<Rightarrow> bool" where
  "packet_delivered s pid =
     (case find (\<lambda>p. pk_id p = pid) (t_packets s) of None \<Rightarrow> False | Some p \<Rightarrow> pk_delivered p)"

record pending_item =
  pi_packet_id :: string
  pi_raw :: bytes
  pi_depth :: int
  pi_max_hops :: int
  pi_destination :: string
  pi_qos :: qos

definition qos_rank :: "qos \<Rightarrow> nat" where
  "qos_rank q = (case q of QControl \<Rightarrow> 0 | QInteractive \<Rightarrow> 1 | QNormal \<Rightarrow> 2 | QBulk \<Rightarrow> 3)"

text \<open>The \<open>ORDER BY\<close> key: packets for the peer itself first, then by QoS class, then by age.\<close>

definition pending_rank :: "string \<Rightarrow> packet_row \<Rightarrow> nat \<times> nat \<times> int" where
  "pending_rank peer p =
     (if pk_destination p = peer then 0 else 1, qos_rank (pk_qos p), pk_created_ms p)"

definition find_delivery :: "store \<Rightarrow> string \<Rightarrow> string \<Rightarrow> delivery_row option" where
  "find_delivery s pid peer = find (\<lambda>d. dl_packet d = pid \<and> dl_peer d = peer) (t_deliveries s)"

definition find_path :: "store \<Rightarrow> string \<Rightarrow> string \<Rightarrow> string \<Rightarrow> delivery_path_row option" where
  "find_path s pid peer path =
     find (\<lambda>d. dp_packet d = pid \<and> dp_peer d = peer \<and> dp_path d = path) (t_delivery_paths s)"

definition pending_where ::
    "store \<Rightarrow> time_ms \<Rightarrow> string \<Rightarrow> int \<Rightarrow> string option \<Rightarrow> string list option \<Rightarrow> packet_row \<Rightarrow> bool" where
  "pending_where s current peer retry_after path qos_allow p =
     (current < pk_expires_ms p
      \<and> \<not> pk_delivered p
      \<and> pk_depth p < pk_max_hops p
      \<and> pk_received_from p \<noteq> peer
      \<and> (case find_delivery s (pk_id p) peer of
           None \<Rightarrow> True
         | Some d \<Rightarrow> dl_state d \<noteq> Acked \<and> dl_last_attempt_ms d \<le> current - max 0 retry_after)
      \<and> (case path of
           None \<Rightarrow> True
         | Some path_id \<Rightarrow>
             (case find_path s (pk_id p) peer path_id of
                None \<Rightarrow> True
              | Some d \<Rightarrow> dp_state d \<noteq> Custodied \<and> dp_state d \<noteq> Acked))
      \<and> (case qos_allow of None \<Rightarrow> True | Some qs \<Rightarrow> qos_name (pk_qos p) \<in> set qs))"

definition pending_for_peer ::
    "time_ms \<Rightarrow> string \<Rightarrow> int \<Rightarrow> int \<Rightarrow> string option \<Rightarrow> string list option \<Rightarrow> store \<Rightarrow> exn + pending_item list" where
  "pending_for_peer current peer limit retry_after path qos_allow s =
     (if qos_allow = Some [] then Inr []
      else if (case qos_allow of None \<Rightarrow> False | Some qs \<Rightarrow> list_ex (\<lambda>q. qos_of_name q = None) qs)
      then Inl (ValueError ''invalid QoS filter'')
      else Inr (map (\<lambda>p. \<lparr>pi_packet_id = pk_id p, pi_raw = pk_raw p, pi_depth = pk_depth p,
                    pi_max_hops = pk_max_hops p, pi_destination = pk_destination p,
                    pi_qos = pk_qos p\<rparr>)
             (take (nat (max 1 (min limit 1024)))
               (sort_key (pending_rank peer)
                 (filter (pending_where s current peer retry_after path qos_allow)
                    (t_packets s))))))"

definition mark_attempt1 :: "time_ms \<Rightarrow> string \<Rightarrow> string \<Rightarrow> string \<Rightarrow> string \<Rightarrow> store \<Rightarrow> store" where
  "mark_attempt1 current peer err path pid s =
     s\<lparr>t_deliveries := upsert delivery_key
         \<lparr>dl_packet = pid, dl_peer = peer, dl_state = Sent, dl_attempts = 1,
          dl_last_attempt_ms = current, dl_last_error = err\<rparr>
         (\<lambda>d. d\<lparr>dl_state := if dl_state d = Acked then Acked else Sent,
               dl_attempts := dl_attempts d + 1, dl_last_attempt_ms := current,
               dl_last_error := err\<rparr>) (t_deliveries s),
       t_delivery_paths := upsert path_key
         \<lparr>dp_packet = pid, dp_peer = peer, dp_path = path, dp_state = Sent, dp_attempts = 1,
          dp_last_attempt_ms = current, dp_last_error = err\<rparr>
         (\<lambda>d. d\<lparr>dp_state := if dp_state d = Acked \<or> dp_state d = Custodied then dp_state d else Sent,
               dp_attempts := dp_attempts d + 1, dp_last_attempt_ms := current,
               dp_last_error := err\<rparr>) (t_delivery_paths s)\<rparr>"

definition mark_attempt ::
    "time_ms \<Rightarrow> string list \<Rightarrow> string \<Rightarrow> string \<Rightarrow> string \<Rightarrow> store \<Rightarrow> store" where
  "mark_attempt current pids peer err path s =
     fold (mark_attempt1 current peer (take 1000 err) path) pids s"

definition mark_custodied1 :: "time_ms \<Rightarrow> string \<Rightarrow> string \<Rightarrow> string \<Rightarrow> store \<Rightarrow> store" where
  "mark_custodied1 current peer path pid s =
     s\<lparr>t_delivery_paths := upsert path_key
         \<lparr>dp_packet = pid, dp_peer = peer, dp_path = path, dp_state = Custodied, dp_attempts = 1,
          dp_last_attempt_ms = current, dp_last_error = ''''\<rparr>
         (\<lambda>d. d\<lparr>dp_state := if dp_state d = Acked then Acked else Custodied,
               dp_last_attempt_ms := current, dp_last_error := ''''\<rparr>) (t_delivery_paths s)\<rparr>"

definition mark_custodied :: "time_ms \<Rightarrow> string list \<Rightarrow> string \<Rightarrow> string \<Rightarrow> store \<Rightarrow> store" where
  "mark_custodied current pids peer path s = fold (mark_custodied1 current peer path) pids s"

definition mark_acked1 :: "time_ms \<Rightarrow> string \<Rightarrow> string \<Rightarrow> string \<Rightarrow> store \<Rightarrow> store" where
  "mark_acked1 current peer path pid s =
     set_delivered (\<lambda>p. pk_id p = pid \<and> pk_destination p = peer)
     (s\<lparr>t_deliveries := upsert delivery_key
         \<lparr>dl_packet = pid, dl_peer = peer, dl_state = Acked, dl_attempts = 1,
          dl_last_attempt_ms = current, dl_last_error = ''''\<rparr>
         (\<lambda>d. d\<lparr>dl_state := Acked, dl_last_attempt_ms := current, dl_last_error := ''''\<rparr>)
         (t_deliveries s),
       t_delivery_paths := upsert path_key
         \<lparr>dp_packet = pid, dp_peer = peer, dp_path = path, dp_state = Acked, dp_attempts = 1,
          dp_last_attempt_ms = current, dp_last_error = ''''\<rparr>
         (\<lambda>d. d\<lparr>dp_state := Acked, dp_last_attempt_ms := current, dp_last_error := ''''\<rparr>)
         (t_delivery_paths s)\<rparr>)"

definition mark_acked :: "time_ms \<Rightarrow> string list \<Rightarrow> string \<Rightarrow> string \<Rightarrow> store \<Rightarrow> store" where
  "mark_acked current pids peer path s = fold (mark_acked1 current peer path) pids s"

definition record_receipt :: "time_ms \<Rightarrow> string \<Rightarrow> string \<Rightarrow> store \<Rightarrow> store" where
  "record_receipt now pid recipient s =
     set_delivered (\<lambda>p. pk_id p = pid)
       (s\<lparr>t_receipts := upsert rc_packet
           \<lparr>rc_packet = pid, rc_recipient = recipient, rc_delivered_ms = now\<rparr>
           (\<lambda>r. r\<lparr>rc_recipient := recipient, rc_delivered_ms := now\<rparr>) (t_receipts s)\<rparr>)"

definition receipt :: "store \<Rightarrow> string \<Rightarrow> receipt_row option" where
  "receipt s pid = find (\<lambda>r. rc_packet r = pid) (t_receipts s)"

definition delivery_paths :: "store \<Rightarrow> string \<Rightarrow> delivery_path_row list" where
  "delivery_paths s pid =
     sort_key (\<lambda>d. (dp_peer d, dp_path d)) (filter (\<lambda>d. dp_packet d = pid) (t_delivery_paths s))"

definition delivery_path_state :: "store \<Rightarrow> string \<Rightarrow> string \<Rightarrow> string \<Rightarrow> delivery_state option" where
  "delivery_path_state s pid peer path = map_option dp_state (find_path s pid peer path)"

definition mark_local_delivered :: "string \<Rightarrow> store \<Rightarrow> store" where
  "mark_local_delivered pid s = set_delivered (\<lambda>p. pk_id p = pid) s"

definition mark_local_rejected :: "time_ms \<Rightarrow> string \<Rightarrow> string \<Rightarrow> string \<Rightarrow> store \<Rightarrow> store" where
  "mark_local_rejected current pid peer reason s =
     (let s1 = set_delivered (\<lambda>p. pk_id p = pid) s
      in s1\<lparr>t_rejections := insert_or_ignore rj_packet
           \<lparr>rj_packet = pid, rj_peer = take 128 peer, rj_rejected_ms = current,
            rj_reason = take 1000 reason\<rparr> (t_rejections s1)\<rparr>)"

definition packet_rejection :: "store \<Rightarrow> string \<Rightarrow> rejection_row option" where
  "packet_rejection s pid = find (\<lambda>r. rj_packet r = pid) (t_rejections s)"

definition local_packets :: "time_ms \<Rightarrow> string \<Rightarrow> int \<Rightarrow> store \<Rightarrow> bytes list" where
  "local_packets now dest limit s =
     map pk_raw (take (nat (max 1 (min limit 10000))) (sort_key pk_created_ms
       (filter (\<lambda>p. pk_destination p = dest \<and> \<not> pk_delivered p \<and> now < pk_expires_ms p)
          (t_packets s))))"

definition export_packets :: "time_ms \<Rightarrow> string \<Rightarrow> int \<Rightarrow> store \<Rightarrow> bytes list" where
  "export_packets current dest limit s =
     map pk_raw (take (nat (max 1 (min limit 100000))) (sort_key pk_created_ms
       (filter (\<lambda>p. current < pk_expires_ms p \<and> \<not> pk_delivered p
            \<and> (dest = '''' \<or> pk_destination p = dest)) (t_packets s))))"

section \<open>Invariant\<close>

text \<open>
  Primary keys are unique, a packet's depth stays within its hop limit, and a delivery row records
  at least one attempt.
\<close>

definition packet_inv :: "store \<Rightarrow> bool" where
  "packet_inv s \<longleftrightarrow>
     unique_key pk_id (t_packets s) \<and> unique_key delivery_key (t_deliveries s)
     \<and> unique_key path_key (t_delivery_paths s) \<and> unique_key rc_packet (t_receipts s)
     \<and> unique_key rj_packet (t_rejections s)
     \<and> (\<forall>p\<in>set (t_packets s). 0 \<le> pk_depth p \<and> pk_depth p \<le> pk_max_hops p \<and> pk_max_hops p \<le> 32)
     \<and> (\<forall>d\<in>set (t_deliveries s). 1 \<le> dl_attempts d)
     \<and> (\<forall>d\<in>set (t_delivery_paths s). 1 \<le> dp_attempts d)"

lemma packet_inv_empty: "packet_inv empty_store"
  by (simp add: packet_inv_def empty_store_def)

lemma packet_inv_set_delivered [keep_inv]: "packet_inv s \<Longrightarrow> packet_inv (set_delivered P s)"
  by (auto simp: packet_inv_def set_delivered_def in_update_where)

lemma packet_inv_add_packet [keep_inv]:
  assumes "packet_inv s"
  shows "packet_inv (fst (add_packet E now later stamp rw depth origin from s))"
proof (cases "inspect_packet E now later False rw")
  case (Inr info)
  then have "max_hops info \<le> 32"
    using validate_outer_bounds unfolding inspect_packet_Inr by blast
  with assms Inr show ?thesis
    by (auto simp: add_packet_def packet_inv_def in_update_where min_le_iff_disj)
qed (use assms in \<open>simp add: add_packet_def\<close>)

lemma packet_inv_mark_attempt1: "packet_inv s \<Longrightarrow> packet_inv (mark_attempt1 now peer err path pid s)"
  by (simp add: packet_inv_def mark_attempt1_def) (intro table_intros; fastforce simp: key_defs)

lemma packet_inv_mark_custodied1: "packet_inv s \<Longrightarrow> packet_inv (mark_custodied1 now peer path pid s)"
  by (simp add: packet_inv_def mark_custodied1_def) (intro table_intros; fastforce simp: key_defs)

lemma packet_inv_mark_acked1: "packet_inv s \<Longrightarrow> packet_inv (mark_acked1 now peer path pid s)"
  unfolding mark_acked1_def
  by (rule packet_inv_set_delivered)
    (simp add: packet_inv_def, intro table_intros; fastforce simp: key_defs)

lemma packet_inv_marks [keep_inv]:
  assumes "packet_inv s"
  shows "packet_inv (mark_attempt now pids peer err path s)"
    and "packet_inv (mark_custodied now pids peer path s)"
    and "packet_inv (mark_acked now pids peer path s)"
  unfolding mark_attempt_def mark_custodied_def mark_acked_def
  by (rule fold_preserves; fact assms
      packet_inv_mark_attempt1 packet_inv_mark_custodied1 packet_inv_mark_acked1)+

lemma packet_inv_receipt [keep_inv]: "packet_inv s \<Longrightarrow> packet_inv (record_receipt now pid r s)"
  unfolding record_receipt_def
  by (rule packet_inv_set_delivered) (auto simp: packet_inv_def)

lemma packet_inv_rejected [keep_inv]:
  "packet_inv s \<Longrightarrow> packet_inv (mark_local_rejected now pid peer reason s)"
  using packet_inv_set_delivered [of s "\<lambda>p. pk_id p = pid"]
  by (auto simp: mark_local_rejected_def Let_def packet_inv_def)

lemma packet_inv_local_delivered [keep_inv]:
  "packet_inv s \<Longrightarrow> packet_inv (mark_local_delivered pid s)"
  by (simp add: mark_local_delivered_def packet_inv_set_delivered)

section \<open>Calls on the queue\<close>

datatype packet_call =
    AddPacket ext time_ms time_ms time_ms bytes int string string
  | MarkAttempt time_ms "string list" string string string
  | MarkCustodied time_ms "string list" string string
  | MarkAcked time_ms "string list" string string
  | RecordReceipt time_ms string string
  | MarkLocalDelivered string
  | MarkLocalRejected time_ms string string string

fun packet_step :: "packet_call \<Rightarrow> store \<Rightarrow> store" where
  "packet_step (AddPacket E now later stamp rw depth origin src) s =
     fst (add_packet E now later stamp rw depth origin src s)"
| "packet_step (MarkAttempt now pids peer err path) s = mark_attempt now pids peer err path s"
| "packet_step (MarkCustodied now pids peer path) s = mark_custodied now pids peer path s"
| "packet_step (MarkAcked now pids peer path) s = mark_acked now pids peer path s"
| "packet_step (RecordReceipt now pid recipient) s = record_receipt now pid recipient s"
| "packet_step (MarkLocalDelivered pid) s = mark_local_delivered pid s"
| "packet_step (MarkLocalRejected now pid peer reason) s = mark_local_rejected now pid peer reason s"

lemma packet_inv_step: "packet_inv s \<Longrightarrow> packet_inv (packet_step c s)"
  by (cases c) (auto intro: keep_inv)

text \<open>What a peer acknowledged, what it took into custody on a path, and what is delivered.\<close>

definition acked_by :: "string \<times> string \<Rightarrow> store \<Rightarrow> bool" where
  "acked_by k s = exists_where (\<lambda>d. delivery_key d = k \<and> dl_state d = Acked) (t_deliveries s)"

definition held_on :: "string \<times> string \<times> string \<Rightarrow> store \<Rightarrow> bool" where
  "held_on k s = exists_where (\<lambda>d. path_key d = k \<and> (dp_state d = Custodied \<or> dp_state d = Acked))
     (t_delivery_paths s)"

definition completed :: "string \<Rightarrow> store \<Rightarrow> bool" where
  "completed pid s = exists_where (\<lambda>p. pk_id p = pid \<and> pk_delivered p) (t_packets s)"

lemma acked_by_stable: "acked_by k s \<Longrightarrow> acked_by k (packet_step c s)"
proof (cases c)
  case (AddPacket E now later stamp rw depth origin src)
  assume "acked_by k s"
  then show ?thesis
    by (cases "inspect_packet E now later False rw") (auto simp: AddPacket add_packet_def acked_by_def)
next
  case (MarkAttempt now pids peer err path)
  assume a: "acked_by k s"
  show ?thesis unfolding MarkAttempt packet_step.simps mark_attempt_def
    by (rule fold_preserves [where P = "acked_by k", OF a])
      (auto simp: acked_by_def mark_attempt1_def key_defs intro!: bex_upsert)
next
  case (MarkCustodied now pids peer path)
  assume a: "acked_by k s"
  show ?thesis unfolding MarkCustodied packet_step.simps mark_custodied_def
    by (rule fold_preserves [where P = "acked_by k", OF a]) (auto simp: acked_by_def mark_custodied1_def)
next
  case (MarkAcked now pids peer path)
  assume a: "acked_by k s"
  show ?thesis unfolding MarkAcked packet_step.simps mark_acked_def
    by (rule fold_preserves [where P = "acked_by k", OF a])
      (auto simp: acked_by_def mark_acked1_def set_delivered_def key_defs intro!: bex_upsert)
qed (auto simp: acked_by_def record_receipt_def mark_local_delivered_def mark_local_rejected_def
    set_delivered_def Let_def)

lemma held_on_stable: "held_on k s \<Longrightarrow> held_on k (packet_step c s)"
proof (cases c)
  case (AddPacket E now later stamp rw depth origin src)
  assume "held_on k s"
  then show ?thesis
    by (cases "inspect_packet E now later False rw") (auto simp: AddPacket add_packet_def held_on_def)
next
  case (MarkAttempt now pids peer err path)
  assume a: "held_on k s"
  show ?thesis unfolding MarkAttempt packet_step.simps mark_attempt_def
    by (rule fold_preserves [where P = "held_on k", OF a])
      (auto simp: held_on_def mark_attempt1_def key_defs intro!: bex_upsert)
next
  case (MarkCustodied now pids peer path)
  assume a: "held_on k s"
  show ?thesis unfolding MarkCustodied packet_step.simps mark_custodied_def
    by (rule fold_preserves [where P = "held_on k", OF a])
      (auto simp: held_on_def mark_custodied1_def key_defs intro!: bex_upsert)
next
  case (MarkAcked now pids peer path)
  assume a: "held_on k s"
  show ?thesis unfolding MarkAcked packet_step.simps mark_acked_def
    by (rule fold_preserves [where P = "held_on k", OF a])
      (auto simp: held_on_def mark_acked1_def set_delivered_def key_defs intro!: bex_upsert)
qed (auto simp: held_on_def record_receipt_def mark_local_delivered_def mark_local_rejected_def
    set_delivered_def Let_def)

interpretation ack: stable_machine empty_store packet_step packet_inv acked_by
  by unfold_locales (auto intro: packet_inv_empty packet_inv_step acked_by_stable)

interpretation custody: stable_machine empty_store packet_step packet_inv held_on
  by unfold_locales (auto intro: held_on_stable)

section \<open>Properties\<close>

lemma find_delivery_None_iff:
  "find_delivery s pid peer = None \<longleftrightarrow> (\<forall>d\<in>set (t_deliveries s). delivery_key d \<noteq> (pid, peer))"
  by (auto simp: find_delivery_def find_None_iff_all delivery_key_def)

lemma find_delivery_unique:
  assumes "packet_inv s" and "d \<in> set (t_deliveries s)"
  shows "find_delivery s (dl_packet d) (dl_peer d) = Some d"
proof -
  have "(\<lambda>q. dl_packet q = dl_packet d \<and> dl_peer q = dl_peer d) = (\<lambda>q. delivery_key q = delivery_key d)"
    by (auto simp: delivery_key_def)
  then show ?thesis
    using find_unique [of delivery_key "t_deliveries s" d] assms
    by (simp add: find_delivery_def packet_inv_def)
qed

lemma find_path_unique:
  assumes "packet_inv s" and "d \<in> set (t_delivery_paths s)"
  shows "find_path s (dp_packet d) (dp_peer d) (dp_path d) = Some d"
proof -
  have "(\<lambda>q. dp_packet q = dp_packet d \<and> dp_peer q = dp_peer d \<and> dp_path q = dp_path d)
      = (\<lambda>q. path_key q = path_key d)"
    by (auto simp: path_key_def)
  then show ?thesis
    using find_unique [of path_key "t_delivery_paths s" d] assms
    by (simp add: find_path_def packet_inv_def)
qed

lemma find_packet_unique:
  "packet_inv s \<Longrightarrow> p \<in> set (t_packets s) \<Longrightarrow> find (\<lambda>q. pk_id q = pk_id p) (t_packets s) = Some p"
  by (simp add: packet_inv_def find_unique)

definition item_of :: "packet_row \<Rightarrow> pending_item" where
  "item_of p = \<lparr>pi_packet_id = pk_id p, pi_raw = pk_raw p, pi_depth = pk_depth p,
     pi_max_hops = pk_max_hops p, pi_destination = pk_destination p, pi_qos = pk_qos p\<rparr>"

lemma pending_for_peer_rows:
  assumes "pending_for_peer now peer limit retry path qos s = Inr items"
  shows "items = map item_of (take (nat (max 1 (min limit 1024)))
     (sort_key (pending_rank peer) (filter (pending_where s now peer retry path qos) (t_packets s))))"
proof (cases "qos = Some []")
  case True
  then have "filter (pending_where s now peer retry path qos) (t_packets s) = []"
    by (simp add: pending_where_def filter_empty_conv)
  moreover have "items = []" using assms True by (simp add: pending_for_peer_def)
  ultimately show ?thesis by simp
next
  case False
  then show ?thesis
    using assms by (auto simp: pending_for_peer_def item_of_def split: if_splits)
qed

lemma pending_where_unacked:
  assumes "packet_inv s" and "pending_where s now peer retry path qos p"
    and "d \<in> set (t_deliveries s)" and "dl_packet d = pk_id p" and "dl_peer d = peer"
  shows "dl_state d \<noteq> Acked \<and> dl_last_attempt_ms d \<le> now - max 0 retry"
  using assms(2) find_delivery_unique [OF assms(1,3)] assms(4,5) by (simp add: pending_where_def)

lemma pending_where_live:
  "pending_where s now peer retry path qos p \<Longrightarrow> now < pk_expires_ms p \<and> \<not> pk_delivered p
     \<and> pk_depth p < pk_max_hops p \<and> pk_received_from p \<noteq> peer"
  by (simp add: pending_where_def)

lemma pending_for_peer_item:
  assumes "pending_for_peer now peer limit retry path qos s = Inr items" and "it \<in> set items"
  obtains p where "p \<in> set (t_packets s)" "pending_where s now peer retry path qos p" "it = item_of p"
  using pending_for_peer_rows [OF assms(1)] assms(2) by (auto dest!: set_sort_key_take)

lemma pending_rank_prefix:
  "pending_rank peer p \<le> pending_rank peer q \<Longrightarrow>
   (if pk_destination p = peer then 0 else 1 :: nat, qos_rank (pk_qos p))
     \<le> (if pk_destination q = peer then 0 else 1, qos_rank (pk_qos q))"
  by (auto simp: pending_rank_def split: if_splits)

lemma pending_for_peer_sorted:
  assumes "pending_for_peer now peer limit retry path qos s = Inr items"
  shows "sorted (map (\<lambda>it. (if pi_destination it = peer then 0 else 1 :: nat, qos_rank (pi_qos it))) items)"
proof -
  let ?rows = "take (nat (max 1 (min limit 1024))) (sort_key (pending_rank peer)
     (filter (pending_where s now peer retry path qos) (t_packets s)))"
  have "sorted_wrt (\<lambda>p q. pending_rank peer p \<le> pending_rank peer q) ?rows"
    using sorted_take_sort_key [of "pending_rank peer"] by (simp only: sorted_map)
  then have "sorted_wrt (\<lambda>p q. (if pk_destination p = peer then 0 else 1 :: nat, qos_rank (pk_qos p))
     \<le> (if pk_destination q = peer then 0 else 1, qos_rank (pk_qos q))) ?rows"
    by (rule sorted_wrt_mono_rel [rotated]) (rule pending_rank_prefix)
  then show ?thesis
    unfolding pending_for_peer_rows [OF assms] map_map sorted_map by (simp add: item_of_def comp_def)
qed

lemma pending_for_peer_complete:
  assumes "pending_for_peer now peer limit retry path qos s = Inr items"
    and "int (length items) < max 1 (min limit 1024)"
    and "p \<in> set (t_packets s)" and "pending_where s now peer retry path qos p"
  shows "pk_id p \<in> pi_packet_id ` set items"
proof -
  define n where "n = nat (max 1 (min limit 1024))"
  define rows where "rows = sort_key (pending_rank peer)
    (filter (pending_where s now peer retry path qos) (t_packets s))"
  have items: "items = map item_of (take n rows)"
    using pending_for_peer_rows [OF assms(1)] by (simp only: n_def rows_def)
  have "int n = max 1 (min limit 1024)" by (simp add: n_def)
  with assms(2) items have "length rows \<le> n" by simp
  then have "items = map item_of rows" by (simp add: items)
  moreover have "p \<in> set rows" using assms(3,4) by (simp add: rows_def)
  ultimately have "pi_packet_id (item_of p) \<in> pi_packet_id ` set items" by simp
  then show ?thesis by (simp add: item_of_def)
qed


lemma pending_for_peer_pid:
  assumes "pending_for_peer now peer limit retry path qos s = Inr items" and "pid \<in> pi_packet_id ` set items"
  obtains p where "pending_where s now peer retry path qos p" "pid = pk_id p"
proof -
  from assms(2) obtain it where it: "it \<in> set items" "pid = pi_packet_id it" by blast
  obtain p where "pending_where s now peer retry path qos p" "it = item_of p"
    using pending_for_peer_item [OF assms(1) it(1)] .
  with it(2) that show thesis by (simp add: item_of_def)
qed

lemma mark_acked_acks:
  assumes "pid \<in> set pids"
  shows "acked_by (pid, peer) (mark_acked now pids peer path s)"
proof -
  have one: "acked_by (pid, peer) (mark_acked1 now peer path pid s)" for s
    unfolding acked_by_def exists_where_iff mark_acked1_def
    by (simp add: set_delivered_def, rule bex_upsert_new) (auto simp: key_defs)
  from assms obtain as bs where "pids = as @ pid # bs" by (meson split_list)
  then have "mark_acked now pids peer path s
      = mark_acked now bs peer path (mark_acked1 now peer path pid (mark_acked now as peer path s))"
    by (simp add: mark_acked_def)
  then show ?thesis using acked_by_stable [OF one, of "MarkAcked now bs peer path"] by simp
qed

lemma acked_not_pending:
  assumes "packet_inv s" "acked_by (pid, peer) s"
    and "pending_for_peer now peer limit retry path qos s = Inr items"
  shows "pid \<notin> pi_packet_id ` set items"
proof
  assume "pid \<in> pi_packet_id ` set items"
  then obtain p where p: "pending_where s now peer retry path qos p" "pid = pk_id p"
    by (rule pending_for_peer_pid [OF assms(3)])
  obtain d where "d \<in> set (t_deliveries s)" "dl_packet d = pid" "dl_peer d = peer" "dl_state d = Acked"
    using assms(2) by (auto simp: acked_by_def delivery_key_def)
  with pending_where_unacked [OF assms(1) p(1)] p(2) show False by blast
qed

text \<open>
  C10: an acknowledgement is final.  Once a peer acknowledged a packet, \<open>pending_for_peer\<close> never
  offers the packet to that peer again, whatever other calls on the queue follow (further
  attempts, late custody reports, the same packet arriving again, receipts, rejections).
\<close>

theorem acked_never_pending_again:
  assumes "packet_inv s" and "pid \<in> set pids"
    and "pending_for_peer now peer limit retry path qos
           (fold packet_step calls (mark_acked t pids peer p s)) = Inr items"
  shows "pid \<notin> pi_packet_id ` set items"
proof (rule acked_not_pending [OF _ _ assms(3)])
  have inv: "packet_inv (mark_acked t pids peer p s)" using assms(1) by (rule packet_inv_marks)
  show "packet_inv (fold packet_step calls (mark_acked t pids peer p s))"
    using inv by (rule ack.inv_run)
  show "acked_by (pid, peer) (fold packet_step calls (mark_acked t pids peer p s))"
    using inv mark_acked_acks [OF assms(2)] by (rule ack.fact_run)
qed

lemma mark_custodied_holds:
  assumes "pid \<in> set pids"
  shows "held_on (pid, peer, path) (mark_custodied now pids peer path s)"
proof -
  have one: "held_on (pid, peer, path) (mark_custodied1 now peer path pid s)" for s
    unfolding held_on_def exists_where_iff mark_custodied1_def
    by (simp, rule bex_upsert_new) (auto simp: key_defs)
  from assms obtain as bs where "pids = as @ pid # bs" by (meson split_list)
  then have "mark_custodied now pids peer path s
      = mark_custodied now bs peer path (mark_custodied1 now peer path pid (mark_custodied now as peer path s))"
    by (simp add: mark_custodied_def)
  then show ?thesis using held_on_stable [OF one, of "MarkCustodied now bs peer path"] by simp
qed

lemma held_not_pending:
  assumes "packet_inv s" "held_on (pid, peer, path) s"
    and "pending_for_peer now peer limit retry (Some path) qos s = Inr items"
  shows "pid \<notin> pi_packet_id ` set items"
proof
  assume "pid \<in> pi_packet_id ` set items"
  then obtain p where p: "pending_where s now peer retry (Some path) qos p" "pid = pk_id p"
    by (rule pending_for_peer_pid [OF assms(3)])
  obtain d where d: "d \<in> set (t_delivery_paths s)" "dp_packet d = pid" "dp_peer d = peer" "dp_path d = path"
    "dp_state d = Custodied \<or> dp_state d = Acked"
    using assms(2) by (auto simp: held_on_def path_key_def)
  with p find_path_unique [OF assms(1) d(1)] show False by (auto simp: pending_where_def)
qed

text \<open>
  Custody suppresses retransmission on its path.  After a relay took custody of a packet for a
  peer on a path, the packet is never again pending for that peer on that path, whatever calls on
  the queue follow.
\<close>

theorem custody_never_pending_on_path:
  assumes "packet_inv s" and "pid \<in> set pids"
    and "pending_for_peer now peer limit retry (Some path) qos
           (fold packet_step calls (mark_custodied t pids peer path s)) = Inr items"
  shows "pid \<notin> pi_packet_id ` set items"
proof (rule held_not_pending [OF _ _ assms(3)])
  have inv: "packet_inv (mark_custodied t pids peer path s)" using assms(1) by (rule packet_inv_marks)
  show "packet_inv (fold packet_step calls (mark_custodied t pids peer path s))"
    using inv by (rule ack.inv_run)
  show "held_on (pid, peer, path) (fold packet_step calls (mark_custodied t pids peer path s))"
    using inv mark_custodied_holds [OF assms(2)] by (rule custody.fact_run)
qed

text \<open>
  Only the destination completes a packet.  \<open>mark_acked\<close> sets \<open>delivered\<close> on exactly the
  acknowledged packets whose destination is the acknowledging peer, and changes no other column of
  any packet; a relay's acknowledgement completes nothing.
\<close>

theorem mark_acked_completes_at_destination:
  "t_packets (mark_acked now pids peer path s) =
     map (\<lambda>p. if pk_id p \<in> set pids \<and> pk_destination p = peer then p\<lparr>pk_delivered := True\<rparr> else p)
       (t_packets s)"
proof (induction pids arbitrary: s)
  case (Cons pid pids)
  have "mark_acked now (pid # pids) peer path s
      = mark_acked now pids peer path (mark_acked1 now peer path pid s)"
    by (simp add: mark_acked_def)
  then show ?case
    by (simp add: Cons.IH) (auto simp: mark_acked1_def set_delivered_def update_where_def)
qed (simp add: mark_acked_def)

lemma find_update_where:
  assumes "\<And>r. key (f r) = key r"
  shows "find (\<lambda>r. key r = k) (update_where P f rs)
    = map_option (\<lambda>r. if P r then f r else r) (find (\<lambda>r. key r = k) rs)"
  by (induction rs) (auto simp: assms)

lemma find_append_row:
  "find P (rs @ [r]) = (case find P rs of Some q \<Rightarrow> Some q | None \<Rightarrow> if P r then Some r else None)"
  by (induction rs) auto

lemma get_packet_None: "get_packet s pid = None \<longleftrightarrow> \<not> has_packet s pid"
  by (auto simp: get_packet_def has_packet_def find_None_iff_all)

text \<open>
  Storing and fetching packets.  A packet that \<open>add_packet\<close> accepts can be fetched by its id;
  it reports a new packet exactly when the id was unknown; a packet that is already stored keeps
  its bytes (the first copy wins) and every other packet is untouched; the stored depth never
  exceeds the depth it was accepted with.
\<close>

theorem add_packet_get_packet:
  assumes "add_packet E now later stamp rw depth origin src s = (s', Inr created)"
  shows "\<exists>info. inspect_packet E now later False rw = Inr info
    \<and> created = (\<not> has_packet s (packet_id info))
    \<and> get_packet s' (packet_id info) = (if created then Some rw else get_packet s (packet_id info))
    \<and> (\<forall>q. q \<noteq> packet_id info \<longrightarrow> get_packet s' q = get_packet s q)
    \<and> (\<forall>p\<in>set (t_packets s'). pk_id p = packet_id info \<longrightarrow> pk_depth p \<le> depth)"
proof -
  obtain info where i: "inspect_packet E now later False rw = Inr info"
    using assms by (auto simp: add_packet_def checked_Inr)
  have c: "created = (\<not> has_packet s (packet_id info))"
    using assms i by (auto simp: add_packet_def has_packet_def split: if_splits)
  have s': "s' = (if has_packet s (packet_id info)
       then s\<lparr>t_packets := update_where (\<lambda>p. pk_id p = packet_id info)
               (\<lambda>p. p\<lparr>pk_depth := min (pk_depth p) depth\<rparr>) (t_packets s)\<rparr>
       else s\<lparr>t_packets := t_packets s @
              [\<lparr>pk_id = packet_id info, pk_destination = destination_id info,
                pk_created_ms = created_ms info, pk_expires_ms = expires_ms info,
                pk_max_hops = max_hops info, pk_depth = depth, pk_raw = rw, pk_origin = origin,
                pk_received_from = src, pk_inserted_ms = stamp, pk_delivered = False,
                pk_qos = info_qos info\<rparr>]\<rparr>)"
    using assms i by (auto simp: add_packet_def has_packet_def split: if_splits)
  have raw: "map_option pk_raw (find (\<lambda>r. pk_id r = k) (update_where P (\<lambda>p. p\<lparr>pk_depth := g p\<rparr>) rs))
      = map_option pk_raw (find (\<lambda>r. pk_id r = k) rs)" for k P g rs
    by (subst find_update_where) (auto simp: option.map_comp intro: option.map_cong)
  show ?thesis
  proof (cases "has_packet s (packet_id info)")
    case True
    then show ?thesis using i c s' by (auto simp: get_packet_def raw in_update_where)
  next
    case False
    then have "find (\<lambda>p. pk_id p = packet_id info) (t_packets s) = None"
      using get_packet_None by (auto simp: get_packet_def)
    then show ?thesis using i c s' False
      by (auto simp: get_packet_def find_append_row has_packet_def split: option.splits)
  qed
qed

section \<open>Examples\<close>

definition demo_packet :: "string \<Rightarrow> string \<Rightarrow> qos \<Rightarrow> packet_row" where
  "demo_packet pid dest q = \<lparr>pk_id = pid, pk_destination = dest, pk_created_ms = 10, pk_expires_ms = 1000,
     pk_max_hops = 8, pk_depth = 0, pk_raw = [], pk_origin = ''local'', pk_received_from = '''',
     pk_inserted_ms = 10, pk_delivered = False, pk_qos = q\<rparr>"

definition demo_queue :: store where
  "demo_queue = empty_store\<lparr>t_packets :=
     [demo_packet ''a'' ''far'' QControl, demo_packet ''b'' ''peer'' QBulk, demo_packet ''c'' ''far'' QNormal]\<rparr>"

lemma demo_queue_inv: "packet_inv demo_queue"
  by (simp add: packet_inv_def demo_queue_def demo_packet_def empty_store_def unique_key_def)

lemma demo_queue_pending:
  "map_sum id (map pi_packet_id) (pending_for_peer 100 ''peer'' 128 1000 None None demo_queue)
     = Inr [''b'', ''a'', ''c'']"
  by code_simp


theorem acked_never_pending_again_witness:
  "\<exists>items. pending_for_peer 100 ''peer'' 128 0 None None
      (fold packet_step [MarkAttempt 90 [''b''] ''peer'' '''' ''udp'']
         (mark_acked 80 [''b''] ''peer'' ''udp'' demo_queue)) = Inr items
     \<and> ''b'' \<notin> pi_packet_id ` set items"
proof -
  let ?r = "pending_for_peer 100 ''peer'' 128 0 None None
      (fold packet_step [MarkAttempt 90 [''b''] ''peer'' '''' ''udp'']
         (mark_acked 80 [''b''] ''peer'' ''udp'' demo_queue))"
  have "\<exists>items. ?r = Inr items" by (simp add: pending_for_peer_def)
  then obtain items where i: "?r = Inr items" by blast
  have "''b'' \<in> set [''b'']" by simp
  from acked_never_pending_again [OF demo_queue_inv this i] i show ?thesis by blast
qed

theorem custody_never_pending_on_path_witness:
  "\<exists>items. pending_for_peer 100 ''peer'' 128 0 (Some ''relay'') None
      (fold packet_step [] (mark_custodied 80 [''b''] ''peer'' ''relay'' demo_queue)) = Inr items
     \<and> ''b'' \<notin> pi_packet_id ` set items"
proof -
  let ?r = "pending_for_peer 100 ''peer'' 128 0 (Some ''relay'') None
      (fold packet_step [] (mark_custodied 80 [''b''] ''peer'' ''relay'' demo_queue))"
  have "\<exists>items. ?r = Inr items" by (simp add: pending_for_peer_def)
  then obtain items where i: "?r = Inr items" by blast
  have "''b'' \<in> set [''b'']" by simp
  from custody_never_pending_on_path [OF demo_queue_inv this i] i show ?thesis by blast
qed

theorem add_packet_get_packet_witness:
  "\<exists>s'. add_packet (ext_of demo_crypto) 1000 1000 1000 (replicate 60 2) 0 ''local'' '''' empty_store
      = (s', Inr True) \<and> (\<exists>pid. get_packet s' pid = Some (replicate 60 2))"
proof -
  obtain info where i: "inspect_packet (ext_of demo_crypto) 1000 1000 False (replicate 60 2) = Inr info"
    using demo_inspect by blast
  then have "1 \<le> max_hops info" using validate_outer_bounds unfolding inspect_packet_Inr by blast
  with i obtain s' where
    s': "add_packet (ext_of demo_crypto) 1000 1000 1000 (replicate 60 2) 0 ''local'' '''' empty_store = (s', Inr True)"
    by (auto simp: add_packet_def empty_store_def)
  then show ?thesis using add_packet_get_packet [OF s'] by auto
qed

end
