(* ===== verification/Store_Prekeys.thy ===== *)
theory Store_Prekeys
  imports Store_State
begin

text \<open>
  One-time prekeys in \<open>store.py\<close>: the node's own batches (private keys that are erased when a
  message consumes them), the bundles imported from peers and their reservation, and the
  generation counters in \<open>store_metadata\<close>.
\<close>

section \<open>Arguments\<close>

definition prekey_id_arg :: "string \<Rightarrow> exn + string" where
  "prekey_id_arg v = (let t = lower (strip v)
     in if hex_string 32 t then Inr t else Inl (ValueError ''invalid prekey ID''))"

definition prekey_peer_id :: "string \<Rightarrow> exn + string" where
  "prekey_peer_id v = (let t = strip v
     in if \<not> starts_with t ''an1'' \<or> length t < 20 \<or> 128 < length t
        then Inl (ValueError ''invalid prekey peer ID'') else Inr t)"

definition prekey_bytes :: "string \<Rightarrow> bytes \<Rightarrow> exn + bytes" where
  "prekey_bytes what bs =
     (if length bs = 32 then Inr bs else Inl (ValueError (what @ '' must be 32 bytes'')))"

definition bundle_version_arg :: "string \<Rightarrow> int \<Rightarrow> exn + unit" where
  "bundle_version_arg msg v = (if v = 1 \<or> v = 2 then Inr () else Inl (ValueError msg))"

section \<open>Counters\<close>

definition generation_key :: "string \<Rightarrow> string" where
  "generation_key peer = ''local_prekey_generation:'' @ peer"

definition meta_get :: "store \<Rightarrow> string \<Rightarrow> int" where
  "meta_get s k = (case t_metadata s k of None \<Rightarrow> 0 | Some v \<Rightarrow> v)"

text \<open>\<open>ON CONFLICT(key) DO UPDATE SET integer_value = MAX(old, new)\<close>\<close>

definition meta_raise :: "string \<Rightarrow> int \<Rightarrow> store \<Rightarrow> store" where
  "meta_raise k v s = s\<lparr>t_metadata := (t_metadata s)(k \<mapsto>
     (case t_metadata s k of None \<Rightarrow> v | Some w \<Rightarrow> max w v))\<rparr>"

definition meta_set :: "string \<Rightarrow> int \<Rightarrow> store \<Rightarrow> store" where
  "meta_set k v s = s\<lparr>t_metadata := (t_metadata s)(k \<mapsto> v)\<rparr>"

section \<open>Local batches\<close>

type_synonym local_key = "string \<times> bytes \<times> bytes"

fun normalize_local_keys :: "string list \<Rightarrow> local_key list \<Rightarrow> exn + local_key list" where
  "normalize_local_keys seen [] = Inr []"
| "normalize_local_keys seen ((kid, pub, priv) # ks) =
     and_then (prekey_id_arg kid) (\<lambda>k.
     if k \<in> set seen then Inl (ValueError ''duplicate prekey ID in local batch'') else
     and_then (prekey_bytes ''prekey public key'' pub) (\<lambda>p.
     and_then (prekey_bytes ''prekey private key'' priv) (\<lambda>q.
     and_then (normalize_local_keys (k # seen) ks) (\<lambda>rest. Inr ((k, p, q) # rest)))))"

fun insert_local_keys ::
    "string \<Rightarrow> int \<Rightarrow> int \<Rightarrow> time_ms \<Rightarrow> time_ms \<Rightarrow> local_key list \<Rightarrow> local_prekey_row list
      \<Rightarrow> exn + local_prekey_row list \<times> nat" where
  "insert_local_keys peer ver gen created expires [] rows = Inr (rows, 0)"
| "insert_local_keys peer ver gen created expires ((k, pub, priv) # ks) rows =
     (case find (\<lambda>r. lk_id r = k) rows of
        Some r \<Rightarrow>
          if lk_public r \<noteq> pub \<or> lk_peer r \<noteq> peer \<or> lk_bundle_version r \<noteq> ver
             \<or> lk_generation r \<noteq> gen \<or> lk_created_ms r \<noteq> created \<or> lk_expires_ms r \<noteq> expires
          then Inl (ValueError ''local prekey ID collision'')
          else insert_local_keys peer ver gen created expires ks rows
      | None \<Rightarrow>
          and_then (insert_local_keys peer ver gen created expires ks (rows @
            [\<lparr>lk_id = k, lk_peer = peer, lk_bundle_version = ver, lk_public = pub,
              lk_private = Some priv, lk_generation = gen, lk_created_ms = created,
              lk_expires_ms = expires, lk_state = LAvailable, lk_consumed_ms = 0,
              lk_packet = ''''\<rparr>]))
            (\<lambda>(rows', n). Inr (rows', Suc n)))"

definition local_batch_body ::
    "string \<Rightarrow> int \<Rightarrow> int \<Rightarrow> time_ms \<Rightarrow> time_ms \<Rightarrow> local_key list \<Rightarrow> store \<Rightarrow> exn + store \<times> nat" where
  "local_batch_body peer ver gen created expires ks s =
     (let latest = meta_get s (generation_key peer)
      in if gen < latest then Inl (ValueError ''local prekey generation rollback'')
      else if gen > latest + 1 then Inl (ValueError ''local prekey generation gap'')
      else if gen = latest \<and> 0 < latest
         \<and> set (map (\<lambda>r. (lk_id r, lk_public r, lk_bundle_version r, lk_created_ms r, lk_expires_ms r))
                 (filter (\<lambda>r. lk_peer r = peer \<and> lk_generation r = gen) (t_local_prekeys s)))
           \<noteq> set (map (\<lambda>(k, pub, priv). (k, pub, ver, created, expires)) ks)
      then Inl (ValueError ''local prekey generation equivocation'')
      else and_then (insert_local_keys peer ver gen created expires ks (t_local_prekeys s)) (\<lambda>(rows, n).
        Inr (meta_raise (generation_key peer) gen (s\<lparr>t_local_prekeys := rows\<rparr>), n)))"

text \<open>The result is the peer, the generation, the number of new keys and the size of the batch.\<close>

definition add_local_prekey_batch ::
    "local_key list \<Rightarrow> string \<Rightarrow> int \<Rightarrow> int \<Rightarrow> time_ms \<Rightarrow> time_ms \<Rightarrow> store
      \<Rightarrow> (store, string \<times> int \<times> nat \<times> nat) outcome" where
  "add_local_prekey_batch keys peer_arg ver gen created expires s =
     checked s (and_then (prekey_peer_id peer_arg) (\<lambda>peer.
       and_then (bundle_version_arg ''unsupported local prekey bundle version'' ver) (\<lambda>_.
       if gen < 1 then Inl (ValueError ''prekey generation must be positive'')
       else if expires \<le> created then Inl (ValueError ''prekey expiry must be after creation'')
       else if keys = [] \<or> 1000 < length keys
         then Inl (ValueError ''prekey batch must contain 1 to 1000 keys'')
       else and_then (normalize_local_keys [] keys) (\<lambda>ks. Inr (peer, ks)))))
     (\<lambda>(peer, ks). transaction (\<lambda>s.
        and_then (local_batch_body peer ver gen created expires ks s) (\<lambda>(s', n).
          Inr (s', (peer, gen, n, length ks)))) s)"

definition next_local_prekey_generation :: "string \<Rightarrow> store \<Rightarrow> exn + int" where
  "next_local_prekey_generation peer_arg s =
     and_then (prekey_peer_id peer_arg) (\<lambda>peer. Inr (meta_get s (generation_key peer) + 1))"

definition live_local :: "local_prekey_row \<Rightarrow> bool" where
  "live_local r = (lk_state r = LAvailable \<and> lk_private r \<noteq> None)"

definition unscoped_rows :: "store \<Rightarrow> local_prekey_row list" where
  "unscoped_rows s = filter (\<lambda>r. lk_peer r = '''') (t_local_prekeys s)"

definition scope_legacy_local_prekeys :: "string \<Rightarrow> store \<Rightarrow> (store, string \<times> nat \<times> int) outcome" where
  "scope_legacy_local_prekeys peer_arg s =
     checked s (prekey_peer_id peer_arg) (\<lambda>peer.
       let count = count_where live_local (unscoped_rows s)
       in if count = 0
          then (s, Inr (peer, 0, max_or_zero (map lk_generation (unscoped_rows s))))
          else let s1 = s\<lparr>t_local_prekeys := update_where (\<lambda>r. lk_peer r = '''')
                       (\<lambda>r. r\<lparr>lk_peer := peer\<rparr>) (t_local_prekeys s)\<rparr>;
                   gen = max_or_zero (map lk_generation
                       (filter (\<lambda>r. lk_peer r = peer) (t_local_prekeys s1)))
               in (meta_raise (generation_key peer) gen s1, Inr (peer, count, gen)))"

definition unscoped_local_prekey_count :: "store \<Rightarrow> nat" where
  "unscoped_local_prekey_count s = count_where live_local (unscoped_rows s)"

definition retire_unscoped_local_prekeys ::
    "time_ms \<Rightarrow> string list \<Rightarrow> store \<Rightarrow> (store, nat \<times> int \<times> string list) outcome" where
  "retire_unscoped_local_prekeys current peer_args s =
     checked s (map_result prekey_peer_id peer_args) (\<lambda>ps.
       let peers = sort (remdups ps)
       in if peers = []
          then (s, Inl (ValueError ''at least one peer is required for legacy retirement''))
          else let count = count_where live_local (unscoped_rows s);
                   gen = max_or_zero (map lk_generation (unscoped_rows s));
                   s1 = (if count = 0 then s
                         else s\<lparr>t_local_prekeys := update_where
                            (\<lambda>r. lk_peer r = '''' \<and> lk_private r \<noteq> None)
                            (\<lambda>r. r\<lparr>lk_private := None, lk_state := LRetired, lk_consumed_ms := current\<rparr>)
                            (t_local_prekeys s)\<rparr>)
               in (fold (\<lambda>peer. meta_raise (generation_key peer) gen) peers s1,
                   Inr (count, gen, peers)))"

record public_batch =
  bt_peer :: string
  bt_generation :: int
  bt_version :: int
  bt_created_ms :: time_ms
  bt_expires_ms :: time_ms
  bt_keys :: "(string \<times> bytes) list"

definition local_prekey_public_batch ::
    "string \<Rightarrow> int option \<Rightarrow> int \<Rightarrow> store \<Rightarrow> exn + public_batch option" where
  "local_prekey_public_batch peer_arg generation min_version s =
     and_then (prekey_peer_id peer_arg) (\<lambda>peer.
     and_then (bundle_version_arg ''invalid minimum prekey bundle version'' min_version) (\<lambda>_.
     let mine = filter (\<lambda>r. lk_peer r = peer \<and> min_version \<le> lk_bundle_version r) (t_local_prekeys s)
     in case (case generation of
                Some g \<Rightarrow> Some g
              | None \<Rightarrow> if mine = [] then None else Some (max_or_zero (map lk_generation mine))) of
          None \<Rightarrow> Inr None
        | Some g \<Rightarrow>
            (case filter (\<lambda>r. lk_generation r = g) mine of
               [] \<Rightarrow> Inr None
             | r # rs \<Rightarrow> Inr (Some \<lparr>bt_peer = peer, bt_generation = g,
                 bt_version = lk_bundle_version r, bt_created_ms = lk_created_ms r,
                 bt_expires_ms = lk_expires_ms r,
                 bt_keys = map (\<lambda>q. (lk_id q, lk_public q)) (r # rs)\<rparr>))))"

definition local_prekey_material :: "string \<Rightarrow> store \<Rightarrow> exn + local_prekey_row option" where
  "local_prekey_material kid s =
     and_then (prekey_id_arg kid) (\<lambda>k.
       Inr (find (\<lambda>r. lk_id r = k \<and> live_local r) (t_local_prekeys s)))"

section \<open>Bundles of peers\<close>

fun normalize_peer_keys :: "string list \<Rightarrow> (string \<times> bytes) list \<Rightarrow> exn + (string \<times> bytes) list" where
  "normalize_peer_keys seen [] = Inr []"
| "normalize_peer_keys seen ((kid, pub) # ks) =
     and_then (prekey_id_arg kid) (\<lambda>k.
     if k \<in> set seen then Inl (ValueError ''duplicate prekey ID in peer bundle'') else
     and_then (prekey_bytes ''prekey public key'' pub) (\<lambda>p.
     and_then (normalize_peer_keys (k # seen) ks) (\<lambda>rest. Inr ((k, p) # rest))))"

fun insert_peer_keys ::
    "string \<Rightarrow> int \<Rightarrow> int \<Rightarrow> time_ms \<Rightarrow> (string \<times> bytes) list \<Rightarrow> peer_prekey_row list
      \<Rightarrow> exn + peer_prekey_row list" where
  "insert_peer_keys peer ver gen expires [] rows = Inr rows"
| "insert_peer_keys peer ver gen expires ((k, pub) # ks) rows =
     (if exists_where (\<lambda>r. pp_peer r = peer \<and> pp_id r = k) rows
      then Inl (ValueError ''peer prekey ID reuse'')
      else insert_peer_keys peer ver gen expires ks (rows @
        [\<lparr>pp_peer = peer, pp_id = k, pp_bundle_version = ver, pp_public = pub,
          pp_generation = gen, pp_expires_ms = expires, pp_state = PAvailable,
          pp_reservation = '''', pp_packet = '''', pp_used_ms = 0\<rparr>]))"

definition latest_bundle :: "string \<Rightarrow> store \<Rightarrow> peer_bundle_row option" where
  "latest_bundle peer s =
     (case sort_key (\<lambda>b. - pb_generation b) (filter (\<lambda>b. pb_peer b = peer) (t_peer_bundles s)) of
        [] \<Rightarrow> None | b # _ \<Rightarrow> Some b)"

record bundle_args =
  ba_peer :: string
  ba_keys :: "(string \<times> bytes) list"
  ba_version :: int
  ba_intended :: string
  ba_generation :: int
  ba_hash :: string
  ba_created_ms :: time_ms
  ba_expires_ms :: time_ms

definition bundle_args_check :: "time_ms \<Rightarrow> bundle_args \<Rightarrow> exn + bundle_args" where
  "bundle_args_check now a =
     (let peer = strip (ba_peer a); intended = strip (ba_intended a);
          h = lower (strip (ba_hash a))
      in if peer = '''' then Inl (ValueError ''peer ID is required'') else
      and_then (bundle_version_arg ''unsupported prekey bundle version'' (ba_version a)) (\<lambda>_.
      and_then (if 2 \<le> ba_version a then prekey_peer_id intended else Inr '''') (\<lambda>_.
      if ba_generation a < 1 then Inl (ValueError ''prekey generation must be positive'')
      else if \<not> hex_string 64 h then Inl (ValueError ''invalid prekey bundle hash'')
      else if ba_expires_ms a \<le> ba_created_ms a \<or> ba_expires_ms a \<le> now
        then Inl (ValueError ''prekey bundle is expired'')
      else if ba_keys a = [] \<or> 1000 < length (ba_keys a)
        then Inl (ValueError ''prekey bundle must contain 1 to 1000 keys'')
      else and_then (normalize_peer_keys [] (ba_keys a)) (\<lambda>ks.
        Inr (a\<lparr>ba_peer := peer, ba_intended := intended, ba_hash := h, ba_keys := ks\<rparr>)))))"

text \<open>The result is the number of imported keys and whether the bundle was a duplicate.\<close>

definition import_bundle_body :: "time_ms \<Rightarrow> bundle_args \<Rightarrow> store \<Rightarrow> exn + store \<times> nat \<times> bool" where
  "import_bundle_body stamp a s =
     (let fresh = and_then (insert_peer_keys (ba_peer a) (ba_version a) (ba_generation a)
              (ba_expires_ms a) (ba_keys a) (t_peer_prekeys s)) (\<lambda>rows.
            Inr (s\<lparr>t_peer_prekeys := rows,
                   t_peer_bundles := t_peer_bundles s @
                     [\<lparr>pb_peer = ba_peer a, pb_generation = ba_generation a,
                       pb_version = ba_version a, pb_intended_peer = ba_intended a,
                       pb_hash = ba_hash a, pb_created_ms = ba_created_ms a,
                       pb_expires_ms = ba_expires_ms a, pb_imported_ms = stamp\<rparr>]\<rparr>,
                 length (ba_keys a), False))
      in case latest_bundle (ba_peer a) s of
           None \<Rightarrow> fresh
         | Some b \<Rightarrow>
             if ba_generation a < pb_generation b
             then Inl (ValueError ''peer prekey bundle generation rollback'')
             else if ba_generation a = pb_generation b then
               (if pb_hash b \<noteq> ba_hash a \<or> pb_version b \<noteq> ba_version a
                   \<or> pb_intended_peer b \<noteq> ba_intended a
                then Inl (ValueError ''peer prekey bundle equivocation'')
                else Inr (s, 0, True))
             else fresh)"

definition import_peer_prekey_bundle ::
    "time_ms \<Rightarrow> time_ms \<Rightarrow> bundle_args \<Rightarrow> store \<Rightarrow> (store, nat \<times> bool) outcome" where
  "import_peer_prekey_bundle now stamp a s =
     checked s (bundle_args_check now a) (\<lambda>b. transaction (import_bundle_body stamp b) s)"

record prekey_grant =
  gr_peer :: string
  gr_id :: string
  gr_version :: int
  gr_public :: bytes
  gr_generation :: int
  gr_expires_ms :: time_ms
  gr_reservation :: string

definition grant_of :: "string \<Rightarrow> peer_prekey_row \<Rightarrow> prekey_grant" where
  "grant_of r p = \<lparr>gr_peer = pp_peer p, gr_id = pp_id p, gr_version = pp_bundle_version p,
     gr_public = pp_public p, gr_generation = pp_generation p, gr_expires_ms = pp_expires_ms p,
     gr_reservation = r\<rparr>"

definition best_available :: "string \<Rightarrow> time_ms \<Rightarrow> int \<Rightarrow> store \<Rightarrow> peer_prekey_row option" where
  "best_available peer current min_version s =
     (case sort_key (\<lambda>p. (- pp_bundle_version p, pp_generation p))
        (filter (\<lambda>p. pp_peer p = peer \<and> pp_state p = PAvailable \<and> current < pp_expires_ms p
             \<and> min_version \<le> pp_bundle_version p) (t_peer_prekeys s)) of
        [] \<Rightarrow> None | p # _ \<Rightarrow> Some p)"

definition reserve_body ::
    "time_ms \<Rightarrow> string \<Rightarrow> string \<Rightarrow> bool \<Rightarrow> int \<Rightarrow> store \<Rightarrow> exn + store \<times> prekey_grant option" where
  "reserve_body current peer r reuse min_version s =
     (case (if reuse
            then find (\<lambda>p. pp_peer p = peer \<and> pp_state p = PReserved \<and> pp_reservation p = r
                    \<and> current < pp_expires_ms p \<and> min_version \<le> pp_bundle_version p)
                  (t_peer_prekeys s)
            else None) of
        Some p \<Rightarrow> Inr (s, Some (grant_of r p))
      | None \<Rightarrow>
          (case best_available peer current min_version s of
             None \<Rightarrow> Inr (s, None)
           | Some p \<Rightarrow>
               let hit = (\<lambda>q. pp_peer q = peer \<and> pp_id q = pp_id p \<and> pp_state q = PAvailable)
               in if count_where hit (t_peer_prekeys s) \<noteq> 1
                  then Inl (RuntimeError ''prekey reservation race'')
                  else Inr (s\<lparr>t_peer_prekeys := update_where hit
                         (\<lambda>q. q\<lparr>pp_state := PReserved, pp_reservation := r, pp_used_ms := current\<rparr>)
                         (t_peer_prekeys s)\<rparr>, Some (grant_of r p))))"

definition reserve_peer_prekey ::
    "time_ms \<Rightarrow> 128 word \<Rightarrow> string \<Rightarrow> string \<Rightarrow> int \<Rightarrow> store \<Rightarrow> (store, prekey_grant option) outcome" where
  "reserve_peer_prekey current random peer_arg reservation_arg min_version s =
     checked s (if strip peer_arg = '''' then Inl (ValueError ''peer ID is required'') else
       and_then (bundle_version_arg ''invalid minimum prekey bundle version'' min_version) (\<lambda>_.
       if strip reservation_arg \<noteq> ''''
       then and_then (prekey_id_arg reservation_arg) (\<lambda>r. Inr (r, True))
       else Inr (token_hex random, False)))
     (\<lambda>(r, reuse). transaction (reserve_body current (strip peer_arg) r reuse min_version) s)"

definition bind_peer_prekey ::
    "time_ms \<Rightarrow> string \<Rightarrow> string \<Rightarrow> string \<Rightarrow> string \<Rightarrow> store \<Rightarrow> (store, unit) outcome" where
  "bind_peer_prekey now peer_arg kid_arg reservation_arg packet_arg s =
     checked s (and_then (prekey_id_arg kid_arg) (\<lambda>k. and_then (prekey_id_arg reservation_arg) (\<lambda>r.
       if strip packet_arg = '''' then Inl (ValueError ''packet ID is required'') else Inr (k, r))))
     (\<lambda>(k, r).
       let hit = (\<lambda>p. pp_peer p = strip peer_arg \<and> pp_id p = k \<and> pp_state p = PReserved
                    \<and> pp_reservation p = r)
       in if count_where hit (t_peer_prekeys s) = 1
          then (s\<lparr>t_peer_prekeys := update_where hit (\<lambda>p. p\<lparr>pp_state := PUsed,
                  pp_packet := strip packet_arg, pp_used_ms := now\<rparr>) (t_peer_prekeys s)\<rparr>, Inr ())
          else (s\<lparr>t_peer_prekeys := update_where hit (\<lambda>p. p\<lparr>pp_state := PUsed,
                  pp_packet := strip packet_arg, pp_used_ms := now\<rparr>) (t_peer_prekeys s)\<rparr>,
                Inl (ValueError ''prekey reservation is unavailable'')))"

definition burn_peer_prekey ::
    "time_ms \<Rightarrow> string \<Rightarrow> string \<Rightarrow> string \<Rightarrow> store \<Rightarrow> (store, unit) outcome" where
  "burn_peer_prekey now peer_arg kid_arg reservation_arg s =
     checked s (and_then (prekey_id_arg kid_arg) (\<lambda>k. and_then (prekey_id_arg reservation_arg) (\<lambda>r.
       Inr (k, r))))
     (\<lambda>(k, r). (s\<lparr>t_peer_prekeys := update_where
         (\<lambda>p. pp_peer p = strip peer_arg \<and> pp_id p = k \<and> pp_state p = PReserved
            \<and> pp_reservation p = r)
         (\<lambda>p. p\<lparr>pp_state := PBurned, pp_used_ms := now\<rparr>) (t_peer_prekeys s)\<rparr>, Inr ()))"

definition peer_prekey_inventory :: "time_ms \<Rightarrow> string \<Rightarrow> int \<Rightarrow> store \<Rightarrow> exn + nat \<times> int" where
  "peer_prekey_inventory current peer_arg min_version s =
     and_then (prekey_peer_id peer_arg) (\<lambda>peer.
     and_then (bundle_version_arg ''invalid minimum prekey bundle version'' min_version) (\<lambda>_.
     let mine = filter (\<lambda>p. pp_peer p = peer \<and> min_version \<le> pp_bundle_version p) (t_peer_prekeys s)
     in Inr (count_where (\<lambda>p. pp_state p = PAvailable \<and> current < pp_expires_ms p) mine,
             max_or_zero (map pp_generation mine))))"

definition prekey_request_state :: "string \<Rightarrow> store \<Rightarrow> exn + int \<times> int" where
  "prekey_request_state peer_arg s =
     and_then (prekey_peer_id peer_arg) (\<lambda>peer.
       Inr (meta_get s (''prekey_request_ms:'' @ peer),
            meta_get s (''prekey_request_generation:'' @ peer)))"

definition record_prekey_request ::
    "time_ms \<Rightarrow> string \<Rightarrow> int \<Rightarrow> int option \<Rightarrow> store \<Rightarrow> (store, unit) outcome" where
  "record_prekey_request now peer_arg known requested s =
     checked s (prekey_peer_id peer_arg) (\<lambda>peer.
       (meta_set (''prekey_request_generation:'' @ peer) known
         (meta_set (''prekey_request_ms:'' @ peer)
           (case requested of None \<Rightarrow> now | Some t \<Rightarrow> t) s), Inr ()))"

section \<open>Invariant\<close>

text \<open>
  Keys are unique; a local row holds a private key exactly while it is available; generations are
  positive and do not exceed the peer's counter; a peer key has a reservation when reserved, a
  packet when used and neither while available; and it belongs to an imported bundle.
\<close>

definition local_row_ok :: "store \<Rightarrow> local_prekey_row \<Rightarrow> bool" where
  "local_row_ok s r \<longleftrightarrow> ((lk_private r \<noteq> None) = (lk_state r = LAvailable)) \<and> 1 \<le> lk_generation r
     \<and> (lk_peer r \<noteq> '''' \<longrightarrow> lk_generation r \<le> meta_get s (generation_key (lk_peer r)))"

definition peer_row_ok :: "peer_prekey_row \<Rightarrow> bool" where
  "peer_row_ok p \<longleftrightarrow> (pp_state p = PAvailable \<longrightarrow> pp_reservation p = '''' \<and> pp_packet p = '''')
     \<and> (pp_state p = PReserved \<longrightarrow> pp_reservation p \<noteq> '''') \<and> (pp_state p = PUsed \<longrightarrow> pp_packet p \<noteq> '''')"

definition bundled :: "store \<Rightarrow> peer_prekey_row \<Rightarrow> bool" where
  "bundled s p \<longleftrightarrow> (\<exists>b\<in>set (t_peer_bundles s). bundle_key b = (pp_peer p, pp_generation p))"

definition prekey_inv :: "store \<Rightarrow> bool" where
  "prekey_inv s \<longleftrightarrow>
     unique_key lk_id (t_local_prekeys s) \<and> unique_key bundle_key (t_peer_bundles s)
     \<and> unique_key peer_prekey_key (t_peer_prekeys s)
     \<and> (\<forall>r\<in>set (t_local_prekeys s). local_row_ok s r)
     \<and> (\<forall>p\<in>set (t_peer_prekeys s). peer_row_ok p \<and> bundled s p)"

lemma prekey_inv_empty: "prekey_inv empty_store"
  by (simp add: prekey_inv_def empty_store_def)

lemma prekey_id_arg_Inr: "prekey_id_arg v = Inr k \<Longrightarrow> k = lower (strip v) \<and> hex_string 32 k"
  by (auto simp: prekey_id_arg_def Let_def split: if_splits)

lemma prekey_peer_id_nonempty: "prekey_peer_id v = Inr p \<Longrightarrow> p \<noteq> ''''"
  by (auto simp: prekey_peer_id_def Let_def split: if_splits)

lemma meta_get_raise:
  "0 \<le> v \<Longrightarrow> meta_get (meta_raise k v s) q = (if q = k then max (meta_get s k) v else meta_get s q)"
  by (auto simp: meta_get_def meta_raise_def split: option.splits)

lemma meta_raise_tables [simp]:
  "t_local_prekeys (meta_raise k v s) = t_local_prekeys s"
  "t_peer_prekeys (meta_raise k v s) = t_peer_prekeys s"
  "t_peer_bundles (meta_raise k v s) = t_peer_bundles s"
  by (simp_all add: meta_raise_def)

lemma meta_set_tables [simp]:
  "t_local_prekeys (meta_set k v s) = t_local_prekeys s"
  "t_peer_prekeys (meta_set k v s) = t_peer_prekeys s"
  "t_peer_bundles (meta_set k v s) = t_peer_bundles s"
  by (simp_all add: meta_set_def)

lemma meta_get_local [simp]:
  "meta_get (s\<lparr>t_local_prekeys := x\<rparr>) = meta_get s" "meta_get (s\<lparr>t_peer_prekeys := y\<rparr>) = meta_get s"
  "meta_get (s\<lparr>t_peer_bundles := z\<rparr>) = meta_get s"
  by (simp_all add: meta_get_def fun_eq_iff)

lemma local_row_ok_local [simp]:
  "local_row_ok (s\<lparr>t_local_prekeys := x\<rparr>) = local_row_ok s"
  "local_row_ok (s\<lparr>t_peer_prekeys := y\<rparr>) = local_row_ok s"
  "local_row_ok (s\<lparr>t_peer_bundles := z\<rparr>) = local_row_ok s"
  by (simp_all add: local_row_ok_def fun_eq_iff)

lemma bundled_local [simp]:
  "bundled (s\<lparr>t_local_prekeys := x\<rparr>) = bundled s" "bundled (s\<lparr>t_peer_prekeys := y\<rparr>) = bundled s"
  "bundled (meta_raise k v s) = bundled s" "bundled (meta_set k v s) = bundled s"
  by (simp_all add: bundled_def fun_eq_iff)

lemma local_row_ok_raise: "local_row_ok s r \<Longrightarrow> 0 \<le> v \<Longrightarrow> local_row_ok (meta_raise k v s) r"
  by (auto simp: local_row_ok_def meta_get_raise)

lemma prekey_inv_meta_raise: "prekey_inv s \<Longrightarrow> 0 \<le> v \<Longrightarrow> prekey_inv (meta_raise k v s)"
  by (auto simp: prekey_inv_def local_row_ok_raise)

lemma max_or_zero_nonneg: "(\<And>x. x \<in> set xs \<Longrightarrow> 0 \<le> x) \<Longrightarrow> 0 \<le> max_or_zero xs"
proof (cases xs)
  case (Cons y ys)
  assume "\<And>x. x \<in> set xs \<Longrightarrow> 0 \<le> x"
  then have "0 \<le> y" by (simp add: Cons)
  also have "y \<le> max_or_zero xs" by (rule max_or_zero_ge) (simp add: Cons)
  finally show ?thesis .
qed (simp add: max_or_zero_def)

lemma insert_local_keys_spec:
  assumes "insert_local_keys peer ver gen created expires ks rows = Inr (rows', n)" and "unique_key lk_id rows"
  shows "unique_key lk_id rows' \<and> (\<exists>new. rows' = rows @ new \<and> length new = n \<and> (\<forall>r\<in>set new.
     lk_peer r = peer \<and> lk_generation r = gen \<and> lk_state r = LAvailable \<and> lk_private r \<noteq> None))"
  using assms
proof (induction peer ver gen created expires ks rows arbitrary: n rule: insert_local_keys.induct)
  case (2 peer ver gen created expires k pub priv ks rows)
  show ?case
  proof (cases "find (\<lambda>r. lk_id r = k) rows")
    case None
    let ?new = "\<lparr>lk_id = k, lk_peer = peer, lk_bundle_version = ver, lk_public = pub,
              lk_private = Some priv, lk_generation = gen, lk_created_ms = created,
              lk_expires_ms = expires, lk_state = LAvailable, lk_consumed_ms = 0, lk_packet = ''''\<rparr>"
    have u: "unique_key lk_id (rows @ [?new])"
      using 2(4) None by (intro unique_key_append) (auto simp: find_None_iff_all)
    obtain m where m: "insert_local_keys peer ver gen created expires ks (rows @ [?new]) = Inr (rows', m)" "n = Suc m"
      using 2(3) None by auto
    from 2(1) [OF None m(1) u] obtain new where "unique_key lk_id rows'" "rows' = (rows @ [?new]) @ new" "length new = m"
      "\<forall>r\<in>set new. lk_peer r = peer \<and> lk_generation r = gen \<and> lk_state r = LAvailable \<and> lk_private r \<noteq> None"
      by blast
    then show ?thesis using m(2) by (intro conjI exI [of _ "?new # new"]) auto
  next
    case (Some r)
    then show ?thesis using 2(2) [OF Some] 2(3,4) by (auto split: if_splits)
  qed
qed simp

lemma insert_peer_keys_spec:
  assumes "insert_peer_keys peer ver gen expires ks rows = Inr rows'" and "unique_key peer_prekey_key rows"
  shows "unique_key peer_prekey_key rows' \<and> (\<exists>new. rows' = rows @ new \<and> length new = length ks \<and>
    (\<forall>p\<in>set new. pp_peer p = peer \<and> pp_generation p = gen \<and> pp_state p = PAvailable
       \<and> pp_reservation p = '''' \<and> pp_packet p = ''''))"
  using assms
proof (induction peer ver gen expires ks rows rule: insert_peer_keys.induct)
  case (2 peer ver gen expires k pub ks rows)
  let ?new = "\<lparr>pp_peer = peer, pp_id = k, pp_bundle_version = ver, pp_public = pub,
          pp_generation = gen, pp_expires_ms = expires, pp_state = PAvailable,
          pp_reservation = '''', pp_packet = '''', pp_used_ms = 0\<rparr>"
  have fresh: "\<not> exists_where (\<lambda>r. pp_peer r = peer \<and> pp_id r = k) rows"
    and ins: "insert_peer_keys peer ver gen expires ks (rows @ [?new]) = Inr rows'"
    using 2(2) by (auto split: if_splits)
  have u: "unique_key peer_prekey_key (rows @ [?new])"
    using 2(3) fresh by (intro unique_key_append) (auto simp: peer_prekey_key_def)
  from 2(1) [OF fresh ins u] obtain new where "unique_key peer_prekey_key rows'" "rows' = (rows @ [?new]) @ new"
    "length new = length ks" "\<forall>p\<in>set new. pp_peer p = peer \<and> pp_generation p = gen \<and> pp_state p = PAvailable
       \<and> pp_reservation p = '''' \<and> pp_packet p = ''''" by blast
  then show ?case by (intro conjI exI [of _ "?new # new"]) auto
qed simp

lemma latest_bundle_None: "latest_bundle peer s = None \<Longrightarrow> b \<in> set (t_peer_bundles s) \<Longrightarrow> pb_peer b \<noteq> peer"
proof -
  assume "latest_bundle peer s = None" and b: "b \<in> set (t_peer_bundles s)"
  then have "sort_key (\<lambda>b. - pb_generation b) (filter (\<lambda>b. pb_peer b = peer) (t_peer_bundles s)) = []"
    by (auto simp: latest_bundle_def split: list.splits)
  then have "filter (\<lambda>b. pb_peer b = peer) (t_peer_bundles s) = []"
    by (metis set_empty set_sort)
  with b show ?thesis by (auto simp: filter_empty_conv)
qed

lemma sort_key_head:
  assumes "sort_key f xs = y # ys"
  shows "y \<in> set xs \<and> (\<forall>x\<in>set xs. f y \<le> f x)"
proof -
  have "set xs = set (y # ys)" by (metis assms set_sort)
  moreover have "sorted (map f (y # ys))" by (metis assms sorted_sort_key)
  ultimately show ?thesis by auto
qed

lemma latest_bundle_Some:
  assumes "latest_bundle peer s = Some b"
  shows "b \<in> set (t_peer_bundles s) \<and> pb_peer b = peer
    \<and> (\<forall>c\<in>set (t_peer_bundles s). pb_peer c = peer \<longrightarrow> pb_generation c \<le> pb_generation b)"
proof -
  obtain bs where "sort_key (\<lambda>b. - pb_generation b) (filter (\<lambda>b. pb_peer b = peer) (t_peer_bundles s)) = b # bs"
    using assms by (auto simp: latest_bundle_def split: list.splits)
  from sort_key_head [OF this] show ?thesis by auto
qed

lemma best_available_None:
  assumes "best_available peer current min_version s = None"
  shows "\<forall>q\<in>set (t_peer_prekeys s). pp_peer q = peer \<longrightarrow> pp_state q = PAvailable \<longrightarrow>
     min_version \<le> pp_bundle_version q \<longrightarrow> pp_expires_ms q \<le> current"
proof -
  have "filter (\<lambda>p. pp_peer p = peer \<and> pp_state p = PAvailable \<and> current < pp_expires_ms p
      \<and> min_version \<le> pp_bundle_version p) (t_peer_prekeys s) = []"
    using assms unfolding best_available_def
    by (subst sort_key_Nil_iff [symmetric, of _ "\<lambda>p. (- pp_bundle_version p, pp_generation p)"])
      (simp split: list.splits)
  then show ?thesis by (force simp: filter_empty_conv)
qed

lemma best_available_Some:
  assumes "best_available peer current min_version s = Some p"
  shows "p \<in> set (t_peer_prekeys s) \<and> pp_peer p = peer \<and> pp_state p = PAvailable
    \<and> current < pp_expires_ms p \<and> min_version \<le> pp_bundle_version p
    \<and> (\<forall>q\<in>set (t_peer_prekeys s). pp_peer q = peer \<and> pp_state q = PAvailable \<and> current < pp_expires_ms q
         \<and> min_version \<le> pp_bundle_version q \<longrightarrow>
         (- pp_bundle_version p, pp_generation p) \<le> (- pp_bundle_version q, pp_generation q))"
proof -
  obtain ps where "sort_key (\<lambda>p. (- pp_bundle_version p, pp_generation p))
        (filter (\<lambda>p. pp_peer p = peer \<and> pp_state p = PAvailable \<and> current < pp_expires_ms p
             \<and> min_version \<le> pp_bundle_version p) (t_peer_prekeys s)) = p # ps"
    using assms by (auto simp: best_available_def split: list.splits)
  from sort_key_head [OF this] show ?thesis by auto
qed

section \<open>The operations keep the invariant\<close>

lemma prekey_inv_peer_update:
  assumes "prekey_inv s"
    and "\<And>p. p \<in> set (t_peer_prekeys s) \<Longrightarrow> P p \<Longrightarrow> peer_row_ok p \<Longrightarrow> peer_row_ok (f p)"
    and "\<And>p. pp_peer (f p) = pp_peer p" "\<And>p. pp_id (f p) = pp_id p" "\<And>p. pp_generation (f p) = pp_generation p"
  shows "prekey_inv (s\<lparr>t_peer_prekeys := update_where P f (t_peer_prekeys s)\<rparr>)"
proof -
  have "unique_key peer_prekey_key (update_where P f (t_peer_prekeys s))"
    using assms(1,3,4) by (intro unique_key_update_where) (auto simp: prekey_inv_def peer_prekey_key_def)
  moreover have "bundled s (f p) = bundled s p" for p by (simp add: bundled_def assms(3,5))
  ultimately show ?thesis using assms(1,2) by (auto simp: prekey_inv_def in_update_where)
qed

lemma prekey_inv_local_update:
  assumes "prekey_inv s"
    and "\<And>r. r \<in> set (t_local_prekeys s) \<Longrightarrow> P r \<Longrightarrow> local_row_ok s r \<Longrightarrow> local_row_ok s (f r)"
    and "\<And>r. lk_id (f r) = lk_id r"
  shows "prekey_inv (s\<lparr>t_local_prekeys := update_where P f (t_local_prekeys s)\<rparr>)"
proof -
  have "unique_key lk_id (update_where P f (t_local_prekeys s))"
    using assms(1,3) by (intro unique_key_update_where) (auto simp: prekey_inv_def)
  then show ?thesis using assms(1,2) by (auto simp: prekey_inv_def in_update_where)
qed

lemma add_local_prekey_batch_Inr:
  assumes "add_local_prekey_batch keys peer ver gen created expires s = (s', Inr r)"
  shows "\<exists>p ks rows n. prekey_peer_id peer = Inr p \<and> normalize_local_keys [] keys = Inr ks \<and> 1 \<le> gen
    \<and> meta_get s (generation_key p) \<le> gen \<and> gen \<le> meta_get s (generation_key p) + 1
    \<and> insert_local_keys p ver gen created expires ks (t_local_prekeys s) = Inr (rows, n)
    \<and> s' = meta_raise (generation_key p) gen (s\<lparr>t_local_prekeys := rows\<rparr>)
    \<and> r = (p, gen, n, length ks)"
proof -
  obtain p ks where a: "prekey_peer_id peer = Inr p" "normalize_local_keys [] keys = Inr ks" "1 \<le> gen"
    and b: "and_then (local_batch_body p ver gen created expires ks s) (\<lambda>(s', n).
          Inr (s', (p, gen, n, length ks))) = Inr (s', r)"
    using assms by (auto simp: add_local_prekey_batch_def checked_Inr transaction_Inr)
  from b obtain n where c: "local_batch_body p ver gen created expires ks s = Inr (s', n)" "r = (p, gen, n, length ks)"
    by auto
  from c(1) obtain rows where "insert_local_keys p ver gen created expires ks (t_local_prekeys s) = Inr (rows, n)"
    "s' = meta_raise (generation_key p) gen (s\<lparr>t_local_prekeys := rows\<rparr>)"
    "\<not> gen < meta_get s (generation_key p)" "\<not> meta_get s (generation_key p) + 1 < gen"
    unfolding local_batch_body_def Let_def guard_eq_Inr by auto
  then show ?thesis using a c(2) by (intro exI conjI) auto
qed

lemma add_local_prekey_batch_Inl:
  "snd (add_local_prekey_batch keys peer ver gen created expires s) = Inl e \<Longrightarrow>
   fst (add_local_prekey_batch keys peer ver gen created expires s) = s"
  by (auto simp: add_local_prekey_batch_def checked_def dest: transaction_rollback split: sum.splits prod.splits)

lemma prekey_inv_add_batch [keep_inv]:
  assumes inv: "prekey_inv s"
  shows "prekey_inv (fst (add_local_prekey_batch keys peer ver gen created expires s))"
proof (rule outcome_preserves [where P = prekey_inv, OF inv add_local_prekey_batch_Inl])
  fix s' r assume "add_local_prekey_batch keys peer ver gen created expires s = (s', Inr r)"
  then obtain p ks rows n where p: "p \<noteq> ''''" and gen: "1 \<le> gen"
    and ins: "insert_local_keys p ver gen created expires ks (t_local_prekeys s) = Inr (rows, n)"
    and s': "s' = meta_raise (generation_key p) gen (s\<lparr>t_local_prekeys := rows\<rparr>)"
    using add_local_prekey_batch_Inr prekey_peer_id_nonempty by meson
  from insert_local_keys_spec [OF ins] inv obtain new where u: "unique_key lk_id rows" and rows: "rows = t_local_prekeys s @ new"
    and new: "\<forall>r\<in>set new. lk_peer r = p \<and> lk_generation r = gen \<and> lk_state r = LAvailable \<and> lk_private r \<noteq> None"
    by (auto simp: prekey_inv_def)
  have "local_row_ok (meta_raise (generation_key p) gen s) r" if "r \<in> set new" for r
    using new that gen by (auto simp: local_row_ok_def meta_get_raise)
  moreover have "local_row_ok (meta_raise k gen (s\<lparr>t_local_prekeys := x\<rparr>)) = local_row_ok (meta_raise k gen s)" for k x
    by (simp add: local_row_ok_def meta_get_def meta_raise_def fun_eq_iff)
  ultimately show "prekey_inv s'"
    using inv gen u by (auto simp: s' prekey_inv_def rows local_row_ok_raise)
qed

lemma prekey_inv_scope [keep_inv]:
  assumes inv: "prekey_inv s"
  shows "prekey_inv (fst (scope_legacy_local_prekeys peer s))"
proof (cases "prekey_peer_id peer")
  case (Inr p)
  let ?rows = "update_where (\<lambda>r. lk_peer r = '''') (\<lambda>r. r\<lparr>lk_peer := p\<rparr>) (t_local_prekeys s)"
  let ?gen = "max_or_zero (map lk_generation (filter (\<lambda>r. lk_peer r = p) ?rows))"
  have pos: "\<forall>r\<in>set ?rows. 1 \<le> lk_generation r"
    using inv by (auto simp: prekey_inv_def local_row_ok_def in_update_where)
  then have gen: "0 \<le> ?gen" by (intro max_or_zero_nonneg) force
  have le: "lk_generation r \<le> ?gen" if "r \<in> set ?rows" "lk_peer r = p" for r
    using that by (intro max_or_zero_ge) auto
  have "local_row_ok (meta_raise (generation_key p) ?gen (s\<lparr>t_local_prekeys := ?rows\<rparr>)) r" if r: "r \<in> set ?rows" for r
  proof -
    obtain r0 where "r0 \<in> set (t_local_prekeys s)"
      "(lk_peer r0 = '''' \<and> r = r0\<lparr>lk_peer := p\<rparr>) \<or> (lk_peer r0 \<noteq> '''' \<and> r = r0)"
      using r by (auto simp: in_update_where)
    moreover from this(1) have "local_row_ok s r0" using inv by (auto simp: prekey_inv_def)
    ultimately show ?thesis
      using gen le [OF r] by (auto simp: local_row_ok_def meta_get_raise le_max_iff_disj)
  qed
  moreover have "unique_key lk_id ?rows" using inv by (intro unique_key_update_where) (auto simp: prekey_inv_def)
  ultimately have "prekey_inv (meta_raise (generation_key p) ?gen (s\<lparr>t_local_prekeys := ?rows\<rparr>))"
    using inv by (auto simp: prekey_inv_def)
  with inv show ?thesis by (simp add: scope_legacy_local_prekeys_def Inr Let_def)
qed (use inv in \<open>simp add: scope_legacy_local_prekeys_def\<close>)

lemma prekey_inv_retire [keep_inv]:
  assumes inv: "prekey_inv s"
  shows "prekey_inv (fst (retire_unscoped_local_prekeys now peers s))"
proof (cases "map_result prekey_peer_id peers")
  case (Inr ps)
  let ?gen = "max_or_zero (map lk_generation (unscoped_rows s))"
  have gen: "0 \<le> ?gen"
    using inv by (intro max_or_zero_nonneg) (force simp: unscoped_rows_def prekey_inv_def local_row_ok_def)
  let ?s1 = "s\<lparr>t_local_prekeys := update_where (\<lambda>r. lk_peer r = '''' \<and> lk_private r \<noteq> None)
      (\<lambda>r. r\<lparr>lk_private := None, lk_state := LRetired, lk_consumed_ms := now\<rparr>) (t_local_prekeys s)\<rparr>"
  have "prekey_inv ?s1" using inv by (rule prekey_inv_local_update) (auto simp: local_row_ok_def)
  moreover have "prekey_inv (fold (\<lambda>peer. meta_raise (generation_key peer) ?gen) qs t)" if "prekey_inv t" for qs t
    using that by (rule fold_preserves) (rule prekey_inv_meta_raise [OF _ gen])
  ultimately show ?thesis
    using inv by (simp add: retire_unscoped_local_prekeys_def Inr Let_def)
qed (use inv in \<open>simp add: retire_unscoped_local_prekeys_def\<close>)

lemma import_bundle_cases:
  assumes "import_bundle_body stamp a s = Inr (s', n, dup)"
  obtains (duplicate) b where "dup" "s' = s" "n = 0" "latest_bundle (ba_peer a) s = Some b"
      "pb_generation b = ba_generation a" "pb_hash b = ba_hash a" "pb_version b = ba_version a"
      "pb_intended_peer b = ba_intended a"
  | (fresh) rows where "\<not> dup" "n = length (ba_keys a)"
      "insert_peer_keys (ba_peer a) (ba_version a) (ba_generation a) (ba_expires_ms a) (ba_keys a) (t_peer_prekeys s) = Inr rows"
      "s' = s\<lparr>t_peer_prekeys := rows, t_peer_bundles := t_peer_bundles s @
         [\<lparr>pb_peer = ba_peer a, pb_generation = ba_generation a, pb_version = ba_version a,
           pb_intended_peer = ba_intended a, pb_hash = ba_hash a, pb_created_ms = ba_created_ms a,
           pb_expires_ms = ba_expires_ms a, pb_imported_ms = stamp\<rparr>]\<rparr>"
      "\<forall>b\<in>set (t_peer_bundles s). pb_peer b = ba_peer a \<longrightarrow> pb_generation b < ba_generation a"
proof (cases "latest_bundle (ba_peer a) s")
  case None
  then show thesis
    using assms that(2) latest_bundle_None [OF None] by (auto simp: import_bundle_body_def Let_def)
next
  case (Some b)
  show thesis
  proof (cases "ba_generation a = pb_generation b")
    case True
    then show thesis using assms Some that(1) [of b] by (auto simp: import_bundle_body_def Let_def)
  next
    case False
    with assms Some have "pb_generation b < ba_generation a"
      by (auto simp: import_bundle_body_def Let_def)
    with latest_bundle_Some [OF Some] have
      "\<forall>b\<in>set (t_peer_bundles s). pb_peer b = ba_peer a \<longrightarrow> pb_generation b < ba_generation a" by force
    then show thesis using assms Some False that(2) by (auto simp: import_bundle_body_def Let_def)
  qed
qed

lemma import_peer_prekey_bundle_Inr:
  "import_peer_prekey_bundle now stamp a s = (s', Inr r) \<longleftrightarrow>
     (\<exists>b. bundle_args_check now a = Inr b \<and> import_bundle_body stamp b s = Inr (s', r))"
  by (auto simp: import_peer_prekey_bundle_def checked_Inr transaction_Inr)

lemma import_peer_prekey_bundle_Inl:
  "snd (import_peer_prekey_bundle now stamp a s) = Inl e \<Longrightarrow> fst (import_peer_prekey_bundle now stamp a s) = s"
  by (auto simp: import_peer_prekey_bundle_def checked_def dest: transaction_rollback split: sum.splits)

lemma prekey_inv_import [keep_inv]:
  assumes inv: "prekey_inv s"
  shows "prekey_inv (fst (import_peer_prekey_bundle now stamp a s))"
proof (rule outcome_preserves [where P = prekey_inv, OF inv import_peer_prekey_bundle_Inl])
  fix s' r assume "import_peer_prekey_bundle now stamp a s = (s', Inr r)"
  then obtain b where "import_bundle_body stamp b s = Inr (s', fst r, snd r)"
    by (auto simp: import_peer_prekey_bundle_Inr)
  then show "prekey_inv s'"
  proof (cases rule: import_bundle_cases)
    case (fresh rows)
    obtain new where u: "unique_key peer_prekey_key rows" and rows: "rows = t_peer_prekeys s @ new"
      and new: "\<forall>p\<in>set new. pp_peer p = ba_peer b \<and> pp_generation p = ba_generation b \<and> pp_state p = PAvailable
        \<and> pp_reservation p = '''' \<and> pp_packet p = ''''"
      using insert_peer_keys_spec [OF fresh(3)] inv by (auto simp: prekey_inv_def)
    have "unique_key bundle_key (t_peer_bundles s')"
      unfolding fresh(4) using inv fresh(5)
      by (simp, intro unique_key_append) (auto simp: prekey_inv_def bundle_key_def)
    moreover have "peer_row_ok p \<and> bundled s' p" if "p \<in> set rows" for p
      using that inv new unfolding rows fresh(4)
      by (auto simp: prekey_inv_def bundled_def peer_row_ok_def bundle_key_def)
    ultimately show ?thesis using inv u fresh(4) by (auto simp: prekey_inv_def local_row_ok_def meta_get_def)
  qed (use inv in simp)
qed

lemma reserve_peer_prekey_Inr:
  assumes "reserve_peer_prekey now rnd peer res minv s = (s', Inr g)"
  obtains r where "hex_string 32 r" "reserve_body now (strip peer) r (strip res \<noteq> '''') minv s = Inr (s', g)"
proof (cases "strip res = ''''")
  case True
  with assms show thesis using that [of "token_hex rnd"] token_hex_wf
    by (auto simp: reserve_peer_prekey_def checked_Inr transaction_Inr)
next
  case False
  with assms show thesis using that
    by (auto simp: reserve_peer_prekey_def checked_Inr transaction_Inr dest: prekey_id_arg_Inr)
qed

lemma reserve_peer_prekey_Inl:
  "snd (reserve_peer_prekey now rnd peer res minv s) = Inl e \<Longrightarrow>
   fst (reserve_peer_prekey now rnd peer res minv s) = s"
  by (auto simp: reserve_peer_prekey_def checked_def dest: transaction_rollback split: sum.splits prod.splits)

lemma reserve_body_cases:
  assumes "reserve_body now peer r reuse minv s = Inr (s', g)"
  obtains (kept) p where "s' = s" "g = Some (grant_of r p)" "p \<in> set (t_peer_prekeys s)" "pp_peer p = peer"
      "pp_state p = PReserved" "pp_reservation p = r" "now < pp_expires_ms p" "minv \<le> pp_bundle_version p"
  | (empty) "s' = s" "g = None" "best_available peer now minv s = None"
  | (fresh) p where "g = Some (grant_of r p)" "best_available peer now minv s = Some p"
      "s' = s\<lparr>t_peer_prekeys := update_where
          (\<lambda>q. pp_peer q = peer \<and> pp_id q = pp_id p \<and> pp_state q = PAvailable)
          (\<lambda>q. q\<lparr>pp_state := PReserved, pp_reservation := r, pp_used_ms := now\<rparr>) (t_peer_prekeys s)\<rparr>"
proof -
  let ?old = "if reuse then find (\<lambda>p. pp_peer p = peer \<and> pp_state p = PReserved \<and> pp_reservation p = r
                    \<and> now < pp_expires_ms p \<and> minv \<le> pp_bundle_version p) (t_peer_prekeys s) else None"
  show thesis
  proof (cases ?old)
    case (Some p)
    then have f: "p \<in> set (t_peer_prekeys s) \<and> pp_peer p = peer \<and> pp_state p = PReserved
        \<and> pp_reservation p = r \<and> now < pp_expires_ms p \<and> minv \<le> pp_bundle_version p"
      by (cases reuse) (auto dest!: find_SomeD)
    have "s' = s \<and> g = Some (grant_of r p)"
      using assms unfolding reserve_body_def Some by simp
    with f show thesis using kept [of p] by blast
  next
    case None
    note body = assms [unfolded reserve_body_def None option.case]
    show thesis
    proof (cases "best_available peer now minv s")
      case None
      then show thesis using body empty by simp
    next
      case (Some p)
      then show thesis using body fresh [of p] by (simp add: Let_def split: if_splits)
    qed
  qed
qed

lemma prekey_inv_reserve [keep_inv]:
  assumes inv: "prekey_inv s"
  shows "prekey_inv (fst (reserve_peer_prekey now rnd peer res minv s))"
proof (rule outcome_preserves [where P = prekey_inv, OF inv reserve_peer_prekey_Inl])
  fix s' g assume "reserve_peer_prekey now rnd peer res minv s = (s', Inr g)"
  then obtain r where r: "hex_string 32 r" "reserve_body now (strip peer) r (strip res \<noteq> '''') minv s = Inr (s', g)"
    by (rule reserve_peer_prekey_Inr)
  then have "r \<noteq> ''''" using hex_string_nonempty by auto
  from r(2) show "prekey_inv s'"
  proof (cases rule: reserve_body_cases)
    case (fresh p)
    show ?thesis unfolding fresh(3)
      by (rule prekey_inv_peer_update [OF inv]) (auto simp: peer_row_ok_def \<open>r \<noteq> ''''\<close>)
  qed (use inv in simp_all)
qed

lemma prekey_inv_bind [keep_inv]:
  "prekey_inv s \<Longrightarrow> prekey_inv (fst (bind_peer_prekey now peer kid res pkt s))"
  unfolding bind_peer_prekey_def
  by (rule checked_preserves [where P = prekey_inv])
    (auto simp: Let_def peer_row_ok_def intro!: prekey_inv_peer_update split: if_splits)

lemma prekey_inv_burn [keep_inv]:
  "prekey_inv s \<Longrightarrow> prekey_inv (fst (burn_peer_prekey now peer kid res s))"
  unfolding burn_peer_prekey_def
  by (rule checked_preserves [where P = prekey_inv])
    (auto simp: peer_row_ok_def intro!: prekey_inv_peer_update)

lemma prekey_inv_request [keep_inv]:
  assumes "prekey_inv s"
  shows "prekey_inv (fst (record_prekey_request now peer known requested s))"
proof (cases "prekey_peer_id peer")
  case (Inr p)
  have "meta_get (meta_set (''prekey_request_generation:'' @ p) x (meta_set (''prekey_request_ms:'' @ p) y s))
      (generation_key q) = meta_get s (generation_key q)" for x y q
    by (simp add: meta_get_def meta_set_def generation_key_def)
  then have "local_row_ok (meta_set (''prekey_request_generation:'' @ p) x (meta_set (''prekey_request_ms:'' @ p) y s))
      = local_row_ok s" for x y
    by (simp add: local_row_ok_def fun_eq_iff)
  with assms Inr show ?thesis by (simp add: record_prekey_request_def prekey_inv_def)
qed (use assms in \<open>simp add: record_prekey_request_def\<close>)

section \<open>Facts that last\<close>

text \<open>A local one-time key that was erased, and a peer key that belongs to one reservation.\<close>

definition erased :: "string \<Rightarrow> store \<Rightarrow> bool" where
  "erased k s = exists_where (\<lambda>r. lk_id r = k \<and> lk_private r = None) (t_local_prekeys s)"

definition held_by :: "string \<times> string \<times> string \<Rightarrow> store \<Rightarrow> bool" where
  "held_by k s = (case k of (peer, kid, r) \<Rightarrow> exists_where (\<lambda>p. pp_peer p = peer \<and> pp_id p = kid
     \<and> pp_state p \<noteq> PAvailable \<and> (pp_state p = PReserved \<longrightarrow> pp_reservation p = r)) (t_peer_prekeys s))"

lemma erased_update:
  assumes "erased k s" and "\<And>r. lk_private r = None \<Longrightarrow> lk_private (f r) = None" "\<And>r. lk_id (f r) = lk_id r"
  shows "erased k (s\<lparr>t_local_prekeys := update_where P f (t_local_prekeys s)\<rparr>)"
  using assms unfolding erased_def exists_where_iff by (auto intro!: bex_update_where)

lemma held_by_update:
  assumes "held_by k s" and "\<And>p. pp_peer (f p) = pp_peer p" "\<And>p. pp_id (f p) = pp_id p"
    and "\<And>p. P p \<Longrightarrow> pp_state p \<noteq> PAvailable \<Longrightarrow> pp_state (f p) \<noteq> PAvailable \<and> pp_state (f p) \<noteq> PReserved"
  shows "held_by k (s\<lparr>t_peer_prekeys := update_where P f (t_peer_prekeys s)\<rparr>)"
proof -
  obtain peer kid r where k: "k = (peer, kid, r)" by (cases k)
  obtain p where p: "p \<in> set (t_peer_prekeys s)" "pp_peer p = peer" "pp_id p = kid" "pp_state p \<noteq> PAvailable"
    "pp_state p = PReserved \<longrightarrow> pp_reservation p = r"
    using assms(1) by (auto simp: held_by_def k)
  let ?q = "if P p then f p else p"
  have "?q \<in> set (update_where P f (t_peer_prekeys s))" using p(1) by (auto simp: in_update_where)
  moreover have "pp_peer ?q = peer \<and> pp_id ?q = kid \<and> pp_state ?q \<noteq> PAvailable
     \<and> (pp_state ?q = PReserved \<longrightarrow> pp_reservation ?q = r)"
    using p assms(2-4) by auto
  ultimately show ?thesis unfolding held_by_def k by auto
qed

lemma erased_insert:
  assumes "insert_local_keys peer ver gen created expires ks (t_local_prekeys s) = Inr (rows, n)"
    and "prekey_inv s" and "erased k s"
  shows "erased k (meta_raise q v (s\<lparr>t_local_prekeys := rows\<rparr>))"
  using insert_local_keys_spec [OF assms(1)] assms(2,3) by (auto simp: erased_def prekey_inv_def)

section \<open>Calls on the prekey tables\<close>

datatype prekey_call =
    AddLocalBatch "local_key list" string int int time_ms time_ms
  | ScopeLegacy string
  | RetireUnscoped time_ms "string list"
  | ImportBundle time_ms time_ms bundle_args
  | ReservePrekey time_ms "128 word" string string int
  | BindPrekey time_ms string string string string
  | BurnPrekey time_ms string string string
  | RecordRequest time_ms string int "int option"

fun prekey_step :: "prekey_call \<Rightarrow> store \<Rightarrow> store" where
  "prekey_step (AddLocalBatch keys peer ver gen created expires) s =
     fst (add_local_prekey_batch keys peer ver gen created expires s)"
| "prekey_step (ScopeLegacy peer) s = fst (scope_legacy_local_prekeys peer s)"
| "prekey_step (RetireUnscoped now peers) s = fst (retire_unscoped_local_prekeys now peers s)"
| "prekey_step (ImportBundle now stamp a) s = fst (import_peer_prekey_bundle now stamp a s)"
| "prekey_step (ReservePrekey now rnd peer res minv) s = fst (reserve_peer_prekey now rnd peer res minv s)"
| "prekey_step (BindPrekey now peer kid res pkt) s = fst (bind_peer_prekey now peer kid res pkt s)"
| "prekey_step (BurnPrekey now peer kid res) s = fst (burn_peer_prekey now peer kid res s)"
| "prekey_step (RecordRequest now peer known requested) s =
     fst (record_prekey_request now peer known requested s)"

lemma prekey_inv_step: "prekey_inv s \<Longrightarrow> prekey_inv (prekey_step c s)"
  by (cases c) (auto intro: keep_inv)

lemma erased_same_table: "t_local_prekeys s' = t_local_prekeys s \<Longrightarrow> erased k s' = erased k s"
  by (simp add: erased_def)

lemma held_by_same_table: "t_peer_prekeys s' = t_peer_prekeys s \<Longrightarrow> held_by k s' = held_by k s"
  by (simp add: held_by_def)

lemma fold_raise_tables [simp]:
  "t_local_prekeys (fold (\<lambda>p. meta_raise (h p) v) ps s) = t_local_prekeys s"
  "t_peer_prekeys (fold (\<lambda>p. meta_raise (h p) v) ps s) = t_peer_prekeys s"
  by (induction ps arbitrary: s) simp_all

lemma erased_raise [simp]: "erased k (meta_raise q v s) = erased k s"
  by (simp add: erased_def)

text \<open>Operations of the peer side leave the local table alone and the other way round.\<close>

lemma local_table_frame [simp]:
  "t_local_prekeys (fst (import_peer_prekey_bundle now stamp a s)) = t_local_prekeys s"
  "t_local_prekeys (fst (reserve_peer_prekey now rnd peer res minv s)) = t_local_prekeys s"
  "t_local_prekeys (fst (bind_peer_prekey now peer kid res pkt s)) = t_local_prekeys s"
  "t_local_prekeys (fst (burn_peer_prekey now peer kid res s)) = t_local_prekeys s"
  "t_local_prekeys (fst (record_prekey_request now peer known requested s)) = t_local_prekeys s"
proof -
  show "t_local_prekeys (fst (import_peer_prekey_bundle now stamp a s)) = t_local_prekeys s"
    by (rule outcome_preserves [OF _ import_peer_prekey_bundle_Inl])
      (auto simp: import_peer_prekey_bundle_Inr elim!: import_bundle_cases)
  show "t_local_prekeys (fst (reserve_peer_prekey now rnd peer res minv s)) = t_local_prekeys s"
    by (rule outcome_preserves [OF _ reserve_peer_prekey_Inl])
      (auto elim!: reserve_peer_prekey_Inr reserve_body_cases)
qed (auto simp: bind_peer_prekey_def burn_peer_prekey_def record_prekey_request_def checked_def Let_def
    split: sum.splits if_splits)

lemma peer_table_frame [simp]:
  "t_peer_prekeys (fst (add_local_prekey_batch keys peer ver gen created expires s)) = t_peer_prekeys s"
  "t_peer_prekeys (fst (scope_legacy_local_prekeys peer s)) = t_peer_prekeys s"
  "t_peer_prekeys (fst (retire_unscoped_local_prekeys now peers s)) = t_peer_prekeys s"
  "t_peer_prekeys (fst (record_prekey_request now peer known requested s)) = t_peer_prekeys s"
proof -
  show "t_peer_prekeys (fst (add_local_prekey_batch keys peer ver gen created expires s)) = t_peer_prekeys s"
    by (rule outcome_preserves [OF _ add_local_prekey_batch_Inl])
      (auto dest!: add_local_prekey_batch_Inr)
qed (auto simp: scope_legacy_local_prekeys_def retire_unscoped_local_prekeys_def record_prekey_request_def
    checked_def Let_def split: sum.splits if_splits)

lemma erased_prekey_step: "prekey_inv s \<Longrightarrow> erased k s \<Longrightarrow> erased k (prekey_step c s)"
proof (cases c)
  case (AddLocalBatch keys peer ver gen created expires)
  assume inv: "prekey_inv s" and e: "erased k s"
  show ?thesis unfolding AddLocalBatch prekey_step.simps
  proof (rule outcome_preserves [where P = "erased k", OF e add_local_prekey_batch_Inl])
    fix s' r assume "add_local_prekey_batch keys peer ver gen created expires s = (s', Inr r)"
    then show "erased k s'" using erased_insert [OF _ inv e] by (auto dest!: add_local_prekey_batch_Inr)
  qed
next
  case (ScopeLegacy peer)
  assume "erased k s"
  then show ?thesis
    by (auto simp: ScopeLegacy scope_legacy_local_prekeys_def checked_def Let_def
        intro!: erased_update split: sum.splits if_splits)
next
  case (RetireUnscoped now peers)
  assume e: "erased k s"
  have "erased k (fold (\<lambda>p. meta_raise (h p) v) ps t) = erased k t" for h v ps t by (rule erased_same_table) simp
  with e show ?thesis
    by (auto simp: RetireUnscoped retire_unscoped_local_prekeys_def checked_def Let_def
        intro!: erased_update split: sum.splits if_splits)
qed (simp_all add: erased_def)

lemma held_by_reserve:
  assumes inv: "prekey_inv s" and h: "held_by k s" and r: "reserve_body now peer q reuse minv s = Inr (s', g)"
  shows "held_by k s'"
  using r
proof (cases rule: reserve_body_cases)
  case (fresh p)
  show ?thesis unfolding fresh(3) by (rule held_by_update [OF h]) auto
qed (use h in simp_all)

lemma held_by_import:
  assumes "import_bundle_body stamp b s = Inr (s', n, dup)" and "prekey_inv s" and "held_by k s"
  shows "held_by k s'"
  using assms(1)
proof (cases rule: import_bundle_cases)
  case (fresh rows)
  from insert_peer_keys_spec [OF fresh(3)] assms(2) obtain new where "rows = t_peer_prekeys s @ new"
    by (auto simp: prekey_inv_def)
  with assms(3) show ?thesis unfolding fresh(4) by (auto simp: held_by_def)
qed (use assms(3) in simp)

lemma held_by_prekey_step: "prekey_inv s \<Longrightarrow> held_by k s \<Longrightarrow> held_by k (prekey_step c s)"
proof (cases c)
  case (ImportBundle now stamp a)
  assume inv: "prekey_inv s" and h: "held_by k s"
  show ?thesis unfolding ImportBundle prekey_step.simps
    by (rule outcome_preserves [where P = "held_by k", OF h import_peer_prekey_bundle_Inl])
      (auto simp: import_peer_prekey_bundle_Inr intro: held_by_import [OF _ inv h])
next
  case (ReservePrekey now rnd peer res minv)
  assume inv: "prekey_inv s" and h: "held_by k s"
  show ?thesis unfolding ReservePrekey prekey_step.simps
    by (rule outcome_preserves [where P = "held_by k", OF h reserve_peer_prekey_Inl])
      (auto elim!: reserve_peer_prekey_Inr intro: held_by_reserve [OF inv h])
next
  case (BindPrekey now peer kid res pkt)
  assume "held_by k s"
  then show ?thesis
    by (auto simp: BindPrekey bind_peer_prekey_def checked_def Let_def intro!: held_by_update split: sum.splits)
next
  case (BurnPrekey now peer kid res)
  assume "held_by k s"
  then show ?thesis
    by (auto simp: BurnPrekey burn_peer_prekey_def checked_def intro!: held_by_update split: sum.splits)
qed (simp_all add: held_by_def)

section \<open>Properties\<close>

lemma reserve_grant_held:
  assumes inv: "prekey_inv s" and "reserve_peer_prekey now rnd peer res minv s = (s', Inr (Some g))"
  shows "held_by (gr_peer g, gr_id g, gr_reservation g) s'"
proof -
  obtain r where "reserve_body now (strip peer) r (strip res \<noteq> '''') minv s = Inr (s', Some g)"
    using assms(2) by (rule reserve_peer_prekey_Inr)
  then show ?thesis
  proof (cases rule: reserve_body_cases)
    case (kept p)
    then show ?thesis by (auto simp: held_by_def grant_of_def)
  next
    case (fresh p)
    let ?q = "p\<lparr>pp_state := PReserved, pp_reservation := r, pp_used_ms := now\<rparr>"
    have p: "p \<in> set (t_peer_prekeys s)" "pp_peer p = strip peer" "pp_state p = PAvailable"
      using best_available_Some [OF fresh(2)] by auto
    then have "?q \<in> set (t_peer_prekeys s')"
      by (auto simp: fresh(3) set_update_where image_iff intro!: bexI [of _ p])
    then show ?thesis using fresh(1) p(2)
      unfolding held_by_def by (simp add: grant_of_def) (rule bexI [of _ ?q], simp_all)
  qed simp
qed

lemma reserve_respects_holder:
  assumes inv: "prekey_inv s" and h: "held_by (gr_peer g, gr_id g, r) s"
    and "reserve_peer_prekey now rnd peer res minv s = (s', Inr (Some g))"
  shows "gr_reservation g = r"
proof -
  obtain q where "reserve_body now (strip peer) q (strip res \<noteq> '''') minv s = Inr (s', Some g)"
    using assms(3) by (rule reserve_peer_prekey_Inr)
  then obtain p where p: "p \<in> set (t_peer_prekeys s)" "g = grant_of q p"
    and st: "pp_state p = PAvailable \<or> (pp_state p = PReserved \<and> pp_reservation p = q)"
    by (cases rule: reserve_body_cases) (auto dest: best_available_Some)
  obtain p' where p': "p' \<in> set (t_peer_prekeys s)" "peer_prekey_key p' = peer_prekey_key p"
    "pp_state p' \<noteq> PAvailable" "pp_state p' = PReserved \<longrightarrow> pp_reservation p' = r"
    using h p(2) by (auto simp: held_by_def grant_of_def peer_prekey_key_def)
  then have "p' = p" using inv p(1) unique_keyD unfolding prekey_inv_def by metis
  with p' st p(2) show ?thesis by (auto simp: grant_of_def)
qed

text \<open>
  Which peer key a reservation gets.  A key handed out by \<open>reserve_peer_prekey\<close> belongs to the
  peer, is unexpired and of at least the requested bundle version; unless it is the caller's own
  earlier reservation it was available and no other usable key has a higher bundle version, or
  the same version and an older generation; nothing is handed out only when no key is usable.
\<close>

theorem reserve_peer_prekey_choice:
  assumes "reserve_peer_prekey now rnd peer res minv s = (s', Inr g)"
  shows "case g of
      None \<Rightarrow> s' = s \<and> (\<forall>q\<in>set (t_peer_prekeys s). pp_peer q = strip peer \<longrightarrow> pp_state q = PAvailable \<longrightarrow>
                 minv \<le> pp_bundle_version q \<longrightarrow> pp_expires_ms q \<le> now)
    | Some k \<Rightarrow> \<exists>p\<in>set (t_peer_prekeys s). gr_peer k = strip peer \<and> gr_id k = pp_id p \<and> gr_public k = pp_public p
        \<and> pp_peer p = strip peer \<and> now < pp_expires_ms p \<and> minv \<le> pp_bundle_version p
        \<and> (pp_state p = PReserved \<and> pp_reservation p = gr_reservation k \<and> s' = s
           \<or> pp_state p = PAvailable \<and> (\<forall>q\<in>set (t_peer_prekeys s). pp_peer q = strip peer \<and> pp_state q = PAvailable
               \<and> now < pp_expires_ms q \<and> minv \<le> pp_bundle_version q \<longrightarrow>
               pp_bundle_version q < pp_bundle_version p
               \<or> (pp_bundle_version q = pp_bundle_version p \<and> pp_generation p \<le> pp_generation q)))"
proof -
  obtain r where "reserve_body now (strip peer) r (strip res \<noteq> '''') minv s = Inr (s', g)"
    using assms by (rule reserve_peer_prekey_Inr)
  then show ?thesis
  proof (cases rule: reserve_body_cases)
    case (kept p)
    then show ?thesis unfolding kept(2) option.case by (intro bexI [of _ p]) (simp_all add: grant_of_def)
  next
    case empty
    note none = best_available_None [OF empty(3)]
    show ?thesis unfolding empty(1,2) option.case using none by simp
  next
    case (fresh p)
    note best = best_available_Some [OF fresh(2)]
    have "pp_bundle_version q < pp_bundle_version p
        \<or> (pp_bundle_version q = pp_bundle_version p \<and> pp_generation p \<le> pp_generation q)"
      if "q \<in> set (t_peer_prekeys s)" "pp_peer q = strip peer \<and> pp_state q = PAvailable
        \<and> now < pp_expires_ms q \<and> minv \<le> pp_bundle_version q" for q
    proof -
      have "(- pp_bundle_version p, pp_generation p) \<le> (- pp_bundle_version q, pp_generation q)"
        using best that by blast
      then show ?thesis by auto
    qed
    with best show ?thesis unfolding fresh(1) option.case
      by (intro bexI [of _ p]) (simp_all add: grant_of_def)
  qed
qed

text \<open>
  No rollback and no equivocation of peer bundles.  An accepted bundle is either new, and then
  of a higher generation than every bundle recorded for the peer and with keys that were never
  recorded for it, or it repeats the latest generation with the same hash, version and addressee,
  and then changes nothing.
\<close>

theorem import_no_rollback:
  assumes "prekey_inv s" and "import_peer_prekey_bundle now stamp a s = (s', Inr (n, dup))"
  shows "\<exists>b. bundle_args_check now a = Inr b
    \<and> (if dup then s' = s \<and> n = 0 \<and> (\<exists>l\<in>set (t_peer_bundles s). pb_peer l = ba_peer b
            \<and> pb_generation l = ba_generation b \<and> pb_hash l = ba_hash b \<and> pb_version l = ba_version b
            \<and> pb_intended_peer l = ba_intended b)
       else (\<forall>l\<in>set (t_peer_bundles s). pb_peer l = ba_peer b \<longrightarrow> pb_generation l < ba_generation b)
            \<and> (\<exists>new. t_peer_prekeys s' = t_peer_prekeys s @ new \<and> length new = n
                 \<and> (\<forall>p\<in>set new. pp_peer p = ba_peer b \<and> pp_state p = PAvailable
                      \<and> (\<forall>q\<in>set (t_peer_prekeys s). peer_prekey_key q \<noteq> peer_prekey_key p))))"
proof -
  obtain b where b: "bundle_args_check now a = Inr b" and i: "import_bundle_body stamp b s = Inr (s', n, dup)"
    using assms(2) by (auto simp: import_peer_prekey_bundle_Inr)
  from i show ?thesis
  proof (cases rule: import_bundle_cases)
    case (duplicate l)
    then show ?thesis using b latest_bundle_Some [OF duplicate(4)] by (intro exI [of _ b]) auto
  next
    case (fresh rows)
    obtain new where u: "unique_key peer_prekey_key (t_peer_prekeys s @ new)" and rows: "rows = t_peer_prekeys s @ new"
      and new: "length new = n" "\<forall>p\<in>set new. pp_peer p = ba_peer b \<and> pp_state p = PAvailable"
      using insert_peer_keys_spec [OF fresh(3)] assms(1) fresh(2) by (auto simp: prekey_inv_def)
    have "peer_prekey_key q \<noteq> peer_prekey_key p" if "p \<in> set new" "q \<in> set (t_peer_prekeys s)" for p q
      using u that by (auto simp: unique_key_def)
    then show ?thesis using b fresh new rows by (intro exI [of _ b]) auto
  qed
qed

text \<open>
  Local generations advance by one.  A batch is accepted only for the latest recorded
  generation (a retry of it) or the next one, and afterwards the next generation is one above the
  accepted batch.
\<close>

theorem local_generation_sequence:
  assumes "add_local_prekey_batch keys peer ver gen created expires s = (s', Inr r)"
  shows "\<exists>g. next_local_prekey_generation peer s = Inr g \<and> (gen = g \<or> gen = g - 1)
    \<and> next_local_prekey_generation peer s' = Inr (gen + 1)"
proof -
  obtain p rows where p: "prekey_peer_id peer = Inr p" "1 \<le> gen" "meta_get s (generation_key p) \<le> gen"
    "gen \<le> meta_get s (generation_key p) + 1"
    and s': "s' = meta_raise (generation_key p) gen (s\<lparr>t_local_prekeys := rows\<rparr>)"
    using add_local_prekey_batch_Inr [OF assms] by auto
  then have "meta_get s' (generation_key p) = gen" by (simp add: meta_get_raise)
  with p show ?thesis by (auto simp: next_local_prekey_generation_def)
qed

section \<open>Examples\<close>

definition demo_kid :: string where
  "demo_kid = replicate 32 CHR ''0''"

definition demo_bundle :: bundle_args where
  "demo_bundle = \<lparr>ba_peer = ''peer'', ba_keys = [(demo_kid, replicate 32 0)], ba_version = 1, ba_intended = '''',
     ba_generation = 1, ba_hash = replicate 64 CHR ''0'', ba_created_ms = 10, ba_expires_ms = 1000\<rparr>"

lemma demo_import:
  "snd (import_peer_prekey_bundle 100 100 demo_bundle empty_store) = Inr (1, False)"
  by code_simp

theorem import_no_rollback_witness:
  "\<exists>s'. import_peer_prekey_bundle 100 100 demo_bundle empty_store = (s', Inr (1, False))
     \<and> (\<exists>new. t_peer_prekeys s' = t_peer_prekeys empty_store @ new \<and> length new = 1)"
proof -
  obtain s' where i: "import_peer_prekey_bundle 100 100 demo_bundle empty_store = (s', Inr (1, False))"
    using demo_import by (cases "import_peer_prekey_bundle 100 100 demo_bundle empty_store") auto
  from import_no_rollback [OF prekey_inv_empty i] i show ?thesis by auto
qed

definition demo_keys :: store where
  "demo_keys = fst (import_peer_prekey_bundle 100 100 demo_bundle empty_store)"

lemma demo_keys_inv: "prekey_inv demo_keys"
  unfolding demo_keys_def by (rule prekey_inv_import) (rule prekey_inv_empty)

lemma demo_reserve:
  "map_sum id (map_option gr_id) (snd (reserve_peer_prekey 100 5 ''peer'' '''' 1 demo_keys)) = Inr (Some demo_kid)"
  by code_simp

theorem reserve_peer_prekey_choice_witness:
  "\<exists>s' g. reserve_peer_prekey 100 5 ''peer'' '''' 1 demo_keys = (s', Inr (Some g))
     \<and> (\<exists>p\<in>set (t_peer_prekeys demo_keys). gr_id g = pp_id p \<and> 100 < pp_expires_ms p)"
proof -
  obtain s' g where r: "reserve_peer_prekey 100 5 ''peer'' '''' 1 demo_keys = (s', Inr (Some g))"
    using demo_reserve
    by (cases "reserve_peer_prekey 100 5 ''peer'' '''' 1 demo_keys"; cases "snd (reserve_peer_prekey 100 5 ''peer'' '''' 1 demo_keys)") auto
  from reserve_peer_prekey_choice [OF r] have
    "\<exists>p\<in>set (t_peer_prekeys demo_keys). gr_id g = pp_id p \<and> 100 < pp_expires_ms p"
    unfolding option.case by blast
  with r show ?thesis by blast
qed

lemma demo_add_batch:
  "snd (add_local_prekey_batch [(demo_kid, replicate 32 0, replicate 32 1)] demo_id 2 1 10 1000 empty_store)
     = Inr (demo_id, 1, 1, 1)"
  by code_simp

theorem local_generation_sequence_witness:
  "\<exists>s'. add_local_prekey_batch [(demo_kid, replicate 32 0, replicate 32 1)] demo_id 2 1 10 1000 empty_store
      = (s', Inr (demo_id, 1, 1, 1)) \<and> next_local_prekey_generation demo_id s' = Inr 2"
proof -
  obtain s' where a: "add_local_prekey_batch [(demo_kid, replicate 32 0, replicate 32 1)] demo_id 2 1 10 1000 empty_store
      = (s', Inr (demo_id, 1, 1, 1))"
    using demo_add_batch
    by (cases "add_local_prekey_batch [(demo_kid, replicate 32 0, replicate 32 1)] demo_id 2 1 10 1000 empty_store") auto
  from local_generation_sequence [OF a] a show ?thesis by auto
qed

end
