(* ===== verification/Store_Inbox.thy ===== *)
theory Store_Inbox
  imports Store_Packets Store_Prekeys
begin

text \<open>
  The inbox of \<open>store.py\<close>: persisting decrypted messages, consuming the one-time prekey a message
  was sealed to, listing and marking messages read.  A new row gets the rowid SQLite assigns, one
  above the largest rowid in use.
\<close>

section \<open>Operations\<close>

definition new_rowid :: "store \<Rightarrow> int" where
  "new_rowid s = max_or_zero (map ib_rowid (t_inbox s)) + 1"

definition inbox_row_of :: "ext \<Rightarrow> time_ms \<Rightarrow> opened_message \<Rightarrow> bool \<Rightarrow> bool \<Rightarrow> int \<Rightarrow> inbox_row" where
  "inbox_row_of E now m trusted visible rowid =
     \<lparr>ib_rowid = rowid, ib_packet = om_packet_id m, ib_sender = om_sender_id m, ib_kind = om_kind m,
      ib_created_ms = om_created_ms m, ib_received_ms = now, ib_codec = om_codec m,
      ib_body = pack E (om_body m), ib_causal = pack E (PList (map PStr (om_causal m))),
      ib_reply_to = om_reply_to m, ib_trusted = trusted, ib_is_read = False, ib_qos = om_qos m,
      ib_visible = visible\<rparr>"

definition in_inbox :: "store \<Rightarrow> string \<Rightarrow> bool" where
  "in_inbox s pid = exists_where (\<lambda>r. ib_packet r = pid) (t_inbox s)"

definition insert_inbox :: "ext \<Rightarrow> time_ms \<Rightarrow> opened_message \<Rightarrow> bool \<Rightarrow> bool \<Rightarrow> store \<Rightarrow> store" where
  "insert_inbox E now m trusted visible s =
     s\<lparr>t_inbox := t_inbox s @ [inbox_row_of E now m trusted visible (new_rowid s)]\<rparr>"

definition add_inbox ::
    "ext \<Rightarrow> time_ms \<Rightarrow> opened_message \<Rightarrow> bool \<Rightarrow> bool \<Rightarrow> store \<Rightarrow> (store, bool) outcome" where
  "add_inbox E now m trusted visible s =
     (if in_inbox s (om_packet_id m) then (s, Inr False)
      else (insert_inbox E now m trusted visible s, Inr True))"

text \<open>The one-time key of a message must be live and belong to the sender.\<close>

definition prekey_usable :: "opened_message \<Rightarrow> store \<Rightarrow> exn + unit" where
  "prekey_usable m s =
     and_then (prekey_id_arg (om_prekey_id m)) (\<lambda>k.
       case find (\<lambda>r. lk_id r = k) (t_local_prekeys s) of
         None \<Rightarrow> Inl (ValueError ''packet one-time prekey is unknown'')
       | Some r \<Rightarrow>
           if lk_state r \<noteq> LAvailable \<or> lk_private r = None
           then Inl (ValueError ''packet one-time prekey was already consumed'')
           else if lk_peer r \<noteq> om_sender_id m
           then Inl (ValueError ''packet sender is not authorized for this one-time prekey'')
           else Inr ())"

definition consume_hit :: "opened_message \<Rightarrow> local_prekey_row \<Rightarrow> bool" where
  "consume_hit m r = (lk_id r = om_prekey_id m \<and> lk_state r = LAvailable \<and> lk_private r \<noteq> None
     \<and> lk_peer r = om_sender_id m)"

definition commit_body ::
    "ext \<Rightarrow> time_ms \<Rightarrow> opened_message \<Rightarrow> bool \<Rightarrow> bool \<Rightarrow> store \<Rightarrow> exn + store \<times> bool" where
  "commit_body E current m trusted visible s =
     (let done = set_delivered (\<lambda>p. pk_id p = om_packet_id m)
      in if in_inbox s (om_packet_id m) then Inr (done s, False)
      else and_then (if om_key_mode m = Opk then prekey_usable m s else Inr ()) (\<lambda>_.
        let s1 = done (insert_inbox E current m trusted visible s)
        in if om_key_mode m \<noteq> Opk then Inr (s1, True)
           else if count_where (consume_hit m) (t_local_prekeys s1) \<noteq> 1
           then Inl (ValueError ''packet one-time prekey consumption race'')
           else Inr (s1\<lparr>t_local_prekeys := update_where (consume_hit m)
               (\<lambda>r. r\<lparr>lk_private := None, lk_state := LConsumed, lk_consumed_ms := current,
                     lk_packet := om_packet_id m\<rparr>) (t_local_prekeys s1)\<rparr>, True)))"

definition commit_local_message ::
    "ext \<Rightarrow> time_ms \<Rightarrow> opened_message \<Rightarrow> bool \<Rightarrow> bool \<Rightarrow> store \<Rightarrow> (store, bool) outcome" where
  "commit_local_message E current m trusted visible s =
     transaction (commit_body E current m trusted visible) s"

record inbox_item =
  it_packet_id :: string
  it_sender_id :: string
  it_kind :: string
  it_created_ms :: time_ms
  it_received_ms :: time_ms
  it_codec :: string
  it_body :: pyval
  it_causal :: pyval
  it_reply_to :: string
  it_qos :: qos
  it_trusted :: bool
  it_read :: bool
  it_transient :: bool

definition inbox_item_of :: "ext \<Rightarrow> inbox_row \<Rightarrow> exn + inbox_item" where
  "inbox_item_of E r =
     and_then (unpack E (ib_body r)) (\<lambda>body.
     and_then (unpack E (ib_causal r)) (\<lambda>causal.
       Inr \<lparr>it_packet_id = ib_packet r, it_sender_id = ib_sender r, it_kind = ib_kind r,
            it_created_ms = ib_created_ms r, it_received_ms = ib_received_ms r,
            it_codec = ib_codec r, it_body = body, it_causal = causal,
            it_reply_to = ib_reply_to r, it_qos = ib_qos r, it_trusted = ib_trusted r,
            it_read = ib_is_read r, it_transient = (\<not> ib_visible r)\<rparr>))"

definition list_inbox :: "ext \<Rightarrow> int \<Rightarrow> bool \<Rightarrow> bool \<Rightarrow> bool \<Rightarrow> store \<Rightarrow> exn + inbox_item list" where
  "list_inbox E limit unread_only include_untrusted include_transient s =
     map_result (inbox_item_of E) (take (nat (max 1 (min limit 1000)))
       (sort_key (\<lambda>r. - ib_received_ms r)
         (filter (\<lambda>r. (unread_only \<longrightarrow> \<not> ib_is_read r) \<and> (\<not> include_untrusted \<longrightarrow> ib_trusted r)
             \<and> (\<not> include_transient \<longrightarrow> ib_visible r)) (t_inbox s))))"

definition mark_read :: "string list \<Rightarrow> store \<Rightarrow> store" where
  "mark_read pids s = s\<lparr>t_inbox := update_where (\<lambda>r. ib_packet r \<in> set pids)
     (\<lambda>r. r\<lparr>ib_is_read := True\<rparr>) (t_inbox s)\<rparr>"

section \<open>Invariant\<close>

definition inbox_inv :: "store \<Rightarrow> bool" where
  "inbox_inv s \<longleftrightarrow> unique_key ib_packet (t_inbox s) \<and> unique_key ib_rowid (t_inbox s)
     \<and> (\<forall>r\<in>set (t_inbox s). 1 \<le> ib_rowid r)"

lemma inbox_inv_empty: "inbox_inv empty_store"
  by (simp add: inbox_inv_def empty_store_def)

lemma rowid_less_new: "r \<in> set (t_inbox s) \<Longrightarrow> ib_rowid r < new_rowid s"
  using max_or_zero_ge [of "ib_rowid r" "map ib_rowid (t_inbox s)"] by (simp add: new_rowid_def)

lemma new_rowid_pos: "inbox_inv s \<Longrightarrow> 1 \<le> new_rowid s"
  using max_or_zero_nonneg [of "map ib_rowid (t_inbox s)"]
  by (force simp: inbox_inv_def new_rowid_def)

lemma set_delivered_tables [simp]:
  "t_inbox (set_delivered P s) = t_inbox s" "t_local_prekeys (set_delivered P s) = t_local_prekeys s"
  "t_peer_prekeys (set_delivered P s) = t_peer_prekeys s" "t_peer_bundles (set_delivered P s) = t_peer_bundles s"
  "t_metadata (set_delivered P s) = t_metadata s" "t_claims (set_delivered P s) = t_claims s"
  "t_groups (set_delivered P s) = t_groups s" "t_tasks (set_delivered P s) = t_tasks s"
  "t_cancels (set_delivered P s) = t_cancels s"
  by (simp_all add: set_delivered_def)

lemma insert_inbox_tables [simp]:
  "t_packets (insert_inbox E now m tr v s) = t_packets s" "t_local_prekeys (insert_inbox E now m tr v s) = t_local_prekeys s"
  "t_claims (insert_inbox E now m tr v s) = t_claims s" "t_peer_prekeys (insert_inbox E now m tr v s) = t_peer_prekeys s"
  "t_inbox (insert_inbox E now m tr v s) = t_inbox s @ [inbox_row_of E now m tr v (new_rowid s)]"
  by (simp_all add: insert_inbox_def)

lemma inbox_inv_same: "t_inbox s' = t_inbox s \<Longrightarrow> inbox_inv s' = inbox_inv s"
  by (simp add: inbox_inv_def)

lemma inbox_inv_insert:
  assumes "inbox_inv s" and "\<not> in_inbox s (om_packet_id m)"
  shows "inbox_inv (insert_inbox E now m tr v s)"
proof -
  have "unique_key ib_packet (t_inbox s @ [inbox_row_of E now m tr v (new_rowid s)])"
    using assms by (intro unique_key_append) (auto simp: inbox_inv_def in_inbox_def inbox_row_of_def)
  moreover have "unique_key ib_rowid (t_inbox s @ [inbox_row_of E now m tr v (new_rowid s)])"
  proof (rule unique_key_append)
    show "unique_key ib_rowid (t_inbox s)" using assms(1) by (simp add: inbox_inv_def)
    show "ib_rowid r \<noteq> ib_rowid (inbox_row_of E now m tr v (new_rowid s))" if "r \<in> set (t_inbox s)" for r
      using rowid_less_new [OF that] by (simp add: inbox_row_of_def)
  qed
  moreover have "1 \<le> new_rowid s" using assms(1) by (rule new_rowid_pos)
  ultimately show ?thesis using assms(1) by (auto simp: inbox_inv_def inbox_row_of_def)
qed

lemma commit_body_cases:
  assumes "commit_body E now m tr v s = Inr (s', new)"
  obtains (known) "in_inbox s (om_packet_id m)" "\<not> new" "s' = set_delivered (\<lambda>p. pk_id p = om_packet_id m) s"
  | (static) "\<not> in_inbox s (om_packet_id m)" "new" "om_key_mode m = Static"
      "s' = set_delivered (\<lambda>p. pk_id p = om_packet_id m) (insert_inbox E now m tr v s)"
  | (opk) "\<not> in_inbox s (om_packet_id m)" "new" "om_key_mode m = Opk" "prekey_usable m s = Inr ()"
      "count_where (consume_hit m) (t_local_prekeys s) = 1"
      "s' = (set_delivered (\<lambda>p. pk_id p = om_packet_id m) (insert_inbox E now m tr v s))
         \<lparr>t_local_prekeys := update_where (consume_hit m)
               (\<lambda>r. r\<lparr>lk_private := None, lk_state := LConsumed, lk_consumed_ms := now,
                     lk_packet := om_packet_id m\<rparr>) (t_local_prekeys s)\<rparr>"
proof (cases "in_inbox s (om_packet_id m)")
  case True
  then show thesis using assms known by (simp add: commit_body_def Let_def)
next
  case False
  show thesis
  proof (cases "om_key_mode m")
    case Static
    then show thesis using assms False static by (simp add: commit_body_def Let_def)
  next
    case Opk
    then show thesis using assms False opk by (simp add: commit_body_def Let_def)
  qed
qed

lemma commit_local_message_Inr:
  "commit_local_message E now m tr v s = (s', Inr new) \<longleftrightarrow> commit_body E now m tr v s = Inr (s', new)"
  by (simp add: commit_local_message_def transaction_Inr)

lemma commit_local_message_Inl:
  "snd (commit_local_message E now m tr v s) = Inl e \<Longrightarrow> fst (commit_local_message E now m tr v s) = s"
  by (simp add: commit_local_message_def transaction_rollback)

lemma commit_preserves:
  assumes "P s" and "\<And>s' new. commit_body E now m tr v s = Inr (s', new) \<Longrightarrow> P s'"
  shows "P (fst (commit_local_message E now m tr v s))"
  by (rule outcome_preserves [where P = P, OF assms(1) commit_local_message_Inl])
    (auto simp: commit_local_message_Inr intro: assms(2))

lemma inbox_inv_commit [keep_inv]:
  assumes "inbox_inv s"
  shows "inbox_inv (fst (commit_local_message E now m tr v s))"
  using assms
proof (rule commit_preserves [where P = inbox_inv])
  fix s' new assume "commit_body E now m tr v s = Inr (s', new)"
  then show "inbox_inv s'"
  proof (cases rule: commit_body_cases)
    case known
    then show ?thesis using assms inbox_inv_same [of s' s] by simp
  next
    case static
    then show ?thesis using inbox_inv_insert [OF assms static(1), of E now tr v]
      inbox_inv_same [of s' "insert_inbox E now m tr v s"] by simp
  next
    case opk
    then show ?thesis using inbox_inv_insert [OF assms opk(1), of E now tr v]
      inbox_inv_same [of s' "insert_inbox E now m tr v s"] by simp
  qed
qed

lemma inbox_inv_add [keep_inv]: "inbox_inv s \<Longrightarrow> inbox_inv (fst (add_inbox E now m tr v s))"
  by (simp add: add_inbox_def inbox_inv_insert)

lemma inbox_inv_read [keep_inv]: "inbox_inv s \<Longrightarrow> inbox_inv (mark_read pids s)"
  by (simp add: inbox_inv_def mark_read_def) (intro table_intros; auto)

section \<open>The other tables\<close>

lemma packet_inv_frame:
  "t_packets s' = t_packets s \<Longrightarrow> t_deliveries s' = t_deliveries s \<Longrightarrow> t_delivery_paths s' = t_delivery_paths s \<Longrightarrow>
   t_receipts s' = t_receipts s \<Longrightarrow> t_rejections s' = t_rejections s \<Longrightarrow> packet_inv s' = packet_inv s"
  by (simp add: packet_inv_def)

lemma prekey_inv_frame:
  "t_local_prekeys s' = t_local_prekeys s \<Longrightarrow> t_peer_prekeys s' = t_peer_prekeys s \<Longrightarrow>
   t_peer_bundles s' = t_peer_bundles s \<Longrightarrow> t_metadata s' = t_metadata s \<Longrightarrow> prekey_inv s' = prekey_inv s"
  by (simp add: prekey_inv_def local_row_ok_def bundled_def meta_get_def)

lemma packet_inv_commit [keep_inv]:
  assumes "packet_inv s"
  shows "packet_inv (fst (commit_local_message E now m tr v s))"
  using assms
proof (rule commit_preserves [where P = packet_inv])
  fix s' new assume "commit_body E now m tr v s = Inr (s', new)"
  moreover have "packet_inv (insert_inbox E now m tr v s)"
    using assms by (simp add: packet_inv_def insert_inbox_def)
  ultimately show "packet_inv s'"
    using assms packet_inv_set_delivered [of s] packet_inv_set_delivered [of "insert_inbox E now m tr v s"]
    by (cases rule: commit_body_cases) (auto simp: packet_inv_def)
qed

lemma prekey_inv_commit [keep_inv]:
  assumes inv: "prekey_inv s"
  shows "prekey_inv (fst (commit_local_message E now m tr v s))"
  using inv
proof (rule commit_preserves [where P = prekey_inv])
  fix s' new assume "commit_body E now m tr v s = Inr (s', new)"
  then show "prekey_inv s'"
  proof (cases rule: commit_body_cases)
    case known
    then show ?thesis using inv prekey_inv_frame [of s' s] by simp
  next
    case static
    then show ?thesis using inv prekey_inv_frame [of s' s] by (simp add: insert_inbox_def set_delivered_def)
  next
    case opk
    let ?t = "s\<lparr>t_local_prekeys := update_where (consume_hit m)
               (\<lambda>r. r\<lparr>lk_private := None, lk_state := LConsumed, lk_consumed_ms := now,
                     lk_packet := om_packet_id m\<rparr>) (t_local_prekeys s)\<rparr>"
    have "prekey_inv ?t" using inv by (rule prekey_inv_local_update) (auto simp: local_row_ok_def)
    then show ?thesis using prekey_inv_frame [of s' ?t] opk(6) by (simp add: insert_inbox_def set_delivered_def)
  qed
qed

lemma erased_commit:
  assumes e: "erased k s"
  shows "erased k (fst (commit_local_message E now m tr v s))"
  using e
proof (rule commit_preserves [where P = "erased k"])
  fix s' new assume "commit_body E now m tr v s = Inr (s', new)"
  then show "erased k s'"
  proof (cases rule: commit_body_cases)
    case opk
    let ?t = "s\<lparr>t_local_prekeys := update_where (consume_hit m)
               (\<lambda>r. r\<lparr>lk_private := None, lk_state := LConsumed, lk_consumed_ms := now,
                     lk_packet := om_packet_id m\<rparr>) (t_local_prekeys s)\<rparr>"
    have "erased k ?t" using e by (rule erased_update) auto
    then show ?thesis using erased_same_table [of s' ?t] opk(6) by simp
  qed (use e in \<open>simp_all add: erased_def\<close>)
qed

lemma peer_table_commit [simp]:
  "t_peer_prekeys (fst (commit_local_message E now m tr v s)) = t_peer_prekeys s"
  by (rule commit_preserves [where P = "\<lambda>t. t_peer_prekeys t = t_peer_prekeys s"])
    (auto elim!: commit_body_cases)

section \<open>Properties\<close>

lemma consume_hit_prekey_id:
  assumes "prekey_usable m s = Inr ()" and "count_where (consume_hit m) (t_local_prekeys s) = 1"
  shows "\<exists>r\<in>set (t_local_prekeys s). consume_hit m r"
  using assms(2) count_where_pos [of "consume_hit m" "t_local_prekeys s"] by simp

lemma lower_hex_char: "is_lower_hex c \<Longrightarrow> lower_char c = c \<and> \<not> py_space c"
  by (auto simp: is_lower_hex_def is_digit_def lower_char_def py_space_def Let_def)

lemma dropWhile_none: "list_all (\<lambda>c. \<not> P c) xs \<Longrightarrow> dropWhile P xs = xs"
  by (cases xs) auto

lemma prekey_id_arg_hex:
  assumes "hex_string 32 k"
  shows "prekey_id_arg k = Inr k"
proof -
  have "list_all (\<lambda>c. \<not> py_space c) k" and low: "map lower_char k = k"
    using assms by (auto simp: hex_string_def list_all_iff lower_hex_char intro: map_idI)
  then have "strip k = k"
    by (simp add: strip_def dropWhile_none)
  with low assms show ?thesis by (simp add: prekey_id_arg_def lower_def)
qed

text \<open>
  A message consumes its one-time key.  When \<open>commit_local_message\<close> stores a new message that
  was sealed to a one-time prekey (whose id is well formed, as packet inspection guarantees), the
  key was live and scoped to the message's sender, its private part is erased and it is bound to
  the packet, every other local key is unchanged, and the message is in the inbox.
\<close>

theorem commit_consumes_prekey:
  assumes "prekey_inv s" and "commit_local_message E now m tr v s = (s', Inr True)"
    and "om_key_mode m = Opk" and "hex_string 32 (om_prekey_id m)"
  shows "(\<exists>r\<in>set (t_local_prekeys s). lk_id r = om_prekey_id m \<and> lk_private r \<noteq> None \<and> lk_peer r = om_sender_id m
       \<and> t_local_prekeys s' = map (\<lambda>q. if q = r then r\<lparr>lk_private := None, lk_state := LConsumed,
           lk_consumed_ms := now, lk_packet := om_packet_id m\<rparr> else q) (t_local_prekeys s))
     \<and> local_prekey_material (om_prekey_id m) s' = Inr None
     \<and> in_inbox s' (om_packet_id m) \<and> \<not> in_inbox s (om_packet_id m)"
proof -
  have "commit_body E now m tr v s = Inr (s', True)" using assms(2) by (simp add: commit_local_message_Inr)
  then show ?thesis
  proof (cases rule: commit_body_cases)
    case opk
    then obtain r where r: "r \<in> set (t_local_prekeys s)" "consume_hit m r"
      using consume_hit_prekey_id by blast
    have u: "unique_key lk_id (t_local_prekeys s)" using assms(1) by (simp add: prekey_inv_def)
    have eq: "consume_hit m q \<longleftrightarrow> q = r" if "q \<in> set (t_local_prekeys s)" for q
      using that r unique_keyD [OF u that r(1)] by (auto simp: consume_hit_def)
    have rows: "t_local_prekeys s' = map (\<lambda>q. if q = r then r\<lparr>lk_private := None, lk_state := LConsumed,
           lk_consumed_ms := now, lk_packet := om_packet_id m\<rparr> else q) (t_local_prekeys s)"
      unfolding opk(6) by (auto simp: update_where_def eq)
    have "\<not> live_local q" if q: "q \<in> set (t_local_prekeys s')" "lk_id q = om_prekey_id m" for q
    proof -
      obtain q0 where q0: "q0 \<in> set (t_local_prekeys s)" "q = (if q0 = r then r\<lparr>lk_private := None, lk_state := LConsumed,
           lk_consumed_ms := now, lk_packet := om_packet_id m\<rparr> else q0)"
        using q(1) unfolding rows by auto
      with q(2) r have "lk_id q0 = lk_id r" by (auto simp: consume_hit_def split: if_splits)
      then have "q0 = r" using unique_keyD [OF u q0(1) r(1)] by simp
      with q0(2) show ?thesis by (simp add: live_local_def)
    qed
    then have "local_prekey_material (om_prekey_id m) s' = Inr None"
      by (auto simp: local_prekey_material_def prekey_id_arg_hex [OF assms(4)] find_None_iff_all)
    moreover have "in_inbox s' (om_packet_id m)"
      unfolding opk(6) by (simp add: in_inbox_def inbox_row_of_def)
    ultimately show ?thesis using r rows opk(1) by (auto simp: consume_hit_def)
  qed (use assms(3) in simp_all)
qed

lemma commit_erases:
  assumes "commit_local_message E now m tr v s = (s', Inr True)" and "om_key_mode m = Opk"
  shows "erased (om_prekey_id m) s'"
proof -
  have "commit_body E now m tr v s = Inr (s', True)" using assms(1) by (simp add: commit_local_message_Inr)
  then show ?thesis
  proof (cases rule: commit_body_cases)
    case opk
    let ?f = "\<lambda>r. r\<lparr>lk_private := None, lk_state := LConsumed, lk_consumed_ms := now, lk_packet := om_packet_id m\<rparr>"
    obtain r where r: "r \<in> set (t_local_prekeys s)" "consume_hit m r"
      using opk consume_hit_prekey_id by blast
    then have "?f r \<in> set (update_where (consume_hit m) ?f (t_local_prekeys s))" by (rule update_where_hit)
    moreover have "lk_id (?f r) = om_prekey_id m \<and> lk_private (?f r) = None"
      using r(2) by (simp add: consume_hit_def)
    ultimately show ?thesis unfolding opk(6) erased_def exists_where_iff by (simp, blast)
  qed (use assms(2) in simp_all)
qed

lemma commit_rejects_erased:
  assumes "prekey_inv s" and "erased (om_prekey_id m) s" and "om_key_mode m = Opk"
    and "hex_string 32 (om_prekey_id m)" and "\<not> in_inbox s (om_packet_id m)"
  shows "commit_local_message E now m tr v s
     = (s, Inl (ValueError ''packet one-time prekey was already consumed''))"
proof -
  obtain r where r: "r \<in> set (t_local_prekeys s)" "lk_id r = om_prekey_id m" "lk_private r = None"
    using assms(2) by (auto simp: erased_def)
  have "find (\<lambda>q. lk_id q = om_prekey_id m) (t_local_prekeys s) = Some r"
    using find_unique [of lk_id "t_local_prekeys s" r] assms(1) r by (simp add: prekey_inv_def)
  then have "prekey_usable m s = Inl (ValueError ''packet one-time prekey was already consumed'')"
    using r(3) by (simp add: prekey_usable_def prekey_id_arg_hex [OF assms(4)])
  then show ?thesis using assms(3,5) by (simp add: commit_local_message_def transaction_def commit_body_def Let_def)
qed

text \<open>
  Committing is atomic and idempotent.  A commit that raises leaves the store exactly as it
  was; a message whose packet is already in the inbox is not stored again, consumes no key and only
  marks the packet delivered.
\<close>

theorem commit_atomic_idempotent:
  "(\<forall>e. snd (commit_local_message E now m tr v s) = Inl e \<longrightarrow> fst (commit_local_message E now m tr v s) = s)
   \<and> (in_inbox s (om_packet_id m) \<longrightarrow> commit_local_message E now m tr v s
        = (s\<lparr>t_packets := map (\<lambda>p. if pk_id p = om_packet_id m then p\<lparr>pk_delivered := True\<rparr> else p)
             (t_packets s)\<rparr>, Inr False))"
  by (auto simp: commit_local_message_Inl)
    (simp add: commit_local_message_def transaction_def commit_body_def Let_def set_delivered_def update_where_def)

section \<open>Calls\<close>

datatype inbox_call =
    AddInbox ext time_ms opened_message bool bool
  | CommitMessage ext time_ms opened_message bool bool
  | MarkRead "string list"

fun inbox_step :: "inbox_call \<Rightarrow> store \<Rightarrow> store" where
  "inbox_step (AddInbox E now m tr v) s = fst (add_inbox E now m tr v s)"
| "inbox_step (CommitMessage E now m tr v) s = fst (commit_local_message E now m tr v s)"
| "inbox_step (MarkRead pids) s = mark_read pids s"

lemma inbox_inv_step: "inbox_inv s \<Longrightarrow> inbox_inv (inbox_step c s)"
  by (cases c) (auto intro: keep_inv)

lemma packet_inv_inbox_step: "packet_inv s \<Longrightarrow> packet_inv (inbox_step c s)"
proof (cases c)
  case (AddInbox E now m tr v)
  assume "packet_inv s"
  then show ?thesis
    using packet_inv_frame [of "insert_inbox E now m tr v s" s]
    by (simp add: AddInbox add_inbox_def insert_inbox_def)
next
  case (MarkRead pids)
  assume "packet_inv s"
  then show ?thesis using packet_inv_frame [of "mark_read pids s" s] by (simp add: MarkRead mark_read_def)
qed (simp add: packet_inv_commit)

lemma prekey_inv_inbox_step: "prekey_inv s \<Longrightarrow> prekey_inv (inbox_step c s)"
proof (cases c)
  case (AddInbox E now m tr v)
  assume "prekey_inv s"
  then show ?thesis
    using prekey_inv_frame [of "insert_inbox E now m tr v s" s]
    by (simp add: AddInbox add_inbox_def insert_inbox_def)
next
  case (MarkRead pids)
  assume "prekey_inv s"
  then show ?thesis using prekey_inv_frame [of "mark_read pids s" s] by (simp add: MarkRead mark_read_def)
qed (simp add: prekey_inv_commit)

lemma erased_inbox_step: "erased k s \<Longrightarrow> erased k (inbox_step c s)"
  by (cases c) (auto simp: add_inbox_def mark_read_def erased_commit, simp_all add: erased_def)

lemma held_by_inbox_step: "held_by k s \<Longrightarrow> held_by k (inbox_step c s)"
  by (cases c) (auto simp: add_inbox_def mark_read_def held_by_def)

section \<open>Examples\<close>

definition demo_message :: "string \<Rightarrow> opened_message" where
  "demo_message pid = \<lparr>om_packet_id = pid, om_sender_id = demo_id, om_sign_public = [], om_box_public = [],
     om_kind = ''chat'', om_created_ms = 10, om_body = PNone, om_causal = [], om_codec = ''msgpack'',
     om_reply_to = '''', om_qos = QNormal, om_key_mode = Opk, om_prekey_id = demo_kid\<rparr>"

definition demo_ext :: ext where
  "demo_ext = \<lparr>packb = (\<lambda>v. []), unpackb = (\<lambda>b. Inr PNone), repr = (\<lambda>v. ''''),
     blake2s = (\<lambda>n p b. replicate n 0), sha256 = (\<lambda>b. replicate 32 0)\<rparr>"

definition demo_local :: store where
  "demo_local = fst (add_local_prekey_batch [(demo_kid, replicate 32 0, replicate 32 1)] demo_id 2 1 10 1000 empty_store)"

lemma demo_local_inv: "prekey_inv demo_local"
  unfolding demo_local_def by (rule prekey_inv_add_batch) (rule prekey_inv_empty)

lemma demo_commit: "snd (commit_local_message demo_ext 100 (demo_message ''p'') True True demo_local) = Inr True"
  by code_simp

lemma demo_kid_hex: "hex_string 32 demo_kid"
  by code_simp

theorem commit_consumes_prekey_witness:
  "\<exists>s'. commit_local_message demo_ext 100 (demo_message ''p'') True True demo_local = (s', Inr True)
     \<and> local_prekey_material demo_kid s' = Inr None \<and> in_inbox s' ''p''"
proof -
  obtain s' where c: "commit_local_message demo_ext 100 (demo_message ''p'') True True demo_local = (s', Inr True)"
    using demo_commit by (cases "commit_local_message demo_ext 100 (demo_message ''p'') True True demo_local") auto
  from commit_consumes_prekey [OF demo_local_inv c] c show ?thesis
    by (simp add: demo_message_def demo_kid_hex)
qed

theorem commit_atomic_idempotent_witness:
  "commit_local_message demo_ext 200 (demo_message ''p'') True True
      (fst (commit_local_message demo_ext 100 (demo_message ''p'') True True demo_local))
    = (fst (commit_local_message demo_ext 100 (demo_message ''p'') True True demo_local), Inr False)"
proof -
  let ?s = "fst (commit_local_message demo_ext 100 (demo_message ''p'') True True demo_local)"
  have "in_inbox ?s (om_packet_id (demo_message ''p''))" by code_simp
  moreover have "t_packets ?s = []" by code_simp
  ultimately show ?thesis using commit_atomic_idempotent [of demo_ext 200 "demo_message ''p''" True True ?s] by simp
qed

end
