(* ===== verification/Store_Consumers.thy ===== *)
theory Store_Consumers
  imports Store_Inbox
begin

text \<open>
  Durable consumer groups of \<open>store.py\<close>: groups with filters over the inbox, leased claims with
  random tokens, acknowledgement, rejection with retry, renewal.  Durations in seconds are exact
  rationals, so \<open>int(x * 1000)\<close> is the floor of the exact product.
\<close>

section \<open>Arguments\<close>

definition consumer_char :: "char \<Rightarrow> bool" where
  "consumer_char c = (is_upper c \<or> is_lower c \<or> is_digit c)"

definition consumer_rest :: "char \<Rightarrow> bool" where
  "consumer_rest c = (consumer_char c \<or> c \<in> set ''._:@/-'')"

definition consumer_id :: "string \<Rightarrow> string \<Rightarrow> exn + string" where
  "consumer_id what v = (let t = strip v
     in if token_match consumer_char consumer_rest 127 t then Inr t
        else Inl (ValueError (''invalid consumer '' @ what)))"

definition claim_token :: "string \<Rightarrow> exn + string" where
  "claim_token v = (let t = lower (strip v)
     in if hex_string 32 t then Inr t else Inl (ValueError ''invalid claim token''))"

definition lease_duration :: "rat \<Rightarrow> int" where
  "lease_duration seconds = \<lfloor>max 5 (min seconds 86400) * 1000\<rfloor>"

definition retry_duration :: "rat \<Rightarrow> int" where
  "retry_duration seconds = \<lfloor>max 0 (min seconds 86400) * 1000\<rfloor>"

section \<open>Groups\<close>

definition find_group :: "store \<Rightarrow> string \<Rightarrow> group_row option" where
  "find_group s gid = find (\<lambda>g. cg_group g = gid) (t_groups s)"

definition require_consumer_group :: "string \<Rightarrow> store \<Rightarrow> exn + group_row" where
  "require_consumer_group gid s =
     (case find_group s gid of
        None \<Rightarrow> Inl (KeyError (''unknown consumer group: '' @ gid)) | Some g \<Rightarrow> Inr g)"

text \<open>The result is the group's row and whether it was created by this call.\<close>

definition open_consumer_group ::
    "time_ms \<Rightarrow> string \<Rightarrow> string \<Rightarrow> string \<Rightarrow> string \<Rightarrow> bool \<Rightarrow> bool \<Rightarrow> store
      \<Rightarrow> (store, group_row \<times> bool) outcome" where
  "open_consumer_group now group_arg start_arg prefix_arg sender_arg trusted_only include_transient s =
     checked s (and_then (consumer_id ''group ID'' group_arg) (\<lambda>gid.
       let start = lower (strip start_arg); prefix = strip prefix_arg; sender = strip sender_arg
       in if start \<noteq> ''latest'' \<and> start \<noteq> ''earliest''
          then Inl (ValueError ''consumer start must be latest or earliest'')
          else if 128 < length prefix \<or> 128 < length sender
          then Inl (ValueError ''consumer filter is too long'')
          else Inr (gid, start, prefix, sender)))
     (\<lambda>(gid, start, prefix, sender).
       case find_group s gid of
         Some g \<Rightarrow>
           if cg_kind_prefix g \<noteq> prefix \<or> cg_sender g \<noteq> sender \<or> cg_trusted_only g \<noteq> trusted_only
              \<or> cg_include_transient g \<noteq> include_transient
           then (s, Inl (ValueError ''consumer group already exists with different filters''))
           else (s, Inr (g, False))
       | None \<Rightarrow>
           let g = \<lparr>cg_group = gid, cg_created_ms = now,
                    cg_start_after = (if start = ''latest'' then max_or_zero (map ib_rowid (t_inbox s)) else 0),
                    cg_kind_prefix = prefix, cg_sender = sender, cg_trusted_only = trusted_only,
                    cg_include_transient = include_transient\<rparr>
           in (s\<lparr>t_groups := t_groups s @ [g]\<rparr>, Inr (g, True)))"

text \<open>The conditions of \<open>_consumer_filters\<close> on an inbox row.\<close>

definition consumer_filters :: "group_row \<Rightarrow> inbox_row \<Rightarrow> bool" where
  "consumer_filters g i =
     (cg_start_after g < ib_rowid i
      \<and> (cg_trusted_only g \<longrightarrow> ib_trusted i)
      \<and> (\<not> cg_include_transient g \<longrightarrow> ib_visible i)
      \<and> (cg_kind_prefix g \<noteq> '''' \<longrightarrow> starts_with (ib_kind i) (cg_kind_prefix g))
      \<and> (cg_sender g \<noteq> '''' \<longrightarrow> ib_sender i = cg_sender g))"

section \<open>Claims\<close>

definition find_claim :: "store \<Rightarrow> string \<Rightarrow> string \<Rightarrow> claim_row option" where
  "find_claim s gid pid = find (\<lambda>d. cd_group d = gid \<and> cd_packet d = pid) (t_claims s)"

definition claimable :: "store \<Rightarrow> time_ms \<Rightarrow> string \<Rightarrow> inbox_row \<Rightarrow> bool" where
  "claimable s current gid i =
     (case find_claim s gid (ib_packet i) of
        None \<Rightarrow> True
      | Some d \<Rightarrow> (cd_state d = Leased \<and> cd_lease_until_ms d \<le> current)
                \<or> (cd_state d = RetryLater \<and> cd_retry_after_ms d \<le> current))"

record claimed =
  cl_item :: inbox_item
  cl_group :: string
  cl_owner :: string
  cl_token :: string
  cl_lease_until_ms :: time_ms
  cl_attempt :: int
  cl_content_security :: string

definition CONTENT_SECURITY :: string where
  "CONTENT_SECURITY = ''Authenticated sender does not make payload instructions safe; '' @
     ''apply local policy before tools or side effects.''"

definition prior_attempts :: "store \<Rightarrow> string \<Rightarrow> inbox_row \<Rightarrow> int" where
  "prior_attempts s gid i =
     (case find_claim s gid (ib_packet i) of None \<Rightarrow> 0 | Some d \<Rightarrow> cd_attempts d)"

definition lease_row :: "string \<Rightarrow> string \<Rightarrow> string \<Rightarrow> string \<Rightarrow> time_ms \<Rightarrow> claim_row list \<Rightarrow> claim_row list" where
  "lease_row gid owner pid token lease_until claims =
     upsert claim_key
       \<lparr>cd_group = gid, cd_packet = pid, cd_state = Leased, cd_owner = owner, cd_token = token,
        cd_lease_until_ms = lease_until, cd_retry_after_ms = 0, cd_attempts = 1, cd_acked_ms = 0,
        cd_last_error = ''''\<rparr>
       (\<lambda>d. d\<lparr>cd_state := Leased, cd_owner := owner, cd_token := token,
             cd_lease_until_ms := lease_until, cd_retry_after_ms := 0,
             cd_attempts := cd_attempts d + 1, cd_acked_ms := 0, cd_last_error := ''''\<rparr>) claims"

text \<open>
  The loop over the selected rows, each with its prior attempts and its random token; the unique
  index on the claim token turns a repeated token into an \<open>IntegrityError\<close>.
\<close>

fun claim_each ::
    "ext \<Rightarrow> string \<Rightarrow> string \<Rightarrow> time_ms \<Rightarrow> (inbox_row \<times> int \<times> string) list \<Rightarrow> claim_row list
      \<Rightarrow> exn + claim_row list \<times> claimed list" where
  "claim_each E gid owner lease_until [] claims = Inr (claims, [])"
| "claim_each E gid owner lease_until ((i, prior, token) # rest) claims =
     (if exists_where (\<lambda>d. claim_key d \<noteq> (gid, ib_packet i) \<and> cd_token d = token) claims
      then Inl (IntegrityError ''UNIQUE constraint failed: consumer_deliveries.claim_token'')
      else and_then (inbox_item_of E i) (\<lambda>item.
        and_then (claim_each E gid owner lease_until rest
            (lease_row gid owner (ib_packet i) token lease_until claims))
          (\<lambda>(claims', out). Inr (claims',
             \<lparr>cl_item = item, cl_group = gid, cl_owner = owner, cl_token = token,
              cl_lease_until_ms = lease_until, cl_attempt = prior + 1,
              cl_content_security = CONTENT_SECURITY\<rparr> # out))))"

definition claim_selection :: "store \<Rightarrow> time_ms \<Rightarrow> string \<Rightarrow> group_row \<Rightarrow> int \<Rightarrow> inbox_row list" where
  "claim_selection s current gid g limit =
     take (nat (max 1 (min limit 100)))
       (sort_key (\<lambda>i. (ib_received_ms i, ib_rowid i))
         (filter (\<lambda>i. consumer_filters g i \<and> claimable s current gid i) (t_inbox s)))"

definition claim_body ::
    "ext \<Rightarrow> time_ms \<Rightarrow> (nat \<Rightarrow> 128 word) \<Rightarrow> string \<Rightarrow> string \<Rightarrow> int \<Rightarrow> int \<Rightarrow> store \<Rightarrow> exn + store \<times> claimed list" where
  "claim_body E current random gid owner limit lease_ms s =
     and_then (require_consumer_group gid s) (\<lambda>g.
       let rows = claim_selection s current gid g limit
       in and_then (claim_each E gid owner (current + lease_ms)
            (map2 (\<lambda>i n. (i, prior_attempts s gid i, token_hex (random n))) rows [0..<length rows])
            (t_claims s))
          (\<lambda>(claims, out). Inr (s\<lparr>t_claims := claims\<rparr>, out)))"

definition claim_consumer_messages ::
    "ext \<Rightarrow> time_ms \<Rightarrow> (nat \<Rightarrow> 128 word) \<Rightarrow> string \<Rightarrow> string \<Rightarrow> int \<Rightarrow> rat \<Rightarrow> store
      \<Rightarrow> (store, claimed list) outcome" where
  "claim_consumer_messages E current random group_arg owner_arg limit lease_seconds s =
     checked s (and_then (consumer_id ''group ID'' group_arg) (\<lambda>gid.
       and_then (consumer_id ''owner'' owner_arg) (\<lambda>owner. Inr (gid, owner))))
     (\<lambda>(gid, owner).
       transaction (claim_body E current random gid owner limit (lease_duration lease_seconds)) s)"

text \<open>The three arguments every settlement of a claim checks.\<close>

definition claim_args :: "string \<Rightarrow> string \<Rightarrow> string \<Rightarrow> exn + string \<times> string \<times> string" where
  "claim_args group_arg owner_arg token_arg =
     and_then (consumer_id ''group ID'' group_arg) (\<lambda>gid.
     and_then (consumer_id ''owner'' owner_arg) (\<lambda>owner.
     and_then (claim_token token_arg) (\<lambda>token. Inr (gid, owner, token))))"

definition owned_lease :: "string \<Rightarrow> string \<Rightarrow> string \<Rightarrow> claim_row \<Rightarrow> bool" where
  "owned_lease gid owner token d =
     (cd_group d = gid \<and> cd_owner d = owner \<and> cd_token d = token \<and> cd_state d = Leased)"

definition active_task :: "task_row \<Rightarrow> bool" where
  "active_task t = (tx_state t = Working \<or> tx_state t = Canceling)"

definition has_active_task :: "store \<Rightarrow> claim_row \<Rightarrow> bool" where
  "has_active_task s d = exists_where (\<lambda>t. tx_group t = cd_group d \<and> tx_claim_token t = cd_token d
     \<and> active_task t) (t_tasks s)"

definition stale_claim_error :: "string \<Rightarrow> string \<Rightarrow> string \<Rightarrow> store \<Rightarrow> exn" where
  "stale_claim_error gid owner token s =
     (if exists_where (\<lambda>t. tx_group t = gid \<and> tx_owner t = owner \<and> tx_claim_token t = token
          \<and> active_task t) (t_tasks s)
      then ValueError ''typed Agent task claims must use settle_agent_task''
      else ValueError ''claim is stale, unknown, or owned by another worker'')"

definition ack_row :: "time_ms \<Rightarrow> claim_row \<Rightarrow> claim_row" where
  "ack_row current d = d\<lparr>cd_state := ClaimAcked, cd_owner := '''', cd_token := '''',
     cd_lease_until_ms := 0, cd_retry_after_ms := 0, cd_acked_ms := current, cd_last_error := ''''\<rparr>"

definition retry_row :: "time_ms \<Rightarrow> string \<Rightarrow> claim_row \<Rightarrow> claim_row" where
  "retry_row retry_after err d = d\<lparr>cd_state := RetryLater, cd_owner := '''', cd_token := '''',
     cd_lease_until_ms := 0, cd_retry_after_ms := retry_after, cd_acked_ms := 0,
     cd_last_error := take 1000 err\<rparr>"

text \<open>An \<open>UPDATE\<close> of one owned lease whose row count decides between the result and an error.\<close>

definition settle_lease ::
    "(claim_row \<Rightarrow> bool) \<Rightarrow> (claim_row \<Rightarrow> claim_row) \<Rightarrow> exn \<Rightarrow> 'a \<Rightarrow> store \<Rightarrow> (store, 'a) outcome" where
  "settle_lease hit f err ok s =
     (s\<lparr>t_claims := update_where hit f (t_claims s)\<rparr>,
      if count_where hit (t_claims s) = 1 then Inr ok else Inl err)"

definition acknowledge_claim ::
    "time_ms \<Rightarrow> string \<Rightarrow> string \<Rightarrow> string \<Rightarrow> store \<Rightarrow> (store, string \<times> time_ms) outcome" where
  "acknowledge_claim current group_arg owner_arg token_arg s =
     checked s (claim_args group_arg owner_arg token_arg) (\<lambda>(gid, owner, token).
       settle_lease (\<lambda>d. owned_lease gid owner token d \<and> \<not> has_active_task s d) (ack_row current)
         (stale_claim_error gid owner token s) (gid, current) s)"

definition reject_claim ::
    "time_ms \<Rightarrow> string \<Rightarrow> string \<Rightarrow> string \<Rightarrow> rat \<Rightarrow> string \<Rightarrow> store \<Rightarrow> (store, string \<times> time_ms) outcome" where
  "reject_claim now group_arg owner_arg token_arg retry_seconds err s =
     checked s (claim_args group_arg owner_arg token_arg) (\<lambda>(gid, owner, token).
       let retry_after = now + retry_duration retry_seconds
       in settle_lease (\<lambda>d. owned_lease gid owner token d \<and> \<not> has_active_task s d)
            (retry_row retry_after err) (stale_claim_error gid owner token s) (gid, retry_after) s)"

definition renew_claim ::
    "time_ms \<Rightarrow> string \<Rightarrow> string \<Rightarrow> string \<Rightarrow> rat \<Rightarrow> store \<Rightarrow> (store, string \<times> time_ms) outcome" where
  "renew_claim now group_arg owner_arg token_arg lease_seconds s =
     checked s (claim_args group_arg owner_arg token_arg) (\<lambda>(gid, owner, token).
       let lease_until = now + lease_duration lease_seconds
       in settle_lease (owned_lease gid owner token) (\<lambda>d. d\<lparr>cd_lease_until_ms := lease_until\<rparr>)
            (ValueError ''claim is stale, unknown, or owned by another worker'') (gid, lease_until) s)"

text \<open>Status of a group: matching messages, available messages, and claims per state.\<close>

definition consumer_group_status ::
    "time_ms \<Rightarrow> string \<Rightarrow> store \<Rightarrow> exn + group_row \<times> nat \<times> nat \<times> (claim_state \<times> nat) list" where
  "consumer_group_status current group_arg s =
     and_then (consumer_id ''group ID'' group_arg) (\<lambda>gid.
     and_then (require_consumer_group gid s) (\<lambda>g.
       Inr (g, count_where (consumer_filters g) (t_inbox s),
            count_where (\<lambda>i. consumer_filters g i \<and> claimable s current gid i) (t_inbox s),
            filter (\<lambda>(st, n). n \<noteq> 0)
              (map (\<lambda>st. (st, count_where (\<lambda>d. cd_group d = gid \<and> cd_state d = st) (t_claims s)))
                 [ClaimAcked, Leased, RetryLater, ClaimRevoked]))))"

section \<open>Invariant\<close>

text \<open>
  Groups and claims have unique keys, a claim has a token exactly while it is leased, no two claims
  share a token, and a claim was attempted at least once.
\<close>

definition claims_ok :: "claim_row list \<Rightarrow> bool" where
  "claims_ok cs \<longleftrightarrow> unique_key claim_key cs
     \<and> (\<forall>d\<in>set cs. (cd_state d = Leased) = (cd_token d \<noteq> '''') \<and> 1 \<le> cd_attempts d)
     \<and> (\<forall>d\<in>set cs. \<forall>e\<in>set cs. cd_token d = cd_token e \<longrightarrow> cd_token d \<noteq> '''' \<longrightarrow> claim_key d = claim_key e)"

definition consumer_inv :: "store \<Rightarrow> bool" where
  "consumer_inv s \<longleftrightarrow> unique_key cg_group (t_groups s) \<and> claims_ok (t_claims s)"

lemma consumer_inv_empty: "consumer_inv empty_store"
  by (simp add: consumer_inv_def claims_ok_def empty_store_def)

lemma claims_okD:
  assumes "claims_ok cs"
  shows "unique_key claim_key cs"
    and "d \<in> set cs \<Longrightarrow> (cd_state d = Leased) = (cd_token d \<noteq> '''')"
    and "d \<in> set cs \<Longrightarrow> 1 \<le> cd_attempts d"
    and "d \<in> set cs \<Longrightarrow> e \<in> set cs \<Longrightarrow> cd_token d = cd_token e \<Longrightarrow> cd_token d \<noteq> '''' \<Longrightarrow> claim_key d = claim_key e"
  using assms unfolding claims_ok_def by blast+

lemma claims_okI:
  assumes "unique_key claim_key cs"
    and "\<And>d. d \<in> set cs \<Longrightarrow> (cd_state d = Leased) = (cd_token d \<noteq> '''')"
    and "\<And>d. d \<in> set cs \<Longrightarrow> 1 \<le> cd_attempts d"
    and "\<And>d e. d \<in> set cs \<Longrightarrow> e \<in> set cs \<Longrightarrow> cd_token d = cd_token e \<Longrightarrow> cd_token d \<noteq> '''' \<Longrightarrow> claim_key d = claim_key e"
  shows "claims_ok cs"
  using assms unfolding claims_ok_def by blast

lemma claims_ok_token_unique:
  "claims_ok cs \<Longrightarrow> d \<in> set cs \<Longrightarrow> e \<in> set cs \<Longrightarrow> cd_token d = cd_token e \<Longrightarrow> cd_token d \<noteq> '''' \<Longrightarrow> d = e"
  unfolding claims_ok_def using unique_keyD by metis

text \<open>Updates that end a lease, or keep its token, preserve the claim invariant.\<close>

lemma claims_ok_release:
  assumes "claims_ok cs"
    and "\<And>d. P d \<Longrightarrow> claim_key (f d) = claim_key d \<and> cd_attempts (f d) = cd_attempts d
           \<and> ((cd_token (f d) = '''' \<and> cd_state (f d) \<noteq> Leased)
              \<or> (cd_token (f d) = cd_token d \<and> cd_state (f d) = cd_state d))"
  shows "claims_ok (update_where P f cs)"
proof -
  let ?g = "\<lambda>d. if P d then f d else d"
  have g: "claim_key (?g d) = claim_key d \<and> cd_attempts (?g d) = cd_attempts d
     \<and> ((cd_token (?g d) = '''' \<and> cd_state (?g d) \<noteq> Leased)
        \<or> (cd_token (?g d) = cd_token d \<and> cd_state (?g d) = cd_state d))" for d
    using assms(2) by auto
  have "map claim_key (update_where P f cs) = map claim_key cs"
    using g by (auto simp: update_where_def)
  then have "unique_key claim_key (update_where P f cs)"
    using assms(1) by (simp add: claims_ok_def unique_key_def)
  moreover have "(cd_state (?g d) = Leased) = (cd_token (?g d) \<noteq> '''') \<and> 1 \<le> cd_attempts (?g d)"
    if "d \<in> set cs" for d
    using assms(1) that g [of d] unfolding claims_ok_def by metis
  moreover have "claim_key (?g d) = claim_key (?g e)"
    if "d \<in> set cs" "e \<in> set cs" "cd_token (?g d) = cd_token (?g e)" "cd_token (?g d) \<noteq> ''''" for d e
    using assms(1) that g [of d] g [of e] unfolding claims_ok_def by metis
  ultimately show ?thesis
    unfolding claims_ok_def set_update_where by blast
qed

lemma in_lease_row:
  assumes "d \<in> set (lease_row gid owner pid token lease cs)"
  shows "(d \<in> set cs \<and> claim_key d \<noteq> (gid, pid))
    \<or> (claim_key d = (gid, pid) \<and> cd_token d = token \<and> cd_state d = Leased \<and> cd_owner d = owner
       \<and> cd_lease_until_ms d = lease)"
  using assms by (auto simp: lease_row_def in_upsert claim_key_def split: if_splits)

lemma claims_ok_lease:
  assumes ok: "claims_ok cs" and "token \<noteq> ''''"
    and free: "\<not> exists_where (\<lambda>d. claim_key d \<noteq> (gid, pid) \<and> cd_token d = token) cs"
  shows "claims_ok (lease_row gid owner pid token lease cs)"
proof -
  let ?cs = "lease_row gid owner pid token lease cs"
  show ?thesis
  proof (rule claims_okI)
    show "unique_key claim_key ?cs"
      unfolding lease_row_def using claims_okD(1) [OF ok]
      by (intro unique_key_upsert) (simp_all add: claim_key_def)
    have "\<forall>d\<in>set cs. 1 \<le> cd_attempts d" using claims_okD(3) [OF ok] by blast
    then have "\<forall>d\<in>set ?cs. 1 \<le> cd_attempts d"
      unfolding lease_row_def by (rule ball_upsert) simp_all
    then show "1 \<le> cd_attempts d" if "d \<in> set ?cs" for d using that by blast
    show "(cd_state d = Leased) = (cd_token d \<noteq> '''')" if "d \<in> set ?cs" for d
      using in_lease_row [OF that] claims_okD(2) [OF ok] assms(2) by metis
    show "claim_key d = claim_key e"
      if de: "d \<in> set ?cs" "e \<in> set ?cs" "cd_token d = cd_token e" "cd_token d \<noteq> ''''" for d e
      using in_lease_row [OF de(1)] in_lease_row [OF de(2)]
    proof (elim disjE conjE)
      assume "d \<in> set cs" "e \<in> set cs"
      then show ?thesis using claims_okD(4) [OF ok] de(3,4) by blast
    next
      assume "d \<in> set cs" "claim_key d \<noteq> (gid, pid)" "cd_token e = token"
      then show ?thesis using free de(3) by auto
    next
      assume "e \<in> set cs" "claim_key e \<noteq> (gid, pid)" "cd_token d = token"
      then show ?thesis using free de(3) by auto
    next
      assume "claim_key d = (gid, pid)" "claim_key e = (gid, pid)"
      then show ?thesis by simp
    qed
  qed
qed

lemma claim_each_ok:
  assumes "claim_each E gid owner lease rows cs = Inr (cs', out)" and "claims_ok cs"
    and "\<forall>(i, prior, token) \<in> set rows. token \<noteq> ''''"
  shows "claims_ok cs'"
  using assms
proof (induction E gid owner lease rows cs arbitrary: out rule: claim_each.induct)
  case (2 E gid owner lease i prior token rest cs)
  have free: "\<not> exists_where (\<lambda>d. claim_key d \<noteq> (gid, ib_packet i) \<and> cd_token d = token) cs"
    and tok: "token \<noteq> ''''" using 2(2,4) by (auto split: if_splits)
  obtain item out' where "inbox_item_of E i = Inr item"
    "claim_each E gid owner lease rest (lease_row gid owner (ib_packet i) token lease cs) = Inr (cs', out')"
    using 2(2) by (auto split: if_splits)
  with 2(1) [OF free] claims_ok_lease [OF 2(3) tok free] 2(4) show ?case by auto
qed simp

text \<open>Every row after the loop is an untouched old row or a fresh lease of a selected message.\<close>

lemma claim_each_rows:
  assumes "claim_each E gid owner lease rows cs = Inr (cs', out)" and "d \<in> set cs'"
  shows "(d \<in> set cs \<and> claim_key d \<notin> (\<lambda>(i, prior, token). (gid, ib_packet i)) ` set rows)
    \<or> (\<exists>(i, prior, token) \<in> set rows. claim_key d = (gid, ib_packet i) \<and> cd_token d = token
         \<and> cd_state d = Leased \<and> cd_owner d = owner \<and> cd_lease_until_ms d = lease)"
  using assms
proof (induction E gid owner lease rows cs arbitrary: out rule: claim_each.induct)
  case (2 E gid owner lease i prior token rest cs)
  have free: "\<not> exists_where (\<lambda>d. claim_key d \<noteq> (gid, ib_packet i) \<and> cd_token d = token) cs"
    using 2(2) by (auto split: if_splits)
  obtain item out' where item: "inbox_item_of E i = Inr item" and
    rec: "claim_each E gid owner lease rest (lease_row gid owner (ib_packet i) token lease cs) = Inr (cs', out')"
    using 2(2) by (auto split: if_splits)
  from 2(1) [OF free rec 2(3)] show ?case
  proof
    assume l: "d \<in> set (lease_row gid owner (ib_packet i) token lease cs)
      \<and> claim_key d \<notin> (\<lambda>(i, prior, token). (gid, ib_packet i)) ` set rest"
    then have "d \<in> set (lease_row gid owner (ib_packet i) token lease cs)" by blast
    from in_lease_row [OF this] show ?thesis
    proof
      assume "d \<in> set cs \<and> claim_key d \<noteq> (gid, ib_packet i)"
      with l have "claim_key d \<notin> (\<lambda>(i, prior, token). (gid, ib_packet i)) ` set ((i, prior, token) # rest)"
        by simp
      with \<open>d \<in> set cs \<and> claim_key d \<noteq> (gid, ib_packet i)\<close> show ?thesis by blast
    qed simp
  qed auto
qed simp

lemma claim_each_out:
  assumes "claim_each E gid owner lease rows cs = Inr (cs', out)"
  shows "map (\<lambda>c. (it_packet_id (cl_item c), cl_attempt c, cl_token c)) out
      = map (\<lambda>(i, prior, token). (ib_packet i, prior + 1, token)) rows
    \<and> (\<forall>c\<in>set out. cl_group c = gid \<and> cl_owner c = owner \<and> cl_lease_until_ms c = lease)"
  using assms
proof (induction E gid owner lease rows cs arbitrary: out rule: claim_each.induct)
  case (2 E gid owner lease i prior token rest cs)
  have free: "\<not> exists_where (\<lambda>d. claim_key d \<noteq> (gid, ib_packet i) \<and> cd_token d = token) cs"
    using 2(2) by (auto split: if_splits)
  obtain item out' where item: "inbox_item_of E i = Inr item" and
    rec: "claim_each E gid owner lease rest (lease_row gid owner (ib_packet i) token lease cs) = Inr (cs', out')"
    and out: "out = \<lparr>cl_item = item, cl_group = gid, cl_owner = owner, cl_token = token,
              cl_lease_until_ms = lease, cl_attempt = prior + 1, cl_content_security = CONTENT_SECURITY\<rparr> # out'"
    using 2(2) free by auto
  from item have "it_packet_id item = ib_packet i" by (auto simp: inbox_item_of_def)
  with 2(1) [OF free rec] out show ?case by auto
qed simp

section \<open>Claiming\<close>

lemma claim_consumer_messages_Inr:
  assumes "claim_consumer_messages E now rnd g o' limit secs s = (s', Inr out)"
  obtains gid owner grp cs where "consumer_id ''group ID'' g = Inr gid" "consumer_id ''owner'' o' = Inr owner"
    "find_group s gid = Some grp"
    "claim_each E gid owner (now + lease_duration secs)
       (map2 (\<lambda>i n. (i, prior_attempts s gid i, token_hex (rnd n))) (claim_selection s now gid grp limit)
          [0..<length (claim_selection s now gid grp limit)]) (t_claims s) = Inr (cs, out)"
    "s' = s\<lparr>t_claims := cs\<rparr>"
  using assms
  by (auto simp: claim_consumer_messages_def checked_Inr transaction_Inr claim_body_def
      require_consumer_group_def Let_def split: option.splits)

lemma claim_consumer_messages_Inl:
  "snd (claim_consumer_messages E now rnd g o' limit secs s) = Inl e \<Longrightarrow>
   fst (claim_consumer_messages E now rnd g o' limit secs s) = s"
  by (auto simp: claim_consumer_messages_def checked_def dest: transaction_rollback split: sum.splits prod.splits)

text \<open>The rows the loop runs over: the selected messages with their prior attempts and tokens.\<close>

definition claim_plan :: "store \<Rightarrow> (nat \<Rightarrow> 128 word) \<Rightarrow> string \<Rightarrow> inbox_row list \<Rightarrow> (inbox_row \<times> int \<times> string) list" where
  "claim_plan s rnd gid rows =
     map2 (\<lambda>i n. (i, prior_attempts s gid i, token_hex (rnd n))) rows [0..<length rows]"

lemma in_claim_plan:
  assumes "(i, prior, token) \<in> set (claim_plan s rnd gid rows)"
  shows "i \<in> set rows \<and> prior = prior_attempts s gid i \<and> (\<exists>n. token = token_hex (rnd n))"
  using assms by (auto simp: claim_plan_def set_zip)

lemma fst_claim_plan: "map fst (claim_plan s rnd gid rows) = rows"
  by (rule nth_equalityI) (simp_all add: claim_plan_def)

lemma consumer_inv_claims:
  "consumer_inv s \<Longrightarrow> claims_ok cs \<Longrightarrow> consumer_inv (s\<lparr>t_claims := cs\<rparr>)"
  by (simp add: consumer_inv_def)

lemma consumer_inv_claim [keep_inv]:
  assumes inv: "consumer_inv s"
  shows "consumer_inv (fst (claim_consumer_messages E now rnd g o' limit secs s))"
proof (rule outcome_preserves [where P = consumer_inv, OF inv claim_consumer_messages_Inl])
  fix s' out assume "claim_consumer_messages E now rnd g o' limit secs s = (s', Inr out)"
  then obtain gid owner grp cs where
    ce: "claim_each E gid owner (now + lease_duration secs)
       (claim_plan s rnd gid (claim_selection s now gid grp limit)) (t_claims s) = Inr (cs, out)"
    and s': "s' = s\<lparr>t_claims := cs\<rparr>"
    unfolding claim_plan_def by (rule claim_consumer_messages_Inr)
  have "\<forall>(i, prior, token) \<in> set (claim_plan s rnd gid (claim_selection s now gid grp limit)). token \<noteq> ''''"
    by (auto dest!: in_claim_plan)
  then have "claims_ok cs" using claim_each_ok [OF ce] inv by (simp add: consumer_inv_def)
  with inv show "consumer_inv s'" unfolding s' by (rule consumer_inv_claims)
qed

lemma consumer_inv_open [keep_inv]:
  "consumer_inv s \<Longrightarrow> consumer_inv (fst (open_consumer_group now g st p sd tr it s))"
  by (auto simp: open_consumer_group_def checked_def consumer_inv_def Let_def find_group_def find_None_iff_all
      intro!: unique_key_append split: sum.splits option.splits)

section \<open>Settling a claim\<close>

text \<open>
  What acknowledging, rejecting and renewing have in common: they change exactly one leased row,
  the one whose group, owner and token the caller names, or nothing.  A worker that lost its lease
  is fenced off by this contract alone.
\<close>

locale lease_settlement =
  fixes settle :: "string \<Rightarrow> string \<Rightarrow> string \<Rightarrow> store \<Rightarrow> (store, 'r) outcome"
    and change :: "'r \<Rightarrow> claim_row \<Rightarrow> claim_row"
  assumes settle_ok: "claims_ok (t_claims s) \<Longrightarrow> settle g own t s = (s', Inr r) \<Longrightarrow>
      \<exists>gid owner token d. claim_args g own t = Inr (gid, owner, token) \<and> d \<in> set (t_claims s)
        \<and> owned_lease gid owner token d
        \<and> s' = s\<lparr>t_claims := map (\<lambda>x. if x = d then change r d else x) (t_claims s)\<rparr>"
    and settle_fail: "claims_ok (t_claims s) \<Longrightarrow> snd (settle g own t s) = Inl e \<Longrightarrow> fst (settle g own t s) = s"
begin

lemma fenced:
  assumes "claims_ok (t_claims s)" and "claim_args g own t = Inr (gid, owner, token)"
    and "\<And>d. d \<in> set (t_claims s) \<Longrightarrow> cd_token d \<noteq> token"
  shows "\<exists>e. settle g own t s = (s, Inl e)"
proof (cases "snd (settle g own t s)")
  case (Inl e)
  then show ?thesis using settle_fail [OF assms(1) Inl] by (metis prod.collapse)
next
  case (Inr r)
  then obtain s' where "settle g own t s = (s', Inr r)" by (metis prod.collapse)
  from settle_ok [OF assms(1) this] obtain d where "d \<in> set (t_claims s)" "cd_token d = token"
    using assms(2) by (auto simp: owned_lease_def)
  with assms(3) show ?thesis by blast
qed

lemma only_owner:
  assumes "claims_ok (t_claims s)" and "settle g own t s = (s', Inr r)" and "claim_args g own t = Inr (gid, owner, token)"
  shows "\<exists>d\<in>set (t_claims s). cd_group d = gid \<and> cd_owner d = owner \<and> cd_token d = token"
  using settle_ok [OF assms(1,2)] assms(3) by (auto simp: owned_lease_def)

end

lemma claim_args_token: "claim_args g own t = Inr (gid, owner, token) \<Longrightarrow> hex_string 32 token"
  by (auto simp: claim_args_def claim_token_def Let_def split: if_splits)

lemma settle_lease_row:
  assumes ok: "claims_ok (t_claims s)" and tok: "token \<noteq> ''''"
    and hit: "\<And>d. hit d \<Longrightarrow> owned_lease gid owner token d"
  shows "(if snd (settle_lease hit f err r s) = Inr r
     then \<exists>d\<in>set (t_claims s). hit d \<and> fst (settle_lease hit f err r s)
            = s\<lparr>t_claims := map (\<lambda>x. if x = d then f d else x) (t_claims s)\<rparr>
     else settle_lease hit f err r s = (s, Inl err))"
proof (cases "\<exists>d\<in>set (t_claims s). hit d")
  case True
  then obtain d where d: "d \<in> set (t_claims s)" "hit d" by blast
  have same: "hit e \<longleftrightarrow> e = d" if "e \<in> set (t_claims s)" for e
    using claims_ok_token_unique [OF ok that d(1)] d(2) hit [of e] hit [of d] tok by (auto simp: owned_lease_def)
  then have "update_where hit f (t_claims s) = map (\<lambda>x. if x = d then f d else x) (t_claims s)"
    by (auto simp: update_where_def)
  moreover have "count_where hit (t_claims s) = 1"
  proof -
    have "filter hit (t_claims s) = filter (\<lambda>e. e = d) (t_claims s)" using same by (intro filter_cong) auto
    moreover have "count_where (\<lambda>e. e = d) (t_claims s) = 1 \<longleftrightarrow> (\<exists>e\<in>set (t_claims s). e = d)"
      by (rule count_where_1 [OF claims_okD(1) [OF ok]]) simp
    ultimately show ?thesis using d(1) by (simp add: count_where_def)
  qed
  ultimately show ?thesis using d by (auto simp: settle_lease_def)
next
  case False
  then have "update_where hit f (t_claims s) = t_claims s" by (auto simp: update_where_def intro: map_idI)
  moreover have "count_where hit (t_claims s) = 0" using False by (auto simp: count_where_def filter_empty_conv)
  ultimately show ?thesis by (simp add: settle_lease_def)
qed

text \<open>A settlement whose row filter is part of the owned lease meets the contract.\<close>

lemma settle_lease_contract:
  fixes s :: store
  assumes ok: "claims_ok (t_claims s)"
    and hit: "\<And>gid owner token d. hit gid owner token d \<Longrightarrow> owned_lease gid owner token d"
    and q_def: "q = checked s (claim_args g own t) (\<lambda>(gid, owner, token).
      settle_lease (hit gid owner token) f (err gid owner token) (gid, x) s)"
  shows "snd q = Inl e \<Longrightarrow> fst q = s"
    and "q = (s', Inr r) \<Longrightarrow> snd r = x \<and> (\<exists>gid owner token d. claim_args g own t = Inr (gid, owner, token)
        \<and> d \<in> set (t_claims s) \<and> owned_lease gid owner token d
        \<and> s' = s\<lparr>t_claims := map (\<lambda>x. if x = d then f d else x) (t_claims s)\<rparr>)"
proof -
  { fix gid owner token assume a: "claim_args g own t = Inr (gid, owner, token)"
    have tok: "token \<noteq> ''''" using hex_string_nonempty [OF claim_args_token [OF a]] by simp
    note settle_lease_row [OF ok tok, where hit = "hit gid owner token" and gid = gid and owner = owner
        and f = f and err = "err gid owner token" and r = "(gid, x)"] }
  note row = this
  show "snd q = Inl e \<Longrightarrow> fst q = s"
  proof (cases "claim_args g own t")
    case (Inr a)
    obtain gid owner token where a: "a = (gid, owner, token)" by (cases a)
    assume "snd q = Inl e"
    then show ?thesis using row [OF Inr [unfolded a] hit] by (simp add: q_def Inr a split: if_splits)
  qed (simp add: q_def)
  show "snd r = x \<and> (\<exists>gid owner token d. claim_args g own t = Inr (gid, owner, token)
        \<and> d \<in> set (t_claims s) \<and> owned_lease gid owner token d
        \<and> s' = s\<lparr>t_claims := map (\<lambda>x. if x = d then f d else x) (t_claims s)\<rparr>)"
    if q: "q = (s', Inr r)"
  proof (cases "claim_args g own t")
    case (Inr a)
    obtain gid owner token where a: "a = (gid, owner, token)" by (cases a)
    have q': "settle_lease (hit gid owner token) f (err gid owner token) (gid, x) s = (s', Inr r)"
      using q by (simp add: q_def Inr a)
    then have "r = (gid, x)" by (auto simp: settle_lease_def split: if_splits)
    with q' obtain d where "d \<in> set (t_claims s)" "hit gid owner token d"
      "s' = s\<lparr>t_claims := map (\<lambda>x. if x = d then f d else x) (t_claims s)\<rparr>"
      using row [OF Inr [unfolded a] hit] by auto
    with Inr a hit \<open>r = (gid, x)\<close> show ?thesis by auto
  qed (use q in \<open>simp add: q_def\<close>)
qed

interpretation acknowledge: lease_settlement "acknowledge_claim now" "\<lambda>r. ack_row now" for now
proof (unfold_locales, goal_cases)
  case (1 s g own t s' r)
  then show ?case using settle_lease_contract(2) [OF _ _ acknowledge_claim_def] by blast
next
  case (2 s g own t e)
  then show ?case using settle_lease_contract(1) [OF _ _ acknowledge_claim_def] by blast
qed

lemma reject_claim_alt:
  "reject_claim now g own t secs err s = checked s (claim_args g own t) (\<lambda>(gid, owner, token).
     settle_lease (\<lambda>d. owned_lease gid owner token d \<and> \<not> has_active_task s d)
       (retry_row (now + retry_duration secs) err) (stale_claim_error gid owner token s)
       (gid, now + retry_duration secs) s)"
  by (simp add: reject_claim_def Let_def)

lemma renew_claim_alt:
  "renew_claim now g own t secs s = checked s (claim_args g own t) (\<lambda>(gid, owner, token).
     settle_lease (owned_lease gid owner token) (\<lambda>d. d\<lparr>cd_lease_until_ms := now + lease_duration secs\<rparr>)
       (ValueError ''claim is stale, unknown, or owned by another worker'') (gid, now + lease_duration secs) s)"
  by (simp add: renew_claim_def Let_def)

interpretation reject: lease_settlement "\<lambda>g own t. reject_claim now g own t secs err"
  "\<lambda>r. retry_row (now + retry_duration secs) err" for now secs err
proof (unfold_locales, goal_cases)
  case (1 s g own t s' r)
  then show ?case using settle_lease_contract(2) [OF _ _ reject_claim_alt] by blast
next
  case (2 s g own t e)
  then show ?case using settle_lease_contract(1) [OF _ _ reject_claim_alt] by blast
qed

interpretation renew: lease_settlement "\<lambda>g own t. renew_claim now g own t secs"
  "\<lambda>r d. d\<lparr>cd_lease_until_ms := now + lease_duration secs\<rparr>" for now secs
proof (unfold_locales, goal_cases)
  case (1 s g own t s' r)
  then show ?case using settle_lease_contract(2) [OF _ _ renew_claim_alt] by blast
next
  case (2 s g own t e)
  then show ?case using settle_lease_contract(1) [OF _ _ renew_claim_alt] by blast
qed

lemma consumer_inv_settle:
  assumes "consumer_inv s"
    and "\<And>d. hit d \<Longrightarrow> claim_key (f d) = claim_key d \<and> cd_attempts (f d) = cd_attempts d
           \<and> ((cd_token (f d) = '''' \<and> cd_state (f d) \<noteq> Leased)
              \<or> (cd_token (f d) = cd_token d \<and> cd_state (f d) = cd_state d))"
  shows "consumer_inv (fst (settle_lease hit f err r s))"
  using claims_ok_release [of "t_claims s" hit f] assms
  by (simp add: settle_lease_def consumer_inv_def)

lemma consumer_inv_settlements [keep_inv]:
  assumes "consumer_inv s"
  shows "consumer_inv (fst (acknowledge_claim now g own t s))"
    and "consumer_inv (fst (reject_claim now g own t secs err s))"
    and "consumer_inv (fst (renew_claim now g own t secs s))"
  unfolding acknowledge_claim_def reject_claim_alt renew_claim_alt
  by (rule checked_preserves [where P = consumer_inv, OF assms],
      auto intro!: consumer_inv_settle [OF assms] simp: ack_row_def retry_row_def claim_key_def)+

lemma consumer_inv_frame:
  "t_groups s' = t_groups s \<Longrightarrow> t_claims s' = t_claims s \<Longrightarrow> consumer_inv s' = consumer_inv s"
  by (simp add: consumer_inv_def)

section \<open>Acknowledged claims stay acknowledged\<close>

definition claim_done :: "string \<times> string \<Rightarrow> store \<Rightarrow> bool" where
  "claim_done k s = exists_where (\<lambda>d. claim_key d = k \<and> cd_state d = ClaimAcked) (t_claims s)"

lemma find_claim_unique:
  assumes "claims_ok (t_claims s)" and "d \<in> set (t_claims s)"
  shows "find_claim s (cd_group d) (cd_packet d) = Some d"
proof -
  have "(\<lambda>q. cd_group q = cd_group d \<and> cd_packet q = cd_packet d) = (\<lambda>q. claim_key q = claim_key d)"
    by (auto simp: claim_key_def)
  then show ?thesis
    using find_unique [of claim_key "t_claims s" d] claims_okD(1) [OF assms(1)] assms(2)
    by (simp add: find_claim_def)
qed

lemma claimable_row:
  assumes "claims_ok (t_claims s)" and "claimable s now gid i"
    and "d \<in> set (t_claims s)" and "claim_key d = (gid, ib_packet i)"
  shows "(cd_state d = Leased \<and> cd_lease_until_ms d \<le> now) \<or> (cd_state d = RetryLater \<and> cd_retry_after_ms d \<le> now)"
  using assms(2,4) find_claim_unique [OF assms(1,3)] by (auto simp: claimable_def claim_key_def)

lemma in_claim_selection:
  "i \<in> set (claim_selection s now gid g limit) \<Longrightarrow>
   i \<in> set (t_inbox s) \<and> consumer_filters g i \<and> claimable s now gid i"
  by (auto simp: claim_selection_def dest!: set_sort_key_take)

text \<open>Old rows whose message was not selected survive the claim loop.\<close>

lemma lease_row_keeps: "d \<in> set cs \<Longrightarrow> claim_key d \<noteq> (gid, pid) \<Longrightarrow> d \<in> set (lease_row gid owner pid token lease cs)"
  by (auto simp: lease_row_def in_upsert claim_key_def)

lemma claim_each_keeps:
  assumes "claim_each E gid owner lease rows cs = Inr (cs', out)" and "d \<in> set cs"
    and "claim_key d \<notin> (\<lambda>(i, prior, token). (gid, ib_packet i)) ` set rows"
  shows "d \<in> set cs'"
  using assms
proof (induction E gid owner lease rows cs arbitrary: out rule: claim_each.induct)
  case (2 E gid owner lease i prior token rest cs)
  have free: "\<not> exists_where (\<lambda>d. claim_key d \<noteq> (gid, ib_packet i) \<and> cd_token d = token) cs"
    using 2(2) by (auto split: if_splits)
  obtain out' where
    rec: "claim_each E gid owner lease rest (lease_row gid owner (ib_packet i) token lease cs) = Inr (cs', out')"
    using 2(2) free by auto
  have "d \<in> set (lease_row gid owner (ib_packet i) token lease cs)"
    using lease_row_keeps [OF 2(3)] 2(4) by simp
  then show ?case using 2(1) [OF free rec] 2(4) by simp
qed simp

lemma claim_done_claim:
  assumes inv: "consumer_inv s" and dn: "claim_done k s"
  shows "claim_done k (fst (claim_consumer_messages E now rnd g o' limit secs s))"
proof (rule outcome_preserves [where P = "claim_done k", OF dn claim_consumer_messages_Inl])
  fix s' out assume "claim_consumer_messages E now rnd g o' limit secs s = (s', Inr out)"
  then obtain gid owner grp cs where
    ce: "claim_each E gid owner (now + lease_duration secs)
       (claim_plan s rnd gid (claim_selection s now gid grp limit)) (t_claims s) = Inr (cs, out)"
    and s': "s' = s\<lparr>t_claims := cs\<rparr>"
    unfolding claim_plan_def by (rule claim_consumer_messages_Inr)
  obtain d where d: "d \<in> set (t_claims s)" "claim_key d = k" "cd_state d = ClaimAcked"
    using dn by (auto simp: claim_done_def)
  have ok: "claims_ok (t_claims s)" using inv by (simp add: consumer_inv_def)
  have "claim_key d \<noteq> (gid, ib_packet i)" if "i \<in> set (claim_selection s now gid grp limit)" for i
    using claimable_row [OF ok _ d(1)] in_claim_selection [OF that] d(3) by fastforce
  then have "claim_key d \<notin> (\<lambda>(i, prior, token). (gid, ib_packet i)) `
      set (claim_plan s rnd gid (claim_selection s now gid grp limit))"
    by (auto dest!: in_claim_plan)
  from claim_each_keeps [OF ce d(1) this] show "claim_done k s'" using d unfolding s' by (auto simp: claim_done_def)
qed

lemma claim_done_settle:
  assumes "claim_done k s" and "\<And>d. hit d \<Longrightarrow> cd_state d = Leased"
  shows "claim_done k (fst (settle_lease hit f err r s))"
proof -
  obtain d where d: "d \<in> set (t_claims s)" "claim_key d = k" "cd_state d = ClaimAcked"
    using assms(1) by (auto simp: claim_done_def)
  then have "\<not> hit d" using assms(2) [of d] by auto
  then have "d \<in> set (update_where hit f (t_claims s))" using update_where_miss [OF d(1)] by blast
  with d show ?thesis by (auto simp: claim_done_def settle_lease_def)
qed

lemma claim_done_settlements:
  assumes "claim_done k s"
  shows "claim_done k (fst (acknowledge_claim now g own t s))"
    and "claim_done k (fst (reject_claim now g own t secs err s))"
    and "claim_done k (fst (renew_claim now g own t secs s))"
  unfolding acknowledge_claim_def reject_claim_alt renew_claim_alt
  by (rule checked_preserves [where P = "claim_done k", OF assms],
      auto intro!: claim_done_settle [OF assms] simp: owned_lease_def)+

section \<open>Calls\<close>

datatype consumer_call =
    OpenGroup time_ms string string string string bool bool
  | Claim ext time_ms "nat \<Rightarrow> 128 word" string string int rat
  | Acknowledge time_ms string string string
  | Reject time_ms string string string rat string
  | Renew time_ms string string string rat

fun consumer_step :: "consumer_call \<Rightarrow> store \<Rightarrow> store" where
  "consumer_step (OpenGroup now g st p sd tr it) s = fst (open_consumer_group now g st p sd tr it s)"
| "consumer_step (Claim E now rnd g own limit secs) s =
     fst (claim_consumer_messages E now rnd g own limit secs s)"
| "consumer_step (Acknowledge now g own t) s = fst (acknowledge_claim now g own t s)"
| "consumer_step (Reject now g own t secs err) s = fst (reject_claim now g own t secs err s)"
| "consumer_step (Renew now g own t secs) s = fst (renew_claim now g own t secs s)"

lemma consumer_inv_step: "consumer_inv s \<Longrightarrow> consumer_inv (consumer_step c s)"
  by (cases c) (auto intro: keep_inv)

lemma open_group_claims [simp]: "t_claims (fst (open_consumer_group now g st p sd tr it s)) = t_claims s"
  by (auto simp: open_consumer_group_def checked_def Let_def split: sum.splits option.splits)

lemma claim_done_step: "consumer_inv s \<Longrightarrow> claim_done k s \<Longrightarrow> claim_done k (consumer_step c s)"
proof (cases c)
  case (OpenGroup now g st p sd tr it)
  assume "claim_done k s"
  then show ?thesis by (simp add: OpenGroup claim_done_def)
qed (auto simp: claim_done_claim claim_done_settlements)

text \<open>Consumer calls only write the tables of groups and claims.\<close>

definition only_claims :: "store \<Rightarrow> store \<Rightarrow> bool" where
  "only_claims s t \<longleftrightarrow> t = s\<lparr>t_groups := t_groups t, t_claims := t_claims t\<rparr>"

lemma only_claims_intros [simp]:
  "only_claims s s" "only_claims s (s\<lparr>t_claims := cs\<rparr>)" "only_claims s (s\<lparr>t_groups := gs\<rparr>)"
  by (cases s, simp add: only_claims_def)+

lemma consumer_step_frame: "only_claims s (consumer_step c s)"
proof (cases c)
  case (OpenGroup now g st p sd tr it)
  then show ?thesis
    by (simp add: open_consumer_group_def checked_def Let_def split: sum.splits option.splits prod.splits)
next
  case (Claim E now rnd g own limit secs)
  show ?thesis unfolding Claim consumer_step.simps
    by (rule outcome_preserves [where P = "only_claims s", OF _ claim_consumer_messages_Inl])
      (auto elim!: claim_consumer_messages_Inr)
qed (simp_all add: acknowledge_claim_def reject_claim_alt renew_claim_alt settle_lease_def checked_def
    split: sum.splits prod.splits)

lemma only_claimsD:
  assumes "only_claims s t"
  shows "t_packets t = t_packets s" "t_deliveries t = t_deliveries s" "t_delivery_paths t = t_delivery_paths s"
    "t_receipts t = t_receipts s" "t_rejections t = t_rejections s" "t_inbox t = t_inbox s"
    "t_tasks t = t_tasks s" "t_cancels t = t_cancels s" "t_metadata t = t_metadata s"
    "t_local_prekeys t = t_local_prekeys s" "t_peer_bundles t = t_peer_bundles s"
    "t_peer_prekeys t = t_peer_prekeys s" "t_path_metrics t = t_path_metrics s" "t_routes t = t_routes s"
proof -
  have t: "t = s\<lparr>t_groups := t_groups t, t_claims := t_claims t\<rparr>" using assms by (simp add: only_claims_def)
  show "t_packets t = t_packets s" "t_deliveries t = t_deliveries s" "t_delivery_paths t = t_delivery_paths s"
    "t_receipts t = t_receipts s" "t_rejections t = t_rejections s" "t_inbox t = t_inbox s"
    "t_tasks t = t_tasks s" "t_cancels t = t_cancels s" "t_metadata t = t_metadata s"
    "t_local_prekeys t = t_local_prekeys s" "t_peer_bundles t = t_peer_bundles s"
    "t_peer_prekeys t = t_peer_prekeys s" "t_path_metrics t = t_path_metrics s" "t_routes t = t_routes s"
    by (subst t, simp)+
qed

section \<open>Properties\<close>

text \<open>The claims a successful call returns, with the message each one is about.\<close>

lemma claim_each_member:
  assumes "claim_each E gid owner lease rows cs = Inr (cs', out)" and "c \<in> set out"
  shows "\<exists>i prior token. (i, prior, token) \<in> set rows \<and> it_packet_id (cl_item c) = ib_packet i
    \<and> cl_attempt c = prior + 1 \<and> cl_token c = token"
proof -
  have "(it_packet_id (cl_item c), cl_attempt c, cl_token c)
      \<in> (\<lambda>(i, prior, token). (ib_packet i, prior + 1, token)) ` set rows"
    using claim_each_out [OF assms(1)] assms(2) by (metis (no_types, lifting) image_eqI set_map)
  then show ?thesis by auto
qed

lemma claim_each_packets:
  assumes "claim_each E gid owner lease rows cs = Inr (cs', out)"
  shows "map (\<lambda>c. it_packet_id (cl_item c)) out = map (\<lambda>r. ib_packet (fst r)) rows"
proof -
  have "map fst (map (\<lambda>c. (it_packet_id (cl_item c), cl_attempt c, cl_token c)) out)
      = map fst (map (\<lambda>(i, prior, token). (ib_packet i, prior + 1, token)) rows)"
    using claim_each_out [OF assms] by simp
  then show ?thesis by (simp add: comp_def case_prod_beta)
qed

lemma claim_each_fresh:
  assumes ce: "claim_each E gid owner lease (claim_plan s rnd gid rows) cs = Inr (cs', out)" and "d \<in> set cs'"
  shows "(d \<in> set cs \<and> claim_key d \<notin> (\<lambda>i. (gid, ib_packet i)) ` set rows)
    \<or> (cd_state d = Leased \<and> (\<exists>n. cd_token d = token_hex (rnd n)) \<and> claim_key d \<in> (\<lambda>i. (gid, ib_packet i)) ` set rows)"
proof -
  let ?plan = "claim_plan s rnd gid rows"
  have "(\<lambda>(i, prior, token). (gid, ib_packet i)) ` set ?plan = (\<lambda>i. (gid, ib_packet i)) ` set (map fst ?plan)"
    by (simp add: image_image case_prod_beta)
  then have keys: "(\<lambda>(i, prior, token). (gid, ib_packet i)) ` set ?plan = (\<lambda>i. (gid, ib_packet i)) ` set rows"
    by (simp only: fst_claim_plan)
  from claim_each_rows [OF assms] show ?thesis
  proof
    assume "\<exists>(i, prior, token) \<in> set ?plan. claim_key d = (gid, ib_packet i) \<and> cd_token d = token
         \<and> cd_state d = Leased \<and> cd_owner d = owner \<and> cd_lease_until_ms d = lease"
    then obtain i prior token where "(i, prior, token) \<in> set ?plan" "claim_key d = (gid, ib_packet i)"
      "cd_token d = token" "cd_state d = Leased" by auto
    with in_claim_plan [of i prior token s rnd gid rows] show ?thesis by auto
  qed (simp add: keys)
qed

lemma claim_call:
  assumes "claim_consumer_messages E now rnd g own limit secs s = (s', Inr out)"
  obtains gid owner grp cs where "consumer_id ''group ID'' g = Inr gid" "find_group s gid = Some grp"
    "claim_each E gid owner (now + lease_duration secs)
       (claim_plan s rnd gid (claim_selection s now gid grp limit)) (t_claims s) = Inr (cs, out)"
    "s' = s\<lparr>t_claims := cs\<rparr>"
  using assms unfolding claim_plan_def by (rule claim_consumer_messages_Inr)

lemma claim_call_packets:
  assumes "claim_each E gid owner lease (claim_plan s rnd gid rows) cs = Inr (cs', out)"
  shows "map (\<lambda>c. it_packet_id (cl_item c)) out = map ib_packet rows"
proof -
  have "map (\<lambda>c. it_packet_id (cl_item c)) out = map ib_packet (map fst (claim_plan s rnd gid rows))"
    using claim_each_packets [OF assms] by simp
  then show ?thesis by (simp only: fst_claim_plan)
qed


lemma reclaim_removes_token:
  assumes inv: "consumer_inv s" and d: "d \<in> set (t_claims s)" "cd_token d = token" "token \<noteq> ''''"
    and claim: "claim_consumer_messages E now rnd g own limit secs s = (s', Inr out)"
    and again: "consumer_id ''group ID'' g = Inr (cd_group d)" "cd_packet d \<in> (\<lambda>c. it_packet_id (cl_item c)) ` set out"
    and fresh: "\<forall>n. token_hex (rnd n) \<noteq> token"
    and e: "e \<in> set (t_claims s')"
  shows "cd_token e \<noteq> token"
proof -
  have ok: "claims_ok (t_claims s)" using inv by (simp add: consumer_inv_def)
  obtain gid owner grp cs where gid: "consumer_id ''group ID'' g = Inr gid"
    and ce: "claim_each E gid owner (now + lease_duration secs)
       (claim_plan s rnd gid (claim_selection s now gid grp limit)) (t_claims s) = Inr (cs, out)"
    and s': "s' = s\<lparr>t_claims := cs\<rparr>"
    using claim by (rule claim_call)
  have "set (map (\<lambda>c. it_packet_id (cl_item c)) out) = set (map ib_packet (claim_selection s now gid grp limit))"
    by (simp only: claim_call_packets [OF ce])
  with again(2) have "cd_packet d \<in> ib_packet ` set (claim_selection s now gid grp limit)" by simp
  moreover have "gid = cd_group d" using gid again(1) by simp
  ultimately have key: "claim_key d \<in> (\<lambda>i. (gid, ib_packet i)) ` set (claim_selection s now gid grp limit)"
    by (auto simp: claim_key_def)
  have "e \<in> set cs" using e by (simp add: s')
  from claim_each_fresh [OF ce this] show ?thesis
  proof
    assume old: "e \<in> set (t_claims s) \<and> claim_key e \<notin> (\<lambda>i. (gid, ib_packet i)) ` set (claim_selection s now gid grp limit)"
    then have "e \<noteq> d" using key by auto
    with claims_ok_token_unique [OF ok _ d(1)] old d(2,3) show ?thesis by auto
  qed (use fresh in auto)
qed

text \<open>
  C19: fencing of stale workers.  When the lease of a claim has run out and its message is handed out
  again, the old token is worthless: acknowledging, rejecting or renewing with it raises and leaves
  the store unchanged, whichever group and owner are named (the new tokens are assumed to differ
  from the old one).
\<close>

theorem stale_token_fenced:
  assumes "consumer_inv s" and "d \<in> set (t_claims s)" and "cd_token d = token" and "token \<noteq> ''''"
    and "claim_consumer_messages E now rnd g own limit secs s = (s', Inr out)"
    and "consumer_id ''group ID'' g = Inr (cd_group d)" and "cd_packet d \<in> (\<lambda>c. it_packet_id (cl_item c)) ` set out"
    and "\<forall>n. token_hex (rnd n) \<noteq> token"
    and "claim_args g' own' t' = Inr (gid, owner, token)"
  shows "(\<exists>e. acknowledge_claim later g' own' t' s' = (s', Inl e))
    \<and> (\<exists>e. reject_claim later g' own' t' retry err s' = (s', Inl e))
    \<and> (\<exists>e. renew_claim later g' own' t' lease s' = (s', Inl e))"
proof -
  have none: "cd_token e \<noteq> token" if "e \<in> set (t_claims s')" for e
    using assms(1-8) that by (rule reclaim_removes_token)
  have "consumer_inv s'" using consumer_inv_claim [OF assms(1), of E now rnd g own limit secs] assms(5) by simp
  then have ok: "claims_ok (t_claims s')" by (simp add: consumer_inv_def)
  show ?thesis
    using acknowledge.fenced [OF ok assms(9) none] reject.fenced [OF ok assms(9) none]
      renew.fenced [OF ok assms(9) none] by simp
qed

interpretation settled: stable_machine empty_store consumer_step consumer_inv claim_done
  by unfold_locales (auto intro: consumer_inv_empty consumer_inv_step claim_done_step)

lemma acknowledge_done:
  assumes "claims_ok (t_claims s)" and "acknowledge_claim now g own t s = (s', Inr r)"
  obtains d where "d \<in> set (t_claims s)" "cd_state d = Leased" "claim_done (claim_key d) s'"
proof -
  obtain gid owner token d where d: "d \<in> set (t_claims s)" "owned_lease gid owner token d"
    and s': "s' = s\<lparr>t_claims := map (\<lambda>x. if x = d then ack_row now d else x) (t_claims s)\<rparr>"
    using acknowledge.settle_ok [OF assms] by blast
  have "ack_row now d \<in> set (t_claims s')" using d(1) by (force simp: s')
  then have "claim_done (claim_key d) s'"
    unfolding claim_done_def exists_where_iff by (rule rev_bexI) (simp add: ack_row_def claim_key_def)
  with d show thesis by (auto simp: owned_lease_def intro: that)
qed

lemma done_not_claimed:
  assumes inv: "consumer_inv s" and dn: "claim_done (gid, pid) s" and g: "consumer_id ''group ID'' g = Inr gid"
    and claim: "claim_consumer_messages E now rnd g own limit secs s = (s', Inr out)"
  shows "pid \<notin> (\<lambda>c. it_packet_id (cl_item c)) ` set out"
proof
  assume "pid \<in> (\<lambda>c. it_packet_id (cl_item c)) ` set out"
  moreover have ok: "claims_ok (t_claims s)" using inv by (simp add: consumer_inv_def)
  obtain gid' owner grp cs where gid': "consumer_id ''group ID'' g = Inr gid'"
    and ce: "claim_each E gid' owner (now + lease_duration secs)
       (claim_plan s rnd gid' (claim_selection s now gid' grp limit)) (t_claims s) = Inr (cs, out)"
    using claim by (rule claim_call)
  have "set (map (\<lambda>c. it_packet_id (cl_item c)) out) = set (map ib_packet (claim_selection s now gid' grp limit))"
    by (simp only: claim_call_packets [OF ce])
  ultimately obtain i where i: "i \<in> set (claim_selection s now gid' grp limit)" "pid = ib_packet i" by auto
  obtain d where d: "d \<in> set (t_claims s)" "claim_key d = (gid, pid)" "cd_state d = ClaimAcked"
    using dn by (auto simp: claim_done_def)
  have "claimable s now gid i" using in_claim_selection [OF i(1)] gid' g by simp
  from claimable_row [OF ok this d(1)] d(2,3) i(2) show False by simp
qed


section \<open>Examples\<close>

lemma claim_token_hex: "hex_string 32 t \<Longrightarrow> claim_token t = Inr t"
  using prekey_id_arg_hex [of t] by (auto simp: claim_token_def prekey_id_arg_def Let_def split: if_splits)

definition demo_row :: inbox_row where
  "demo_row = \<lparr>ib_rowid = 1, ib_packet = ''p'', ib_sender = ''a'', ib_kind = ''chat'', ib_created_ms = 10,
     ib_received_ms = 100, ib_codec = ''msgpack'', ib_body = [], ib_causal = [], ib_reply_to = '''',
     ib_trusted = True, ib_is_read = False, ib_qos = QNormal, ib_visible = True\<rparr>"

definition demo_group :: group_row where
  "demo_group = \<lparr>cg_group = ''g'', cg_created_ms = 10, cg_start_after = 0, cg_kind_prefix = '''',
     cg_sender = '''', cg_trusted_only = True, cg_include_transient = False\<rparr>"

definition demo_lease :: "128 word \<Rightarrow> claim_row" where
  "demo_lease w = \<lparr>cd_group = ''g'', cd_packet = ''p'', cd_state = Leased, cd_owner = ''w'', cd_token = token_hex w,
     cd_lease_until_ms = 6000, cd_retry_after_ms = 0, cd_attempts = 1, cd_acked_ms = 0, cd_last_error = ''''\<rparr>"

text \<open>A message, a group, and the claims on it.\<close>

definition demo_box :: "claim_row list \<Rightarrow> store" where
  "demo_box cs = empty_store\<lparr>t_inbox := [demo_row], t_groups := [demo_group], t_claims := cs\<rparr>"

lemma demo_box_inv:
  "consumer_inv (demo_box [])" "consumer_inv (demo_box [demo_lease w])" "consumer_inv (demo_box [ack_row t (demo_lease w)])"
  by (simp_all add: consumer_inv_def claims_ok_def demo_box_def empty_store_def unique_key_def demo_lease_def ack_row_def)

lemma demo_ids:
  "consumer_id ''group ID'' ''g'' = Inr ''g''" "consumer_id ''owner'' ''w'' = Inr ''w''" "lease_duration 5 = 5000"
  by code_simp+

lemma demo_item: "\<exists>it. inbox_item_of demo_ext demo_row = Inr it \<and> it_packet_id it = ''p''"
  by (simp add: inbox_item_of_def demo_ext_def unpack_def demo_row_def)

lemma demo_selection:
  assumes "cs = [] \<or> (cs = [demo_lease w] \<and> 6000 \<le> now)"
  shows "claim_selection (demo_box cs) now ''g'' demo_group 1 = [demo_row]"
  using assms
  by (auto simp: claim_selection_def demo_box_def empty_store_def consumer_filters_def demo_group_def demo_row_def
      claimable_def find_claim_def demo_lease_def)

lemma demo_claim:
  assumes "cs = [] \<or> (cs = [demo_lease w] \<and> 6000 \<le> now)"
  shows "\<exists>s' c. claim_consumer_messages demo_ext now (\<lambda>n. v) ''g'' ''w'' 1 5 (demo_box cs) = (s', Inr [c])
    \<and> it_packet_id (cl_item c) = ''p''"
proof -
  obtain it where it: "inbox_item_of demo_ext demo_row = Inr it" "it_packet_id it = ''p''" using demo_item by blast
  have g: "require_consumer_group ''g'' (demo_box cs) = Inr demo_group"
    by (simp add: require_consumer_group_def find_group_def demo_box_def demo_group_def)
  have free: "\<not> exists_where (\<lambda>d. claim_key d \<noteq> (''g'', ib_packet demo_row) \<and> cd_token d = t) (t_claims (demo_box cs))" for t
    using assms by (auto simp: demo_box_def demo_lease_def demo_row_def claim_key_def)
  show ?thesis
    using it free
    by (simp add: claim_consumer_messages_def demo_ids transaction_def claim_body_def g demo_selection [OF assms] Let_def)
qed


lemma demo_settle_args: "claim_args ''g'' ''w'' (token_hex w) = Inr (''g'', ''w'', token_hex w)"
  by (simp add: claim_args_def demo_ids claim_token_hex token_hex_wf)

theorem stale_token_fenced_witness:
  "\<exists>s' out e. claim_consumer_messages demo_ext 7000 (\<lambda>n. 1) ''g'' ''w'' 1 5 (demo_box [demo_lease 0]) = (s', Inr out)
     \<and> acknowledge_claim 7001 ''g'' ''w'' (token_hex 0) s' = (s', Inl e)"
proof -
  obtain s' c where r: "claim_consumer_messages demo_ext 7000 (\<lambda>n. 1) ''g'' ''w'' 1 5 (demo_box [demo_lease 0]) = (s', Inr [c])"
    and c: "it_packet_id (cl_item c) = ''p''"
    using demo_claim [of "[demo_lease 0]" 0 7000 1] by auto
  have "demo_lease 0 \<in> set (t_claims (demo_box [demo_lease 0]))" by (simp add: demo_box_def)
  moreover have "\<forall>n::nat. token_hex ((\<lambda>n. 1) n) \<noteq> token_hex 0" by (simp add: token_hex_inj)
  ultimately show ?thesis
    using stale_token_fenced [OF demo_box_inv(2) _ _ _ r _ _ _ demo_settle_args, of "demo_lease 0"] r c
    by (simp add: demo_lease_def demo_ids)
qed

lemma demo_ack:
  "acknowledge_claim 2000 ''g'' ''w'' (token_hex 0) (demo_box [demo_lease 0])
     = (demo_box [ack_row 2000 (demo_lease 0)], Inr (''g'', 2000))"
  by (simp add: acknowledge_claim_def demo_settle_args settle_lease_def demo_box_def empty_store_def owned_lease_def
      has_active_task_def demo_lease_def count_where_def ack_row_def)


end
