(* ===== verification/Agent_Protocol.thy ===== *)
theory Agent_Protocol
  imports Store_State
begin

text \<open>
  \<open>agent_protocol.py\<close>: the typed task messages, their normalisation, and the capability policy a
  task is checked against.  Message fields are dynamic values, so the conversions of the language
  (truth value, \<open>str\<close>, \<open>float\<close>, \<open>dict\<close>, iteration) are part of the model.
\<close>

section \<open>Conversions\<close>

fun truthy :: "pyval \<Rightarrow> bool" where
  "truthy PNone = False"
| "truthy (PBool b) = b"
| "truthy (PInt i) = (i \<noteq> 0)"
| "truthy (PFloat q) = (q \<noteq> 0)"
| "truthy (PStr s) = (s \<noteq> [])"
| "truthy (PBytes b) = (b \<noteq> [])"
| "truthy (PList l) = (l \<noteq> [])"
| "truthy (PDict d) = (d \<noteq> [])"

text \<open>
  \<open>dict(v)\<close>: a map is copied; a list of pairs with text keys is read from left to right, a later
  pair overriding an earlier one in place.
\<close>

fun dict_set :: "string \<Rightarrow> pyval \<Rightarrow> pydict \<Rightarrow> pydict" where
  "dict_set k v [] = [(k, v)]"
| "dict_set k v ((q, w) # d) = (if q = k then (q, v) # d else (q, w) # dict_set k v d)"

definition pair_of :: "pyval \<Rightarrow> exn + string \<times> pyval" where
  "pair_of v = (case v of
      PList [PStr k, x] \<Rightarrow> Inr (k, x)
    | PStr [a, b] \<Rightarrow> Inr ([a], PStr [b])
    | _ \<Rightarrow> Inl (ValueError ''dictionary update sequence element is not a pair''))"

definition py_dict :: "pyval \<Rightarrow> exn + pydict" where
  "py_dict v = (case v of
      PDict d \<Rightarrow> Inr d
    | PList vs \<Rightarrow> and_then (map_result pair_of vs) (\<lambda>ps. Inr (fold (\<lambda>(k, x). dict_set k x) ps []))
    | _ \<Rightarrow> Inl (TypeError ''object is not a mapping''))"

text \<open>
  \<open>float(v)\<close>: decimal text with optional sign, fraction and exponent.  The value is exact;
  \<^term>\<open>None\<close> stands for an infinity or not-a-number.
\<close>

fun split_at :: "(char \<Rightarrow> bool) \<Rightarrow> string \<Rightarrow> string \<times> string option" where
  "split_at P [] = ([], None)"
| "split_at P (c # cs) = (if P c then ([], Some cs) else (case split_at P cs of (a, b) \<Rightarrow> (c # a, b)))"

definition digits_value :: "string \<Rightarrow> int option" where
  "digits_value s = (if s = [] then Some 0 else parse_digits 0 False s)"

definition unsigned_decimal :: "string \<Rightarrow> rat option" where
  "unsigned_decimal s = (case split_at (\<lambda>c. c = CHR ''.'') s of
      (a, None) \<Rightarrow> (if a = [] then None else map_option of_int (digits_value a))
    | (a, Some b) \<Rightarrow>
        if a = [] \<and> b = [] then None
        else (case (digits_value a, digits_value b) of
               (Some i, Some f) \<Rightarrow> Some (of_int i + of_int f / 10 ^ length (filter is_digit b))
             | _ \<Rightarrow> None))"

definition signed_text :: "string \<Rightarrow> int \<times> string" where
  "signed_text s = (case s of [] \<Rightarrow> (1, [])
     | c # cs \<Rightarrow> if c = CHR ''-'' then (- 1, cs) else if c = CHR ''+'' then (1, cs) else (1, s))"

definition float_of_text :: "string \<Rightarrow> exn + rat option" where
  "float_of_text s =
     (let t = lower (rev (dropWhile int_space (rev (dropWhile int_space s))));
          (sg, u) = signed_text t;
          bad = Inl (ValueError ''could not convert string to float'')
      in if u \<in> {''inf'', ''infinity'', ''nan''} then Inr None
         else case split_at (\<lambda>c. c = CHR ''e'') u of
           (m, None) \<Rightarrow> (case unsigned_decimal m of None \<Rightarrow> bad | Some q \<Rightarrow> Inr (Some (of_int sg * q)))
         | (m, Some x) \<Rightarrow>
             (let (es, d) = signed_text x
              in case (unsigned_decimal m, if d = [] then None else parse_digits 0 False d) of
                   (Some q, Some n) \<Rightarrow>
                     Inr (Some (of_int sg * (if es = 1 then q * 10 ^ nat n else q / 10 ^ nat n)))
                 | _ \<Rightarrow> bad))"

fun py_float :: "pyval \<Rightarrow> exn + rat option" where
  "py_float (PFloat q) = Inr (Some q)"
| "py_float (PInt i) = Inr (Some (of_int i))"
| "py_float (PBool b) = Inr (Some (if b then 1 else 0))"
| "py_float (PStr s) = float_of_text s"
| "py_float (PBytes b) = float_of_text (text_of_bytes b)"
| "py_float _ = Inl (TypeError ''float() argument must be a string or a real number'')"

section \<open>Constants\<close>

definition AGENT_PROTOCOL :: string where "AGENT_PROTOCOL = ''anet.agent.task''"
definition AGENT_PROTOCOL_VERSION :: int where "AGENT_PROTOCOL_VERSION = 1"

definition TASK_KINDS :: "string list" where
  "TASK_KINDS = [''agent.task.request'', ''agent.task.status'', ''agent.task.result'', ''agent.task.cancel'']"

definition TASK_STATES :: "string list" where
  "TASK_STATES = [''submitted'', ''working'', ''input-required'', ''auth-required'', ''completed'',
     ''failed'', ''canceled'', ''rejected'']"

definition TERMINAL_TASK_STATES :: "string list" where
  "TERMINAL_TASK_STATES = [''completed'', ''failed'', ''canceled'', ''rejected'']"

definition MAX_OBJECTIVE_CHARS :: nat where "MAX_OBJECTIVE_CHARS = 16384"
definition MAX_MESSAGE_CHARS :: nat where "MAX_MESSAGE_CHARS = 8192"
definition MAX_CAPABILITIES :: nat where "MAX_CAPABILITIES = 64"

section \<open>Task ids and capabilities\<close>

definition task_id_arg :: "string \<Rightarrow> exn + string" where
  "task_id_arg v = (let t = lower (strip v)
     in if hex_string 32 t then Inr t
        else Inl (ValueError ''task_id must be 32 lowercase hexadecimal characters''))"

text \<open>\<open>re.fullmatch(r"^[a-z][a-z0-9_.-]{0,127}$", s)\<close>\<close>

definition capability_match :: "string \<Rightarrow> bool" where
  "capability_match s = token_match is_lower kind_char 127 s"

fun collect_capabilities :: "ext \<Rightarrow> pyval list \<Rightarrow> string list \<Rightarrow> exn + string list" where
  "collect_capabilities E [] acc = Inr acc"
| "collect_capabilities E (v # vs) acc =
     (let c = lower (strip (py_str E v))
      in if \<not> capability_match c then Inl (ValueError (''invalid task capability: '' @ repr E v))
         else collect_capabilities E vs (if c \<in> set acc then acc else acc @ [c]))"

definition capabilities :: "ext \<Rightarrow> pyval \<Rightarrow> exn + string list" where
  "capabilities E values =
     and_then (if truthy values then py_list values else Inr []) (\<lambda>vs.
     and_then (collect_capabilities E vs []) (\<lambda>cs.
       if MAX_CAPABILITIES < length cs then Inl (ValueError ''too many task capabilities'')
       else Inr (sort cs)))"

definition policy_pattern :: "ext \<Rightarrow> string \<Rightarrow> exn + string" where
  "policy_pattern E v =
     (let pattern = lower (strip v);
          bad = Inl (ValueError (''invalid task capability policy: '' @ repr E (PStr v)))
      in if pattern = ''*'' then Inr pattern
         else if ends_with pattern ''.*'' then
           (let namespace = take (length pattern - 2) pattern
            in if capability_match namespace then Inr (namespace @ ''.*'') else bad)
         else if capability_match pattern then Inr pattern else bad)"

definition normalize_capability_policy :: "ext \<Rightarrow> string list \<Rightarrow> exn + string list" where
  "normalize_capability_policy E values =
     and_then (map_result (policy_pattern E) values) (\<lambda>ps. Inr (sort (remdups ps)))"

definition granted :: "string list \<Rightarrow> string \<Rightarrow> bool" where
  "granted policy c = (c \<in> set policy \<or>
     list_ex (\<lambda>pattern. ends_with pattern ''.*''
        \<and> starts_with c (take (length pattern - 2) pattern @ ''.'')) policy)"

definition missing_task_capabilities :: "ext \<Rightarrow> string list \<Rightarrow> string list \<Rightarrow> exn + string list" where
  "missing_task_capabilities E required allowed =
     and_then (capabilities E (PList (map PStr required))) (\<lambda>cs.
     and_then (normalize_capability_policy E allowed) (\<lambda>policy.
       if ''*'' \<in> set policy then Inr [] else Inr (filter (\<lambda>c. \<not> granted policy c) cs)))"

section \<open>Messages\<close>

definition task_base :: "string \<Rightarrow> exn + pydict" where
  "task_base task_id =
     and_then (task_id_arg task_id) (\<lambda>t.
       Inr [(''protocol'', PStr AGENT_PROTOCOL), (''version'', PInt AGENT_PROTOCOL_VERSION),
            (''task_id'', PStr t)])"

definition task_request ::
    "ext \<Rightarrow> 128 word \<Rightarrow> string \<Rightarrow> pyval \<Rightarrow> pyval \<Rightarrow> string \<Rightarrow> pyval \<Rightarrow> exn + pydict" where
  "task_request E random objective_arg input required task_id context =
     (let objective = strip objective_arg
      in if objective = '''' then Inl (ValueError ''task objective is required'')
         else if MAX_OBJECTIVE_CHARS < length objective
         then Inl (ValueError ''task objective is too long'')
         else and_then (task_base (if task_id = '''' then token_hex random else task_id)) (\<lambda>base.
           and_then (capabilities E required) (\<lambda>caps.
           and_then (if truthy context then py_dict context else Inr []) (\<lambda>ctx.
             Inr (base @ [(''objective'', PStr objective), (''input'', input),
                (''required_capabilities'', PList (map PStr caps)), (''context'', PDict ctx)])))))"

definition task_status :: "string \<Rightarrow> string \<Rightarrow> string \<Rightarrow> pyval \<Rightarrow> exn + pydict" where
  "task_status task_id state_arg message_arg progress =
     (let state = lower (strip state_arg); message = strip message_arg
      in if state \<notin> set TASK_STATES then Inl (ValueError ''invalid task state'')
         else if state \<in> set TERMINAL_TASK_STATES
         then Inl (ValueError ''terminal task states must use agent.task.result'')
         else if MAX_MESSAGE_CHARS < length message
         then Inl (ValueError ''task status message is too long'')
         else and_then (if progress = PNone then Inr PNone
             else and_then (py_float progress) (\<lambda>f.
               case f of
                 Some q \<Rightarrow> if 0 \<le> q \<and> q \<le> 1 then Inr (PFloat q)
                           else Inl (ValueError ''task progress must be between 0 and 1'')
               | None \<Rightarrow> Inl (ValueError ''task progress must be between 0 and 1''))) (\<lambda>p.
           and_then (task_base task_id) (\<lambda>base.
             Inr (base @ [(''state'', PStr state), (''message'', PStr message), (''progress'', p)]))))"

definition task_result :: "string \<Rightarrow> string \<Rightarrow> pyval \<Rightarrow> string \<Rightarrow> exn + pydict" where
  "task_result task_id state_arg output error_arg =
     (let state = lower (strip state_arg); error = strip error_arg
      in if state \<notin> set TERMINAL_TASK_STATES then Inl (ValueError ''task result state must be terminal'')
         else if MAX_MESSAGE_CHARS < length error then Inl (ValueError ''task result error is too long'')
         else if state = ''completed'' \<and> error \<noteq> ''''
         then Inl (ValueError ''a completed task cannot contain an error'')
         else if state \<noteq> ''completed'' \<and> error = ''''
         then Inl (ValueError ''an unsuccessful task result requires an error'')
         else and_then (task_base task_id) (\<lambda>base.
           Inr (base @ [(''state'', PStr state), (''output'', output), (''error'', PStr error)])))"

definition task_cancel :: "string \<Rightarrow> string \<Rightarrow> exn + pydict" where
  "task_cancel task_id reason_arg =
     (let reason = strip reason_arg
      in if reason = '''' then Inl (ValueError ''task cancellation reason is required'')
         else if MAX_MESSAGE_CHARS < length reason
         then Inl (ValueError ''task cancellation reason is too long'')
         else and_then (task_base task_id) (\<lambda>base. Inr (base @ [(''reason'', PStr reason)])))"

text \<open>\<open>body.get(key, "")\<close> as text.\<close>

definition text_field :: "ext \<Rightarrow> pydict \<Rightarrow> string \<Rightarrow> string" where
  "text_field E d k = py_str E (dict_get d k (PStr ''''))"

definition validate_task_message :: "ext \<Rightarrow> 128 word \<Rightarrow> string \<Rightarrow> pyval \<Rightarrow> exn + pydict" where
  "validate_task_message E random kind_arg body =
     (let kind = lower (strip kind_arg)
      in if kind \<notin> set TASK_KINDS then Inl (ValueError ''unsupported agent task kind'')
      else case body of
        PDict d \<Rightarrow>
          if dict_get d ''protocol'' PNone \<noteq> PStr AGENT_PROTOCOL
          then Inl (ValueError ''unsupported agent task protocol'')
          else and_then (py_int (dict_get d ''version'' (PInt 0))) (\<lambda>v.
            if v \<noteq> AGENT_PROTOCOL_VERSION
            then Inl (ValueError ''unsupported agent task protocol version'')
            else if kind = ''agent.task.request'' then
              task_request E random (text_field E d ''objective'') (dict_get d ''input'' PNone)
                (dict_get d ''required_capabilities'' PNone) (text_field E d ''task_id'')
                (dict_get d ''context'' PNone)
            else if kind = ''agent.task.status'' then
              task_status (text_field E d ''task_id'') (text_field E d ''state'')
                (text_field E d ''message'') (dict_get d ''progress'' PNone)
            else if kind = ''agent.task.result'' then
              task_result (text_field E d ''task_id'') (text_field E d ''state'')
                (dict_get d ''output'' PNone) (text_field E d ''error'')
            else task_cancel (text_field E d ''task_id'') (text_field E d ''reason''))
      | _ \<Rightarrow> Inl (ValueError ''agent task body must be a map''))"

section \<open>Normal forms of text\<close>

lemma dropWhile_hd: "dropWhile P s \<noteq> [] \<Longrightarrow> \<not> P (hd (dropWhile P s))"
  by (induction s) auto

lemma strip_ends:
  assumes "strip s \<noteq> []"
  shows "\<not> py_space (hd (strip s)) \<and> \<not> py_space (last (strip s))"
proof -
  let ?t = "dropWhile py_space s"
  have "last (strip s) = hd (dropWhile py_space (rev ?t))" and ne: "dropWhile py_space (rev ?t) \<noteq> []"
    using assms by (simp_all add: strip_def last_rev)
  then have l: "\<not> py_space (last (strip s))" using dropWhile_hd [OF ne] by simp
  have "rev ?t = takeWhile py_space (rev ?t) @ dropWhile py_space (rev ?t)" by simp
  then have "?t = strip s @ rev (takeWhile py_space (rev ?t))"
    unfolding strip_def by (metis rev_append rev_rev_ident)
  then have "hd ?t = hd (strip s)" "?t \<noteq> []" using assms by (metis hd_append2, metis append_is_Nil_conv)
  then show ?thesis using dropWhile_hd [of py_space s] l by metis
qed

lemma strip_id:
  assumes "s = [] \<or> (\<not> py_space (hd s) \<and> \<not> py_space (last s))"
  shows "strip s = s"
proof (cases "s = []")
  case False
  then have "dropWhile py_space s = s" using assms by (cases s) auto
  moreover have "dropWhile py_space (rev s) = rev s"
    using False assms by (cases "rev s") (auto simp: hd_rev [symmetric])
  ultimately show ?thesis by (simp add: strip_def)
qed simp

lemma strip_idem [simp]: "strip (strip s) = strip s"
  by (rule strip_id) (metis strip_ends)

lemma lower_char_idem: "lower_char (lower_char c) = lower_char c"
  using code_less [of c] by (auto simp: lower_char_def Let_def code_char_of)

lemma lower_idem [simp]: "lower (lower s) = lower s"
  by (simp add: lower_def lower_char_idem)

lemma py_space_lower: "py_space (lower_char c) = py_space c"
  using code_less [of c] by (auto simp: lower_char_def py_space_def Let_def code_char_of)

lemma strip_lower [simp]: "strip (lower (strip s)) = lower (strip s)"
proof (rule strip_id)
  show "lower (strip s) = [] \<or> (\<not> py_space (hd (lower (strip s))) \<and> \<not> py_space (last (lower (strip s))))"
    using strip_ends [of s] by (cases "strip s = []") (auto simp: lower_def hd_map last_map py_space_lower)
qed

section \<open>Capabilities\<close>

lemma collect_capabilities_spec:
  assumes "collect_capabilities E vs acc = Inr cs" and "distinct acc" and "list_all (\<lambda>c. capability_match c \<and> lower (strip c) = c) acc"
  shows "distinct cs \<and> list_all (\<lambda>c. capability_match c \<and> lower (strip c) = c) cs"
  using assms
  by (induction E vs acc rule: collect_capabilities.induct) (auto simp: Let_def split: if_splits)

lemma collect_capabilities_id:
  assumes "distinct (acc @ cs)" and "list_all (\<lambda>c. capability_match c \<and> lower (strip c) = c) cs"
  shows "collect_capabilities E (map PStr cs) acc = Inr (acc @ cs)"
  using assms by (induction cs arbitrary: acc) (auto simp: Let_def py_str_def)

lemma capabilities_spec:
  assumes "capabilities E v = Inr cs"
  shows "sorted cs \<and> distinct cs \<and> length cs \<le> MAX_CAPABILITIES
    \<and> (\<forall>c\<in>set cs. capability_match c \<and> lower (strip c) = c)"
proof -
  obtain vs ds where "collect_capabilities E vs [] = Inr ds" "length ds \<le> MAX_CAPABILITIES" "cs = sort ds"
    using assms by (auto simp: capabilities_def not_less)
  with collect_capabilities_spec [of E vs "[]" ds] show ?thesis by (auto simp: list_all_iff)
qed

text \<open>A normalised list is its own normal form.\<close>

lemma capabilities_fixed:
  assumes "capabilities E v = Inr cs"
  shows "capabilities E' (PList (map PStr cs)) = Inr cs"
proof -
  note spec = capabilities_spec [OF assms]
  have "collect_capabilities E' (map PStr cs) [] = Inr cs"
    using collect_capabilities_id [of "[]" cs E'] spec by (simp add: list_all_iff)
  moreover have "sort cs = cs" using spec by (simp add: sort_key_id_if_sorted)
  ultimately show ?thesis using spec by (cases "cs = []") (auto simp: capabilities_def)
qed

lemma granted_iff:
  "granted policy c \<longleftrightarrow> c \<in> set policy \<or> (\<exists>ns. ns @ ''.*'' \<in> set policy \<and> starts_with c (ns @ ''.''))"
proof -
  have "ends_with p ''.*'' \<longleftrightarrow> (\<exists>ns. p = ns @ ''.*'')" for p
  proof
    assume e: "ends_with p ''.*''"
    then have "p = take (length p - 2) p @ ''.*''"
      unfolding ends_with_def by (metis append_take_drop_id length_Cons list.size(3) numeral_2_eq_2)
    then show "\<exists>ns. p = ns @ ''.*''" by blast
  qed (auto simp: ends_with_def)
  then show ?thesis by (force simp: granted_def list_ex_iff)
qed

text \<open>
  C21: the capability policy.  The missing capabilities of a task are exactly its normalised required
  capabilities that no entry of the normalised policy grants: not \<open>*\<close>, not the capability itself,
  and no namespace \<open>ns.*\<close> with the capability below \<open>ns.\<close>; they are reported sorted and without
  repetition.
\<close>

theorem missing_task_capabilities_correct:
  assumes "missing_task_capabilities E required allowed = Inr missing"
  shows "\<exists>cs policy. capabilities E (PList (map PStr required)) = Inr cs
    \<and> normalize_capability_policy E allowed = Inr policy
    \<and> set missing = {c \<in> set cs. ''*'' \<notin> set policy \<and> c \<notin> set policy
          \<and> (\<forall>ns. ns @ ''.*'' \<in> set policy \<longrightarrow> \<not> starts_with c (ns @ ''.''))}
    \<and> sorted missing \<and> distinct missing"
proof -
  obtain cs policy where c: "capabilities E (PList (map PStr required)) = Inr cs"
    and p: "normalize_capability_policy E allowed = Inr policy"
    and m: "missing = (if ''*'' \<in> set policy then [] else filter (\<lambda>c. \<not> granted policy c) cs)"
    using assms by (auto simp: missing_task_capabilities_def split: if_splits)
  have "sorted missing" "distinct missing"
    using capabilities_spec [OF c] by (auto simp: m sorted_wrt_filter)
  moreover have "set missing = {c \<in> set cs. ''*'' \<notin> set policy \<and> c \<notin> set policy
          \<and> (\<forall>ns. ns @ ''.*'' \<in> set policy \<longrightarrow> \<not> starts_with c (ns @ ''.''))}"
    by (auto simp: m granted_iff)
  ultimately show ?thesis using c p by blast
qed

section \<open>Normalised messages\<close>

lemma task_id_arg_Inr: "task_id_arg v = Inr t \<Longrightarrow> t = lower (strip v) \<and> hex_string 32 t \<and> task_id_arg t = Inr t"
  by (auto simp: task_id_arg_def Let_def split: if_splits)

lemma task_base_Inr:
  "task_base v = Inr b \<longleftrightarrow> (\<exists>t. task_id_arg v = Inr t \<and> b = [(''protocol'', PStr AGENT_PROTOCOL),
     (''version'', PInt AGENT_PROTOCOL_VERSION), (''task_id'', PStr t)])"
  by (auto simp: task_base_def)

lemma task_request_normal:
  assumes "task_request E rnd ob inp req tid ctx = Inr n"
  shows "\<exists>o' caps c t. n = [(''protocol'', PStr AGENT_PROTOCOL), (''version'', PInt AGENT_PROTOCOL_VERSION),
      (''task_id'', PStr t), (''objective'', PStr o'), (''input'', inp),
      (''required_capabilities'', PList (map PStr caps)), (''context'', PDict c)]
    \<and> hex_string 32 t \<and> task_request E' rnd' o' inp (PList (map PStr caps)) t (PDict c) = Inr n"
proof -
  let ?o = "strip ob"
  obtain t caps c where t: "task_id_arg (if tid = '''' then token_hex rnd else tid) = Inr t"
    and caps: "capabilities E req = Inr caps" and o: "?o \<noteq> ''''" "length ?o \<le> MAX_OBJECTIVE_CHARS"
    and n: "n = [(''protocol'', PStr AGENT_PROTOCOL), (''version'', PInt AGENT_PROTOCOL_VERSION),
      (''task_id'', PStr t), (''objective'', PStr ?o), (''input'', inp),
      (''required_capabilities'', PList (map PStr caps)), (''context'', PDict c)]"
    using assms by (auto simp: task_request_def task_base_Inr Let_def not_less)
  have t': "task_id_arg t = Inr t" "hex_string 32 t" using task_id_arg_Inr [OF t] by auto
  have "t \<noteq> ''''" using hex_string_nonempty [OF t'(2)] by simp
  moreover have "(if truthy (PDict c) then py_dict (PDict c) else Inr []) = Inr c"
    by (auto simp: py_dict_def)
  ultimately have "task_request E' rnd' ?o inp (PList (map PStr caps)) t (PDict c) = Inr n"
    using o t'(1) capabilities_fixed [OF caps, of E'] n
    by (simp add: task_request_def Let_def task_base_def del: truthy.simps)
  with n t'(2) show ?thesis by blast
qed

lemma task_status_normal:
  assumes "task_status tid st msg pr = Inr n"
  shows "\<exists>t s' m p. n = [(''protocol'', PStr AGENT_PROTOCOL), (''version'', PInt AGENT_PROTOCOL_VERSION),
      (''task_id'', PStr t), (''state'', PStr s'), (''message'', PStr m), (''progress'', p)]
    \<and> task_status t s' m p = Inr n"
proof -
  let ?s = "lower (strip st)" and ?m = "strip msg"
  obtain t p where t: "task_id_arg tid = Inr t" and s: "?s \<in> set TASK_STATES" "?s \<notin> set TERMINAL_TASK_STATES"
    "length ?m \<le> MAX_MESSAGE_CHARS"
    and f: "(if pr = PNone then Inr PNone else and_then (py_float pr) (\<lambda>f. case f of
                 Some q \<Rightarrow> if 0 \<le> q \<and> q \<le> 1 then Inr (PFloat q)
                           else Inl (ValueError ''task progress must be between 0 and 1'')
               | None \<Rightarrow> Inl (ValueError ''task progress must be between 0 and 1''))) = Inr p"
    and n: "n = [(''protocol'', PStr AGENT_PROTOCOL), (''version'', PInt AGENT_PROTOCOL_VERSION),
      (''task_id'', PStr t), (''state'', PStr ?s), (''message'', PStr ?m), (''progress'', p)]"
    using assms unfolding task_status_def Let_def guard_eq_Inr and_then_eq_Inr task_base_Inr by auto
  have p: "p = PNone \<or> (\<exists>q. p = PFloat q \<and> 0 \<le> q \<and> q \<le> 1)"
    using f by (auto split: if_splits option.splits)
  have "task_status t ?s ?m p = Inr n"
    using s p n task_id_arg_Inr [OF t] by (auto simp: task_status_def task_base_def Let_def)
  with n show ?thesis by blast
qed

lemma task_result_normal:
  assumes "task_result tid st out err = Inr n"
  shows "\<exists>t s' e. n = [(''protocol'', PStr AGENT_PROTOCOL), (''version'', PInt AGENT_PROTOCOL_VERSION),
      (''task_id'', PStr t), (''state'', PStr s'), (''output'', out), (''error'', PStr e)]
    \<and> task_result t s' out e = Inr n"
proof -
  let ?s = "lower (strip st)" and ?e = "strip err"
  obtain t where t: "task_id_arg tid = Inr t"
    and n: "n = [(''protocol'', PStr AGENT_PROTOCOL), (''version'', PInt AGENT_PROTOCOL_VERSION),
      (''task_id'', PStr t), (''state'', PStr ?s), (''output'', out), (''error'', PStr ?e)]"
    using assms by (auto simp: task_result_def task_base_Inr Let_def)
  have "task_result t ?s out ?e = Inr n"
    using assms n task_id_arg_Inr [OF t] by (auto simp: task_result_def task_base_def Let_def)
  with n show ?thesis by blast
qed

lemma task_cancel_normal:
  assumes "task_cancel tid r = Inr n"
  shows "\<exists>t r'. n = [(''protocol'', PStr AGENT_PROTOCOL), (''version'', PInt AGENT_PROTOCOL_VERSION),
      (''task_id'', PStr t), (''reason'', PStr r')] \<and> task_cancel t r' = Inr n"
proof -
  let ?r = "strip r"
  obtain t where t: "task_id_arg tid = Inr t"
    and n: "n = [(''protocol'', PStr AGENT_PROTOCOL), (''version'', PInt AGENT_PROTOCOL_VERSION),
      (''task_id'', PStr t), (''reason'', PStr ?r)]"
    using assms by (auto simp: task_cancel_def task_base_Inr Let_def)
  have "task_cancel t ?r = Inr n"
    using assms n task_id_arg_Inr [OF t] by (auto simp: task_cancel_def task_base_def Let_def)
  with n show ?thesis by blast
qed

lemma validate_dict:
  assumes "validate_task_message E rnd kind body = Inr n"
  obtains d where "body = PDict d" "lower (strip kind) \<in> set TASK_KINDS"
  using assms by (cases body) (auto simp: validate_task_message_def Let_def)

lemmas message_simps = validate_task_message_def Let_def dict_get_def text_field_def py_str_def

text \<open>
  Normalised messages are fixed points.  Validating a message that validation returned gives it
  back unchanged, for every kind of task message and whatever random id generator is at hand; so the
  digest the store takes of a normalised request or cancellation identifies it.
\<close>

theorem validate_task_message_idempotent:
  assumes "validate_task_message E rnd kind body = Inr n"
  shows "validate_task_message E' rnd' kind (PDict n) = Inr n"
proof -
  obtain d where body: "body = PDict d" and k: "lower (strip kind) \<in> set TASK_KINDS"
    using assms by (rule validate_dict)
  from k consider "lower (strip kind) = ''agent.task.request''" | "lower (strip kind) = ''agent.task.status''"
    | "lower (strip kind) = ''agent.task.result''" | "lower (strip kind) = ''agent.task.cancel''"
    by (auto simp: TASK_KINDS_def)
  then show ?thesis
  proof cases
    case 1
    with assms body obtain ob inp req tid ctx where "task_request E rnd ob inp req tid ctx = Inr n"
      by (auto simp: validate_task_message_def Let_def)
    from task_request_normal [OF this, of E' rnd'] 1 k show ?thesis by (auto simp: message_simps)
  next
    case 2
    with assms body obtain tid st m p where "task_status tid st m p = Inr n"
      by (auto simp: validate_task_message_def Let_def)
    from task_status_normal [OF this] 2 k show ?thesis by (auto simp: message_simps)
  next
    case 3
    with assms body obtain tid st o' e where "task_result tid st o' e = Inr n"
      by (auto simp: validate_task_message_def Let_def)
    from task_result_normal [OF this] 3 k show ?thesis by (auto simp: message_simps)
  next
    case 4
    with assms body obtain tid r where "task_cancel tid r = Inr n"
      by (auto simp: validate_task_message_def Let_def)
    from task_cancel_normal [OF this] 4 k show ?thesis by (auto simp: message_simps)
  qed
qed

section \<open>Examples\<close>

definition plain_ext :: ext where
  "plain_ext = \<lparr>packb = (\<lambda>v. []), unpackb = (\<lambda>b. Inr PNone), repr = (\<lambda>v. ''?''),
     blake2s = (\<lambda>n p b. replicate n 0), sha256 = (\<lambda>b. replicate 32 0)\<rparr>"

lemma demo_missing:
  "missing_task_capabilities plain_ext [''fs.read'', ''net.fetch'', ''shell''] [''fs.*'', ''shell''] = Inr [''net.fetch'']"
  by code_simp

theorem missing_task_capabilities_correct_witness:
  "\<exists>cs policy. capabilities plain_ext (PList (map PStr [''fs.read'', ''net.fetch'', ''shell''])) = Inr cs
     \<and> normalize_capability_policy plain_ext [''fs.*'', ''shell''] = Inr policy \<and> ''net.fetch'' \<in> set cs"
  using missing_task_capabilities_correct [OF demo_missing] by auto

definition demo_cancel_body :: pyval where
  "demo_cancel_body = PDict [(''protocol'', PStr ''anet.agent.task''), (''version'', PInt 1),
     (''task_id'', PStr (replicate 32 CHR ''A'')), (''reason'', PStr '' stop '')]"

definition demo_cancel_normal :: pydict where
  "demo_cancel_normal = [(''protocol'', PStr ''anet.agent.task''), (''version'', PInt 1),
     (''task_id'', PStr (replicate 32 CHR ''a'')), (''reason'', PStr ''stop'')]"

lemma demo_validate:
  "validate_task_message plain_ext 0 ''agent.task.cancel'' demo_cancel_body = Inr demo_cancel_normal"
  by code_simp

theorem validate_task_message_idempotent_witness:
  "validate_task_message plain_ext 1 ''agent.task.cancel'' (PDict demo_cancel_normal) = Inr demo_cancel_normal"
  by (rule validate_task_message_idempotent [OF demo_validate])

text \<open>
  A request without a task id gets a random one.  Validating the same request body twice with
  different random words gives different task ids, so the idempotency key of such a request changes
  with every validation.
\<close>

theorem missing_task_id_is_random:
  assumes "v \<noteq> w"
  shows "task_request E v ''go'' PNone PNone '''' PNone \<noteq> task_request E w ''go'' PNone PNone '''' PNone"
proof -
  have go: "strip ''go'' = ''go''" by code_simp
  have tid: "task_id_arg (token_hex x) = Inr (token_hex x)" for x
  proof -
    have "lower (strip (token_hex x)) = token_hex x"
    proof -
      have "\<forall>c\<in>set (token_hex x). is_lower_hex c"
        using token_hex_wf [of x] by (simp add: hex_string_def list_all_iff)
      then have "\<forall>c\<in>set (token_hex x). lower_char c = c \<and> \<not> py_space c"
        by (auto simp: is_lower_hex_def is_digit_def lower_char_def py_space_def Let_def)
      then have "lower (token_hex x) = token_hex x" and "strip (token_hex x) = token_hex x"
        by (auto simp: lower_def intro!: map_idI strip_id)
      then show ?thesis by simp
    qed
    then show ?thesis using token_hex_wf [of x] by (simp add: task_id_arg_def)
  qed
  have "task_request E x ''go'' PNone PNone '''' PNone
      = Inr [(''protocol'', PStr AGENT_PROTOCOL), (''version'', PInt AGENT_PROTOCOL_VERSION),
         (''task_id'', PStr (token_hex x)), (''objective'', PStr ''go''), (''input'', PNone),
         (''required_capabilities'', PList []), (''context'', PDict [])]" for x
    by (simp add: task_request_def go MAX_OBJECTIVE_CHARS_def task_base_def tid capabilities_def MAX_CAPABILITIES_def)
  then show ?thesis using assms by (simp add: token_hex_inj)
qed

theorem missing_task_id_is_random_witness:
  "task_request plain_ext 0 ''go'' PNone PNone '''' PNone \<noteq> task_request plain_ext 1 ''go'' PNone PNone '''' PNone"
  by (rule missing_task_id_is_random) simp

end
