(* ===== verification/Store_Tasks.thy ===== *)
theory Store_Tasks
  imports Store_Consumers Agent_Protocol
begin

text \<open>
  Execution of typed agent tasks in \<open>store.py\<close>: acquiring the task behind a claim, settling it with
  its claim, and cancelling it.  A call's random word stands for \<open>secrets.token_hex\<close> and for the
  task id \<open>validate_task_message\<close> may have to draw.
\<close>

section \<open>Helpers\<close>

definition terminal :: "task_state \<Rightarrow> bool" where
  "terminal st = (st = Completed \<or> st = Failed \<or> st = Canceled \<or> st = Rejected)"

definition settle_state :: "string \<Rightarrow> task_state option" where
  "settle_state s = (if s = ''completed'' then Some Completed else if s = ''failed'' then Some Failed
     else if s = ''canceled'' then Some Canceled else if s = ''rejected'' then Some Rejected
     else if s = ''retry'' then Some Retry else None)"

definition sender_policy :: "string list \<Rightarrow> string list" where
  "sender_policy allowed = filter (\<lambda>x. x \<noteq> '''') (map strip allowed)"

definition sender_allowed :: "string list \<Rightarrow> string \<Rightarrow> bool" where
  "sender_allowed allowed sender =
     (''*'' \<in> set (sender_policy allowed) \<or> sender \<in> set (sender_policy allowed))"

type_synonym task_ref = "string \<times> string \<times> string"

definition find_task :: "store \<Rightarrow> task_ref \<Rightarrow> task_row option" where
  "find_task s k = find (\<lambda>t. task_key t = k) (t_tasks s)"

definition find_cancel :: "store \<Rightarrow> task_ref \<Rightarrow> cancel_row option" where
  "find_cancel s k = find (\<lambda>c. cancel_key c = k) (t_cancels s)"

definition set_task :: "task_ref \<Rightarrow> (task_row \<Rightarrow> task_row) \<Rightarrow> store \<Rightarrow> store" where
  "set_task k f s = s\<lparr>t_tasks := update_where (\<lambda>t. task_key t = k) f (t_tasks s)\<rparr>"

definition set_cancel :: "task_ref \<Rightarrow> (cancel_row \<Rightarrow> cancel_row) \<Rightarrow> store \<Rightarrow> store" where
  "set_cancel k f s = s\<lparr>t_cancels := update_where (\<lambda>c. cancel_key c = k) f (t_cancels s)\<rparr>"

definition ack_where :: "(claim_row \<Rightarrow> bool) \<Rightarrow> time_ms \<Rightarrow> store \<Rightarrow> store" where
  "ack_where hit current s = s\<lparr>t_claims := update_where hit (ack_row current) (t_claims s)\<rparr>"

text \<open>The live lease a call names, joined with its message.\<close>

definition live_claim :: "store \<Rightarrow> time_ms \<Rightarrow> string \<Rightarrow> string \<Rightarrow> string \<Rightarrow> (claim_row \<times> inbox_row) option" where
  "live_claim s current gid owner token =
     (case find (\<lambda>d. owned_lease gid owner token d \<and> current < cd_lease_until_ms d
            \<and> in_inbox s (cd_packet d)) (t_claims s) of
        None \<Rightarrow> None
      | Some d \<Rightarrow> map_option (Pair d) (find (\<lambda>i. ib_packet i = cd_packet d) (t_inbox s)))"

definition message_hash :: "ext \<Rightarrow> string \<Rightarrow> pydict \<Rightarrow> string" where
  "message_hash E person d = hex_of_bytes (blake2s E 32 person (canonical_pack E (PDict d)))"

definition field_text :: "ext \<Rightarrow> pydict \<Rightarrow> string \<Rightarrow> string" where
  "field_text E d k = py_str E (dict_get d k PNone)"

text \<open>
  The part \<open>begin_agent_task\<close> and \<open>apply_agent_task_cancellation\<close> share: the claim is live, from a
  trusted sender, of the expected kind, and its body is a valid message.
\<close>

definition claimed_message ::
    "ext \<Rightarrow> 128 word \<Rightarrow> time_ms \<Rightarrow> string \<Rightarrow> string \<Rightarrow> string \<Rightarrow> string \<Rightarrow> string \<Rightarrow> string \<Rightarrow> store
      \<Rightarrow> exn + claim_row \<times> inbox_row \<times> pydict" where
  "claimed_message E random current kind untrusted_msg kind_msg gid owner token s =
     (case live_claim s current gid owner token of
        None \<Rightarrow> Inl (ValueError ''claim is stale, expired, unknown, or owned by another worker'')
      | Some (d, i) \<Rightarrow>
          if \<not> ib_trusted i then Inl (PermissionError untrusted_msg)
          else if ib_kind i \<noteq> kind then Inl (ValueError kind_msg)
          else and_then (unpack E (ib_body i)) (\<lambda>body.
               and_then (validate_task_message E random (ib_kind i) body) (\<lambda>n. Inr (d, i, n))))"

definition canceled_row :: "time_ms \<Rightarrow> string \<Rightarrow> task_row \<Rightarrow> task_row" where
  "canceled_row current reason t = t\<lparr>tx_state := Canceled, tx_owner := '''', tx_claim_token := '''',
     tx_execution_token := '''', tx_updated_ms := current, tx_completed_ms := current,
     tx_output := None, tx_error := reason\<rparr>"

definition applied_cancel :: "time_ms \<Rightarrow> cancel_row \<Rightarrow> cancel_row" where
  "applied_cancel current c = c\<lparr>tc_state := Applied, tc_terminal_state := Some Canceled,
     tc_updated_ms := current, tc_applied_ms := current\<rparr>"

section \<open>Cancellation\<close>

text \<open>What a recorded cancellation does to the task, and the state the cancellation ends in.\<close>

definition cancel_effect ::
    "time_ms \<Rightarrow> string \<Rightarrow> task_ref \<Rightarrow> store \<Rightarrow> store \<times> cancel_state \<times> task_state option \<times> bool" where
  "cancel_effect current reason k s =
     (case find_task s k of
        None \<Rightarrow> (s, Requested, None, False)
      | Some t \<Rightarrow>
          if terminal (tx_state t)
          then (s, if tx_state t = Canceled then Applied else TooLate, Some (tx_state t), False)
          else if active_task t
          then (set_task k (\<lambda>t. t\<lparr>tx_state := Canceling, tx_updated_ms := current, tx_error := reason\<rparr>) s,
                Requested, None, True)
          else (ack_where (\<lambda>d. cd_group d = fst k \<and> cd_packet d = tx_request_packet t
                    \<and> cd_state d \<noteq> ClaimAcked) current
                  (set_task k (canceled_row current reason) s),
                Applied, Some Canceled, False))"

definition record_cancel :: "string \<Rightarrow> string \<Rightarrow> string \<Rightarrow> time_ms \<Rightarrow> task_ref \<Rightarrow> store \<Rightarrow> store" where
  "record_cancel pid h reason current k s =
     (if find_cancel s k = None
      then s\<lparr>t_cancels := t_cancels s @
         [\<lparr>tc_group = fst k, tc_sender = fst (snd k), tc_task = snd (snd k), tc_packet = pid, tc_hash = h,
           tc_reason = reason, tc_state = Requested, tc_terminal_state = None,
           tc_requested_ms = current, tc_updated_ms = current, tc_applied_ms = 0\<rparr>]\<rparr>
      else s)"

definition cancel_body ::
    "ext \<Rightarrow> 128 word \<Rightarrow> time_ms \<Rightarrow> string \<Rightarrow> string \<Rightarrow> string \<Rightarrow> string list \<Rightarrow> store
      \<Rightarrow> exn + store \<times> cancel_row \<times> bool" where
  "cancel_body E random current gid owner token allowed s =
     and_then (claimed_message E random current ''agent.task.cancel''
        ''typed Agent task cancellation requires a trusted sender''
        ''claim does not contain an Agent task cancellation'' gid owner token s) (\<lambda>(d, i, n).
     let sender = ib_sender i; k = (gid, sender, field_text E n ''task_id'');
         reason = field_text E n ''reason''; h = message_hash E ''anetcxl1'' n
     in if \<not> sender_allowed allowed sender
        then Inl (PermissionError ''task cancellation sender is outside the local execution policy'')
        else if (case find_cancel s k of None \<Rightarrow> False | Some c \<Rightarrow> tc_hash c \<noteq> h)
        then Inl (ValueError ''task cancellation was repeated with a different body'')
        else (case cancel_effect current reason k (record_cancel (cd_packet d) h reason current k s) of
          (s1, st, term, cooperative) \<Rightarrow>
            (let s2 = set_cancel k (\<lambda>c. c\<lparr>tc_state := st, tc_terminal_state := term,
                   tc_updated_ms := current,
                   tc_applied_ms := if st = Applied then current else tc_applied_ms c\<rparr>) s1
             in if count_where (owned_lease gid owner token) (t_claims s2) \<noteq> 1
                then Inl (RuntimeError ''failed to acknowledge task cancellation'')
                else (case find_cancel s2 k of
                    None \<Rightarrow> Inl (TypeError ''NoneType object is not subscriptable'')
                  | Some c \<Rightarrow> Inr (ack_where (owned_lease gid owner token) current s2, c, cooperative)))))"

text \<open>The result is the cancellation and whether the worker has to stop cooperatively.\<close>

definition apply_agent_task_cancellation ::
    "ext \<Rightarrow> 128 word \<Rightarrow> time_ms \<Rightarrow> string \<Rightarrow> string \<Rightarrow> string \<Rightarrow> string list \<Rightarrow> store
      \<Rightarrow> (store, cancel_row \<times> bool) outcome" where
  "apply_agent_task_cancellation E random current g own t allowed s =
     checked s (claim_args g own t) (\<lambda>(gid, owner, token).
       transaction (cancel_body E random current gid owner token allowed) s)"

definition agent_task_cancellation :: "string \<Rightarrow> string \<Rightarrow> string \<Rightarrow> store \<Rightarrow> exn + cancel_row option" where
  "agent_task_cancellation g own x s =
     and_then (claim_args g own x) (\<lambda>(gid, owner, xtoken).
       Inr (case find (\<lambda>t. tx_group t = gid \<and> tx_owner t = owner \<and> tx_execution_token t = xtoken
                \<and> tx_state t = Canceling \<and> find_cancel s (task_key t) \<noteq> None) (t_tasks s) of
              None \<Rightarrow> None
            | Some t \<Rightarrow> find_cancel s (task_key t)))"

section \<open>Beginning a task\<close>

record task_item =
  ti_group :: string
  ti_sender :: string
  ti_task :: string
  ti_request_packet :: string
  ti_state :: task_state
  ti_attempts :: int
  ti_started_ms :: time_ms
  ti_updated_ms :: time_ms
  ti_completed_ms :: time_ms
  ti_output :: pyval
  ti_error :: string

definition agent_task_item :: "ext \<Rightarrow> task_row \<Rightarrow> exn + task_item" where
  "agent_task_item E t =
     and_then (case tx_output t of None \<Rightarrow> Inr PNone | Some b \<Rightarrow> unpack E b) (\<lambda>out.
       Inr \<lparr>ti_group = tx_group t, ti_sender = tx_sender t, ti_task = tx_task t,
            ti_request_packet = tx_request_packet t, ti_state = tx_state t,
            ti_attempts = tx_attempts t, ti_started_ms = tx_started_ms t,
            ti_updated_ms = tx_updated_ms t, ti_completed_ms = tx_completed_ms t,
            ti_output = out, ti_error = tx_error t\<rparr>)"

record begin_flags =
  bf_execute :: bool
  bf_duplicate :: bool
  bf_claim_acked :: bool
  bf_execution_token :: string
  bf_cancel_requested :: bool

abbreviation flags :: "bool \<Rightarrow> bool \<Rightarrow> bool \<Rightarrow> string \<Rightarrow> bool \<Rightarrow> begin_flags" where
  "flags ex dup ack tok can \<equiv> \<lparr>bf_execute = ex, bf_duplicate = dup, bf_claim_acked = ack,
     bf_execution_token = tok, bf_cancel_requested = can\<rparr>"

text \<open>Is the claim under which a task runs still leased?\<close>

definition claim_active :: "store \<Rightarrow> time_ms \<Rightarrow> string \<Rightarrow> task_row \<Rightarrow> bool" where
  "claim_active s current gid t = exists_where (\<lambda>d. owned_lease gid (tx_owner t) (tx_claim_token t) d
     \<and> current < cd_lease_until_ms d) (t_claims s)"

definition new_task ::
    "task_ref \<Rightarrow> string \<Rightarrow> string \<Rightarrow> task_state \<Rightarrow> string \<Rightarrow> string \<Rightarrow> string \<Rightarrow> int \<Rightarrow> time_ms \<Rightarrow> time_ms \<Rightarrow> time_ms
      \<Rightarrow> string \<Rightarrow> task_row" where
  "new_task k pid h st owner token xtoken attempts started current finished err =
     \<lparr>tx_group = fst k, tx_sender = fst (snd k), tx_task = snd (snd k), tx_request_packet = pid,
      tx_request_hash = h, tx_state = st, tx_owner = owner, tx_claim_token = token,
      tx_execution_token = xtoken, tx_attempts = attempts, tx_started_ms = started,
      tx_updated_ms = current, tx_completed_ms = finished, tx_output = None, tx_error = err\<rparr>"

text \<open>Applying a cancellation instead of running the task.\<close>

definition cancel_now ::
    "time_ms \<Rightarrow> string \<Rightarrow> string \<Rightarrow> string \<Rightarrow> string \<Rightarrow> task_ref \<Rightarrow> store \<Rightarrow> store" where
  "cancel_now current reason gid owner token k s =
     ack_where (owned_lease gid owner token) current
       (set_cancel k (applied_cancel current) (set_task k (canceled_row current reason) s))"

text \<open>Running the task under a new execution token: the first time, again, or after a lost lease.\<close>

definition resumed_row :: "string \<Rightarrow> string \<Rightarrow> string \<Rightarrow> string \<Rightarrow> time_ms \<Rightarrow> task_row \<Rightarrow> task_row" where
  "resumed_row pid owner token xtoken current t = t\<lparr>tx_request_packet := pid, tx_state := Working,
     tx_owner := owner, tx_claim_token := token, tx_execution_token := xtoken,
     tx_attempts := tx_attempts t + 1, tx_updated_ms := current, tx_completed_ms := 0,
     tx_output := None, tx_error := ''''\<rparr>"

definition acquire ::
    "128 word \<Rightarrow> time_ms \<Rightarrow> string \<Rightarrow> string \<Rightarrow> string \<Rightarrow> string \<Rightarrow> task_ref \<Rightarrow> task_row option \<Rightarrow> store
      \<Rightarrow> exn + store \<times> task_row \<times> begin_flags" where
  "acquire random current owner token pid h k existing s =
     (let x = token_hex random;
          s1 = (case existing of
             None \<Rightarrow> s\<lparr>t_tasks := t_tasks s @
                [new_task k pid h Working owner token x 1 current current 0 '''']\<rparr>
           | Some t \<Rightarrow> set_task k (resumed_row pid owner token x current) s)
      in if exists_where (\<lambda>t. task_key t \<noteq> k \<and> tx_execution_token t = x) (t_tasks s)
         then Inl (IntegrityError ''UNIQUE constraint failed: agent_task_executions.execution_token'')
         else (case find_task s1 k of
                 None \<Rightarrow> Inl (TypeError ''NoneType object is not subscriptable'')
               | Some t \<Rightarrow> Inr (s1, t, flags True (existing \<noteq> None) False x False)))"

definition reread :: "task_ref \<Rightarrow> begin_flags \<Rightarrow> store \<Rightarrow> exn + store \<times> task_row \<times> begin_flags" where
  "reread k f s = (case find_task s k of
       None \<Rightarrow> Inl (TypeError ''NoneType object is not subscriptable'') | Some t \<Rightarrow> Inr (s, t, f))"

text \<open>A request whose cancellation came first.\<close>

definition canceled_early ::
    "time_ms \<Rightarrow> string \<Rightarrow> string \<Rightarrow> string \<Rightarrow> string \<Rightarrow> string \<Rightarrow> task_ref \<Rightarrow> cancel_row \<Rightarrow> store
      \<Rightarrow> exn + store \<times> task_row \<times> begin_flags" where
  "canceled_early current gid owner token pid h k c s =
     reread k (flags False False True '''' True)
       (ack_where (owned_lease gid owner token) current (set_cancel k (applied_cancel current)
         (s\<lparr>t_tasks := t_tasks s @
           [new_task k pid h Canceled '''' '''' '''' 0 0 current current (tc_reason c)]\<rparr>)))"

text \<open>A task that is being canceled: its own worker, another worker meanwhile, or nobody any more.\<close>

definition begin_canceling ::
    "time_ms \<Rightarrow> string \<Rightarrow> string \<Rightarrow> string \<Rightarrow> task_ref \<Rightarrow> cancel_row option \<Rightarrow> task_row \<Rightarrow> store
      \<Rightarrow> exn + store \<times> task_row \<times> begin_flags" where
  "begin_canceling current gid owner token k cancellation t s =
     (if tx_owner t = owner \<and> tx_claim_token t = token
      then Inr (s, t, flags False False False (tx_execution_token t) True)
      else if claim_active s current gid t
      then Inr (ack_where (owned_lease gid owner token) current s, t, flags False True True '''' True)
      else reread k (flags False True True '''' True)
        (cancel_now current (case cancellation of
             Some c \<Rightarrow> tc_reason c
           | None \<Rightarrow> if tx_error t = '''' then ''task cancellation requested'' else tx_error t)
           gid owner token k s))"

definition begin_running ::
    "128 word \<Rightarrow> time_ms \<Rightarrow> string \<Rightarrow> string \<Rightarrow> string \<Rightarrow> string \<Rightarrow> string \<Rightarrow> task_ref \<Rightarrow> task_row \<Rightarrow> store
      \<Rightarrow> exn + store \<times> task_row \<times> begin_flags" where
  "begin_running random current gid owner token pid h k t s =
     (if tx_state t = Working \<and> tx_owner t = owner \<and> tx_claim_token t = token
      then Inr (s, t, flags True False False (tx_execution_token t) False)
      else if tx_state t = Working \<and> claim_active s current gid t
      then Inr (ack_where (owned_lease gid owner token) current s, t, flags False True True '''' False)
      else acquire random current owner token pid h k (Some t) s)"

definition begin_decide ::
    "128 word \<Rightarrow> time_ms \<Rightarrow> string \<Rightarrow> string \<Rightarrow> string \<Rightarrow> string \<Rightarrow> string \<Rightarrow> task_ref \<Rightarrow> store
      \<Rightarrow> exn + store \<times> task_row \<times> begin_flags" where
  "begin_decide random current gid owner token pid h k s =
     (let existing = find_task s k;
          cancellation = find (\<lambda>c. cancel_key c = k \<and> (tc_state c = Requested \<or> tc_state c = Applied)) (t_cancels s)
      in case existing of
        None \<Rightarrow>
          (case cancellation of
             Some c \<Rightarrow> canceled_early current gid owner token pid h k c s
           | None \<Rightarrow> acquire random current owner token pid h k None s)
      | Some t \<Rightarrow>
          if tx_request_hash t \<noteq> h
          then Inl (ValueError ''task_id was reused with a different request body'')
          else if terminal (tx_state t)
          then Inr (ack_where (owned_lease gid owner token) current s, t, flags False True True '''' False)
          else if tx_state t = Canceling
          then begin_canceling current gid owner token k cancellation t s
          else if cancellation \<noteq> None \<and> tx_state t = Retry then
            reread k (flags False True True '''' True)
              (cancel_now current (tc_reason (the cancellation)) gid owner token k s)
          else begin_running random current gid owner token pid h k t s)"

lemmas begin_defs = begin_decide_def canceled_early_def begin_canceling_def begin_running_def

definition join_comma :: "string list \<Rightarrow> string" where
  "join_comma xs = (case xs of [] \<Rightarrow> '''' | y # ys \<Rightarrow> y @ concat (map (\<lambda>z. CHR '','' # z) ys))"

definition begin_body ::
    "ext \<Rightarrow> 128 word \<Rightarrow> 128 word \<Rightarrow> time_ms \<Rightarrow> string \<Rightarrow> string \<Rightarrow> string \<Rightarrow> string list \<Rightarrow> string list \<Rightarrow> store
      \<Rightarrow> exn + store \<times> task_row \<times> begin_flags" where
  "begin_body E random id_random current gid owner token allowed policy s =
     and_then (claimed_message E id_random current ''agent.task.request''
        ''typed Agent task execution requires a trusted sender''
        ''claim does not contain an Agent task request'' gid owner token s) (\<lambda>(d, i, n).
     let sender = ib_sender i; k = (gid, sender, field_text E n ''task_id'')
     in if \<not> sender_allowed allowed sender
        then Inl (PermissionError ''task sender is outside the local execution policy'')
        else and_then (and_then (py_list (dict_get n ''required_capabilities'' PNone)) (\<lambda>cs.
               missing_task_capabilities E (map (py_str E) cs) policy)) (\<lambda>missing.
          if missing \<noteq> [] then Inl (PermissionError
              (''task requires capabilities outside the local execution policy: '' @ join_comma missing))
          else begin_decide random current gid owner token (cd_packet d)
                 (message_hash E ''anettsk1'' n) k s))"

text \<open>
  The item is built after \<open>COMMIT\<close>: when that raises, the \<open>ROLLBACK\<close> of the handler fails because no
  transaction is active, and the change stays.
\<close>

definition after_commit ::
    "('r \<Rightarrow> exn + 'a) \<Rightarrow> ('s, 'r) outcome \<Rightarrow> ('s, 'a) outcome" where
  "after_commit build q = (case q of
       (s, Inl e) \<Rightarrow> (s, Inl e)
     | (s, Inr r) \<Rightarrow> (case build r of
          Inl e \<Rightarrow> (s, Inl (OperationalError ''cannot rollback - no transaction is active''))
        | Inr a \<Rightarrow> (s, Inr a)))"

definition begin_agent_task ::
    "ext \<Rightarrow> 128 word \<Rightarrow> 128 word \<Rightarrow> time_ms \<Rightarrow> string \<Rightarrow> string \<Rightarrow> string \<Rightarrow> string list \<Rightarrow> string list \<Rightarrow> store
      \<Rightarrow> (store, task_item \<times> begin_flags) outcome" where
  "begin_agent_task E random id_random current g own t allowed_senders allowed_capabilities s =
     checked s (and_then (claim_args g own t) (\<lambda>a.
       and_then (normalize_capability_policy E allowed_capabilities) (\<lambda>policy. Inr (a, policy))))
     (\<lambda>((gid, owner, token), policy).
       after_commit (\<lambda>(row, f). and_then (agent_task_item E row) (\<lambda>item. Inr (item, f)))
         (transaction (begin_body E random id_random current gid owner token allowed_senders policy) s))"

section \<open>Settling a task\<close>

definition settle_checks :: "ext \<Rightarrow> string \<Rightarrow> pyval \<Rightarrow> string \<Rightarrow> exn + task_state \<times> string \<times> bytes" where
  "settle_checks E state_arg output error_arg =
     (let error = strip error_arg
      in case settle_state (lower (strip state_arg)) of
        None \<Rightarrow> Inl (ValueError
          ''task settlement state must be completed, failed, canceled, rejected, or retry'')
      | Some st \<Rightarrow>
          if st = Completed \<and> error \<noteq> ''''
          then Inl (ValueError ''a completed task cannot contain an error'')
          else if terminal st \<and> st \<noteq> Completed \<and> error = ''''
          then Inl (ValueError ''an unsuccessful task settlement requires an error'')
          else if 8192 < length error then Inl (ValueError ''task settlement error is too long'')
          else if MAX_WIRE_BYTES < length (pack E output)
          then Inl (ValueError ''task settlement output is too large'')
          else Inr (st, error, pack E output))"

text \<open>What a settlement writes to the row of the task and to the cancellation of the task.\<close>

definition settled_row :: "time_ms \<Rightarrow> task_state \<Rightarrow> string \<Rightarrow> bytes \<Rightarrow> task_row \<Rightarrow> task_row" where
  "settled_row current st err output t = (if st = Retry
     then t\<lparr>tx_state := Retry, tx_owner := '''', tx_claim_token := '''', tx_execution_token := '''',
            tx_updated_ms := current, tx_error := err\<rparr>
     else t\<lparr>tx_state := st, tx_owner := '''', tx_claim_token := '''', tx_execution_token := '''',
            tx_updated_ms := current, tx_completed_ms := current, tx_output := Some output, tx_error := err\<rparr>)"

definition apply_requested :: "time_ms \<Rightarrow> task_ref \<Rightarrow> store \<Rightarrow> store" where
  "apply_requested current k s = s\<lparr>t_cancels :=
     update_where (\<lambda>c. cancel_key c = k \<and> tc_state c = Requested) (applied_cancel current) (t_cancels s)\<rparr>"

definition settled_store ::
    "time_ms \<Rightarrow> time_ms \<Rightarrow> string \<Rightarrow> string \<Rightarrow> string \<Rightarrow> task_state \<Rightarrow> string \<Rightarrow> bytes \<Rightarrow> task_ref \<Rightarrow> store \<Rightarrow> store" where
  "settled_store current retry_after gid owner token st err output k s =
     (let s1 = (set_task k (settled_row current st err output) s)\<lparr>t_claims :=
            update_where (owned_lease gid owner token)
              (if st = Retry then retry_row retry_after err else ack_row current) (t_claims s)\<rparr>
      in if st = Canceled then apply_requested current k s1 else s1)"

definition settle_body ::
    "time_ms \<Rightarrow> time_ms \<Rightarrow> string \<Rightarrow> string \<Rightarrow> string \<Rightarrow> string \<Rightarrow> task_state \<Rightarrow> string \<Rightarrow> bytes \<Rightarrow> store
      \<Rightarrow> exn + store \<times> task_row" where
  "settle_body current retry_after gid owner token xtoken st err output s =
     (case find (\<lambda>t. tx_group t = gid \<and> tx_owner t = owner \<and> tx_claim_token t = token
             \<and> tx_execution_token t = xtoken \<and> active_task t) (t_tasks s) of
        None \<Rightarrow> Inl (ValueError ''task execution is stale, unknown, or owned by another worker'')
      | Some t \<Rightarrow>
          if \<not> exists_where (owned_lease gid owner token) (t_claims s)
          then Inl (ValueError ''task execution is stale, unknown, or owned by another worker'')
          else if tx_state t = Canceling \<and> st \<noteq> Canceled
          then Inl (ValueError ''task cancellation is pending; only canceled settlement is allowed'')
          else let k = task_key t;
                   s2 = settled_store current retry_after gid owner token st err output k s
               in (case find_task s2 k of
                     None \<Rightarrow> Inl (TypeError ''NoneType object is not subscriptable'')
                   | Some t' \<Rightarrow> Inr (s2, t')))"

text \<open>The result is the item and, for a retry, the time of the next attempt.\<close>

definition settle_agent_task ::
    "ext \<Rightarrow> time_ms \<Rightarrow> string \<Rightarrow> string \<Rightarrow> string \<Rightarrow> string \<Rightarrow> string \<Rightarrow> pyval \<Rightarrow> string \<Rightarrow> rat \<Rightarrow> store
      \<Rightarrow> (store, task_item \<times> time_ms option) outcome" where
  "settle_agent_task E current g own t x state_arg output error_arg retry_seconds s =
     checked s (and_then (claim_args g own t) (\<lambda>a. and_then (claim_token x) (\<lambda>xtoken.
       and_then (settle_checks E state_arg output error_arg) (\<lambda>c. Inr (a, xtoken, c)))))
     (\<lambda>((gid, owner, token), xtoken, (st, err, out)).
       let retry_after = current + retry_duration retry_seconds
       in after_commit (\<lambda>row. and_then (agent_task_item E row) (\<lambda>item.
              Inr (item, if st = Retry then Some retry_after else None)))
            (transaction (settle_body current retry_after gid owner token xtoken st err out) s))"

section \<open>Looking up tasks and cancellations\<close>

lemma terminal_simps [simp]:
  "terminal Completed" "terminal Failed" "terminal Canceled" "terminal Rejected"
  "\<not> terminal Working" "\<not> terminal Canceling" "\<not> terminal Retry"
  by (simp_all add: terminal_def)

text \<open>What the statements of the task operations do to the two lookups.\<close>

named_theorems task_simps

lemma find_task_frame [task_simps]:
  "find_task (s\<lparr>t_claims := cs\<rparr>) k = find_task s k"
  "find_task (s\<lparr>t_cancels := xs\<rparr>) k = find_task s k"
  "find_task (set_cancel k' g s) k = find_task s k"
  "find_task (ack_where hit now s) k = find_task s k"
  "find_task (apply_requested now k' s) k = find_task s k"
  "find_task (record_cancel pid h reason now k' s) k = find_task s k"
  by (simp_all add: find_task_def set_cancel_def ack_where_def record_cancel_def apply_requested_def)

lemma find_cancel_frame [task_simps]:
  "find_cancel (s\<lparr>t_claims := cs\<rparr>) k = find_cancel s k"
  "find_cancel (s\<lparr>t_tasks := ts\<rparr>) k = find_cancel s k"
  "find_cancel (set_task k' f s) k = find_cancel s k"
  "find_cancel (ack_where hit now s) k = find_cancel s k"
  by (simp_all add: find_cancel_def set_task_def ack_where_def)

lemma find_task_set [task_simps]:
  assumes "\<And>t. task_key (f t) = task_key t"
  shows "find_task (set_task k f s) k' =
     (if k' = k then map_option f (find_task s k) else find_task s k')"
  using find_update_key [where key = task_key and f = f and P = "\<lambda>_. True" and k = k and k' = k', OF assms]
  by (simp add: find_task_def set_task_def)

lemma find_task_append [task_simps]:
  "find_task (s\<lparr>t_tasks := t_tasks s @ [t]\<rparr>) k =
     (case find_task s k of None \<Rightarrow> if task_key t = k then Some t else None | Some t' \<Rightarrow> Some t')"
  by (simp add: find_task_def find_append split: option.splits)

lemma find_cancel_set [task_simps]:
  assumes "\<And>c. cancel_key (f c) = cancel_key c"
  shows "find_cancel (set_cancel k f s) k' =
     (if k' = k then map_option f (find_cancel s k) else find_cancel s k')"
  using find_update_key [where key = cancel_key and f = f and P = "\<lambda>_. True" and k = k and k' = k', OF assms]
  by (simp add: find_cancel_def set_cancel_def)

lemma find_cancel_apply [task_simps]:
  "find_cancel (apply_requested now k s) k' =
     (if k' = k then map_option (\<lambda>c. if tc_state c = Requested then applied_cancel now c else c) (find_cancel s k)
      else find_cancel s k')"
  using find_update_key [where key = cancel_key and f = "applied_cancel now"
      and P = "\<lambda>c. tc_state c = Requested" and k = k and k' = k']
  by (simp add: find_cancel_def apply_requested_def applied_cancel_def cancel_key_def)

lemma find_cancel_record [task_simps]:
  "find_cancel (record_cancel pid h reason now k s) k' =
     (case find_cancel s k' of
        None \<Rightarrow> if k' = k then Some \<lparr>tc_group = fst k, tc_sender = fst (snd k), tc_task = snd (snd k),
           tc_packet = pid, tc_hash = h, tc_reason = reason, tc_state = Requested, tc_terminal_state = None,
           tc_requested_ms = now, tc_updated_ms = now, tc_applied_ms = 0\<rparr> else None
      | Some c \<Rightarrow> Some c)"
  by (auto simp: find_cancel_def record_cancel_def find_append cancel_key_def split: option.splits)

lemma find_task_key: "find_task s k = Some t \<Longrightarrow> t \<in> set (t_tasks s) \<and> task_key t = k"
  unfolding find_task_def by (rule find_SomeD)

lemma find_cancel_key: "find_cancel s k = Some c \<Longrightarrow> c \<in> set (t_cancels s) \<and> cancel_key c = k"
  unfolding find_cancel_def by (rule find_SomeD)

section \<open>The life of a task\<close>

text \<open>
  The abstract specification: what a task key shows is the state of its execution and the state of
  its cancellation, and these are the moves.
\<close>

type_synonym task_view = "task_state option \<times> cancel_state option"

definition task_view :: "task_ref \<Rightarrow> store \<Rightarrow> task_view" where
  "task_view k s = (map_option tx_state (find_task s k), map_option tc_state (find_cancel s k))"

inductive task_flow :: "task_view \<Rightarrow> task_view \<Rightarrow> bool" where
  start: "task_flow (None, None) (Some Working, None)"
| resume: "task_flow (Some Retry, None) (Some Working, None)"
| settle: "terminal st \<or> st = Retry \<Longrightarrow> task_flow (Some Working, None) (Some st, None)"
| request_early: "task_flow (None, None) (None, Some Requested)"
| cancel_early: "task_flow (None, Some Requested) (Some Canceled, Some Applied)"
| interrupt: "task_flow (Some Working, None) (Some Canceling, Some Requested)"
| stopped: "task_flow (Some Canceling, Some Requested) (Some Canceled, Some Applied)"
| cancel_retry: "task_flow (Some Retry, None) (Some Canceled, Some Applied)"
| cancel_again: "task_flow (Some Canceled, None) (Some Canceled, Some Applied)"
| cancel_late: "terminal st \<Longrightarrow> st \<noteq> Canceled \<Longrightarrow> task_flow (Some st, None) (Some st, Some TooLate)"

inductive_cases task_flowE: "task_flow v w"

text \<open>The pairs of states that occur.\<close>

fun view_ok :: "task_view \<Rightarrow> bool" where
  "view_ok (None, c) = (c = None \<or> c = Some Requested)"
| "view_ok (Some st, c) =
     (if st = Canceling then c = Some Requested
      else if st = Canceled then c = None \<or> c = Some Applied
      else if terminal st then c = None \<or> c = Some TooLate else c = None)"

lemma view_ok_flow: "task_flow v w \<Longrightarrow> view_ok v \<Longrightarrow> view_ok w"
  by (induction rule: task_flow.induct) (auto simp: terminal_def)

lemma view_ok_reach: "task_flow\<^sup>*\<^sup>* v w \<Longrightarrow> view_ok v \<Longrightarrow> view_ok w"
  by (induction rule: rtranclp_induct) (auto dest: view_ok_flow)

lemma flow_terminal:
  assumes "task_flow\<^sup>*\<^sup>* v w" and "fst v = Some st" and "terminal st"
  shows "fst w = Some st"
  using assms by (induction rule: rtranclp_induct) (auto elim!: task_flowE simp: terminal_def)

text \<open>A view from which the task never runs again.\<close>

definition stopped_view :: "task_view \<Rightarrow> bool" where
  "stopped_view v = (snd v = Some Requested \<or> snd v = Some Applied \<or> fst v = Some Canceled)"

lemma flow_stopped: "task_flow v w \<Longrightarrow> stopped_view v \<Longrightarrow> stopped_view w"
  by (induction rule: task_flow.induct) (auto simp: stopped_view_def terminal_def)

lemma stopped_not_working: "view_ok v \<Longrightarrow> stopped_view v \<Longrightarrow> fst v \<noteq> Some Working \<and> fst v \<noteq> Some Retry"
  by (cases v; cases "fst v") (auto simp: stopped_view_def terminal_def)

section \<open>Invariant\<close>

text \<open>
  Keys are unique, a task has an execution token exactly while it runs, no two tasks share one, and
  the execution and the cancellation of every task agree.
\<close>

definition tasks_ok :: "task_row list \<Rightarrow> bool" where
  "tasks_ok ts \<longleftrightarrow> unique_key task_key ts
     \<and> (\<forall>t\<in>set ts. active_task t = (tx_execution_token t \<noteq> ''''))
     \<and> (\<forall>t\<in>set ts. \<forall>u\<in>set ts. tx_execution_token t = tx_execution_token u \<longrightarrow>
          tx_execution_token t \<noteq> '''' \<longrightarrow> task_key t = task_key u)"

definition task_inv :: "store \<Rightarrow> bool" where
  "task_inv s \<longleftrightarrow> tasks_ok (t_tasks s) \<and> unique_key cancel_key (t_cancels s)
     \<and> (\<forall>k\<in>set (map task_key (t_tasks s) @ map cancel_key (t_cancels s)). view_ok (task_view k s))"

lemma task_inv_empty: "task_inv empty_store"
  by (simp add: task_inv_def tasks_ok_def empty_store_def)

lemma task_inv_view:
  assumes "task_inv s" shows "view_ok (task_view k s)"
proof (cases "k \<in> set (map task_key (t_tasks s) @ map cancel_key (t_cancels s))")
  case False
  then have "find_task s k = None" "find_cancel s k = None"
    by (force simp: find_task_def find_cancel_def find_None_iff_all)+
  then show ?thesis by (simp add: task_view_def)
qed (use assms in \<open>auto simp: task_inv_def\<close>)

lemma task_invI:
  "tasks_ok (t_tasks s) \<Longrightarrow> unique_key cancel_key (t_cancels s) \<Longrightarrow> (\<And>k. view_ok (task_view k s)) \<Longrightarrow> task_inv s"
  by (simp add: task_inv_def)

lemma task_invD: "task_inv s \<Longrightarrow> tasks_ok (t_tasks s)" "task_inv s \<Longrightarrow> unique_key cancel_key (t_cancels s)"
  by (simp_all add: task_inv_def)

lemma tasks_okD:
  assumes "tasks_ok ts"
  shows "unique_key task_key ts"
    and "t \<in> set ts \<Longrightarrow> active_task t = (tx_execution_token t \<noteq> '''')"
    and "t \<in> set ts \<Longrightarrow> u \<in> set ts \<Longrightarrow> tx_execution_token t = tx_execution_token u \<Longrightarrow>
         tx_execution_token t \<noteq> '''' \<Longrightarrow> task_key t = task_key u"
  using assms unfolding tasks_ok_def by blast+

lemma tasks_ok_set:
  assumes "tasks_ok ts" and key: "\<And>t. task_key (f t) = task_key t"
    and act: "\<And>t. t \<in> set ts \<Longrightarrow> task_key t = k \<Longrightarrow> active_task (f t) = (tx_execution_token (f t) \<noteq> '''')"
    and tok: "\<And>t. t \<in> set ts \<Longrightarrow> task_key t = k \<Longrightarrow> tx_execution_token (f t) = ''''
        \<or> tx_execution_token (f t) = tx_execution_token t
        \<or> (\<forall>u\<in>set ts. task_key u \<noteq> k \<longrightarrow> tx_execution_token u \<noteq> tx_execution_token (f t))"
  shows "tasks_ok (update_where (\<lambda>t. task_key t = k) f ts)"
proof -
  let ?g = "\<lambda>t. if task_key t = k then f t else t"
  have g: "task_key (?g t) = task_key t" for t using key by simp
  have "unique_key task_key (update_where (\<lambda>t. task_key t = k) f ts)"
    using tasks_okD(1) [OF assms(1)] key by (rule unique_key_update_where)
  moreover have "active_task (?g t) = (tx_execution_token (?g t) \<noteq> '''')" if "t \<in> set ts" for t
    using act [OF that] tasks_okD(2) [OF assms(1) that] by simp
  moreover have "task_key (?g t) = task_key (?g u)"
    if "t \<in> set ts" "u \<in> set ts" "tx_execution_token (?g t) = tx_execution_token (?g u)"
      "tx_execution_token (?g t) \<noteq> ''''" for t u
  proof (cases "task_key t = k \<longleftrightarrow> task_key u = k")
    case True
    then show ?thesis unfolding g using that tasks_okD(3) [OF assms(1) that(1,2)]
      by (cases "task_key t = k") simp_all
  next
    case False
    have one: "task_key v = task_key w" if vw: "v \<in> set ts" "w \<in> set ts" "task_key v = k" "task_key w \<noteq> k"
      "tx_execution_token (f v) = tx_execution_token w" "tx_execution_token w \<noteq> ''''" for v w
      using tok [OF vw(1,3)] tasks_okD(3) [OF assms(1) vw(1,2)] vw by metis
    show ?thesis unfolding g using False that one [OF that(1,2)] one [OF that(2,1)]
      by (cases "task_key t = k") auto
  qed
  ultimately show ?thesis unfolding tasks_ok_def set_update_where by blast
qed

lemma tasks_ok_append:
  assumes "tasks_ok ts" and "\<And>u. u \<in> set ts \<Longrightarrow> task_key u \<noteq> task_key t"
    and "active_task t = (tx_execution_token t \<noteq> '''')"
    and "tx_execution_token t = '''' \<or> (\<forall>u\<in>set ts. tx_execution_token u \<noteq> tx_execution_token t)"
  shows "tasks_ok (ts @ [t])"
  unfolding tasks_ok_def using assms unique_key_append [of task_key ts t]
  by (auto dest: tasks_okD(1,2) intro: tasks_okD(3))

section \<open>One step of a task\<close>

text \<open>Task operations only write the tables of claims, tasks and cancellations.\<close>

definition only_tasks :: "store \<Rightarrow> store \<Rightarrow> bool" where
  "only_tasks s t \<longleftrightarrow> t = s\<lparr>t_claims := t_claims t, t_tasks := t_tasks t, t_cancels := t_cancels t\<rparr>"

lemma only_tasks_intros [simp]:
  "only_tasks s s"
  "only_tasks s t \<Longrightarrow> only_tasks s (t\<lparr>t_claims := cs\<rparr>)"
  "only_tasks s t \<Longrightarrow> only_tasks s (t\<lparr>t_tasks := ts\<rparr>)"
  "only_tasks s t \<Longrightarrow> only_tasks s (t\<lparr>t_cancels := xs\<rparr>)"
  by (cases s; cases t; simp add: only_tasks_def)+

lemma only_tasksD:
  assumes "only_tasks s t"
  shows "t_packets t = t_packets s" "t_deliveries t = t_deliveries s" "t_delivery_paths t = t_delivery_paths s"
    "t_receipts t = t_receipts s" "t_rejections t = t_rejections s" "t_inbox t = t_inbox s"
    "t_groups t = t_groups s" "t_metadata t = t_metadata s"
    "t_local_prekeys t = t_local_prekeys s" "t_peer_bundles t = t_peer_bundles s"
    "t_peer_prekeys t = t_peer_prekeys s" "t_path_metrics t = t_path_metrics s" "t_routes t = t_routes s"
  using assms by (cases s; cases t; simp add: only_tasks_def)+

text \<open>
  What every task operation guarantees about the tables it writes: the claim invariant and the task
  invariant hold again, each key moves along \<^const>\<open>task_flow\<close> or stays, a finished execution is not
  touched, and the other tables are left alone.
\<close>

definition task_safe :: "store \<Rightarrow> store \<Rightarrow> bool" where
  "task_safe s s' \<longleftrightarrow> consumer_inv s' \<and> tasks_ok (t_tasks s') \<and> unique_key cancel_key (t_cancels s')
     \<and> (\<forall>k. task_view k s' = task_view k s \<or> task_flow (task_view k s) (task_view k s'))
     \<and> (\<forall>k t. find_task s k = Some t \<longrightarrow> terminal (tx_state t) \<longrightarrow> find_task s' k = Some t)
     \<and> (\<forall>k. claim_done k s \<longrightarrow> claim_done k s') \<and> only_tasks s s'"

lemma task_safeD:
  assumes "task_safe s s'"
  shows "consumer_inv s'" and "tasks_ok (t_tasks s')" and "unique_key cancel_key (t_cancels s')"
    and "task_view k s' = task_view k s \<or> task_flow (task_view k s) (task_view k s')"
    and "find_task s k = Some t \<Longrightarrow> terminal (tx_state t) \<Longrightarrow> find_task s' k = Some t"
    and "claim_done d s \<Longrightarrow> claim_done d s'" and "only_tasks s s'"
  using assms unfolding task_safe_def by blast+

text \<open>An operation changes the rows of one task only.\<close>

lemma task_safeI:
  assumes "consumer_inv s'" and "tasks_ok (t_tasks s')" and "unique_key cancel_key (t_cancels s')"
    and other: "\<And>k'. k' \<noteq> k \<Longrightarrow> find_task s' k' = find_task s k' \<and> find_cancel s' k' = find_cancel s k'"
    and view: "task_view k s' = task_view k s \<or> task_flow (task_view k s) (task_view k s')"
    and final: "\<And>t. find_task s k = Some t \<Longrightarrow> terminal (tx_state t) \<Longrightarrow> find_task s' k = Some t"
    and "\<And>d. claim_done d s \<Longrightarrow> claim_done d s'" and "only_tasks s s'"
  shows "task_safe s s'"
proof -
  have "task_view k' s' = task_view k' s \<or> task_flow (task_view k' s) (task_view k' s')" for k'
    using view other [of k'] by (cases "k' = k") (simp_all add: task_view_def)
  moreover have "find_task s' k' = Some t" if "find_task s k' = Some t" "terminal (tx_state t)" for k' t
    using final other [of k'] that by (cases "k' = k") simp_all
  ultimately show ?thesis unfolding task_safe_def using assms(1-3,7,8) by blast
qed

lemma task_safe_refl: "consumer_inv s \<Longrightarrow> task_inv s \<Longrightarrow> task_safe s s"
  unfolding task_safe_def task_inv_def by simp

lemma task_safe_inv: "task_safe s s' \<Longrightarrow> task_inv s \<Longrightarrow> task_inv s'"
  by (rule task_invI) (metis task_safeD(2), metis task_safeD(3), metis task_safeD(4) task_inv_view view_ok_flow)

lemma consumer_inv_ack: "consumer_inv s \<Longrightarrow> consumer_inv (ack_where hit now s)"
  by (auto simp: consumer_inv_def ack_where_def ack_row_def claim_key_def intro: claims_ok_release)

lemma claim_done_ack: "claim_done k s \<Longrightarrow> claim_done k (ack_where hit now s)"
  unfolding claim_done_def ack_where_def exists_where_iff
  by (auto intro!: bex_update_where simp: ack_row_def claim_key_def)

lemma task_view_ack: "task_view k (ack_where hit now s) = task_view k s"
  by (simp add: task_view_def task_simps)

lemma task_safe_ack:
  assumes "task_safe s s'" shows "task_safe s (ack_where hit now s')"
  unfolding task_safe_def task_view_ack
  using task_safeD [OF assms]
  by (intro conjI allI impI)
    (simp_all add: task_simps consumer_inv_ack claim_done_ack, simp_all add: ack_where_def)

lemma find_unique_and:
  assumes "unique_key key rs"
  shows "find (\<lambda>r. key r = k \<and> P r) rs =
     (case find (\<lambda>r. key r = k) rs of None \<Rightarrow> None | Some r \<Rightarrow> if P r then Some r else None)"
  using assms
proof (induction rs)
  case (Cons r rs)
  then have fresh: "key r \<notin> key ` set rs" and uniq: "unique_key key rs"
    by (simp_all add: unique_key_def)
  then have "key r = k \<Longrightarrow> find (\<lambda>r. key r = k) rs = None"
    unfolding find_None_iff_all by (metis imageI)
  with uniq show ?case using Cons.IH by auto
qed simp

lemma live_cancel:
  assumes "task_inv s"
  shows "find (\<lambda>c. cancel_key c = k \<and> (tc_state c = Requested \<or> tc_state c = Applied)) (t_cancels s) =
     (case find_cancel s k of None \<Rightarrow> None
      | Some c \<Rightarrow> if tc_state c = Requested \<or> tc_state c = Applied then Some c else None)"
  using assms find_unique_and [of cancel_key "t_cancels s" k]
  by (simp add: task_inv_def find_cancel_def)

lemma set_task_simps [simp]:
  "t_tasks (set_task k f s) = update_where (\<lambda>t. task_key t = k) f (t_tasks s)"
  "t_cancels (set_task k f s) = t_cancels s" "t_claims (set_task k f s) = t_claims s"
  "t_tasks (set_cancel k g s) = t_tasks s" "t_claims (set_cancel k g s) = t_claims s"
  "t_cancels (set_cancel k g s) = update_where (\<lambda>c. cancel_key c = k) g (t_cancels s)"
  "consumer_inv (set_task k f s) = consumer_inv s" "consumer_inv (set_cancel k g s) = consumer_inv s"
  "claim_done d (set_task k f s) = claim_done d s" "claim_done d (set_cancel k g s) = claim_done d s"
  "only_tasks s0 s \<Longrightarrow> only_tasks s0 (set_task k f s)" "only_tasks s0 s \<Longrightarrow> only_tasks s0 (set_cancel k g s)"
  by (simp_all add: set_task_def set_cancel_def consumer_inv_def claim_done_def)

lemma ack_where_simps [simp]:
  "t_tasks (ack_where hit now s) = t_tasks s" "t_cancels (ack_where hit now s) = t_cancels s"
  "only_tasks s0 s \<Longrightarrow> only_tasks s0 (ack_where hit now s)"
  by (simp_all add: ack_where_def)

lemma task_frame_simps [simp]:
  "consumer_inv (s\<lparr>t_tasks := ts\<rparr>) = consumer_inv s" "consumer_inv (s\<lparr>t_cancels := xs\<rparr>) = consumer_inv s"
  "claim_done d (s\<lparr>t_tasks := ts\<rparr>) = claim_done d s" "claim_done d (s\<lparr>t_cancels := xs\<rparr>) = claim_done d s"
  by (simp_all add: consumer_inv_def claim_done_def)

lemma unique_cancel_set:
  "unique_key cancel_key cs \<Longrightarrow> (\<And>c. cancel_key (g c) = cancel_key c) \<Longrightarrow>
   unique_key cancel_key (update_where P g cs)"
  by (rule unique_key_update_where)

lemma row_keys [simp]:
  "task_key (canceled_row now reason t) = task_key t" "cancel_key (applied_cancel now c) = cancel_key c"
  "task_key (new_task k pid h st own tok x n started now fin err) = k"
  "tx_state (canceled_row now reason t) = Canceled" "tc_state (applied_cancel now c) = Applied"
  "tx_execution_token (canceled_row now reason t) = ''''"
  "tx_state (new_task k pid h st own tok x n started now fin err) = st"
  "tx_execution_token (new_task k pid h st own tok x n started now fin err) = x"
  "tx_owner (new_task k pid h st own tok x n started now fin err) = own"
  "tx_claim_token (new_task k pid h st own tok x n started now fin err) = tok"
  "task_key (resumed_row pid own tok x now t) = task_key t" "tx_state (resumed_row pid own tok x now t) = Working"
  "tx_execution_token (resumed_row pid own tok x now t) = x" "tx_owner (resumed_row pid own tok x now t) = own"
  "tx_claim_token (resumed_row pid own tok x now t) = tok"
  by (simp_all add: canceled_row_def applied_cancel_def new_task_def resumed_row_def task_key_def cancel_key_def)

lemma find_task_None: "find_task s k = None \<Longrightarrow> t \<in> set (t_tasks s) \<Longrightarrow> task_key t \<noteq> k"
  by (auto simp: find_task_def find_None_iff_all)

lemma task_safe_acquire:
  assumes inv: "consumer_inv s" "task_inv s" and ex: "existing = find_task s k" and nc: "find_cancel s k = None"
    and st: "\<And>t. existing = Some t \<Longrightarrow> tx_state t = Working \<or> tx_state t = Retry"
    and run: "acquire random now owner token pid h k existing s = Inr (s', row, f)"
  shows "task_safe s s'"
proof (cases existing)
  case None
  let ?n = "new_task k pid h Working owner token (token_hex random) 1 now now 0 ''''"
  have s': "s' = s\<lparr>t_tasks := t_tasks s @ [?n]\<rparr>"
    and free: "\<forall>t\<in>set (t_tasks s). task_key t \<noteq> k \<longrightarrow> tx_execution_token t \<noteq> token_hex random"
    using run by (auto simp: acquire_def None Let_def)
  have "tasks_ok (t_tasks s @ [?n])"
    using inv(2) free find_task_None [of s k] ex None
    by (intro tasks_ok_append) (auto simp: task_inv_def active_task_def)
  then show ?thesis using inv(1) task_invD(2) [OF inv(2)] nc ex None
    by (intro task_safeI [where k = k]) (auto simp: s' task_view_def task_simps
        intro: task_flow.intros split: option.splits)
next
  case (Some t)
  let ?f = "resumed_row pid owner token (token_hex random) now"
  have s': "s' = set_task k ?f s"
    and free: "\<forall>t\<in>set (t_tasks s). task_key t \<noteq> k \<longrightarrow> tx_execution_token t \<noteq> token_hex random"
    using run by (auto simp: acquire_def Some Let_def)
  have "tasks_ok (update_where (\<lambda>t. task_key t = k) ?f (t_tasks s))"
    using task_invD(1) [OF inv(2)] free by (intro tasks_ok_set) (auto simp: active_task_def)
  moreover have "find_task s k = Some t" using ex Some by simp
  ultimately show ?thesis using inv(1) task_invD(2) [OF inv(2)] nc st [OF Some]
    by (intro task_safeI [where k = k]) (auto simp: s' task_view_def task_simps intro: task_flow.intros)
qed

lemma task_safe_cancel_now:
  assumes inv: "consumer_inv s" "task_inv s" and t: "find_task s k = Some t" and c: "find_cancel s k = Some c"
    and st: "tx_state t = Canceling" "tc_state c = Requested"
  shows "task_safe s (cancel_now now reason gid owner token k s)"
proof -
  have "tasks_ok (update_where (\<lambda>t. task_key t = k) (canceled_row now reason) (t_tasks s))"
    using task_invD(1) [OF inv(2)] by (intro tasks_ok_set) (simp_all add: active_task_def)
  then have "task_safe s (set_cancel k (applied_cancel now) (set_task k (canceled_row now reason) s))"
    using inv(1) task_invD(2) [OF inv(2)] t c st
    by (intro task_safeI [where k = k])
      (auto simp: task_view_def task_simps terminal_def intro: task_flow.intros)
  then show ?thesis unfolding cancel_now_def by (rule task_safe_ack)
qed

lemma reread_Inr: "reread k f s = Inr (s', row, f') \<longleftrightarrow> s' = s \<and> f' = f \<and> find_task s k = Some row"
  by (auto simp: reread_def split: option.splits)

lemma begin_new:
  assumes inv: "consumer_inv s" "task_inv s" and t: "find_task s k = None"
    and run: "begin_decide random now gid owner token pid h k s = Inr (s', row, f)"
  shows "task_safe s s' \<and> find_task s' k = Some row"
proof (cases "find_cancel s k")
  case None
  then have "acquire random now owner token pid h k None s = Inr (s', row, f)"
    using run by (simp add: begin_defs t live_cancel [OF inv(2)])
  then show ?thesis using task_safe_acquire [OF inv _ None, of None] t
    by (auto simp: acquire_def Let_def)
next
  case (Some c)
  have "tc_state c = Requested" using task_inv_view [OF inv(2), of k] by (simp add: task_view_def t Some)
  let ?n = "new_task k pid h Canceled '''' '''' '''' 0 0 now now (tc_reason c)"
  let ?s = "set_cancel k (applied_cancel now) (s\<lparr>t_tasks := t_tasks s @ [?n]\<rparr>)"
  have s': "s' = ack_where (owned_lease gid owner token) now ?s" and row: "find_task s' k = Some row"
    using run \<open>tc_state c = Requested\<close>
    by (simp_all add: begin_defs t live_cancel [OF inv(2)] Some reread_Inr)
  have "tasks_ok (t_tasks s @ [?n])"
    using task_invD(1) [OF inv(2)] find_task_None [OF t] by (intro tasks_ok_append) (auto simp: active_task_def)
  then have "task_safe s ?s" using inv(1) task_invD(2) [OF inv(2)] t Some \<open>tc_state c = Requested\<close>
    by (intro task_safeI [where k = k])
      (auto simp: task_view_def task_simps intro: task_flow.intros split: option.splits)
  with row show ?thesis unfolding s' by (simp add: task_safe_ack)
qed

lemma begin_known:
  assumes inv: "consumer_inv s" "task_inv s" and t: "find_task s k = Some t"
    and run: "begin_decide random now gid owner token pid h k s = Inr (s', row, f)"
  shows "task_safe s s' \<and> find_task s' k = Some row"
proof -
  note view = task_inv_view [OF inv(2), of k, unfolded task_view_def t, simplified]
  note safe = task_safe_refl [OF inv]
  have h: "tx_request_hash t = h" using run by (auto simp: begin_defs t Let_def split: if_splits)
  consider "terminal (tx_state t)" | "tx_state t = Canceling" | "tx_state t = Working \<or> tx_state t = Retry"
    by (cases "tx_state t") (auto simp: terminal_def)
  then show ?thesis
  proof cases
    case 1
    then show ?thesis using run safe by (auto simp: begin_defs t h task_simps intro: task_safe_ack)
  next
    case 2
    then obtain c where c: "find_cancel s k = Some c" "tc_state c = Requested"
      using view by auto
    have "task_safe s (cancel_now now reason gid owner token k s)" for reason
      using inv t c(1) 2 c(2) by (rule task_safe_cancel_now)
    then show ?thesis using run 2 safe t c
      by (auto simp: begin_defs h terminal_def live_cancel [OF inv(2)] reread_Inr task_simps
          intro: task_safe_ack split: if_splits)
  next
    case 3
    then have c: "find_cancel s k = None" using view by (auto simp: terminal_def)
    have acq: "task_safe s s' \<and> find_task s' k = Some row"
      if "acquire random now owner token pid h k (Some t) s = Inr (s', row, f)"
      using task_safe_acquire [OF inv _ c _ that] that t 3 by (auto simp: acquire_def Let_def)
    show ?thesis using run 3 safe acq t c
      by (auto simp: begin_defs h terminal_def live_cancel [OF inv(2)] task_simps
          intro: task_safe_ack split: if_splits)
  qed
qed

lemma begin_decide_safe:
  assumes inv: "consumer_inv s" "task_inv s"
    and run: "begin_decide random now gid owner token pid h k s = Inr (s', row, f)"
  shows "task_safe s s' \<and> find_task s' k = Some row"
proof (cases "find_task s k")
  case None
  from inv this run show ?thesis by (rule begin_new)
next
  case (Some t)
  from inv this run show ?thesis by (rule begin_known)
qed

lemma find_task_unique: "task_inv s \<Longrightarrow> t \<in> set (t_tasks s) \<Longrightarrow> find_task s (task_key t) = Some t"
  unfolding find_task_def by (intro find_unique tasks_okD(1) task_invD(1))

lemma settled_row_simps [simp]:
  "task_key (settled_row now st err out t) = task_key t" "tx_state (settled_row now st err out t) = st"
  "tx_execution_token (settled_row now st err out t) = ''''"
  by (simp_all add: settled_row_def task_key_def)

lemma settled_store_simps [simp]:
  "t_tasks (settled_store now ra gid own tok st err out k s) =
     update_where (\<lambda>t. task_key t = k) (settled_row now st err out) (t_tasks s)"
  "t_claims (settled_store now ra gid own tok st err out k s) =
     update_where (owned_lease gid own tok) (if st = Retry then retry_row ra err else ack_row now) (t_claims s)"
  "t_groups (settled_store now ra gid own tok st err out k s) = t_groups s"
  by (simp_all add: settled_store_def Let_def apply_requested_def set_task_def)

lemma settled_store_find [task_simps]:
  "find_task (settled_store now ra gid own tok st err out k s) k' =
     (if k' = k then map_option (settled_row now st err out) (find_task s k) else find_task s k')"
  "find_cancel (settled_store now ra gid own tok st err out k s) k' =
     (if st = Canceled \<and> k' = k
      then map_option (\<lambda>c. if tc_state c = Requested then applied_cancel now c else c) (find_cancel s k)
      else find_cancel s k')"
  by (simp_all add: settled_store_def Let_def task_simps)

lemma settle_body_Inr:
  assumes inv: "task_inv s"
    and run: "settle_body now retry_after gid owner token x st err out s = Inr (s', row)"
  obtains t where "t \<in> set (t_tasks s)" "tx_group t = gid" "tx_owner t = owner" "tx_claim_token t = token"
    "tx_execution_token t = x" "active_task t" "\<exists>d\<in>set (t_claims s). owned_lease gid owner token d"
    "tx_state t = Canceling \<longrightarrow> st = Canceled" "find_task s (task_key t) = Some t"
    "row = settled_row now st err out t"
    "s' = settled_store now retry_after gid owner token st err out (task_key t) s"
proof -
  let ?P = "\<lambda>t. tx_group t = gid \<and> tx_owner t = owner \<and> tx_claim_token t = token
             \<and> tx_execution_token t = x \<and> active_task t"
  obtain t where fd: "find ?P (t_tasks s) = Some t" using run by (auto simp: settle_body_def)
  note t = find_SomeD [OF fd]
  have ft: "find_task s (task_key t) = Some t" using inv t by (blast intro: find_task_unique)
  show thesis using run t by (intro that [OF _ _ _ _ _ _ _ _ ft])
      (auto simp: settle_body_def fd Let_def task_simps ft split: if_splits)
qed

lemma settle_body_safe:
  assumes inv: "consumer_inv s" "task_inv s" and st: "terminal st \<or> st = Retry"
    and run: "settle_body now retry_after gid owner token x st err out s = Inr (s', row)"
  shows "task_safe s s'"
  using inv(2) run
proof (rule settle_body_Inr)
  fix t
  assume t: "t \<in> set (t_tasks s)" "active_task t" "tx_state t = Canceling \<longrightarrow> st = Canceled" "find_task s (task_key t) = Some t"
    and s': "s' = settled_store now retry_after gid owner token st err out (task_key t) s"
  have "claims_ok (t_claims s')" using inv(1) unfolding consumer_inv_def s' settled_store_simps
    by (intro claims_ok_release) (auto simp: retry_row_def ack_row_def claim_key_def)
  then have ci: "consumer_inv s'" using inv(1) by (simp add: s' consumer_inv_def)
  have ok: "tasks_ok (t_tasks s')" unfolding s' settled_store_simps
    using task_invD(1) [OF inv(2)] st by (intro tasks_ok_set) (auto simp: active_task_def terminal_def)
  have cu: "unique_key cancel_key (t_cancels s')"
    using task_invD(2) [OF inv(2)]
    by (auto simp: s' settled_store_def apply_requested_def Let_def intro!: unique_cancel_set)
  note view = task_inv_view [OF inv(2), of "task_key t", unfolded task_view_def t(4), simplified]
  have fl: "task_flow (task_view (task_key t) s) (task_view (task_key t) s')"
    using t(2-4) view st by (cases "tx_state t = Canceling")
      (auto simp: s' task_view_def task_simps active_task_def terminal_def intro: task_flow.intros)
  have dn: "claim_done d s'" if "claim_done d s" for d
  proof -
    obtain e where e: "e \<in> set (t_claims s)" "claim_key e = d" "cd_state e = ClaimAcked"
      using \<open>claim_done d s\<close> by (auto simp: claim_done_def)
    then have "e \<in> set (t_claims s')"
      unfolding s' settled_store_simps by (intro update_where_miss) (simp_all add: owned_lease_def)
    with e show ?thesis by (auto simp: claim_done_def)
  qed
  have "only_tasks s s'" by (simp add: s' settled_store_def Let_def apply_requested_def)
  with ci ok cu fl dn t(2,4) show ?thesis
    by (intro task_safeI [where k = "task_key t"]) (auto simp: s' task_simps active_task_def terminal_def)
qed

lemma record_cancel_simps [simp]:
  "t_tasks (record_cancel pid h reason now k s) = t_tasks s"
  "t_claims (record_cancel pid h reason now k s) = t_claims s"
  "consumer_inv (record_cancel pid h reason now k s) = consumer_inv s"
  "claim_done d (record_cancel pid h reason now k s) = claim_done d s"
  "only_tasks s0 s \<Longrightarrow> only_tasks s0 (record_cancel pid h reason now k s)"
  by (simp_all add: record_cancel_def)

lemma unique_record_cancel:
  "unique_key cancel_key (t_cancels s) \<Longrightarrow> unique_key cancel_key (t_cancels (record_cancel pid h reason now k s))"
  by (auto simp: record_cancel_def cancel_key_def [of "\<lparr>tc_group = _, tc_sender = _, tc_task = _, tc_packet = _,
      tc_hash = _, tc_reason = _, tc_state = _, tc_terminal_state = _, tc_requested_ms = _, tc_updated_ms = _,
      tc_applied_ms = _\<rparr>"] find_cancel_def find_None_iff_all intro!: unique_key_append)

text \<open>The cancellation after the effect on the task has been determined.\<close>

abbreviation close_cancel :: "time_ms \<Rightarrow> cancel_state \<Rightarrow> task_state option \<Rightarrow> cancel_row \<Rightarrow> cancel_row" where
  "close_cancel now st term \<equiv> \<lambda>c. c\<lparr>tc_state := st, tc_terminal_state := term, tc_updated_ms := now,
     tc_applied_ms := if st = Applied then now else tc_applied_ms c\<rparr>"

lemma cancel_effect_safe:
  assumes inv: "consumer_inv s" "task_inv s"
    and eff: "cancel_effect now reason k (record_cancel pid h reason now k s) = (s1, st, tm, coop)"
  shows "task_safe s (set_cancel k (close_cancel now st tm) s1)" (is "task_safe s ?s2")
proof -
  let ?r = "record_cancel pid h reason now k s"
  note uniq = unique_record_cancel [OF task_invD(2) [OF inv(2)], of pid h reason now k]
  note view = task_inv_view [OF inv(2), of k, unfolded task_view_def]
  have ck: "cancel_key (close_cancel now st tm c) = cancel_key c" for c by (simp add: cancel_key_def)
  show ?thesis
  proof (cases "find_task s k")
    case None
    then show ?thesis using eff inv(1) uniq task_invD(1) [OF inv(2)] view ck
      by (intro task_safeI [where k = k]) (auto simp: cancel_effect_def task_simps task_view_def
          intro: task_flow.intros unique_cancel_set split: option.splits)
  next
    case (Some t)
    consider "terminal (tx_state t)" | "active_task t" "\<not> terminal (tx_state t)" | "tx_state t = Retry"
      by (cases "tx_state t") (auto simp: terminal_def active_task_def)
    then show ?thesis
    proof cases
      case 1
      then show ?thesis using eff inv(1) uniq task_invD(1) [OF inv(2)] view ck Some
        by (intro task_safeI [where k = k]) (auto simp: cancel_effect_def task_simps task_view_def terminal_def
            task_flow.intros intro: unique_cancel_set split: option.splits)
    next
      case 2
      let ?f = "\<lambda>t. t\<lparr>tx_state := Canceling, tx_updated_ms := now, tx_error := reason\<rparr>"
      have fk: "task_key (?f t) = task_key t" for t by (simp add: task_key_def)
      have "tasks_ok (update_where (\<lambda>t. task_key t = k) ?f (t_tasks s))"
        using task_invD(1) [OF inv(2)] fk find_task_unique [OF inv(2)] Some 2
        by (intro tasks_ok_set) (auto simp: active_task_def dest: tasks_okD(2))
      then show ?thesis using eff inv(1) uniq view ck Some 2 fk
        by (intro task_safeI [where k = k]) (auto simp: cancel_effect_def task_simps task_view_def active_task_def
            intro: task_flow.intros unique_cancel_set split: option.splits)
    next
      case 3
      have "tasks_ok (update_where (\<lambda>t. task_key t = k) (canceled_row now reason) (t_tasks s))"
        using task_invD(1) [OF inv(2)] by (intro tasks_ok_set) (simp_all add: active_task_def)
      then show ?thesis using eff inv(1) uniq view ck Some 3
        by (intro task_safeI [where k = k]) (auto simp: cancel_effect_def task_simps task_view_def active_task_def
            terminal_def intro: task_flow.intros unique_cancel_set consumer_inv_ack claim_done_ack split: option.splits)
    qed
  qed
qed

lemma cancel_body_Inr:
  assumes inv: "consumer_inv s" "task_inv s"
    and run: "cancel_body E random now gid owner token allowed s = Inr (s', c, coop)"
  shows "task_safe s s' \<and> find_cancel s' (cancel_key c) = Some c \<and> fst (cancel_key c) = gid"
proof -
  obtain d i n where cm: "claimed_message E random now ''agent.task.cancel''
      ''typed Agent task cancellation requires a trusted sender''
      ''claim does not contain an Agent task cancellation'' gid owner token s = Inr (d, i, n)"
    using run by (auto simp: cancel_body_def)
  define k where "k = (gid, ib_sender i, field_text E n ''task_id'')"
  obtain s1 st tm coop' where
    eff: "cancel_effect now (field_text E n ''reason'') k (record_cancel (cd_packet d)
        (message_hash E ''anetcxl1'' n) (field_text E n ''reason'') now k s) = (s1, st, tm, coop')"
    by (rule prod_cases4)
  have c: "find_cancel (set_cancel k (close_cancel now st tm) s1) k = Some c"
    and s': "s' = ack_where (owned_lease gid owner token) now (set_cancel k (close_cancel now st tm) s1)"
    using run by (simp_all add: cancel_body_def cm Let_def eff flip: k_def)
  from find_cancel_key [OF c] have "cancel_key c = k" "fst k = gid" by (simp_all add: k_def)
  with c cancel_effect_safe [OF inv eff] show ?thesis
    unfolding s' by (simp add: task_safe_ack task_simps)
qed

section \<open>Calls\<close>

datatype task_call =
    BeginTask ext "128 word" "128 word" time_ms string string string "string list" "string list"
  | SettleTask ext time_ms string string string string string pyval string rat
  | CancelTask ext "128 word" time_ms string string string "string list"

fun task_step :: "task_call \<Rightarrow> store \<Rightarrow> store" where
  "task_step (BeginTask E r r' now g own t allowed caps) s = fst (begin_agent_task E r r' now g own t allowed caps s)"
| "task_step (SettleTask E now g own t x st out err secs) s = fst (settle_agent_task E now g own t x st out err secs s)"
| "task_step (CancelTask E r now g own t allowed) s = fst (apply_agent_task_cancellation E r now g own t allowed s)"

lemma fst_after_commit [simp]: "fst (after_commit b q) = fst q"
  by (auto simp: after_commit_def split: prod.splits sum.splits)

lemma settle_checks_state: "settle_checks E st out err = Inr (st', e, b) \<Longrightarrow> terminal st' \<or> st' = Retry"
  by (auto simp: settle_checks_def settle_state_def Let_def split: if_splits)

lemma begin_body_Inr:
  assumes "begin_body E random id_random now gid owner token allowed policy s = Inr (s', row, f)"
  obtains d i n where "live_claim s now gid owner token = Some (d, i)" "ib_trusted i"
    "ib_kind i = ''agent.task.request''" "sender_allowed allowed (ib_sender i)"
    "begin_decide random now gid owner token (cd_packet d) (message_hash E ''anettsk1'' n)
       (gid, ib_sender i, field_text E n ''task_id'') s = Inr (s', row, f)"
  using assms
  by (auto simp: begin_body_def claimed_message_def Let_def split: option.splits prod.splits if_splits)

lemma task_step_safe:
  assumes inv: "consumer_inv s" "task_inv s"
  shows "task_safe s (task_step c s)"
proof (cases c)
  case (BeginTask E r r' now g own t allowed caps)
  have "task_safe s s'" if "begin_body E r r' now gid owner token allowed policy s = Inr (s', row, f)"
    for gid owner token policy s' row f
    using begin_body_Inr [OF that] begin_decide_safe [OF inv] by metis
  then show ?thesis using task_safe_refl [OF inv] unfolding BeginTask task_step.simps begin_agent_task_def
    by (intro checked_preserves [where P = "task_safe s"])
      (auto intro!: transaction_preserves [where P = "task_safe s"])
next
  case (SettleTask E now g own t x st out err secs)
  have "task_safe s s'" if "settle_checks E st out err = Inr (st', e, b)"
    "settle_body now ra gid owner token x' st' e b s = Inr (s', row)" for st' e b ra gid owner token x' s' row
    using settle_body_safe [OF inv settle_checks_state [OF that(1)] that(2)] .
  then show ?thesis using task_safe_refl [OF inv] unfolding SettleTask task_step.simps settle_agent_task_def
    by (intro checked_preserves [where P = "task_safe s"])
      (auto intro!: transaction_preserves [where P = "task_safe s"] simp: Let_def)
next
  case (CancelTask E r now g own t allowed)
  then show ?thesis
    using task_safe_refl [OF inv] unfolding CancelTask task_step.simps apply_agent_task_cancellation_def
    by (intro checked_preserves [where P = "task_safe s"])
      (auto intro!: transaction_preserves [where P = "task_safe s"] dest: cancel_body_Inr [OF inv])
qed

section \<open>What a successful call did\<close>

lemma after_commit_Inr: "after_commit b q = (s', Inr a) \<longleftrightarrow> (\<exists>r. q = (s', Inr r) \<and> b r = Inr a)"
  by (auto simp: after_commit_def split: prod.splits sum.splits)

definition item_key :: "task_item \<Rightarrow> task_ref" where
  "item_key item = (ti_group item, ti_sender item, ti_task item)"

lemma agent_task_item_key: "agent_task_item E t = Inr item \<Longrightarrow> item_key item = task_key t \<and> ti_state item = tx_state t"
  by (auto simp: agent_task_item_def item_key_def task_key_def)

lemma begin_agent_task_Inr:
  assumes inv: "consumer_inv s" "task_inv s"
    and run: "begin_agent_task E random id_random now g own tk allowed caps s = (s', Inr (item, f))"
  obtains gid owner token d i n row where
    "claim_args g own tk = Inr (gid, owner, token)" "live_claim s now gid owner token = Some (d, i)"
    "ib_trusted i" "sender_allowed allowed (ib_sender i)" "ib_kind i = ''agent.task.request''"
    "item_key item = (gid, ib_sender i, field_text E n ''task_id'')"
    "begin_decide random now gid owner token (cd_packet d) (message_hash E ''anettsk1'' n) (item_key item) s = Inr (s', row, f)"
    "find_task s' (item_key item) = Some row" "agent_task_item E row = Inr item"
proof -
  obtain gid owner token policy row where args: "claim_args g own tk = Inr (gid, owner, token)"
    and body: "begin_body E random id_random now gid owner token allowed policy s = Inr (s', row, f)"
    and item: "agent_task_item E row = Inr item"
    using run by (auto simp: begin_agent_task_def checked_Inr after_commit_Inr transaction_Inr)
  from body obtain d i n where b: "live_claim s now gid owner token = Some (d, i)" "ib_trusted i"
    "ib_kind i = ''agent.task.request''" "sender_allowed allowed (ib_sender i)"
    and dec: "begin_decide random now gid owner token (cd_packet d) (message_hash E ''anettsk1'' n)
       (gid, ib_sender i, field_text E n ''task_id'') s = Inr (s', row, f)"
    by (rule begin_body_Inr)
  have row: "find_task s' (gid, ib_sender i, field_text E n ''task_id'') = Some row"
    using begin_decide_safe [OF inv dec] by simp
  have "item_key item = (gid, ib_sender i, field_text E n ''task_id'')"
    using find_task_key [OF row] agent_task_item_key [OF item] by simp
  then show thesis using that [OF args b(1,2,4,3)] dec row item by simp
qed

text \<open>A decision to execute: the task may run, nobody else runs it, and the caller now holds it.\<close>

lemma acquire_execute:
  assumes "acquire random now owner token pid h k (find_task s k) s = Inr (s', row, f)"
  shows "bf_execute f" "tx_state row = Working" "tx_owner row = owner" "tx_claim_token row = token"
    "tx_execution_token row = bf_execution_token f" "bf_execution_token f = token_hex random"
    "t_claims s' = t_claims s"
  using assms by (auto simp: acquire_def Let_def task_simps split: option.splits if_splits)

text \<open>The two ways in which \<open>begin_agent_task\<close> lets the caller execute.\<close>

lemma begin_decide_execute:
  assumes inv: "consumer_inv s" "task_inv s"
    and run: "begin_decide random now gid owner token pid h k s = Inr (s', row, f)" and ex: "bf_execute f"
  obtains (acquired) "find_cancel s k = None"
      "acquire random now owner token pid h k (find_task s k) s = Inr (s', row, f)"
      "\<And>t. find_task s k = Some t \<Longrightarrow> tx_request_hash t = h \<and>
         (tx_state t = Retry \<or> (tx_state t = Working \<and> \<not> claim_active s now gid t))"
    | (running) "find_cancel s k = None" "find_task s k = Some row" "tx_request_hash row = h" "tx_state row = Working"
      "tx_owner row = owner" "tx_claim_token row = token" "s' = s" "bf_execution_token f = tx_execution_token row"
proof (cases "find_task s k")
  case None
  have "find_cancel s k = None"
  proof (rule ccontr)
    assume "find_cancel s k \<noteq> None"
    then obtain c where c: "find_cancel s k = Some c" by blast
    have "tc_state c = Requested" using task_inv_view [OF inv(2), of k] by (simp add: task_view_def None c)
    with run ex show False by (simp add: begin_defs None live_cancel [OF inv(2)] c reread_Inr)
  qed
  then show thesis using run
    by (intro acquired) (simp_all add: begin_defs None live_cancel [OF inv(2)])
next
  case (Some t)
  have h: "tx_request_hash t = h" and nt: "\<not> terminal (tx_state t)"
    using run ex by (auto simp: begin_defs Some Let_def split: if_splits)
  have nc: "tx_state t \<noteq> Canceling"
    using run ex h by (auto simp: begin_defs Some Let_def reread_Inr split: if_splits)
  with nt have st: "tx_state t = Working \<or> tx_state t = Retry" by (cases "tx_state t") simp_all
  have c: "find_cancel s k = None"
    using task_inv_view [OF inv(2), of k] st by (auto simp: task_view_def Some)
  note simps = begin_defs Some live_cancel [OF inv(2)] c h
  show thesis
  proof (cases "tx_state t = Working \<and> (tx_owner t = owner \<and> tx_claim_token t = token \<or> claim_active s now gid t)")
    case True
    then have "row = t" "s' = s" "bf_execution_token f = tx_execution_token t" "tx_owner t = owner" "tx_claim_token t = token"
      using run ex by (auto simp: simps split: if_splits)
    with True show thesis using c Some h by (intro running) simp_all
  next
    case False
    then have "acquire random now owner token pid h k (find_task s k) s = Inr (s', row, f)"
      using run st by (auto simp: simps)
    with False show thesis using c Some h st by (intro acquired) auto
  qed
qed

section \<open>Properties\<close>

text \<open>
  C22: \<open>begin_agent_task\<close> lets a worker execute only a task it holds a live claim on, from a trusted and
  allowed sender, with no pending or applied cancellation; afterwards the task runs under exactly this
  claim and the returned execution token.  While another claim on the same task is live, the running
  execution is never taken over: the caller is only told to execute when it already is that execution.
\<close>

theorem begin_agent_task_exclusive:
  assumes "consumer_inv s" and "task_inv s"
    and "begin_agent_task E random id_random now g own tk allowed caps s = (s', Inr (item, f))"
    and "bf_execute f"
  shows "\<exists>gid owner token d i t. claim_args g own tk = Inr (gid, owner, token)
     \<and> live_claim s now gid owner token = Some (d, i) \<and> ib_trusted i \<and> sender_allowed allowed (ib_sender i)
     \<and> item_key item = (gid, ib_sender i, ti_task item) \<and> \<not> stopped_view (task_view (item_key item) s)
     \<and> find_task s' (item_key item) = Some t \<and> tx_state t = Working \<and> tx_owner t = owner
     \<and> tx_claim_token t = token \<and> tx_execution_token t = bf_execution_token f
     \<and> (\<forall>t0. find_task s (item_key item) = Some t0 \<and> tx_state t0 = Working \<and> claim_active s now gid t0 \<longrightarrow> t = t0)"
  using assms(1-3)
proof (rule begin_agent_task_Inr)
  fix gid owner token d i n row
  assume a: "claim_args g own tk = Inr (gid, owner, token)" "live_claim s now gid owner token = Some (d, i)"
    "ib_trusted i" "sender_allowed allowed (ib_sender i)"
    and k: "item_key item = (gid, ib_sender i, field_text E n ''task_id'')"
    and row: "find_task s' (item_key item) = Some row"
    and dec: "begin_decide random now gid owner token (cd_packet d) (message_hash E ''anettsk1'' n) (item_key item) s = Inr (s', row, f)"
  have "tx_state row = Working \<and> tx_owner row = owner \<and> tx_claim_token row = token
     \<and> tx_execution_token row = bf_execution_token f \<and> find_cancel s (item_key item) = None
     \<and> (\<forall>t0. find_task s (item_key item) = Some t0 \<longrightarrow> tx_state t0 \<noteq> Canceled)
     \<and> (\<forall>t0. find_task s (item_key item) = Some t0 \<and> tx_state t0 = Working \<and> claim_active s now gid t0 \<longrightarrow> row = t0)"
    using assms(1,2) dec assms(4)
  proof (cases rule: begin_decide_execute)
    case acquired
    have "tx_state t0 \<noteq> Canceled \<and> \<not> (tx_state t0 = Working \<and> claim_active s now gid t0)"
      if "find_task s (item_key item) = Some t0" for t0
      using acquired(3) [OF that] by auto
    then show ?thesis using acquired(1) acquire_execute [OF acquired(2)] by blast
  qed simp
  then have "\<not> stopped_view (task_view (item_key item) s)"
    and "tx_state row = Working" "tx_owner row = owner" "tx_claim_token row = token"
      "tx_execution_token row = bf_execution_token f"
      "\<forall>t0. find_task s (item_key item) = Some t0 \<and> tx_state t0 = Working \<and> claim_active s now gid t0 \<longrightarrow> row = t0"
    by (auto simp: stopped_view_def task_view_def)
  moreover have "item_key item = (gid, ib_sender i, ti_task item)" using k by (simp add: item_key_def)
  ultimately show ?thesis using a row by blast
qed

lemma update_where_clears: "(\<And>r. hit r \<Longrightarrow> \<not> hit (f r)) \<Longrightarrow> \<not> exists_where hit (update_where hit f rs)"
  by (auto simp: in_update_where)

lemma settle_agent_task_Inr:
  assumes inv: "task_inv s"
    and run: "settle_agent_task E now g own tk x st out err secs s = (s', Inr (item, ra))"
  obtains gid owner token xtoken st' e b t where
    "claim_args g own tk = Inr (gid, owner, token)" "claim_token x = Inr xtoken"
    "settle_checks E st out err = Inr (st', e, b)"
    "find_task s (task_key t) = Some t" "active_task t" "tx_group t = gid" "tx_owner t = owner"
    "tx_claim_token t = token" "tx_execution_token t = xtoken"
    "\<exists>d\<in>set (t_claims s). owned_lease gid owner token d" "tx_state t = Canceling \<longrightarrow> st' = Canceled"
    "s' = settled_store now (now + retry_duration secs) gid owner token st' e b (task_key t) s"
    "agent_task_item E (settled_row now st' e b t) = Inr item"
proof -
  obtain gid owner token xtoken st' e b row where args: "claim_args g own tk = Inr (gid, owner, token)"
    "claim_token x = Inr xtoken" "settle_checks E st out err = Inr (st', e, b)"
    and body: "settle_body now (now + retry_duration secs) gid owner token xtoken st' e b s = Inr (s', row)"
    and item: "agent_task_item E row = Inr item"
    using run by (auto simp: settle_agent_task_def checked_Inr after_commit_Inr transaction_Inr Let_def)
  from inv body show thesis by (rule settle_body_Inr) (use that [OF args] item in blast)
qed

text \<open>
  A settlement that returns was made by the worker that holds the task: its owner, claim token and
  execution token are those of the running task and the claim is still leased; a task that is being
  canceled can only be settled as canceled.  The outcome is stored, the claim leaves the leased state
  with it, and the same settlement cannot be made a second time: it raises and changes nothing.
\<close>

theorem settle_agent_task_once:
  assumes "consumer_inv s" and "task_inv s"
    and "settle_agent_task E now g own tk x st out err secs s = (s', Inr (item, ra))"
  shows "(\<exists>gid owner token t st'. claim_args g own tk = Inr (gid, owner, token) \<and> claim_token x = Inr (tx_execution_token t)
      \<and> find_task s (item_key item) = Some t \<and> active_task t \<and> tx_owner t = owner \<and> tx_claim_token t = token
      \<and> exists_where (owned_lease gid owner token) (t_claims s)
      \<and> (tx_state t = Canceling \<longrightarrow> st' = Canceled) \<and> settle_state (lower (strip st)) = Some st'
      \<and> (\<exists>t'. find_task s' (item_key item) = Some t' \<and> tx_state t' = st' \<and> agent_task_item E t' = Inr item)
      \<and> \<not> exists_where (owned_lease gid owner token) (t_claims s'))
    \<and> (\<exists>e. settle_agent_task E' now' g own tk x st2 out2 err2 secs2 s' = (s', Inl e))"
proof (rule conjI)
  from assms(2,3) obtain gid owner token xtoken st' e b t where
    args: "claim_args g own tk = Inr (gid, owner, token)" "claim_token x = Inr xtoken"
      "settle_checks E st out err = Inr (st', e, b)"
    and t: "find_task s (task_key t) = Some t" "active_task t" "tx_group t = gid" "tx_owner t = owner"
      "tx_claim_token t = token" "tx_execution_token t = xtoken"
    and lease: "\<exists>d\<in>set (t_claims s). owned_lease gid owner token d"
    and can: "tx_state t = Canceling \<longrightarrow> st' = Canceled"
    and s': "s' = settled_store now (now + retry_duration secs) gid owner token st' e b (task_key t) s"
    and item: "agent_task_item E (settled_row now st' e b t) = Inr item"
    by (rule settle_agent_task_Inr)
  have key: "item_key item = task_key t" using agent_task_item_key [OF item] by simp
  have gone: "\<not> exists_where (owned_lease gid owner token) (t_claims s')"
    unfolding s' settled_store_simps by (rule update_where_clears) (simp add: owned_lease_def ack_row_def retry_row_def)
  show "\<exists>gid owner token t st'. claim_args g own tk = Inr (gid, owner, token) \<and> claim_token x = Inr (tx_execution_token t)
      \<and> find_task s (item_key item) = Some t \<and> active_task t \<and> tx_owner t = owner \<and> tx_claim_token t = token
      \<and> exists_where (owned_lease gid owner token) (t_claims s)
      \<and> (tx_state t = Canceling \<longrightarrow> st' = Canceled) \<and> settle_state (lower (strip st)) = Some st'
      \<and> (\<exists>t'. find_task s' (item_key item) = Some t' \<and> tx_state t' = st' \<and> agent_task_item E t' = Inr item)
      \<and> \<not> exists_where (owned_lease gid owner token) (t_claims s')"
  proof (intro exI conjI)
    show "claim_args g own tk = Inr (gid, owner, token)" by (rule args(1))
    show "claim_token x = Inr (tx_execution_token t)" using args(2) t(6) by simp
    show "find_task s (item_key item) = Some t" unfolding key by (rule t(1))
    show "settle_state (lower (strip st)) = Some st'"
      using args(3) by (auto simp: settle_checks_def Let_def split: option.splits if_splits)
    show "find_task s' (item_key item) = Some (settled_row now st' e b t)"
      by (simp add: s' key task_simps t)
  qed (use t lease can gone item in simp_all)
  have "settle_body n r gid owner token xtoken st'' e'' b'' s' = Inl (ValueError
      ''task execution is stale, unknown, or owned by another worker'')" for n r st'' e'' b''
    using gone by (auto simp: settle_body_def split: option.splits)
  then show "\<exists>e. settle_agent_task E' now' g own tk x st2 out2 err2 secs2 s' = (s', Inl e)"
    by (cases "settle_checks E' st2 out2 err2")
      (auto simp: settle_agent_task_def args Let_def transaction_def after_commit_def)
qed

text \<open>
  A request for a task that already finished is answered from the store: whoever claims the
  repeated message gets the recorded outcome and is told not to execute, the task table is unchanged,
  and the claim on the repeated message is acknowledged.
\<close>

theorem begin_replays_outcome:
  assumes "consumer_inv s" and "task_inv s"
    and "begin_agent_task E random id_random now g own tk allowed caps s = (s', Inr (item, f))"
    and "find_task s (item_key item) = Some t" and "terminal (tx_state t)"
  shows "agent_task_item E t = Inr item \<and> \<not> bf_execute f \<and> bf_duplicate f \<and> bf_claim_acked f
    \<and> t_tasks s' = t_tasks s \<and> t_cancels s' = t_cancels s
    \<and> (\<exists>gid owner token. claim_args g own tk = Inr (gid, owner, token)
         \<and> t_claims s' = update_where (owned_lease gid owner token) (ack_row now) (t_claims s))"
  using assms(1-3)
proof (rule begin_agent_task_Inr)
  fix gid owner token d i n row
  assume a: "claim_args g own tk = Inr (gid, owner, token)" "agent_task_item E row = Inr item"
    and dec: "begin_decide random now gid owner token (cd_packet d) (message_hash E ''anettsk1'' n) (item_key item) s = Inr (s', row, f)"
  have "s' = ack_where (owned_lease gid owner token) now s \<and> row = t \<and> f = flags False True True '''' False"
    using dec assms(4,5) by (simp add: begin_defs Let_def split: if_splits)
  with a show ?thesis by (simp add: ack_where_def)
qed

section \<open>Examples\<close>

definition task_ext :: ext where
  "task_ext = demo_ext\<lparr>unpackb := (\<lambda>b. if b = [1] then Inr (PDict [(''protocol'', PStr ''anet.agent.task''),
        (''version'', PInt 1), (''task_id'', PStr (replicate 32 CHR ''a'')), (''objective'', PStr ''go'')])
      else if b = [2] then Inr demo_cancel_body else Inr PNone)\<rparr>"

definition demo_token :: "char \<Rightarrow> string" where
  "demo_token c = replicate 32 c"

definition demo_message_row :: "string \<Rightarrow> string \<Rightarrow> bytes \<Rightarrow> inbox_row" where
  "demo_message_row pid kind body = demo_row\<lparr>ib_rowid := (if pid = ''p'' then 1 else if pid = ''q'' then 2 else 3),
     ib_packet := pid, ib_kind := kind, ib_body := body\<rparr>"

definition demo_claim_row :: "string \<Rightarrow> char \<Rightarrow> claim_row" where
  "demo_claim_row pid c = \<lparr>cd_group = ''g'', cd_packet = pid, cd_state = Leased, cd_owner = ''w'', cd_token = demo_token c,
     cd_lease_until_ms = 6000, cd_retry_after_ms = 0, cd_attempts = 1, cd_acked_ms = 0, cd_last_error = ''''\<rparr>"

lemma demo_token_eq: "demo_token c = demo_token d \<longleftrightarrow> c = d"
  by (simp add: demo_token_def replicate_eq_replicate)

text \<open>A worker holds the claims of a task request and of its cancellation.\<close>

definition demo_tasks :: store where
  "demo_tasks = empty_store\<lparr>t_groups := [demo_group],
     t_inbox := [demo_message_row ''p'' ''agent.task.request'' [1], demo_message_row ''q'' ''agent.task.cancel'' [2],
        demo_message_row ''r'' ''agent.task.request'' [1]],
     t_claims := [demo_claim_row ''p'' CHR ''1'', demo_claim_row ''q'' CHR ''2'', demo_claim_row ''r'' CHR ''3'']\<rparr>"

lemma demo_tasks_inv: "consumer_inv demo_tasks" "task_inv demo_tasks"
  by (simp_all add: demo_tasks_def consumer_inv_def claims_ok_def task_inv_def tasks_ok_def empty_store_def
      unique_key_def demo_claim_row_def claim_key_def demo_token_def)

abbreviation demo_begin :: "128 word \<Rightarrow> char \<Rightarrow> store \<Rightarrow> (store, task_item \<times> begin_flags) outcome" where
  "demo_begin x c \<equiv> begin_agent_task task_ext x 0 1000 ''g'' ''w'' (demo_token c) [''*''] []"

lemma demo_args:
  "claim_args ''g'' ''w'' (demo_token CHR ''1'') = Inr (''g'', ''w'', demo_token CHR ''1'')"
  "claim_args ''g'' ''w'' (demo_token CHR ''2'') = Inr (''g'', ''w'', demo_token CHR ''2'')"
  "claim_args ''g'' ''w'' (demo_token CHR ''3'') = Inr (''g'', ''w'', demo_token CHR ''3'')"
  by code_simp+

definition demo_request :: pydict where
  "demo_request = [(''protocol'', PStr ''anet.agent.task''), (''version'', PInt 1),
     (''task_id'', PStr (demo_token CHR ''a'')), (''objective'', PStr ''go''), (''input'', PNone),
     (''required_capabilities'', PList []), (''context'', PDict [])]"

lemma demo_unpack:
  "unpack task_ext [1] = Inr (PDict [(''protocol'', PStr ''anet.agent.task''),
        (''version'', PInt 1), (''task_id'', PStr (replicate 32 CHR ''a'')), (''objective'', PStr ''go'')])"
  "unpack task_ext [2] = Inr demo_cancel_body"
  by (simp_all add: task_ext_def demo_ext_def unpack_def MAX_WIRE_BYTES_def)

lemma demo_valid_request:
  "validate_task_message task_ext 0 ''agent.task.request'' (PDict [(''protocol'', PStr ''anet.agent.task''),
        (''version'', PInt 1), (''task_id'', PStr (replicate 32 CHR ''a'')), (''objective'', PStr ''go'')]) = Inr demo_request"
  by code_simp

lemma demo_valid_cancel:
  "validate_task_message task_ext 0 ''agent.task.cancel'' demo_cancel_body = Inr demo_cancel_normal"
  by code_simp

lemma demo_fields:
  "field_text task_ext demo_request ''task_id'' = demo_token CHR ''a''"
  "field_text task_ext demo_cancel_normal ''task_id'' = demo_token CHR ''a''"
  "field_text task_ext demo_cancel_normal ''reason'' = ''stop''"
  "missing_task_capabilities task_ext [] [] = Inr []" "normalize_capability_policy task_ext [] = Inr []"
  "dict_get demo_request ''required_capabilities'' PNone = PList []" "sender_allowed [''*''] x"
  by (code_simp, code_simp, code_simp, code_simp, code_simp, code_simp, simp add: sender_allowed_def sender_policy_def,
      code_simp)

definition demo_key :: task_ref where
  "demo_key = (''g'', ''a'', demo_token CHR ''a'')"

definition demo_task :: task_row where
  "demo_task = new_task demo_key ''p'' (message_hash task_ext ''anettsk1'' demo_request) Working ''w''
     (demo_token CHR ''1'') (token_hex 7) 1 1000 1000 0 ''''"

lemma demo_live:
  "live_claim (demo_tasks\<lparr>t_tasks := ts\<rparr>) 1000 ''g'' ''w'' (demo_token CHR ''1'') =
     Some (demo_claim_row ''p'' CHR ''1'', demo_message_row ''p'' ''agent.task.request'' [1])"
  "live_claim (demo_tasks\<lparr>t_tasks := ts\<rparr>) 1000 ''g'' ''w'' (demo_token CHR ''2'') =
     Some (demo_claim_row ''q'' CHR ''2'', demo_message_row ''q'' ''agent.task.cancel'' [2])"
  "live_claim (demo_tasks\<lparr>t_tasks := ts\<rparr>) 1000 ''g'' ''w'' (demo_token CHR ''3'') =
     Some (demo_claim_row ''r'' CHR ''3'', demo_message_row ''r'' ''agent.task.request'' [1])"
  by (simp_all add: live_claim_def demo_tasks_def demo_claim_row_def owned_lease_def in_inbox_def
      demo_message_row_def demo_token_eq demo_row_def)

lemma demo_claimed:
  "claimed_message task_ext 0 1000 ''agent.task.request'' u v ''g'' ''w'' (demo_token CHR ''1'') (demo_tasks\<lparr>t_tasks := ts\<rparr>) =
     Inr (demo_claim_row ''p'' CHR ''1'', demo_message_row ''p'' ''agent.task.request'' [1], demo_request)"
  "claimed_message task_ext 0 1000 ''agent.task.cancel'' u v ''g'' ''w'' (demo_token CHR ''2'') (demo_tasks\<lparr>t_tasks := ts\<rparr>) =
     Inr (demo_claim_row ''q'' CHR ''2'', demo_message_row ''q'' ''agent.task.cancel'' [2], demo_cancel_normal)"
  "claimed_message task_ext 0 1000 ''agent.task.request'' u v ''g'' ''w'' (demo_token CHR ''3'') (demo_tasks\<lparr>t_tasks := ts\<rparr>) =
     Inr (demo_claim_row ''r'' CHR ''3'', demo_message_row ''r'' ''agent.task.request'' [1], demo_request)"
  by (simp_all only: claimed_message_def demo_live option.case prod.case demo_message_row_def demo_row_def
      inbox_row.simps if_False if_True not_True_eq_False simp_thms demo_unpack and_then_simps
      demo_valid_request demo_valid_cancel)

lemma demo_begin_new:
  "\<exists>item. begin_agent_task task_ext 7 0 1000 ''g'' ''w'' (demo_token CHR ''1'') [''*''] [] demo_tasks
      = (demo_tasks\<lparr>t_tasks := [demo_task]\<rparr>, Inr (item, flags True False False (token_hex 7) False))"
proof -
  have ts: "demo_tasks = demo_tasks\<lparr>t_tasks := []\<rparr>" by (simp add: demo_tasks_def empty_store_def)
  have f: "find_task demo_tasks k = None" "find_cancel demo_tasks k = None" for k
    by (simp_all add: demo_tasks_def empty_store_def find_task_def find_cancel_def)
  have k: "(''g'', ib_sender (demo_message_row ''p'' ''agent.task.request'' [1]), demo_token CHR ''a'') = demo_key"
    by (simp add: demo_message_row_def demo_row_def demo_key_def)
  have "begin_body task_ext 7 0 1000 ''g'' ''w'' (demo_token CHR ''1'') [''*''] [] demo_tasks
      = begin_decide 7 1000 ''g'' ''w'' (demo_token CHR ''1'') ''p'' (message_hash task_ext ''anettsk1'' demo_request)
          demo_key demo_tasks"
    unfolding begin_body_def using demo_claimed(1) [where ts = "[]", folded ts]
    by (simp add: Let_def demo_fields k demo_claim_row_def)
  also have "\<dots> = acquire 7 1000 ''w'' (demo_token CHR ''1'') ''p'' (message_hash task_ext ''anettsk1'' demo_request)
          demo_key None demo_tasks"
    using live_cancel [OF demo_tasks_inv(2)] by (simp add: begin_defs Let_def f)
  also have "\<dots> = Inr (demo_tasks\<lparr>t_tasks := [demo_task]\<rparr>, demo_task, flags True False False (token_hex 7) False)"
    by (simp add: acquire_def Let_def demo_task_def demo_tasks_def empty_store_def find_task_def)
  finally show ?thesis
    by (simp add: begin_agent_task_def demo_args demo_fields transaction_def after_commit_def agent_task_item_def
        demo_task_def new_task_def)
qed

theorem begin_agent_task_exclusive_witness:
  "\<exists>s' item. begin_agent_task task_ext 7 0 1000 ''g'' ''w'' (demo_token CHR ''1'') [''*''] [] demo_tasks
        = (s', Inr (item, flags True False False (token_hex 7) False))
     \<and> (\<exists>t. find_task s' (item_key item) = Some t \<and> tx_execution_token t = token_hex 7)"
proof -
  obtain item where b: "begin_agent_task task_ext 7 0 1000 ''g'' ''w'' (demo_token CHR ''1'') [''*''] [] demo_tasks
      = (demo_tasks\<lparr>t_tasks := [demo_task]\<rparr>, Inr (item, flags True False False (token_hex 7) False))"
    using demo_begin_new by blast
  from begin_agent_task_exclusive [OF demo_tasks_inv b] b show ?thesis by auto
qed

definition demo_done :: task_row where
  "demo_done = settled_row 2000 Completed '''' [] demo_task"

lemma demo_running_inv:
  "consumer_inv (demo_tasks\<lparr>t_tasks := [demo_task]\<rparr>)" "task_inv (demo_tasks\<lparr>t_tasks := [demo_task]\<rparr>)"
  "task_inv (demo_tasks\<lparr>t_tasks := [demo_done]\<rparr>)" "consumer_inv (demo_tasks\<lparr>t_tasks := [demo_done]\<rparr>)"
  using demo_tasks_inv
  by (simp_all add: consumer_inv_def task_inv_def tasks_ok_def demo_task_def demo_done_def active_task_def
      task_view_def find_task_def find_cancel_def demo_tasks_def empty_store_def unique_key_def)

lemma demo_task_simps:
  "tx_group demo_task = ''g''" "tx_owner demo_task = ''w''" "tx_claim_token demo_task = demo_token CHR ''1''"
  "tx_execution_token demo_task = token_hex 7" "tx_state demo_task = Working" "task_key demo_task = demo_key"
  by (simp_all add: demo_task_def) (simp_all add: new_task_def demo_key_def)

lemma demo_settle:
  "\<exists>s' item. settle_agent_task task_ext 2000 ''g'' ''w'' (demo_token CHR ''1'') (token_hex 7) ''completed'' PNone '''' 0
      (demo_tasks\<lparr>t_tasks := [demo_task]\<rparr>) = (s', Inr (item, None))"
proof -
  let ?s = "demo_tasks\<lparr>t_tasks := [demo_task]\<rparr>"
  have "lower (strip ''completed'') = ''completed''" by code_simp
  then have c: "settle_checks task_ext ''completed'' PNone '''' = Inr (Completed, '''', [])"
    by (simp add: settle_checks_def Let_def settle_state_def task_ext_def demo_ext_def pack_def)
  have u: "unpack task_ext [] = Inr PNone" by (simp add: task_ext_def demo_ext_def unpack_def MAX_WIRE_BYTES_def)
  have l: "exists_where (owned_lease ''g'' ''w'' (demo_token CHR ''1'')) (t_claims ?s)"
    by (simp add: demo_tasks_def demo_claim_row_def owned_lease_def)
  have t: "find_task ?s demo_key = Some demo_task" by (simp add: find_task_def demo_task_simps)
  have "settle_body 2000 r ''g'' ''w'' (demo_token CHR ''1'') (token_hex 7) Completed '''' [] ?s
      = Inr (settled_store 2000 r ''g'' ''w'' (demo_token CHR ''1'') Completed '''' [] demo_key ?s, demo_done)" for r
    using l by (simp add: settle_body_def demo_task_simps active_task_def Let_def task_simps t demo_done_def del: exists_where_iff)
  moreover have "tx_output demo_done = Some []" by (simp add: demo_done_def settled_row_def)
  ultimately show ?thesis
    by (simp add: settle_agent_task_def demo_args claim_token_hex token_hex_wf c Let_def transaction_def
        agent_task_item_def u after_commit_def)
qed

theorem settle_agent_task_once_witness:
  "\<exists>s' item e. settle_agent_task task_ext 2000 ''g'' ''w'' (demo_token CHR ''1'') (token_hex 7) ''completed'' PNone '''' 0
      (demo_tasks\<lparr>t_tasks := [demo_task]\<rparr>) = (s', Inr (item, None))
    \<and> settle_agent_task task_ext 2001 ''g'' ''w'' (demo_token CHR ''1'') (token_hex 7) ''completed'' PNone '''' 0 s' = (s', Inl e)"
proof -
  obtain s' item where r: "settle_agent_task task_ext 2000 ''g'' ''w'' (demo_token CHR ''1'') (token_hex 7) ''completed''
     PNone '''' 0 (demo_tasks\<lparr>t_tasks := [demo_task]\<rparr>) = (s', Inr (item, None))" using demo_settle by blast
  from settle_agent_task_once [OF demo_running_inv(1,2) r] r show ?thesis by blast
qed

theorem begin_replays_outcome_witness:
  "\<exists>s' item f. begin_agent_task task_ext 9 0 1000 ''g'' ''w'' (demo_token CHR ''3'') [''*''] [] (demo_tasks\<lparr>t_tasks := [demo_done]\<rparr>)
      = (s', Inr (item, f)) \<and> \<not> bf_execute f \<and> t_tasks s' = [demo_done]"
proof -
  let ?s = "demo_tasks\<lparr>t_tasks := [demo_done]\<rparr>"
  have u: "unpack task_ext [] = Inr PNone" by (simp add: task_ext_def demo_ext_def unpack_def MAX_WIRE_BYTES_def)
  have k: "(''g'', ib_sender (demo_message_row ''r'' ''agent.task.request'' [1]), demo_token CHR ''a'') = demo_key"
    by (simp add: demo_message_row_def demo_row_def demo_key_def)
  have d: "task_key demo_done = demo_key" "tx_state demo_done = Completed"
    "tx_request_hash demo_done = message_hash task_ext ''anettsk1'' demo_request" "tx_output demo_done = Some []"
    by (simp_all add: demo_done_def demo_task_def settled_row_def new_task_def task_key_def demo_key_def)
  have t: "find_task ?s demo_key = Some demo_done" by (simp add: find_task_def d)
  have "begin_body task_ext 9 0 1000 ''g'' ''w'' (demo_token CHR ''3'') [''*''] [] ?s
      = begin_decide 9 1000 ''g'' ''w'' (demo_token CHR ''3'') ''r'' (message_hash task_ext ''anettsk1'' demo_request) demo_key ?s"
    unfolding begin_body_def demo_claimed(3) by (simp add: Let_def demo_fields k demo_claim_row_def)
  also have "\<dots> = Inr (ack_where (owned_lease ''g'' ''w'' (demo_token CHR ''3'')) 1000 ?s, demo_done, flags False True True '''' False)"
    by (simp add: begin_defs Let_def t d)
  finally obtain s' item f where b: "begin_agent_task task_ext 9 0 1000 ''g'' ''w'' (demo_token CHR ''3'') [''*''] [] ?s = (s', Inr (item, f))"
    and item: "agent_task_item task_ext demo_done = Inr item"
    by (simp add: begin_agent_task_def demo_args demo_fields transaction_def after_commit_def agent_task_item_def d u)
  have "find_task ?s (item_key item) = Some demo_done" using agent_task_item_key [OF item] t by (simp add: d)
  from begin_replays_outcome [OF demo_running_inv(4,3) b this] b show ?thesis by (simp add: d)
qed

end
