(* ===== verification/Store_Paths.thy ===== *)
theory Store_Paths
  imports Store_State
begin

text \<open>
  The path metrics and the route state of \<open>store.py\<close>: one row per peer and path with the counters of
  \<open>record_path_result\<close>, one row per peer with the selected path.  Round trip times are exact rationals.
\<close>

section \<open>Operations\<close>

definition path_metric :: "string \<Rightarrow> string \<Rightarrow> store \<Rightarrow> path_metric_row option" where
  "path_metric peer path s = find (\<lambda>m. metric_key m = (peer, path)) (t_path_metrics s)"

definition path_metrics :: "string \<Rightarrow> store \<Rightarrow> path_metric_row list" where
  "path_metrics peer s =
     sort_key metric_key (filter (\<lambda>m. peer \<noteq> '''' \<longrightarrow> pm_peer m = peer) (t_path_metrics s))"

definition ewma :: "bool \<Rightarrow> rat \<Rightarrow> rat \<Rightarrow> rat" where
  "ewma success latency previous =
     (if success then (if previous \<le> 0 then latency else 1/4 * latency + 3/4 * previous) else previous)"

definition first_metric :: "time_ms \<Rightarrow> string \<Rightarrow> string \<Rightarrow> bool \<Rightarrow> rat \<Rightarrow> string \<Rightarrow> path_metric_row" where
  "first_metric current peer path success rtt err =
     \<lparr>pm_peer = peer, pm_path = path, pm_attempts = 1,
      pm_successes = (if success then 1 else 0), pm_failures = (if success then 0 else 1),
      pm_consecutive_successes = (if success then 1 else 0),
      pm_consecutive_failures = (if success then 0 else 1), pm_ewma_rtt_ms = rtt,
      pm_last_attempt_ms = current, pm_last_ok_ms = (if success then current else 0),
      pm_last_failure_ms = (if success then 0 else current),
      pm_last_error = (if success then '''' else take 1000 err)\<rparr>"

text \<open>\<open>ON CONFLICT DO UPDATE\<close>: \<open>x\<close> is the row the statement tried to insert.\<close>

definition merge_metric :: "path_metric_row \<Rightarrow> path_metric_row \<Rightarrow> path_metric_row" where
  "merge_metric x m = m\<lparr>
     pm_attempts := pm_attempts m + 1,
     pm_successes := pm_successes m + pm_successes x,
     pm_failures := pm_failures m + pm_failures x,
     pm_consecutive_successes := (if pm_successes x = 1 then pm_consecutive_successes m + 1 else 0),
     pm_consecutive_failures := (if pm_failures x = 1 then pm_consecutive_failures m + 1 else 0),
     pm_ewma_rtt_ms := pm_ewma_rtt_ms x,
     pm_last_attempt_ms := pm_last_attempt_ms x,
     pm_last_ok_ms := (if pm_successes x = 1 then pm_last_ok_ms x else pm_last_ok_ms m),
     pm_last_failure_ms := (if pm_failures x = 1 then pm_last_failure_ms x else pm_last_failure_ms m),
     pm_last_error := pm_last_error x\<rparr>"

definition record_path_result ::
    "time_ms \<Rightarrow> string \<Rightarrow> string \<Rightarrow> bool \<Rightarrow> rat \<Rightarrow> string \<Rightarrow> store \<Rightarrow> store" where
  "record_path_result current peer path success latency_arg err s =
     (let latency = max 0 latency_arg;
          previous = (case path_metric peer path s of None \<Rightarrow> 0 | Some m \<Rightarrow> pm_ewma_rtt_ms m);
          new = first_metric current peer path success (ewma success latency previous) err
      in s\<lparr>t_path_metrics := upsert metric_key new (merge_metric new) (t_path_metrics s)\<rparr>)"

definition route :: "string \<Rightarrow> store \<Rightarrow> route_row option" where
  "route peer s = find (\<lambda>r. rt_peer r = peer) (t_routes s)"

definition routes :: "store \<Rightarrow> route_row list" where
  "routes s = sort_key rt_peer (t_routes s)"

text \<open>The result is the row of the peer after the statement.\<close>

definition set_route :: "time_ms \<Rightarrow> string \<Rightarrow> string \<Rightarrow> string \<Rightarrow> store \<Rightarrow> store \<times> route_row option" where
  "set_route current peer selected reason s =
     (let s' = (if (case route peer s of None \<Rightarrow> False | Some r \<Rightarrow> rt_selected_path r = selected)
         then s\<lparr>t_routes := update_where (\<lambda>r. rt_peer r = peer)
                (\<lambda>r. r\<lparr>rt_reason := take 500 reason\<rparr>) (t_routes s)\<rparr>
         else s\<lparr>t_routes := upsert rt_peer
                \<lparr>rt_peer = peer, rt_selected_path = selected, rt_switched_ms = current, rt_reason = take 500 reason\<rparr>
                (\<lambda>r. r\<lparr>rt_selected_path := selected, rt_switched_ms := current, rt_reason := take 500 reason\<rparr>)
                (t_routes s)\<rparr>)
      in (s', route peer s'))"

section \<open>Invariant\<close>

text \<open>
  Keys are unique; the counters of a path add up, a run of successes is part of the successes and
  excludes a run of failures, and the smoothed time is not negative.
\<close>

definition metric_ok :: "path_metric_row \<Rightarrow> bool" where
  "metric_ok m \<longleftrightarrow> pm_attempts m = pm_successes m + pm_failures m \<and> 1 \<le> pm_attempts m
     \<and> 0 \<le> pm_consecutive_successes m \<and> pm_consecutive_successes m \<le> pm_successes m
     \<and> 0 \<le> pm_consecutive_failures m \<and> pm_consecutive_failures m \<le> pm_failures m
     \<and> (pm_consecutive_successes m = 0) \<noteq> (pm_consecutive_failures m = 0) \<and> 0 \<le> pm_ewma_rtt_ms m"

definition path_inv :: "store \<Rightarrow> bool" where
  "path_inv s \<longleftrightarrow> unique_key metric_key (t_path_metrics s) \<and> unique_key rt_peer (t_routes s)
     \<and> (\<forall>m\<in>set (t_path_metrics s). metric_ok m)"

lemma path_inv_empty: "path_inv empty_store"
  by (simp add: path_inv_def empty_store_def)

lemma path_inv_frame:
  "t_path_metrics s' = t_path_metrics s \<Longrightarrow> t_routes s' = t_routes s \<Longrightarrow> path_inv s' = path_inv s"
  by (simp add: path_inv_def)

lemma first_metric_key [simp]: "metric_key (first_metric now peer path ok rtt err) = (peer, path)"
  by (simp add: first_metric_def metric_key_def)

lemma merge_metric_key [simp]: "metric_key (merge_metric x m) = metric_key m"
  by (simp add: merge_metric_def metric_key_def)

lemma ewma_nonneg: "0 \<le> latency \<Longrightarrow> 0 \<le> previous \<Longrightarrow> 0 \<le> ewma ok latency previous"
  by (simp add: ewma_def)

lemma metric_ok_first: "0 \<le> rtt \<Longrightarrow> metric_ok (first_metric now peer path ok rtt err)"
  by (simp add: metric_ok_def first_metric_def)

lemma metric_ok_merge:
  "metric_ok m \<Longrightarrow> 0 \<le> rtt \<Longrightarrow> metric_ok (merge_metric (first_metric now peer path ok rtt err) m)"
  by (auto simp: metric_ok_def first_metric_def merge_metric_def)

lemma path_inv_record [keep_inv]:
  assumes "path_inv s" shows "path_inv (record_path_result now peer path ok lat err s)"
proof -
  let ?prev = "case path_metric peer path s of None \<Rightarrow> 0 | Some m \<Rightarrow> pm_ewma_rtt_ms m"
  have "0 \<le> ?prev"
    using assms by (auto simp: path_metric_def path_inv_def metric_ok_def split: option.splits dest!: find_SomeD)
  then have rtt: "0 \<le> ewma ok (max 0 lat) ?prev" by (intro ewma_nonneg) simp_all
  have "\<forall>m\<in>set (t_path_metrics (record_path_result now peer path ok lat err s)). metric_ok m"
    using assms rtt unfolding record_path_result_def Let_def path_inv_def
    by (simp del: split_paired_All) (intro ball_upsert, auto intro: metric_ok_first metric_ok_merge)
  then show ?thesis using assms by (auto simp: path_inv_def record_path_result_def Let_def)
qed

lemma path_inv_route [keep_inv]: "path_inv s \<Longrightarrow> path_inv (fst (set_route now peer sel reason s))"
  by (auto simp: path_inv_def set_route_def Let_def)

lemma route_set_route:
  "route p (fst (set_route now peer sel reason s)) =
     (if p = peer
      then Some (case route peer s of
          Some r \<Rightarrow> if rt_selected_path r = sel then r\<lparr>rt_reason := take 500 reason\<rparr>
            else r\<lparr>rt_selected_path := sel, rt_switched_ms := now, rt_reason := take 500 reason\<rparr>
        | None \<Rightarrow> \<lparr>rt_peer = peer, rt_selected_path = sel, rt_switched_ms = now, rt_reason = take 500 reason\<rparr>)
      else route p s)"
proof -
  have upd: "find (\<lambda>r. rt_peer r = k) (update_where (\<lambda>r. rt_peer r = peer) f (t_routes s)) =
     (if k = peer then map_option f (route peer s) else route k s)" if "\<And>r. rt_peer (f r) = rt_peer r" for f k
    using find_update_key [where key = rt_peer and P = "\<lambda>_. True" and f = f, OF that] by (simp add: route_def)
  have ex: "exists_where (\<lambda>r. rt_peer r = peer) (t_routes s) \<longleftrightarrow> route peer s \<noteq> None"
    by (auto simp: route_def find_None_iff_all)
  show ?thesis
    by (cases "route peer s")
      (auto simp: set_route_def Let_def route_def upd [unfolded route_def] upsert_def ex [unfolded route_def] find_append
        simp del: exists_where_iff split: option.splits)
qed

section \<open>Calls\<close>

datatype path_call =
    RecordPath time_ms string string bool rat string
  | SetRoute time_ms string string string

fun path_step :: "path_call \<Rightarrow> store \<Rightarrow> store" where
  "path_step (RecordPath now peer path ok lat err) s = record_path_result now peer path ok lat err s"
| "path_step (SetRoute now peer sel reason) s = fst (set_route now peer sel reason s)"

lemma path_inv_step: "path_inv s \<Longrightarrow> path_inv (path_step c s)"
  by (cases c) (auto intro: keep_inv)

definition only_paths :: "store \<Rightarrow> store \<Rightarrow> bool" where
  "only_paths s t \<longleftrightarrow> t = s\<lparr>t_path_metrics := t_path_metrics t, t_routes := t_routes t\<rparr>"

lemma path_step_frame: "only_paths s (path_step c s)"
  by (cases c) (simp_all add: only_paths_def record_path_result_def set_route_def Let_def)

section \<open>The metric of a path is a function of its history\<close>

text \<open>One recorded result: its time, whether it succeeded, the latency and the error text.\<close>

type_synonym path_result = "time_ms \<times> bool \<times> rat \<times> string"

text \<open>
  The reference: counts over the whole history, the length of its last run of equal outcomes, the
  exponentially smoothed latency of the successes, and the time of the last success and failure.
\<close>

definition run_length :: "bool \<Rightarrow> path_result list \<Rightarrow> int" where
  "run_length ok h = int (length (takeWhile (\<lambda>(t, b, l, e). b = ok) (rev h)))"

definition outcomes :: "bool \<Rightarrow> path_result list \<Rightarrow> path_result list" where
  "outcomes ok h = filter (\<lambda>(t, b, l, e). b = ok) h"

definition smoothed :: "path_result list \<Rightarrow> rat" where
  "smoothed h = fold (\<lambda>(t, b, l, e) r. ewma b (max 0 l) r) h 0"

definition last_time :: "path_result list \<Rightarrow> time_ms" where
  "last_time h = (if h = [] then 0 else fst (last h))"

definition metric_of_history :: "string \<Rightarrow> string \<Rightarrow> path_result list \<Rightarrow> path_metric_row option" where
  "metric_of_history peer path h = (if h = [] then None else Some
     \<lparr>pm_peer = peer, pm_path = path, pm_attempts = int (length h),
      pm_successes = int (length (outcomes True h)), pm_failures = int (length (outcomes False h)),
      pm_consecutive_successes = run_length True h, pm_consecutive_failures = run_length False h,
      pm_ewma_rtt_ms = smoothed h, pm_last_attempt_ms = last_time h,
      pm_last_ok_ms = last_time (outcomes True h), pm_last_failure_ms = last_time (outcomes False h),
      pm_last_error = (case last h of (t, b, l, e) \<Rightarrow> if b then '''' else take 1000 e)\<rparr>)"

fun results_for :: "string \<Rightarrow> string \<Rightarrow> path_call list \<Rightarrow> path_result list" where
  "results_for peer path [] = []"
| "results_for peer path (RecordPath t p q ok l e # cs) =
     (if p = peer \<and> q = path then (t, ok, l, e) # results_for peer path cs else results_for peer path cs)"
| "results_for peer path (SetRoute t p sel r # cs) = results_for peer path cs"

lemma path_metric_record:
  "path_metric p q (record_path_result now peer path ok lat err s) =
     (if p = peer \<and> q = path
      then Some (case path_metric peer path s of
           None \<Rightarrow> first_metric now peer path ok (ewma ok (max 0 lat) 0) err
         | Some m \<Rightarrow> merge_metric (first_metric now peer path ok (ewma ok (max 0 lat) (pm_ewma_rtt_ms m)) err) m)
      else path_metric p q s)"
proof -
  have upd: "find (\<lambda>m. metric_key m = (p, q)) (update_where (\<lambda>m. metric_key m = (peer, path)) (merge_metric x) (t_path_metrics s)) =
     (if p = peer \<and> q = path then map_option (merge_metric x) (path_metric peer path s) else path_metric p q s)" for x
    using find_update_key [where key = metric_key and P = "\<lambda>_. True" and f = "merge_metric x" and k = "(peer, path)"
        and k' = "(p, q)" and rs = "t_path_metrics s"] by (simp add: path_metric_def)
  have ex: "exists_where (\<lambda>m. metric_key m = (peer, path)) (t_path_metrics s) \<longleftrightarrow> path_metric peer path s \<noteq> None"
    by (auto simp: path_metric_def find_None_iff_all)
  show ?thesis
    by (cases "path_metric peer path s")
      (auto simp: record_path_result_def Let_def path_metric_def upd [unfolded path_metric_def] upsert_def
        ex [unfolded path_metric_def] find_append simp del: exists_where_iff split: option.splits)
qed

lemma run_length_snoc: "run_length ok (h @ [(t, b, l, e)]) = (if b = ok then run_length ok h + 1 else 0)"
  by (simp add: run_length_def)

lemma outcomes_snoc: "outcomes ok (h @ [(t, b, l, e)]) = (if b = ok then outcomes ok h @ [(t, b, l, e)] else outcomes ok h)"
  by (simp add: outcomes_def)

lemma smoothed_snoc: "smoothed (h @ [(t, b, l, e)]) = ewma b (max 0 l) (smoothed h)"
  by (simp add: smoothed_def)

lemma last_time_snoc [simp]: "last_time (h @ [(t, b, l, e)]) = t" "last_time [] = 0"
  by (simp_all add: last_time_def)

lemmas history_simps = run_length_snoc outcomes_snoc smoothed_snoc metric_of_history_def

lemma results_for_append: "results_for p q (cs @ ds) = results_for p q cs @ results_for p q ds"
  by (induction p q cs rule: results_for.induct) auto

lemma path_metric_set_route [simp]: "path_metric p q (fst (set_route now peer sel reason s)) = path_metric p q s"
  by (simp add: path_metric_def set_route_def Let_def)

text \<open>
  C23: the metric row of a path, after any sequence of results for any paths and of route changes, is
  the reference value computed from the results of that path alone: the attempt, success and failure
  counts, the current runs of successes and failures on which routing decides, and the smoothed round
  trip time.
\<close>

theorem path_metric_history:
  assumes "path_metric p q s = None"
  shows "path_metric p q (fold path_step cs s) = metric_of_history p q (results_for p q cs)"
proof (induction cs rule: rev_induct)
  case Nil
  then show ?case using assms by (simp add: metric_of_history_def)
next
  case (snoc c cs)
  show ?case
  proof (cases c)
    case (RecordPath t peer path ok l e)
    show ?thesis
    proof (cases "p = peer \<and> q = path")
      case True
      have "metric_of_history p q (h @ [(t, ok, l, e)]) = Some (case metric_of_history p q h of
           None \<Rightarrow> first_metric t p q ok (ewma ok (max 0 l) 0) e
         | Some m \<Rightarrow> merge_metric (first_metric t p q ok (ewma ok (max 0 l) (pm_ewma_rtt_ms m)) e) m)" for h
        by (cases "h = []"; cases ok)
          (simp_all add: history_simps first_metric_def merge_metric_def,
           simp_all add: run_length_def outcomes_def smoothed_def last_time_def)
      moreover have "peer = p" "path = q" using True by simp_all
      ultimately show ?thesis using snoc.IH by (simp add: RecordPath path_metric_record results_for_append)
    next
      case False
      then show ?thesis using snoc.IH by (auto simp: RecordPath path_metric_record results_for_append)
    qed
  next
    case (SetRoute t peer sel r)
    then show ?thesis using snoc.IH by (simp add: results_for_append)
  qed
qed

theorem path_metric_history_witness:
  "\<exists>m. path_metric ''a'' ''direct'' (fold path_step [RecordPath 1 ''a'' ''direct'' True 8 '''',
      RecordPath 2 ''a'' ''direct'' False 0 ''x'', RecordPath 3 ''b'' ''direct'' True 4 '''',
      RecordPath 4 ''a'' ''direct'' False 0 ''y''] empty_store) = Some m
    \<and> pm_attempts m = 3 \<and> pm_consecutive_failures m = 2 \<and> pm_ewma_rtt_ms m = 8"
proof -
  have "path_metric ''a'' ''direct'' empty_store = None" by (simp add: path_metric_def empty_store_def)
  from path_metric_history [OF this] show ?thesis
    by (simp add: metric_of_history_def run_length_def smoothed_def ewma_def del: fold.simps) (simp add: ewma_def)
qed

end
