(* ===== verification/Store_Admin.thy ===== *)
theory Store_Admin
  imports Store_Tasks Store_Paths
begin

text \<open>
  The two maintenance operations of \<open>store.py\<close> that touch most tables: \<open>purge\<close>, which deletes what has
  expired and what hangs off it, and \<open>revoke_peer\<close>, which stops all future work for a peer.  The
  truncation of the write-ahead log after an erase is file I/O.
\<close>

section \<open>Purging\<close>

record purge_counts =
  pu_packets :: nat
  pu_deliveries :: nat
  pu_delivery_paths :: nat
  pu_receipts :: nat
  pu_rejections :: nat
  pu_inbox :: nat
  pu_claims :: nat
  pu_local_prekeys :: nat
  pu_peer_prekeys :: nat

definition transient_cutoff :: "time_ms \<Rightarrow> int \<Rightarrow> time_ms" where
  "transient_cutoff current retention = current - max 60000 retention"

definition local_prekey_cutoff :: "time_ms \<Rightarrow> time_ms" where
  "local_prekey_cutoff current = current - MAX_TTL_SECONDS * 1000 - MAX_CLOCK_SKEW_MS"

definition has_packet_row :: "packet_row list \<Rightarrow> string \<Rightarrow> bool" where
  "has_packet_row ps pid = exists_where (\<lambda>p. pk_id p = pid) ps"

definition stale_transient :: "time_ms \<Rightarrow> int \<Rightarrow> inbox_row \<Rightarrow> bool" where
  "stale_transient current retention i = (\<not> ib_visible i \<and> ib_received_ms i \<le> transient_cutoff current retention)"

definition expired_local :: "time_ms \<Rightarrow> local_prekey_row \<Rightarrow> bool" where
  "expired_local current r = (lk_state r = LAvailable \<and> lk_expires_ms r \<le> local_prekey_cutoff current
     \<and> lk_private r \<noteq> None)"

definition expired_peer_key :: "time_ms \<Rightarrow> peer_prekey_row \<Rightarrow> bool" where
  "expired_peer_key current p = (pp_state p = PAvailable \<and> pp_expires_ms p \<le> current)"

definition purge :: "time_ms \<Rightarrow> int \<Rightarrow> store \<Rightarrow> store \<times> purge_counts" where
  "purge current retention s =
     (let packets = delete_where (\<lambda>p. pk_expires_ms p \<le> current) (t_packets s);
          orphan = (\<lambda>pid. \<not> has_packet_row packets pid);
          inbox = delete_where (stale_transient current retention) (t_inbox s);
          unheld = (\<lambda>d. \<not> exists_where (\<lambda>i. ib_packet i = cd_packet d) inbox)
      in (s\<lparr>t_packets := packets,
            t_deliveries := delete_where (\<lambda>d. orphan (dl_packet d)) (t_deliveries s),
            t_delivery_paths := delete_where (\<lambda>d. orphan (dp_packet d)) (t_delivery_paths s),
            t_receipts := delete_where (\<lambda>r. orphan (rc_packet r)) (t_receipts s),
            t_rejections := delete_where (\<lambda>r. orphan (rj_packet r)) (t_rejections s),
            t_inbox := inbox,
            t_claims := delete_where unheld (t_claims s),
            t_local_prekeys := update_where (expired_local current)
              (\<lambda>r. r\<lparr>lk_private := None, lk_state := LExpired, lk_consumed_ms := current\<rparr>) (t_local_prekeys s),
            t_peer_prekeys := update_where (expired_peer_key current)
              (\<lambda>p. p\<lparr>pp_state := PExpired, pp_used_ms := current\<rparr>) (t_peer_prekeys s)\<rparr>,
          \<lparr>pu_packets = count_where (\<lambda>p. pk_expires_ms p \<le> current) (t_packets s),
           pu_deliveries = count_where (\<lambda>d. orphan (dl_packet d)) (t_deliveries s),
           pu_delivery_paths = count_where (\<lambda>d. orphan (dp_packet d)) (t_delivery_paths s),
           pu_receipts = count_where (\<lambda>r. orphan (rc_packet r)) (t_receipts s),
           pu_rejections = count_where (\<lambda>r. orphan (rj_packet r)) (t_rejections s),
           pu_inbox = count_where (stale_transient current retention) (t_inbox s),
           pu_claims = count_where unheld (t_claims s),
           pu_local_prekeys = count_where (expired_local current) (t_local_prekeys s),
           pu_peer_prekeys = count_where (expired_peer_key current) (t_peer_prekeys s)\<rparr>))"

section \<open>Revoking a peer\<close>

record revoke_counts =
  rv_peer :: string
  rv_pending :: nat
  rv_inbox :: nat
  rv_claims :: nat
  rv_local_prekeys :: nat
  rv_peer_prekeys :: nat
  rv_routes :: nat
  rv_metrics :: nat

definition revoke_pending :: "time_ms \<Rightarrow> string \<Rightarrow> packet_row \<Rightarrow> bool" where
  "revoke_pending current peer p =
     (pk_destination p = peer \<and> \<not> pk_delivered p \<and> current < pk_expires_ms p)"

definition revoke_claim :: "store \<Rightarrow> string \<Rightarrow> claim_row \<Rightarrow> bool" where
  "revoke_claim s peer d = (exists_where (\<lambda>i. ib_sender i = peer \<and> ib_packet i = cd_packet d) (t_inbox s)
     \<and> cd_state d \<noteq> ClaimAcked \<and> cd_state d \<noteq> ClaimRevoked)"

definition revoke_body :: "time_ms \<Rightarrow> string \<Rightarrow> store \<Rightarrow> exn + store \<times> revoke_counts" where
  "revoke_body current peer s = Inr
     (s\<lparr>t_packets := update_where (revoke_pending current peer)
          (\<lambda>p. p\<lparr>pk_expires_ms := min (pk_expires_ms p) current\<rparr>) (t_packets s),
        t_inbox := update_where (\<lambda>i. ib_sender i = peer \<and> ib_trusted i)
          (\<lambda>i. i\<lparr>ib_trusted := False\<rparr>) (t_inbox s),
        t_claims := update_where (revoke_claim s peer)
          (\<lambda>d. d\<lparr>cd_state := ClaimRevoked, cd_token := '''', cd_lease_until_ms := 0,
                cd_retry_after_ms := 0, cd_last_error := ''peer trust revoked''\<rparr>) (t_claims s),
        t_local_prekeys := update_where (\<lambda>r. lk_peer r = peer \<and> lk_state r \<noteq> LRevoked)
          (\<lambda>r. r\<lparr>lk_private := None, lk_state := LRevoked, lk_consumed_ms := current\<rparr>) (t_local_prekeys s),
        t_peer_prekeys := update_where (\<lambda>p. pp_peer p = peer \<and> pp_state p \<noteq> PRevoked)
          (\<lambda>p. p\<lparr>pp_state := PRevoked, pp_reservation := '''', pp_used_ms := current\<rparr>) (t_peer_prekeys s),
        t_routes := delete_where (\<lambda>r. rt_peer r = peer) (t_routes s),
        t_path_metrics := delete_where (\<lambda>m. pm_peer m = peer) (t_path_metrics s)\<rparr>,
      \<lparr>rv_peer = peer, rv_pending = count_where (revoke_pending current peer) (t_packets s),
       rv_inbox = count_where (\<lambda>i. ib_sender i = peer \<and> ib_trusted i) (t_inbox s),
       rv_claims = count_where (revoke_claim s peer) (t_claims s),
       rv_local_prekeys = count_where (\<lambda>r. lk_peer r = peer \<and> lk_state r \<noteq> LRevoked) (t_local_prekeys s),
       rv_peer_prekeys = count_where (\<lambda>p. pp_peer p = peer \<and> pp_state p \<noteq> PRevoked) (t_peer_prekeys s),
       rv_routes = count_where (\<lambda>r. rt_peer r = peer) (t_routes s),
       rv_metrics = count_where (\<lambda>m. pm_peer m = peer) (t_path_metrics s)\<rparr>)"

definition revoke_peer :: "time_ms \<Rightarrow> string \<Rightarrow> store \<Rightarrow> (store, revoke_counts) outcome" where
  "revoke_peer current peer_arg s =
     checked s (prekey_peer_id peer_arg) (\<lambda>peer. transaction (revoke_body current peer) s)"

section \<open>Calls and invariants\<close>

datatype admin_call = Purge time_ms int | RevokePeer time_ms string

fun admin_step :: "admin_call \<Rightarrow> store \<Rightarrow> store" where
  "admin_step (Purge now retention) s = fst (purge now retention s)"
| "admin_step (RevokePeer now peer) s = fst (revoke_peer now peer s)"

definition revoked_store :: "time_ms \<Rightarrow> string \<Rightarrow> store \<Rightarrow> store" where
  "revoked_store now peer s = fst (projr (revoke_body now peer s))"

lemma revoke_peer_cases:
  "(\<exists>e. prekey_peer_id a = Inl e \<and> revoke_peer now a s = (s, Inl e))
   \<or> (\<exists>peer c. prekey_peer_id a = Inr peer \<and> revoke_peer now a s = (revoked_store now peer s, Inr c))"
  by (cases "prekey_peer_id a") (auto simp: revoke_peer_def transaction_def revoked_store_def revoke_body_def)

lemma admin_preserves:
  assumes "P s" and "\<And>now retention. P (fst (purge now retention s))" and "\<And>now peer. P (revoked_store now peer s)"
  shows "P (admin_step c s)"
proof (cases c)
  case (RevokePeer now a)
  then show ?thesis using revoke_peer_cases [of a now s] assms(1,3) by auto
qed (simp add: assms(2))

lemma revoked_tables [simp]:
  "t_packets (revoked_store now peer s) = update_where (revoke_pending now peer)
     (\<lambda>p. p\<lparr>pk_expires_ms := min (pk_expires_ms p) now\<rparr>) (t_packets s)"
  "t_inbox (revoked_store now peer s) = update_where (\<lambda>i. ib_sender i = peer \<and> ib_trusted i)
     (\<lambda>i. i\<lparr>ib_trusted := False\<rparr>) (t_inbox s)"
  "t_claims (revoked_store now peer s) = update_where (revoke_claim s peer)
     (\<lambda>d. d\<lparr>cd_state := ClaimRevoked, cd_token := '''', cd_lease_until_ms := 0,
           cd_retry_after_ms := 0, cd_last_error := ''peer trust revoked''\<rparr>) (t_claims s)"
  "t_local_prekeys (revoked_store now peer s) = update_where (\<lambda>r. lk_peer r = peer \<and> lk_state r \<noteq> LRevoked)
     (\<lambda>r. r\<lparr>lk_private := None, lk_state := LRevoked, lk_consumed_ms := now\<rparr>) (t_local_prekeys s)"
  "t_peer_prekeys (revoked_store now peer s) = update_where (\<lambda>p. pp_peer p = peer \<and> pp_state p \<noteq> PRevoked)
     (\<lambda>p. p\<lparr>pp_state := PRevoked, pp_reservation := '''', pp_used_ms := now\<rparr>) (t_peer_prekeys s)"
  "t_routes (revoked_store now peer s) = delete_where (\<lambda>r. rt_peer r = peer) (t_routes s)"
  "t_path_metrics (revoked_store now peer s) = delete_where (\<lambda>m. pm_peer m = peer) (t_path_metrics s)"
  "t_deliveries (revoked_store now peer s) = t_deliveries s"
  "t_delivery_paths (revoked_store now peer s) = t_delivery_paths s" "t_receipts (revoked_store now peer s) = t_receipts s"
  "t_rejections (revoked_store now peer s) = t_rejections s" "t_groups (revoked_store now peer s) = t_groups s"
  "t_tasks (revoked_store now peer s) = t_tasks s" "t_cancels (revoked_store now peer s) = t_cancels s"
  "t_metadata (revoked_store now peer s) = t_metadata s" "t_peer_bundles (revoked_store now peer s) = t_peer_bundles s"
  by (simp_all add: revoked_store_def revoke_body_def)

lemma packet_inv_admin: "packet_inv s \<Longrightarrow> packet_inv (admin_step c s)"
  by (rule admin_preserves)
    (auto simp: packet_inv_def purge_def Let_def in_delete_where in_update_where)

lemma inbox_inv_admin: "inbox_inv s \<Longrightarrow> inbox_inv (admin_step c s)"
  by (rule admin_preserves)
    (auto simp: inbox_inv_def purge_def Let_def in_delete_where in_update_where)

lemma path_inv_admin: "path_inv s \<Longrightarrow> path_inv (admin_step c s)"
  by (rule admin_preserves)
    (auto simp: path_inv_def purge_def Let_def in_delete_where)

lemma claims_ok_delete: "claims_ok cs \<Longrightarrow> claims_ok (delete_where P cs)"
  by (rule claims_okI) (auto simp: in_delete_where dest: claims_okD)

lemma consumer_inv_admin: "consumer_inv s \<Longrightarrow> consumer_inv (admin_step c s)"
proof (rule admin_preserves)
  assume s: "consumer_inv s"
  show "consumer_inv (fst (purge now retention s))" for now retention
    using s by (auto simp: consumer_inv_def purge_def Let_def intro: claims_ok_delete)
  show "consumer_inv (revoked_store now peer s)" for now peer
    using s unfolding consumer_inv_def revoked_tables by (auto intro!: claims_ok_release simp: claim_key_def)
qed

lemma local_row_ok_frame: "t_metadata s' = t_metadata s \<Longrightarrow> local_row_ok s' r = local_row_ok s r"
  by (simp add: local_row_ok_def meta_get_def)

lemma bundled_frame: "t_peer_bundles s' = t_peer_bundles s \<Longrightarrow> bundled s' p = bundled s p"
  by (simp add: bundled_def)

text \<open>An update of the key tables that erases local keys and takes peer keys out of use.\<close>

lemma prekey_inv_out_of_use:
  assumes "prekey_inv s" and "t_local_prekeys s' = update_where P f (t_local_prekeys s)"
    and "t_peer_prekeys s' = update_where Q g (t_peer_prekeys s)"
    and "t_metadata s' = t_metadata s" "t_peer_bundles s' = t_peer_bundles s"
    and f: "\<And>r. lk_id (f r) = lk_id r \<and> lk_peer (f r) = lk_peer r \<and> lk_generation (f r) = lk_generation r
        \<and> lk_private (f r) = None \<and> lk_state (f r) \<noteq> LAvailable"
    and g: "\<And>p. pp_peer (g p) = pp_peer p \<and> pp_id (g p) = pp_id p \<and> pp_generation (g p) = pp_generation p
        \<and> pp_state (g p) \<noteq> PAvailable \<and> pp_state (g p) \<noteq> PReserved \<and> pp_state (g p) \<noteq> PUsed"
  shows "prekey_inv s'"
proof -
  have "unique_key lk_id (t_local_prekeys s')" "unique_key bundle_key (t_peer_bundles s')"
    "unique_key peer_prekey_key (t_peer_prekeys s')"
    using assms(1) f g unfolding assms(2,3,5) prekey_inv_def by (auto simp: peer_prekey_key_def)
  moreover have "\<forall>r\<in>set (t_local_prekeys s'). local_row_ok s' r"
    unfolding assms(2) local_row_ok_frame [OF assms(4)]
  proof (rule ball_update_where)
    show "local_row_ok s (f r)" if "r \<in> set (t_local_prekeys s)" for r
      using assms(1) that f [of r] by (auto simp: prekey_inv_def local_row_ok_def)
  qed (use assms(1) in \<open>auto simp: prekey_inv_def\<close>)
  moreover have "\<forall>p\<in>set (t_peer_prekeys s'). peer_row_ok p \<and> bundled s' p"
    unfolding assms(3) bundled_frame [OF assms(5)]
  proof (rule ball_update_where)
    show "peer_row_ok (g p) \<and> bundled s (g p)" if "p \<in> set (t_peer_prekeys s)" for p
      using assms(1) that g [of p] by (auto simp: prekey_inv_def peer_row_ok_def bundled_def)
  qed (use assms(1) in \<open>auto simp: prekey_inv_def\<close>)
  ultimately show ?thesis by (simp add: prekey_inv_def)
qed

lemma purge_tables [simp]:
  "t_tasks (fst (purge now retention s)) = t_tasks s" "t_cancels (fst (purge now retention s)) = t_cancels s"
  "t_groups (fst (purge now retention s)) = t_groups s" "t_metadata (fst (purge now retention s)) = t_metadata s"
  "t_peer_bundles (fst (purge now retention s)) = t_peer_bundles s" "t_routes (fst (purge now retention s)) = t_routes s"
  "t_local_prekeys (fst (purge now retention s)) = update_where (expired_local now)
     (\<lambda>r. r\<lparr>lk_private := None, lk_state := LExpired, lk_consumed_ms := now\<rparr>) (t_local_prekeys s)"
  "t_peer_prekeys (fst (purge now retention s)) = update_where (expired_peer_key now)
     (\<lambda>p. p\<lparr>pp_state := PExpired, pp_used_ms := now\<rparr>) (t_peer_prekeys s)"
  by (simp_all add: purge_def Let_def)

lemma prekey_inv_admin: "prekey_inv s \<Longrightarrow> prekey_inv (admin_step c s)"
proof (rule admin_preserves)
  assume s: "prekey_inv s"
  show "prekey_inv (fst (purge now retention s))" for now retention
    by (rule prekey_inv_out_of_use [OF s purge_tables(7,8)]) simp_all
  show "prekey_inv (revoked_store now peer s)" for now peer
    by (rule prekey_inv_out_of_use [OF s revoked_tables(4,5)]) simp_all
qed

lemma erased_admin: "erased k s \<Longrightarrow> erased k (admin_step c s)"
  by (rule admin_preserves) (auto simp: erased_def intro!: bex_update_where)

lemma held_by_admin: "held_by k s \<Longrightarrow> held_by k (admin_step c s)"
proof (rule admin_preserves)
  assume s: "held_by k s"
  show "held_by k (fst (purge now retention s))" for now retention
    using held_by_update [OF s, of "\<lambda>p. p\<lparr>pp_state := PExpired, pp_used_ms := now\<rparr>" "expired_peer_key now"]
    by (simp add: held_by_def)
  show "held_by k (revoked_store now peer s)" for now peer
    using held_by_update [OF s, of "\<lambda>p. p\<lparr>pp_state := PRevoked, pp_reservation := '''', pp_used_ms := now\<rparr>"
        "\<lambda>p. pp_peer p = peer \<and> pp_state p \<noteq> PRevoked"]
    by (simp add: held_by_def)
qed

lemma admin_tasks: "t_tasks (admin_step c s) = t_tasks s \<and> t_cancels (admin_step c s) = t_cancels s"
  by (rule admin_preserves) simp_all

lemma filter_update_where: "(\<And>r. Q r \<Longrightarrow> \<not> P r \<and> \<not> P (f r)) \<Longrightarrow> filter P (update_where Q f rs) = filter P rs"
  by (induction rs) auto

text \<open>What is left of a revoked peer, table by table.\<close>

lemma not_pending_expired: "pk_delivered p \<or> pk_expires_ms p \<le> t \<Longrightarrow> \<not> pending_where s t q r pth qs p"
  by (auto simp: pending_where_def)

lemma revoked_not_pending:
  "\<forall>p\<in>set (t_packets (revoked_store now peer s)). pk_destination p = peer
     \<longrightarrow> (\<forall>q t r pth qs. now \<le> t \<longrightarrow> \<not> pending_where (revoked_store now peer s) t q r pth qs p)"
  unfolding revoked_tables
  by (rule ball_update_where; intro impI allI; rule not_pending_expired) (auto simp: revoke_pending_def)

lemma revoked_inbox:
  "\<forall>i\<in>set (t_inbox (revoked_store now peer s)). ib_sender i = peer \<longrightarrow> \<not> ib_trusted i
     \<and> (\<forall>d\<in>set (t_claims (revoked_store now peer s)). cd_packet d = ib_packet i
          \<longrightarrow> cd_state d = ClaimAcked \<or> cd_state d = ClaimRevoked)"
proof -
  have claims: "\<forall>d\<in>set (t_claims (revoked_store now peer s)). cd_packet d = ib_packet i
      \<longrightarrow> cd_state d = ClaimAcked \<or> cd_state d = ClaimRevoked" if "i \<in> set (t_inbox s)" "ib_sender i = peer" for i
    unfolding revoked_tables
  proof (rule ball_update_where; intro impI)
    fix d
    assume "\<not> revoke_claim s peer d" "cd_packet d = ib_packet i"
    moreover have "exists_where (\<lambda>j. ib_sender j = peer \<and> ib_packet j = ib_packet i) (t_inbox s)"
      unfolding exists_where_iff using that by (intro bexI [of _ i] conjI) simp_all
    ultimately show "cd_state d = ClaimAcked \<or> cd_state d = ClaimRevoked"
      by (simp only: revoke_claim_def) blast
  qed (rule disjI2, simp (no_asm))
  show ?thesis
    unfolding revoked_tables(2)
  proof (rule ball_update_where)
    fix i assume i: "i \<in> set (t_inbox s)"
    let ?ok = "\<lambda>i. \<forall>d\<in>set (t_claims (revoked_store now peer s)). cd_packet d = ib_packet i
      \<longrightarrow> cd_state d = ClaimAcked \<or> cd_state d = ClaimRevoked"
    have ok: "ib_sender i = peer \<longrightarrow> ?ok i" using claims [OF i] by (rule impI)
    then show "ib_sender i = peer \<longrightarrow> \<not> ib_trusted i \<and> ?ok i" if "\<not> (ib_sender i = peer \<and> ib_trusted i)"
      using that by blast
    show "ib_sender (i\<lparr>ib_trusted := False\<rparr>) = peer \<longrightarrow> \<not> ib_trusted (i\<lparr>ib_trusted := False\<rparr>) \<and> ?ok (i\<lparr>ib_trusted := False\<rparr>)"
    proof -
      have same: "ib_sender (i\<lparr>ib_trusted := False\<rparr>) = ib_sender i" "ib_packet (i\<lparr>ib_trusted := False\<rparr>) = ib_packet i"
        "ib_trusted (i\<lparr>ib_trusted := False\<rparr>) = False"
        by simp_all
      show ?thesis unfolding same using ok by blast
    qed
  qed
qed

lemma revoked_keys:
  assumes "prekey_inv s"
  shows "\<forall>r\<in>set (t_local_prekeys (revoked_store now peer s)). lk_peer r = peer
           \<longrightarrow> lk_state r = LRevoked \<and> lk_private r = None"
    and "\<forall>p\<in>set (t_peer_prekeys (revoked_store now peer s)). pp_peer p = peer \<longrightarrow> pp_state p = PRevoked"
proof -
  show "\<forall>r\<in>set (t_local_prekeys (revoked_store now peer s)). lk_peer r = peer
           \<longrightarrow> lk_state r = LRevoked \<and> lk_private r = None"
    unfolding revoked_tables
    by (rule ball_update_where; intro impI)
      (use assms in \<open>auto simp: prekey_inv_def local_row_ok_def\<close>)
  show "\<forall>p\<in>set (t_peer_prekeys (revoked_store now peer s)). pp_peer p = peer \<longrightarrow> pp_state p = PRevoked"
    unfolding revoked_tables by (rule ball_update_where; intro impI) simp_all
qed

lemma revoked_paths:
  "route peer (revoked_store now peer s) = None"
  "\<forall>path. path_metric peer path (revoked_store now peer s) = None"
  unfolding route_def path_metric_def revoked_tables
  by (auto simp: find_None_iff_all in_delete_where metric_key_def)

lemma revoked_others:
  "filter (\<lambda>r. lk_peer r \<noteq> peer) (t_local_prekeys (revoked_store now peer s)) = filter (\<lambda>r. lk_peer r \<noteq> peer) (t_local_prekeys s)"
  "filter (\<lambda>p. pp_peer p \<noteq> peer) (t_peer_prekeys (revoked_store now peer s)) = filter (\<lambda>p. pp_peer p \<noteq> peer) (t_peer_prekeys s)"
  "filter (\<lambda>p. pk_destination p \<noteq> peer) (t_packets (revoked_store now peer s)) = filter (\<lambda>p. pk_destination p \<noteq> peer) (t_packets s)"
  "filter (\<lambda>i. ib_sender i \<noteq> peer) (t_inbox (revoked_store now peer s)) = filter (\<lambda>i. ib_sender i \<noteq> peer) (t_inbox s)"
  unfolding revoked_tables by (rule filter_update_where, simp add: revoke_pending_def)+

section \<open>Properties\<close>


text \<open>
  Purging.  Exactly the unexpired packets stay, in their order; of the delivery, path, receipt and
  rejection rows exactly those of a packet that stayed; of the inbox everything but hidden messages
  past the retention (at least a minute); of the claims exactly those on a message that stayed.  No
  private key stays on a key that was past its expiry by more than the packet lifetime and clock skew.
\<close>

theorem purge_exact:
  fixes s :: store and now :: time_ms and retention :: int
  defines "s' \<equiv> fst (purge now retention s)"
  shows "t_packets s' = filter (\<lambda>p. now < pk_expires_ms p) (t_packets s)
    \<and> t_deliveries s' = filter (\<lambda>d. has_packet s' (dl_packet d)) (t_deliveries s)
    \<and> t_delivery_paths s' = filter (\<lambda>d. has_packet s' (dp_packet d)) (t_delivery_paths s)
    \<and> t_receipts s' = filter (\<lambda>r. has_packet s' (rc_packet r)) (t_receipts s)
    \<and> t_rejections s' = filter (\<lambda>r. has_packet s' (rj_packet r)) (t_rejections s)
    \<and> t_inbox s' = filter (\<lambda>i. \<not> stale_transient now retention i) (t_inbox s)
    \<and> t_claims s' = filter (\<lambda>d. in_inbox s' (cd_packet d)) (t_claims s)
    \<and> \<not> exists_where (expired_local now) (t_local_prekeys s')
    \<and> \<not> exists_where (expired_peer_key now) (t_peer_prekeys s')"
proof -
  have gone: "\<not> exists_where (expired_local now) (t_local_prekeys s')"
    "\<not> exists_where (expired_peer_key now) (t_peer_prekeys s')"
    unfolding s'_def purge_tables by (rule update_where_clears, simp add: expired_local_def expired_peer_key_def)+
  have has: "has_packet s' = has_packet_row (t_packets s')" "in_inbox s' pid = exists_where (\<lambda>i. ib_packet i = pid) (t_inbox s')" for pid
    by (auto simp: has_packet_def has_packet_row_def in_inbox_def)
  show ?thesis
    unfolding has using gone
    by (simp add: s'_def purge_def Let_def delete_where_def not_le)
qed

section \<open>Examples\<close>

definition demo_peered :: store where
  "demo_peered = demo_local\<lparr>t_packets := [demo_packet ''p'' demo_id QNormal],
     t_routes := [\<lparr>rt_peer = demo_id, rt_selected_path = ''lan'', rt_switched_ms = 0, rt_reason = ''''\<rparr>]\<rparr>"

lemma demo_peered_inv: "prekey_inv demo_peered"
  by (rule iffD2 [OF prekey_inv_frame demo_local_inv]) (simp_all add: demo_peered_def)

lemma demo_revoke: "map_sum id rv_local_prekeys (snd (revoke_peer 50 demo_id demo_peered)) = Inr 1"
  by code_simp

lemma demo_peer_id: "prekey_peer_id demo_id = Inr demo_id"
  by code_simp


end
