(* ===== verification/Store_Machine.thy ===== *)
theory Store_Machine
  imports Store_Admin
begin

text \<open>
  The store as one machine: a call is a call of one of its parts, and the state is kept by the
  invariants of all of them.  The frame lemmas say which tables a part leaves alone.
\<close>

section \<open>Calls\<close>

datatype store_call =
    PacketCall packet_call
  | PrekeyCall prekey_call
  | InboxCall inbox_call
  | ConsumerCall consumer_call
  | TaskCall task_call
  | PathCall path_call
  | AdminCall admin_call

fun store_step :: "store_call \<Rightarrow> store \<Rightarrow> store" where
  "store_step (PacketCall c) s = packet_step c s"
| "store_step (PrekeyCall c) s = prekey_step c s"
| "store_step (InboxCall c) s = inbox_step c s"
| "store_step (ConsumerCall c) s = consumer_step c s"
| "store_step (TaskCall c) s = task_step c s"
| "store_step (PathCall c) s = path_step c s"
| "store_step (AdminCall c) s = admin_step c s"

definition store_inv :: "store \<Rightarrow> bool" where
  "store_inv s \<longleftrightarrow> packet_inv s \<and> prekey_inv s \<and> inbox_inv s \<and> consumer_inv s \<and> task_inv s \<and> path_inv s"

section \<open>Frames\<close>

text \<open>The tables a part of the store never writes, as a tuple.\<close>

definition beside_packets where
  "beside_packets s = (t_inbox s, t_groups s, t_claims s, t_tasks s, t_cancels s, t_metadata s, t_local_prekeys s,
     t_peer_bundles s, t_peer_prekeys s, t_path_metrics s, t_routes s)"

definition beside_prekeys where
  "beside_prekeys s = (t_packets s, t_deliveries s, t_delivery_paths s, t_receipts s, t_rejections s, t_inbox s,
     t_groups s, t_claims s, t_tasks s, t_cancels s, t_path_metrics s, t_routes s)"

definition beside_inbox where
  "beside_inbox s = (t_deliveries s, t_delivery_paths s, t_receipts s, t_rejections s, t_groups s, t_claims s,
     t_tasks s, t_cancels s, t_metadata s, t_peer_bundles s, t_peer_prekeys s, t_path_metrics s, t_routes s)"

lemma beside_packets_set_delivered [simp]: "beside_packets (set_delivered P s) = beside_packets s"
  by (simp add: beside_packets_def set_delivered_def)

lemma packet_step_frame: "beside_packets (packet_step c s) = beside_packets s"
proof (cases c)
  case (AddPacket E now later stamp rw depth origin src)
  then show ?thesis by (cases "inspect_packet E now later False rw") (simp_all add: add_packet_def beside_packets_def Let_def)
next
  case (MarkAttempt now pids peer err path)
  show ?thesis unfolding MarkAttempt packet_step.simps mark_attempt_def
    by (rule fold_preserves [where P = "\<lambda>t. beside_packets t = beside_packets s"])
      (simp_all add: mark_attempt1_def beside_packets_def)
next
  case (MarkCustodied now pids peer path)
  show ?thesis unfolding MarkCustodied packet_step.simps mark_custodied_def
    by (rule fold_preserves [where P = "\<lambda>t. beside_packets t = beside_packets s"])
      (simp_all add: mark_custodied1_def beside_packets_def)
next
  case (MarkAcked now pids peer path)
  show ?thesis unfolding MarkAcked packet_step.simps mark_acked_def
    by (rule fold_preserves [where P = "\<lambda>t. beside_packets t = beside_packets s"])
      (simp_all add: mark_acked1_def beside_packets_def set_delivered_def)
next
  case (RecordReceipt now pid recipient)
  then show ?thesis by (simp add: record_receipt_def beside_packets_def set_delivered_def)
next
  case (MarkLocalDelivered pid)
  then show ?thesis by (simp add: mark_local_delivered_def)
next
  case (MarkLocalRejected now pid peer reason)
  then show ?thesis by (simp add: mark_local_rejected_def beside_packets_def set_delivered_def Let_def)
qed

lemma beside_prekeys_raise [simp]:
  "beside_prekeys (meta_raise q v s) = beside_prekeys s" "beside_prekeys (meta_set q v s) = beside_prekeys s"
  by (simp_all add: beside_prekeys_def meta_raise_def meta_set_def)

lemma beside_prekeys_update [simp]:
  "beside_prekeys (s\<lparr>t_local_prekeys := ls\<rparr>) = beside_prekeys s"
  "beside_prekeys (s\<lparr>t_peer_prekeys := ps\<rparr>) = beside_prekeys s"
  "beside_prekeys (s\<lparr>t_peer_bundles := bs\<rparr>) = beside_prekeys s"
  by (simp_all add: beside_prekeys_def)

lemma beside_prekeys_fold_raise [simp]:
  "beside_prekeys (fold (\<lambda>p. meta_raise (h p) v) ps s) = beside_prekeys s"
  by (induction ps arbitrary: s) simp_all

lemma prekey_step_frame: "beside_prekeys (prekey_step c s) = beside_prekeys s"
proof (cases c)
  case (AddLocalBatch keys peer ver gen created expires)
  show ?thesis unfolding AddLocalBatch prekey_step.simps
    by (rule outcome_preserves [where P = "\<lambda>t. beside_prekeys t = beside_prekeys s", OF _ add_local_prekey_batch_Inl])
      (auto dest!: add_local_prekey_batch_Inr)
next
  case (ImportBundle now stamp a)
  show ?thesis unfolding ImportBundle prekey_step.simps
    by (rule outcome_preserves [where P = "\<lambda>t. beside_prekeys t = beside_prekeys s", OF _ import_peer_prekey_bundle_Inl])
      (auto simp: import_peer_prekey_bundle_Inr elim!: import_bundle_cases)
next
  case (ReservePrekey now rnd peer res minv)
  show ?thesis unfolding ReservePrekey prekey_step.simps
    by (rule outcome_preserves [where P = "\<lambda>t. beside_prekeys t = beside_prekeys s", OF _ reserve_peer_prekey_Inl])
      (auto elim!: reserve_peer_prekey_Inr reserve_body_cases)
qed (auto simp: scope_legacy_local_prekeys_def retire_unscoped_local_prekeys_def bind_peer_prekey_def
    burn_peer_prekey_def record_prekey_request_def checked_def Let_def split: sum.splits if_splits)

lemma inbox_step_frame: "beside_inbox (inbox_step c s) = beside_inbox s"
proof (cases c)
  case (CommitMessage E now m tr v)
  show ?thesis unfolding CommitMessage inbox_step.simps commit_local_message_def
    by (rule transaction_preserves [where P = "\<lambda>t. beside_inbox t = beside_inbox s"])
      (auto simp: commit_body_def Let_def set_delivered_def insert_inbox_def beside_inbox_def
        split: if_splits)
qed (simp_all add: add_inbox_def insert_inbox_def mark_read_def beside_inbox_def)

definition beside_paths where
  "beside_paths s = (t_packets s, t_deliveries s, t_delivery_paths s, t_receipts s, t_rejections s, t_inbox s,
     t_groups s, t_claims s, t_tasks s, t_cancels s, t_metadata s, t_local_prekeys s, t_peer_bundles s, t_peer_prekeys s)"

lemma path_step_beside: "beside_paths (path_step c s) = beside_paths s"
  by (cases c) (simp_all add: beside_paths_def record_path_result_def set_route_def Let_def)

lemmas packet_kept = packet_step_frame [unfolded beside_packets_def prod.inject]
lemmas prekey_kept = prekey_step_frame [unfolded beside_prekeys_def prod.inject]
lemmas inbox_kept = inbox_step_frame [unfolded beside_inbox_def prod.inject]
lemmas path_kept = path_step_beside [unfolded beside_paths_def prod.inject]
lemmas consumer_kept = only_claimsD [OF consumer_step_frame]
lemmas task_kept = only_tasksD [OF task_safeD(7) [OF task_step_safe]]

section \<open>The invariant\<close>

lemma path_inv_same:
  "t_path_metrics s' = t_path_metrics s \<Longrightarrow> t_routes s' = t_routes s \<Longrightarrow> path_inv s' = path_inv s"
  by (simp add: path_inv_def)

lemma task_inv_same: "t_tasks s' = t_tasks s \<Longrightarrow> t_cancels s' = t_cancels s \<Longrightarrow> task_inv s' = task_inv s"
  by (simp add: task_inv_def task_view_def find_task_def find_cancel_def)

lemma store_invD:
  assumes "store_inv s"
  shows "packet_inv s" "prekey_inv s" "inbox_inv s" "consumer_inv s" "task_inv s" "path_inv s"
  using assms by (simp_all add: store_inv_def)

lemma store_inv_empty: "store_inv empty_store"
  by (simp add: store_inv_def packet_inv_empty prekey_inv_empty inbox_inv_empty consumer_inv_empty task_inv_empty
      path_inv_empty)

lemma packet_inv_store_step: "store_inv s \<Longrightarrow> packet_inv (store_step c s)"
  by (cases c) (simp_all add: store_inv_def packet_inv_step packet_inv_inbox_step packet_inv_admin
      packet_inv_frame [of "prekey_step _ s" s] packet_inv_frame [of "consumer_step _ s" s]
      packet_inv_frame [of "task_step _ s" s] packet_inv_frame [of "path_step _ s" s]
      prekey_kept consumer_kept task_kept path_kept)

lemma prekey_inv_store_step: "store_inv s \<Longrightarrow> prekey_inv (store_step c s)"
  by (cases c) (simp_all add: store_inv_def prekey_inv_step prekey_inv_inbox_step prekey_inv_admin
      prekey_inv_frame [of "packet_step _ s" s] prekey_inv_frame [of "consumer_step _ s" s]
      prekey_inv_frame [of "task_step _ s" s] prekey_inv_frame [of "path_step _ s" s]
      packet_kept consumer_kept task_kept path_kept)

lemma inbox_inv_store_step: "store_inv s \<Longrightarrow> inbox_inv (store_step c s)"
  by (cases c) (simp_all add: store_inv_def inbox_inv_step inbox_inv_admin
      inbox_inv_same [of "packet_step _ s" s] inbox_inv_same [of "consumer_step _ s" s]
      inbox_inv_same [of "prekey_step _ s" s] inbox_inv_same [of "task_step _ s" s] inbox_inv_same [of "path_step _ s" s]
      packet_kept prekey_kept consumer_kept task_kept path_kept)

lemma consumer_inv_store_step: "store_inv s \<Longrightarrow> consumer_inv (store_step c s)"
  by (cases c) (simp_all add: store_inv_def consumer_inv_step consumer_inv_admin task_safeD(1) [OF task_step_safe]
      consumer_inv_frame [of "packet_step _ s" s] consumer_inv_frame [of "inbox_step _ s" s]
      consumer_inv_frame [of "prekey_step _ s" s] consumer_inv_frame [of "path_step _ s" s]
      packet_kept prekey_kept inbox_kept path_kept)

lemma task_inv_store_step: "store_inv s \<Longrightarrow> task_inv (store_step c s)"
  by (cases c) (simp_all add: store_inv_def task_safe_inv [OF task_step_safe] admin_tasks
      task_inv_same [of "packet_step _ s" s] task_inv_same [of "inbox_step _ s" s] task_inv_same [of "consumer_step _ s" s]
      task_inv_same [of "prekey_step _ s" s] task_inv_same [of "path_step _ s" s] task_inv_same [of "admin_step _ s" s]
      packet_kept prekey_kept inbox_kept path_kept consumer_kept)

lemma path_inv_store_step: "store_inv s \<Longrightarrow> path_inv (store_step c s)"
  by (cases c) (simp_all add: store_inv_def path_inv_step path_inv_admin
      path_inv_same [of "packet_step _ s" s] path_inv_same [of "inbox_step _ s" s] path_inv_same [of "consumer_step _ s" s]
      path_inv_same [of "prekey_step _ s" s] path_inv_same [of "task_step _ s" s]
      packet_kept prekey_kept inbox_kept task_kept consumer_kept)

lemma store_inv_step: "store_inv s \<Longrightarrow> store_inv (store_step c s)"
  unfolding store_inv_def [of "store_step c s"]
  by (intro conjI packet_inv_store_step prekey_inv_store_step inbox_inv_store_step consumer_inv_store_step
      task_inv_store_step path_inv_store_step)

interpretation store: machine empty_store store_step store_inv
  by unfold_locales (rule store_inv_empty, rule store_inv_step)

section \<open>Facts that last\<close>

lemma erased_store_step: "store_inv s \<Longrightarrow> erased k s \<Longrightarrow> erased k (store_step c s)"
  by (cases c) (simp_all add: store_invD erased_prekey_step erased_inbox_step erased_admin
      erased_same_table [of "packet_step _ s" s] erased_same_table [of "consumer_step _ s" s]
      erased_same_table [of "task_step _ s" s] erased_same_table [of "path_step _ s" s]
      packet_kept consumer_kept task_kept path_kept)

lemma held_by_store_step: "store_inv s \<Longrightarrow> held_by k s \<Longrightarrow> held_by k (store_step c s)"
  by (cases c) (simp_all add: store_invD held_by_prekey_step held_by_inbox_step held_by_admin
      held_by_same_table [of "packet_step _ s" s] held_by_same_table [of "consumer_step _ s" s]
      held_by_same_table [of "task_step _ s" s] held_by_same_table [of "path_step _ s" s]
      packet_kept consumer_kept task_kept path_kept)

text \<open>A finished execution.\<close>

definition finished :: "task_ref \<times> task_row \<Rightarrow> store \<Rightarrow> bool" where
  "finished kt s = (find_task s (fst kt) = Some (snd kt) \<and> terminal (tx_state (snd kt)))"


text \<open>Only task calls touch the tables of tasks and cancellations.\<close>

lemma other_calls_tasks:
  "t_tasks (store_step c s) = t_tasks s \<and> t_cancels (store_step c s) = t_cancels s \<or> (\<exists>d. c = TaskCall d)"
  by (cases c) (simp_all add: packet_kept prekey_kept inbox_kept path_kept consumer_kept admin_tasks)

lemma finished_store_step:
  assumes "store_inv s" and "finished kt s"
  shows "finished kt (store_step c s)"
  using other_calls_tasks [of c s]
proof
  assume "t_tasks (store_step c s) = t_tasks s \<and> t_cancels (store_step c s) = t_cancels s"
  then show ?thesis using assms(2) by (simp add: finished_def find_task_def)
next
  assume "\<exists>d. c = TaskCall d"
  then obtain d where c: "c = TaskCall d" by (rule exE)
  show ?thesis using assms(2) task_safeD(5) [OF task_step_safe [OF store_invD(4,5) [OF assms(1)]]]
    unfolding c store_step.simps finished_def by blast
qed

lemma task_view_store_step:
  assumes "store_inv s"
  shows "task_view k (store_step c s) = task_view k s \<or> task_flow (task_view k s) (task_view k (store_step c s))"
  using other_calls_tasks [of c s]
proof
  assume "t_tasks (store_step c s) = t_tasks s \<and> t_cancels (store_step c s) = t_cancels s"
  then show ?thesis by (simp add: task_view_def find_task_def find_cancel_def)
next
  assume "\<exists>d. c = TaskCall d"
  then obtain d where c: "c = TaskCall d" by (rule exE)
  show ?thesis unfolding c store_step.simps
    by (rule task_safeD(4) [OF task_step_safe [OF store_invD(4,5) [OF assms]]])
qed

text \<open>
  The interfaces of the prelude, on the store: erased one-time keys and finished executions last, the
  life of every task follows \<^const>\<open>task_flow\<close>, and peer keys are granted exclusively.
\<close>

interpretation keys: stable_machine empty_store store_step store_inv erased
  by unfold_locales (rule erased_store_step)

interpretation outcomes: stable_machine empty_store store_step store_inv finished
  by unfold_locales (rule finished_store_step)

interpretation life: refinement_map empty_store store_step store_inv "task_view k" task_flow for k
  by unfold_locales (rule task_view_store_step)

definition reserved_for :: "(string \<times> string) \<times> string \<Rightarrow> store \<Rightarrow> bool" where
  "reserved_for kh s = held_by (fst (fst kh), snd (fst kh), snd kh) s"

definition grant_key :: "prekey_grant \<Rightarrow> (string \<times> string) \<times> string" where
  "grant_key g = ((gr_peer g, gr_id g), gr_reservation g)"

fun granted_key :: "store_call \<Rightarrow> store \<Rightarrow> ((string \<times> string) \<times> string) option" where
  "granted_key (PrekeyCall (ReservePrekey now rnd peer res minv)) s =
     (case snd (reserve_peer_prekey now rnd peer res minv s) of
        Inr (Some g) \<Rightarrow> Some (grant_key g) | _ \<Rightarrow> None)"
| "granted_key c s = None"

lemma granted_key_cases:
  assumes "granted_key c s = Some kh"
  obtains now rnd peer res minv g where "c = PrekeyCall (ReservePrekey now rnd peer res minv)"
    "reserve_peer_prekey now rnd peer res minv s = (store_step c s, Inr (Some g))" "kh = grant_key g"
proof -
  obtain now rnd peer res minv where c: "c = PrekeyCall (ReservePrekey now rnd peer res minv)"
    using assms by (cases "(c, s)" rule: granted_key.cases) simp_all
  obtain g where g: "snd (reserve_peer_prekey now rnd peer res minv s) = Inr (Some g)" "kh = grant_key g"
    using assms by (auto simp: c split: sum.splits option.splits)
  have "reserve_peer_prekey now rnd peer res minv s = (store_step c s, Inr (Some g))"
    using g(1) by (simp add: c prod_eq_iff)
  then show thesis using that c g(2) by blast
qed

interpretation grants: exclusive_grants empty_store store_step store_inv reserved_for granted_key
proof unfold_locales
  show "reserved_for k (store_step c s)" if "store_inv s" "reserved_for k s" for k c s
    using held_by_store_step [OF that(1)] that(2) by (simp add: reserved_for_def)
  show "reserved_for kh (store_step c s)" if "store_inv s" "granted_key c s = Some kh" for c s kh
    using that(2)
  proof (rule granted_key_cases)
    fix now rnd peer res minv g
    assume "reserve_peer_prekey now rnd peer res minv s = (store_step c s, Inr (Some g))" and k: "kh = grant_key g"
    from reserve_grant_held [OF store_invD(2) [OF that(1)] this(1)] show ?thesis
      by (simp add: reserved_for_def k grant_key_def)
  qed
  show "h' = h" if "store_inv s" "reserved_for (k, h) s" "granted_key c s = Some (k, h')" for c s k h h'
    using that(3)
  proof (rule granted_key_cases)
    fix now rnd peer res minv g
    assume g: "reserve_peer_prekey now rnd peer res minv s = (store_step c s, Inr (Some g))" and k: "(k, h') = grant_key g"
    have "held_by (gr_peer g, gr_id g, h) s" using that(2) k by (simp add: reserved_for_def grant_key_def)
    from reserve_respects_holder [OF store_invD(2) [OF that(1)] this g] show ?thesis using k by (simp add: grant_key_def)
  qed
qed

text \<open>A recorded cancellation is never removed, so the task never works again.\<close>

lemma flow_cancel: "task_flow\<^sup>*\<^sup>* v w \<Longrightarrow> snd v \<noteq> None \<Longrightarrow> snd w \<noteq> None"
  by (induction rule: rtranclp_induct) (auto elim!: task_flowE)

lemma canceled_not_working:
  assumes "task_inv s" and "snd (task_view k s) \<noteq> None" and "find_task s k = Some t"
  shows "tx_state t \<noteq> Working"
  using task_inv_view [OF assms(1), of k] assms(2,3) by (auto simp: task_view_def)

end
