(* ===== verification/Routing.thy ===== *)
theory Routing
  imports Store_Paths
begin

text \<open>
  \<open>routing.py\<close>: the route decision of \<open>AdaptiveRouter\<close> from the recorded path metrics, and the
  carriers that get copies of the traffic.  A carrier has the fields of its configuration that the
  router reads.
\<close>

section \<open>Configuration\<close>

datatype carrier_kind = Directory | WebDAV | Ahub

record carrier =
  ca_kind :: carrier_kind
  ca_name :: string
  ca_mode :: string
  ca_priority :: int
  ca_enabled :: bool

definition carrier_path_id :: "carrier \<Rightarrow> string" where
  "carrier_path_id c = (case ca_kind c of Directory \<Rightarrow> ''directory:'' | WebDAV \<Rightarrow> ''webdav:''
     | Ahub \<Rightarrow> ''ahub:'') @ ca_name c"

record routing_config =
  rc_direct_failure :: int
  rc_direct_recovery :: int
  rc_carrier_failure :: int
  rc_carrier_recovery :: int
  rc_replicas :: int
  rc_cooldown :: rat

record route_decision =
  rd_peer :: string
  rd_selected :: string
  rd_reason :: string
  rd_push :: "string \<rightharpoonup> qos set"
  rd_changed :: bool

section \<open>Decision\<close>

definition all_qos :: "qos set" where "all_qos = {QControl, QInteractive, QNormal, QBulk}"
definition FAST_FAILOVER_QOS :: "qos set" where "FAST_FAILOVER_QOS = {QControl, QInteractive}"

definition metric_failures :: "string \<Rightarrow> string \<Rightarrow> store \<Rightarrow> int" where
  "metric_failures peer path s =
     (case path_metric peer path s of None \<Rightarrow> 0 | Some m \<Rightarrow> pm_consecutive_failures m)"

definition metric_successes :: "string \<Rightarrow> string \<Rightarrow> store \<Rightarrow> int" where
  "metric_successes peer path s =
     (case path_metric peer path s of None \<Rightarrow> 0 | Some m \<Rightarrow> pm_consecutive_successes m)"

definition score :: "string \<Rightarrow> carrier \<Rightarrow> store \<Rightarrow> rat" where
  "score peer c s = of_int (ca_priority c) * 100
     + of_int (metric_failures peer (carrier_path_id c) s) * 10000
     + (case path_metric peer (carrier_path_id c) s of None \<Rightarrow> 0 | Some m \<Rightarrow> pm_ewma_rtt_ms m)"

definition can_send :: "carrier \<Rightarrow> bool" where
  "can_send c = (ca_enabled c \<and> ca_mode c \<noteq> ''receive-only'')"

definition usable_carriers :: "string \<Rightarrow> carrier list \<Rightarrow> store \<Rightarrow> carrier list" where
  "usable_carriers peer cs s = sort_key (\<lambda>c. (score peer c s, ca_name c)) (filter can_send cs)"

definition healthy_carriers :: "routing_config \<Rightarrow> string \<Rightarrow> carrier list \<Rightarrow> store \<Rightarrow> carrier list" where
  "healthy_carriers cfg peer cs s =
     filter (\<lambda>c. metric_failures peer (carrier_path_id c) s < rc_carrier_failure cfg) (usable_carriers peer cs s)"

definition best_carrier :: "routing_config \<Rightarrow> string \<Rightarrow> carrier list \<Rightarrow> store \<Rightarrow> carrier option" where
  "best_carrier cfg peer cs s =
     (case healthy_carriers cfg peer cs s of
        c # _ \<Rightarrow> Some c
      | [] \<Rightarrow> (case usable_carriers peer cs s of c # _ \<Rightarrow> Some c | [] \<Rightarrow> None))"

definition cooldown_ms :: "routing_config \<Rightarrow> int" where
  "cooldown_ms cfg = (let q = rc_cooldown cfg * 1000 in if 0 \<le> q then \<lfloor>q\<rfloor> else \<lceil>q\<rceil>)"

text \<open>The branch of a peer that currently uses a carrier.\<close>

definition decide_fallback ::
    "routing_config \<Rightarrow> string \<Rightarrow> bool \<Rightarrow> carrier list \<Rightarrow> bool \<Rightarrow> string \<Rightarrow> store \<Rightarrow> string \<times> string" where
  "decide_fallback cfg peer has_direct cs cooled_down current_path s =
     (let usable = usable_carriers peer cs s;
          healthy = healthy_carriers cfg peer cs s;
          best = best_carrier cfg peer cs s;
          successes = metric_successes peer ''direct'' s;
          carrier_failures = metric_failures peer current_path s;
          alternatives = filter (\<lambda>c. carrier_path_id c \<noteq> current_path) healthy
      in if find (\<lambda>c. carrier_path_id c = current_path) usable = None
         then (case best of Some c \<Rightarrow> carrier_path_id c | None \<Rightarrow> if has_direct then ''direct'' else ''none'',
               ''selected fallback disappeared'')
         else if rc_carrier_failure cfg \<le> carrier_failures \<and> alternatives \<noteq> []
         then (carrier_path_id (hd alternatives),
               ''fallback '' @ current_path @ '' failed '' @ text_of_int carrier_failures @ '' consecutive probes'')
         else if has_direct \<and> rc_direct_recovery cfg \<le> successes \<and> cooled_down
         then (''direct'', ''direct recovered for '' @ text_of_int successes @ '' consecutive probes'')
         else (case best of
             Some b \<Rightarrow>
               if carrier_path_id b \<noteq> current_path \<and> cooled_down
                  \<and> rc_carrier_recovery cfg \<le> metric_successes peer (carrier_path_id b) s
               then (carrier_path_id b, ''preferred fallback '' @ carrier_path_id b @ '' recovered for ''
                       @ text_of_int (rc_carrier_recovery cfg) @ '' probes'')
               else (current_path, if rc_carrier_failure cfg \<le> carrier_failures
                       then ''fallback held; all alternatives unhealthy''
                       else ''fallback held by recovery hysteresis'')
           | None \<Rightarrow> (current_path, if rc_carrier_failure cfg \<le> carrier_failures
                       then ''fallback held; all alternatives unhealthy''
                       else ''fallback held by recovery hysteresis'')))"

definition direct_or_failover :: "routing_config \<Rightarrow> string \<Rightarrow> carrier option \<Rightarrow> string \<Rightarrow> store \<Rightarrow> string \<times> string" where
  "direct_or_failover cfg peer best reason s =
     (let failures = metric_failures peer ''direct'' s
      in case best of
           Some b \<Rightarrow> if rc_direct_failure cfg \<le> failures
             then (carrier_path_id b, ''direct failed '' @ text_of_int failures @ '' consecutive probes'')
             else (''direct'', reason)
         | None \<Rightarrow> (''direct'', reason))"

definition decide_path ::
    "routing_config \<Rightarrow> time_ms \<Rightarrow> string \<Rightarrow> bool \<Rightarrow> carrier list \<Rightarrow> store \<Rightarrow> string \<times> string" where
  "decide_path cfg current_ms peer has_direct cs s =
     (let best = best_carrier cfg peer cs s;
          current_path = (case route peer s of None \<Rightarrow> '''' | Some r \<Rightarrow> rt_selected_path r);
          switched_ms = (case route peer s of None \<Rightarrow> 0 | Some r \<Rightarrow> rt_switched_ms r);
          cooled_down = (cooldown_ms cfg \<le> current_ms - switched_ms)
      in if current_path \<notin> {'''', ''direct'', ''none''}
         then decide_fallback cfg peer has_direct cs cooled_down current_path s
         else if \<not> has_direct
         then (case best of Some b \<Rightarrow> carrier_path_id b | None \<Rightarrow> ''none'', ''direct path unavailable'')
         else if current_path = ''none''
         then direct_or_failover cfg peer best ''direct available'' s
         else direct_or_failover cfg peer best ''direct healthy or below failure threshold'' s)"

section \<open>Copies\<close>

definition add_push :: "qos set \<Rightarrow> carrier \<Rightarrow> (string \<rightharpoonup> qos set) \<Rightarrow> (string \<rightharpoonup> qos set)" where
  "add_push q c push =
     push(ca_name c \<mapsto> (case push (ca_name c) of None \<Rightarrow> {} | Some old \<Rightarrow> old) \<union> q)"

text \<open>\<open>xs[: n]\<close>\<close>

definition slice_to :: "int \<Rightarrow> 'a list \<Rightarrow> 'a list" where
  "slice_to n xs = (if 0 \<le> n then take (nat n) xs else take (length xs - nat (- n)) xs)"

definition push_plan :: "routing_config \<Rightarrow> string \<Rightarrow> carrier list \<Rightarrow> string \<Rightarrow> store \<Rightarrow> (string \<rightharpoonup> qos set)" where
  "push_plan cfg peer cs selected s =
     (let usable = usable_carriers peer cs s;
          healthy = healthy_carriers cfg peer cs s;
          pool = (if healthy \<noteq> [] then healthy else usable);
          always = fold (\<lambda>c push. push(ca_name c \<mapsto> all_qos))
             (filter (\<lambda>c. can_send c \<and> ca_mode c = ''always'') cs) Map.empty
      in case find (\<lambda>c. carrier_path_id c = selected) usable of
           Some sel \<Rightarrow> fold (add_push all_qos)
             (slice_to (rc_replicas cfg) (sel # filter (\<lambda>c. carrier_path_id c \<noteq> carrier_path_id sel) pool)) always
         | None \<Rightarrow>
             if selected = ''direct'' \<and> 1 \<le> metric_failures peer ''direct'' s \<and> best_carrier cfg peer cs s \<noteq> None
             then fold (add_push FAST_FAILOVER_QOS) (slice_to (rc_replicas cfg) pool) always
             else always)"

text \<open>The metrics are read before and after \<open>set_route\<close>, which does not touch them.\<close>

definition decide ::
    "routing_config \<Rightarrow> time_ms \<Rightarrow> time_ms \<Rightarrow> string \<Rightarrow> bool \<Rightarrow> carrier list \<Rightarrow> store \<Rightarrow> store \<times> route_decision" where
  "decide cfg current_ms set_ms peer has_direct cs s =
     (let (chosen, reason) = decide_path cfg current_ms peer has_direct cs s;
          current_path = (case route peer s of None \<Rightarrow> '''' | Some r \<Rightarrow> rt_selected_path r);
          (s', state) = set_route set_ms peer chosen reason s;
          selected = (case state of None \<Rightarrow> chosen | Some r \<Rightarrow> rt_selected_path r)
      in (s', \<lparr>rd_peer = peer, rd_selected = selected, rd_reason = reason,
               rd_push = push_plan cfg peer cs selected s, rd_changed = (current_path \<noteq> chosen)\<rparr>))"

section \<open>Lemmas\<close>

lemma carrier_path_id_special [simp]:
  "carrier_path_id c \<noteq> ''direct''" "carrier_path_id c \<noteq> ''none''" "carrier_path_id c \<noteq> ''''"
  by (simp_all add: carrier_path_id_def split: carrier_kind.split)

lemma set_usable: "set (usable_carriers peer cs s) = {c \<in> set cs. can_send c}"
  by (auto simp: usable_carriers_def)

lemma set_healthy:
  "set (healthy_carriers cfg peer cs s) =
     {c \<in> set cs. can_send c \<and> metric_failures peer (carrier_path_id c) s < rc_carrier_failure cfg}"
  by (auto simp: healthy_carriers_def set_usable)

lemma best_usable: "best_carrier cfg peer cs s = Some c \<Longrightarrow> c \<in> set cs \<and> can_send c"
proof -
  assume b: "best_carrier cfg peer cs s = Some c"
  then have "c \<in> set (healthy_carriers cfg peer cs s) \<union> set (usable_carriers peer cs s)"
    by (auto simp: best_carrier_def split: list.splits)
  then show ?thesis by (auto simp: set_healthy set_usable)
qed

lemma best_None: "best_carrier cfg peer cs s = None \<longleftrightarrow> (\<forall>c\<in>set cs. \<not> can_send c)"
proof -
  have "best_carrier cfg peer cs s = None \<longleftrightarrow> usable_carriers peer cs s = []"
    by (auto simp: best_carrier_def healthy_carriers_def split: list.splits)
  also have "\<dots> \<longleftrightarrow> (\<forall>c\<in>set cs. \<not> can_send c)"
    using set_usable [of peer cs s] by (metis (mono_tags, lifting) empty_iff empty_set list.set_intros(1) mem_Collect_eq neq_Nil_conv)
  finally show ?thesis .
qed

lemma decide_result:
  assumes "decide cfg now set_ms peer dir cs s = (s', d)"
  shows "rd_selected d = fst (decide_path cfg now peer dir cs s)"
    and "s' = fst (set_route set_ms peer (rd_selected d) (rd_reason d) s)"
    and "rd_push d = push_plan cfg peer cs (rd_selected d) s"
    and "rd_changed d \<longleftrightarrow> (case route peer s of None \<Rightarrow> '''' | Some r \<Rightarrow> rt_selected_path r) \<noteq> rd_selected d"
proof -
  obtain chosen reason where p: "decide_path cfg now peer dir cs s = (chosen, reason)" by fastforce
  have st: "set_route set_ms peer chosen reason s = (fst (set_route set_ms peer chosen reason s),
      route peer (fst (set_route set_ms peer chosen reason s)))"
    by (simp add: set_route_def Let_def)
  have sel: "\<exists>r. route peer (fst (set_route set_ms peer chosen reason s)) = Some r \<and> rt_selected_path r = chosen"
    by (auto simp: route_set_route split: option.splits)
  then obtain s1 r where r: "set_route set_ms peer chosen reason s = (s1, Some r)" "rt_selected_path r = chosen"
    using st by metis
  have "s' = fst (set_route set_ms peer chosen reason s) \<and> d = \<lparr>rd_peer = peer, rd_selected = chosen, rd_reason = reason,
       rd_push = push_plan cfg peer cs chosen s,
       rd_changed = ((case route peer s of None \<Rightarrow> '''' | Some r \<Rightarrow> rt_selected_path r) \<noteq> chosen)\<rparr>"
    using assms by (auto simp: decide_def p r Let_def)
  then show "rd_selected d = fst (decide_path cfg now peer dir cs s)"
    and "s' = fst (set_route set_ms peer (rd_selected d) (rd_reason d) s)"
    and "rd_push d = push_plan cfg peer cs (rd_selected d) s"
    and "rd_changed d \<longleftrightarrow> (case route peer s of None \<Rightarrow> '''' | Some r \<Rightarrow> rt_selected_path r) \<noteq> rd_selected d"
    by (simp_all add: p)
qed

lemma fst_direct_or_failover:
  "fst (direct_or_failover cfg peer best reason s) =
     (case best of Some b \<Rightarrow> if rc_direct_failure cfg \<le> metric_failures peer ''direct'' s then carrier_path_id b else ''direct''
      | None \<Rightarrow> ''direct'')"
  by (simp add: direct_or_failover_def Let_def split: option.splits)

section \<open>Properties\<close>

text \<open>
  C24: the selected path exists.  The router selects the path of a carrier that is enabled and may
  send, or the direct path when the peer has one, or no path, and no path only when there is neither
  a direct path nor such a carrier.
\<close>

theorem decide_selects_usable:
  assumes "decide cfg now set_ms peer dir cs s = (s', d)"
  shows "(rd_selected d = ''direct'' \<and> dir)
    \<or> (rd_selected d = ''none'' \<and> \<not> dir \<and> (\<forall>c\<in>set cs. \<not> can_send c))
    \<or> (\<exists>c\<in>set cs. can_send c \<and> rd_selected d = carrier_path_id c)"
proof -
  have best: "\<exists>c\<in>set cs. can_send c \<and> carrier_path_id b = carrier_path_id c" if "best_carrier cfg peer cs s = Some b" for b
    using best_usable [OF that] by blast
  have fb: "(fst (decide_fallback cfg peer dir cs cool cur s) = ''direct'' \<and> dir)
      \<or> (fst (decide_fallback cfg peer dir cs cool cur s) = ''none'' \<and> \<not> dir \<and> (\<forall>c\<in>set cs. \<not> can_send c))
      \<or> (\<exists>c\<in>set cs. can_send c \<and> fst (decide_fallback cfg peer dir cs cool cur s) = carrier_path_id c)" for cool cur
  proof (cases "find (\<lambda>c. carrier_path_id c = cur) (usable_carriers peer cs s)")
    case None
    then show ?thesis using best_None [of cfg peer cs s] best
      by (auto simp: decide_fallback_def Let_def split: option.splits)
  next
    case (Some c)
    then have c: "c \<in> set cs" "can_send c" "cur = carrier_path_id c"
      using find_SomeD [OF Some] by (auto simp: set_usable)
    have alt: "hd (filter (\<lambda>c. carrier_path_id c \<noteq> cur) (healthy_carriers cfg peer cs s)) \<in> {c \<in> set cs. can_send c}"
      if "filter (\<lambda>c. carrier_path_id c \<noteq> cur) (healthy_carriers cfg peer cs s) \<noteq> []"
      using hd_in_set [OF that] by (auto simp: set_healthy)
    have "fst (decide_fallback cfg peer dir cs cool cur s) \<in>
        (if dir then {''direct''} else {}) \<union> carrier_path_id ` {c \<in> set cs. can_send c}"
      using alt c best_usable [of cfg peer cs s] Some
      unfolding decide_fallback_def Let_def by (auto split: option.splits if_splits)
    then show ?thesis by (auto split: if_splits)
  qed
  show ?thesis
    unfolding decide_result(1) [OF assms] decide_path_def Let_def
    using fb best best_None [of cfg peer cs s]
    by (auto simp: fst_direct_or_failover split: option.splits if_splits)
qed

lemma route_after_decide:
  assumes "decide cfg now set_ms peer dir cs s = (s', d)"
  shows "\<exists>r. route peer s' = Some r \<and> rt_selected_path r = rd_selected d
    \<and> (rd_changed d \<longrightarrow> rt_switched_ms r = set_ms)"
proof -
  have "\<not> rd_changed d \<or> (\<forall>r. route peer s = Some r \<longrightarrow> rt_selected_path r \<noteq> rd_selected d)"
    unfolding decide_result(4) [OF assms] by auto
  then show ?thesis unfolding decide_result(2) [OF assms] route_set_route by (auto split: option.splits)
qed

text \<open>A carrier in use is left only for one of three reasons.\<close>

lemma leave_fallback:
  assumes "decide cfg now set_ms peer dir cs s = (s', d)" and "route peer s = Some r"
    and "rt_selected_path r = carrier_path_id c" and "c \<in> set cs" and "can_send c"
    and "rd_selected d \<noteq> carrier_path_id c"
  shows "(rc_carrier_failure cfg \<le> metric_failures peer (carrier_path_id c) s
        \<and> (\<exists>b\<in>set cs. can_send b \<and> metric_failures peer (carrier_path_id b) s < rc_carrier_failure cfg
             \<and> rd_selected d = carrier_path_id b))
    \<or> (cooldown_ms cfg \<le> now - rt_switched_ms r \<and> dir \<and> rd_selected d = ''direct''
        \<and> rc_direct_recovery cfg \<le> metric_successes peer ''direct'' s)
    \<or> (cooldown_ms cfg \<le> now - rt_switched_ms r \<and> (\<exists>b. best_carrier cfg peer cs s = Some b
        \<and> rd_selected d = carrier_path_id b \<and> rc_carrier_recovery cfg \<le> metric_successes peer (carrier_path_id b) s))"
proof -
  let ?alts = "filter (\<lambda>b. carrier_path_id b \<noteq> carrier_path_id c) (healthy_carriers cfg peer cs s)"
  have found: "find (\<lambda>b. carrier_path_id b = carrier_path_id c) (usable_carriers peer cs s) \<noteq> None"
    using assms(4,5) by (auto simp: find_None_iff_all set_usable)
  have sel: "rd_selected d = fst (decide_fallback cfg peer dir cs (cooldown_ms cfg \<le> now - rt_switched_ms r) (carrier_path_id c) s)"
    using decide_result(1) [OF assms(1)] by (simp add: decide_path_def assms(2,3))
  have alt: "hd ?alts \<in> set cs \<and> can_send (hd ?alts)
      \<and> metric_failures peer (carrier_path_id (hd ?alts)) s < rc_carrier_failure cfg" if "?alts \<noteq> []"
    using hd_in_set [OF that] by (auto simp: set_healthy)
  show ?thesis
  proof (cases "rc_carrier_failure cfg \<le> metric_failures peer (carrier_path_id c) s \<and> ?alts \<noteq> []")
    case True
    then have "rd_selected d = carrier_path_id (hd ?alts)" using sel found by (simp add: decide_fallback_def)
    then show ?thesis using True alt by blast
  next
    case False
    then show ?thesis using sel found assms(6)
      by (auto simp: decide_fallback_def Let_def split: option.splits if_splits)
  qed
qed

text \<open>
  Hysteresis.  After the router switched a peer to a carrier, and as long as the cooldown has not
  passed, the carrier stays enabled and its run of failures is below the threshold, every later
  decision keeps it: neither a recovered direct path nor a better carrier moves the route, whatever
  results were recorded in between.
\<close>

theorem no_flapping:
  assumes "decide cfg t1 set1 peer dir1 cs1 s = (s1, d1)" and "rd_changed d1" and "rd_selected d1 = carrier_path_id c"
    and "route peer s2 = route peer s1"
    and "decide cfg t2 set2 peer dir2 cs2 s2 = (s3, d2)" and "c \<in> set cs2" and "can_send c"
    and "t2 - set1 < cooldown_ms cfg" and "metric_failures peer (carrier_path_id c) s2 < rc_carrier_failure cfg"
  shows "rd_selected d2 = carrier_path_id c \<and> \<not> rd_changed d2
    \<and> (\<exists>r. route peer s3 = Some r \<and> rt_switched_ms r = set1)"
proof -
  obtain r where r: "route peer s2 = Some r" "rt_selected_path r = carrier_path_id c" "rt_switched_ms r = set1"
    using route_after_decide [OF assms(1)] assms(2-4) by auto
  have sel: "rd_selected d2 = carrier_path_id c"
    using leave_fallback [OF assms(5) r(1,2) assms(6,7)] assms(8,9) r(3) by fastforce
  moreover have "\<not> rd_changed d2" using decide_result(4) [OF assms(5)] sel r by simp
  moreover have "\<exists>r. route peer s3 = Some r \<and> rt_switched_ms r = set1"
    unfolding decide_result(2) [OF assms(5)] route_set_route using sel r by simp
  ultimately show ?thesis by blast
qed

text \<open>Who gets copies: the fold only adds names of the carriers it runs over.\<close>

lemma fold_add_push:
  "fold (add_push q) cs push n =
     (if n \<in> ca_name ` set cs then Some ((case push n of None \<Rightarrow> {} | Some old \<Rightarrow> old) \<union> q) else push n)"
  by (induction cs arbitrary: push) (auto simp: add_push_def split: option.splits)

lemma fold_push_always:
  "fold (\<lambda>c push. push(ca_name c \<mapsto> q)) cs push n = (if n \<in> ca_name ` set cs then Some q else push n)"
  by (induction cs arbitrary: push) auto

lemma set_slice_to: "x \<in> set (slice_to n xs) \<Longrightarrow> x \<in> set xs"
  by (auto simp: slice_to_def split: if_splits dest: in_set_takeD)

text \<open>
  Copies.  Traffic is only ever pushed to carriers that are enabled and may send; a carrier in mode
  \<open>always\<close> gets every QoS class, and so does the carrier whose path is selected; while the direct path
  is selected and its last probe did not fail, no other carrier gets anything.
\<close>

theorem push_plan_correct:
  assumes "decide cfg now set_ms peer dir cs s = (s', d)" and "1 \<le> rc_replicas cfg"
  shows "(\<forall>n q. rd_push d n = Some q \<longrightarrow> (\<exists>c\<in>set cs. can_send c \<and> ca_name c = n))
    \<and> (\<forall>c\<in>set cs. can_send c \<and> ca_mode c = ''always'' \<longrightarrow> rd_push d (ca_name c) = Some all_qos)
    \<and> (\<forall>c\<in>set cs. can_send c \<and> rd_selected d = carrier_path_id c \<longrightarrow>
         (\<exists>b\<in>set cs. can_send b \<and> carrier_path_id b = rd_selected d \<and> rd_push d (ca_name b) = Some all_qos))
    \<and> (rd_selected d = ''direct'' \<and> metric_failures peer ''direct'' s < 1 \<longrightarrow>
         (\<forall>n q. rd_push d n = Some q \<longrightarrow> (\<exists>c\<in>set cs. can_send c \<and> ca_mode c = ''always'' \<and> ca_name c = n)))"
proof -
  let ?sel = "rd_selected d"
  let ?al = "filter (\<lambda>c. can_send c \<and> ca_mode c = ''always'') cs"
  let ?pool = "if healthy_carriers cfg peer cs s \<noteq> [] then healthy_carriers cfg peer cs s else usable_carriers peer cs s"
  have pool: "set ?pool \<subseteq> {c \<in> set cs. can_send c}" by (auto simp: set_healthy set_usable)
  have sub: "q \<union> all_qos = all_qos" "all_qos \<union> q = all_qos" for q :: "qos set"
    by (auto simp: all_qos_def intro: qos.exhaust)
  show ?thesis
  proof (cases "find (\<lambda>c. carrier_path_id c = ?sel) (usable_carriers peer cs s)")
    case (Some c)
    let ?cs = "slice_to (rc_replicas cfg) (c # filter (\<lambda>b. carrier_path_id b \<noteq> carrier_path_id c) ?pool)"
    have c: "c \<in> set cs" "can_send c" "carrier_path_id c = ?sel"
      using find_SomeD [OF Some] by (auto simp: set_usable)
    have cs: "set ?cs \<subseteq> {c \<in> set cs. can_send c}" using c pool by (auto dest!: set_slice_to)
    have "c \<in> set ?cs" using assms(2) by (cases "nat (rc_replicas cfg)") (auto simp: slice_to_def)
    then have first: "c \<in> set ?cs" .
    have push: "rd_push d n = (if n \<in> ca_name ` set ?cs then Some all_qos
        else if n \<in> ca_name ` set ?al then Some all_qos else None)" for n
      unfolding decide_result(3) [OF assms(1)] push_plan_def Let_def Some option.case
      by (simp add: fold_add_push fold_push_always sub)
    have "?sel \<noteq> ''direct''" using c by (metis carrier_path_id_special(1))
    moreover have "\<exists>b\<in>set cs. can_send b \<and> ca_name b = n" if "rd_push d n = Some q" for n q
      using that cs unfolding push by (auto split: if_splits)
    moreover have "rd_push d (ca_name b) = Some all_qos" if "b \<in> set cs" "can_send b" "ca_mode b = ''always''" for b
      using that unfolding push by simp
    moreover have "rd_push d (ca_name c) = Some all_qos" using first unfolding push by simp
    ultimately show ?thesis using c by blast
  next
    case None
    then have ns: "\<forall>c\<in>set cs. can_send c \<longrightarrow> ?sel \<noteq> carrier_path_id c" by (auto simp: find_None_iff_all set_usable)
    let ?always = "fold (\<lambda>c push. push(ca_name c \<mapsto> all_qos)) ?al Map.empty"
    let ?race = "?sel = ''direct'' \<and> 1 \<le> metric_failures peer ''direct'' s \<and> best_carrier cfg peer cs s \<noteq> None"
    obtain xs where xs: "rd_push d = fold (add_push FAST_FAILOVER_QOS) xs ?always"
      "set xs \<subseteq> {c \<in> set cs. can_send c}" "\<not> ?race \<Longrightarrow> xs = []"
    proof (cases ?race)
      case True
      have "rd_push d = fold (add_push FAST_FAILOVER_QOS) (slice_to (rc_replicas cfg) ?pool) ?always"
        unfolding decide_result(3) [OF assms(1)] push_plan_def Let_def None option.case using True by simp
      moreover have "set (slice_to (rc_replicas cfg) ?pool) \<subseteq> {c \<in> set cs. can_send c}"
        using pool by (meson set_slice_to subset_iff)
      ultimately show thesis using True that by blast
    next
      case False
      then have "rd_push d = ?always"
        unfolding decide_result(3) [OF assms(1)] push_plan_def Let_def None option.case by (simp only: if_False)
      then show thesis using that [of "[]"] by simp
    qed
    have push: "rd_push d n = (if n \<in> ca_name ` set xs
         then Some ((case if n \<in> ca_name ` set ?al then Some all_qos else None of None \<Rightarrow> {} | Some old \<Rightarrow> old) \<union> FAST_FAILOVER_QOS)
         else if n \<in> ca_name ` set ?al then Some all_qos else None)" for n
      unfolding xs(1) by (simp add: fold_add_push fold_push_always)
    have al: "rd_push d (ca_name b) = Some all_qos" if "b \<in> set cs" "can_send b" "ca_mode b = ''always''" for b
      using that by (auto simp: push sub)
    have names: "\<exists>b\<in>set cs. can_send b \<and> ca_name b = n" if "rd_push d n = Some q" for n q
      using that xs(2) unfolding push by (auto split: if_splits)
    have quiet: "\<exists>c\<in>set cs. can_send c \<and> ca_mode c = ''always'' \<and> ca_name c = n"
      if "rd_push d n = Some q" "metric_failures peer ''direct'' s < 1" for n q
      using that(1) xs(3) that(2) unfolding push by (auto split: if_splits)
    show ?thesis using names al ns quiet by blast
  

qed
qed

section \<open>Examples\<close>

definition demo_cfg :: routing_config where
  "demo_cfg = \<lparr>rc_direct_failure = 2, rc_direct_recovery = 3, rc_carrier_failure = 2, rc_carrier_recovery = 3,
     rc_replicas = 1, rc_cooldown = 30\<rparr>"

definition demo_carrier :: carrier where
  "demo_carrier = \<lparr>ca_kind = Directory, ca_name = ''d'', ca_mode = ''fallback'', ca_priority = 50, ca_enabled = True\<rparr>"

text \<open>Two failed direct probes, and then three good ones.\<close>

definition demo_net :: store where
  "demo_net = fold path_step [RecordPath 1 ''a'' ''direct'' False 0 ''x'', RecordPath 2 ''a'' ''direct'' False 0 ''x''] empty_store"

definition demo_recovered :: "store \<Rightarrow> store" where
  "demo_recovered s = fold path_step [RecordPath 2000 ''a'' ''direct'' True 9 '''', RecordPath 3000 ''a'' ''direct'' True 9 '''',
     RecordPath 4000 ''a'' ''direct'' True 9 ''''] s"

lemma demo_switch:
  "rd_selected (snd (decide demo_cfg 1000 1000 ''a'' True [demo_carrier] demo_net)) = carrier_path_id demo_carrier"
  "rd_changed (snd (decide demo_cfg 1000 1000 ''a'' True [demo_carrier] demo_net))"
  "can_send demo_carrier" "cooldown_ms demo_cfg = 30000"
  by code_simp+

lemma demo_metrics_frame:
  "metric_failures ''a'' (carrier_path_id demo_carrier) (demo_recovered (fst (decide demo_cfg 1000 1000 ''a'' True [demo_carrier] demo_net))) = 0"
  by code_simp

lemma path_step_route: "route p (record_path_result now peer path ok lat err s) = route p s"
  by (simp add: route_def record_path_result_def Let_def)

theorem decide_selects_usable_witness:
  "can_send demo_carrier \<and> rd_selected (snd (decide demo_cfg 1000 1000 ''a'' True [demo_carrier] demo_net)) = carrier_path_id demo_carrier"
proof -
  obtain s' d where "decide demo_cfg 1000 1000 ''a'' True [demo_carrier] demo_net = (s', d)" by fastforce
  with decide_selects_usable [OF this] demo_switch show ?thesis by auto
qed

theorem no_flapping_witness:
  "rd_selected (snd (decide demo_cfg 9000 9000 ''a'' True [demo_carrier]
     (demo_recovered (fst (decide demo_cfg 1000 1000 ''a'' True [demo_carrier] demo_net))))) = carrier_path_id demo_carrier"
proof -
  obtain s1 d1 where 1: "decide demo_cfg 1000 1000 ''a'' True [demo_carrier] demo_net = (s1, d1)" by fastforce
  obtain s3 d2 where 2: "decide demo_cfg 9000 9000 ''a'' True [demo_carrier] (demo_recovered s1) = (s3, d2)" by fastforce
  have "route ''a'' (demo_recovered s1) = route ''a'' s1" by (simp add: demo_recovered_def path_step_route)
  moreover have "0 < rc_carrier_failure demo_cfg" by (simp add: demo_cfg_def)
  ultimately show ?thesis using no_flapping [OF 1 _ _ _ 2] demo_switch demo_metrics_frame by (simp add: 1 2)
qed

theorem push_plan_correct_witness:
  "rd_push (snd (decide demo_cfg 1000 1000 ''a'' True [demo_carrier] demo_net)) ''d'' = Some all_qos"
proof -
  obtain s' d where "decide demo_cfg 1000 1000 ''a'' True [demo_carrier] demo_net = (s', d)" by fastforce
  with push_plan_correct [OF this] demo_switch show ?thesis by (simp add: demo_cfg_def demo_carrier_def)
qed

end
