(* ===== verification/Scheduling.thy ===== *)
theory Scheduling
  imports Prelude
begin

text \<open>
  \<open>scheduling.py\<close>: the jittered schedule with bounded exponential idle backoff.  Times and factors are
  exact rationals, the random sample of a call is an argument.
\<close>

section \<open>The schedule\<close>

record schedule =
  sc_base_interval :: rat
  sc_jitter :: rat
  sc_max_backoff :: rat
  sc_idle_rounds :: int
  sc_next_due :: rat
  sc_last_delay :: rat

definition new_schedule :: "rat \<Rightarrow> rat \<Rightarrow> rat \<Rightarrow> exn + schedule" where
  "new_schedule base jitter max_backoff =
     (if base \<le> 0 then Inl (ValueError ''schedule interval must be positive'')
      else if \<not> (0 \<le> jitter \<and> jitter \<le> 9/10)
      then Inl (ValueError ''schedule jitter must be between 0 and 0.9'')
      else if max_backoff < 1 then Inl (ValueError ''schedule max backoff must be at least 1'')
      else Inr \<lparr>sc_base_interval = base, sc_jitter = jitter, sc_max_backoff = max_backoff,
                sc_idle_rounds = 0, sc_next_due = 0, sc_last_delay = 0\<rparr>)"

definition due :: "rat \<Rightarrow> bool \<Rightarrow> bool \<Rightarrow> schedule \<Rightarrow> bool" where
  "due now force newly_pending c = (force \<or> newly_pending \<or> sc_next_due c \<le> now)"

definition reset_backoff :: "schedule \<Rightarrow> schedule" where
  "reset_backoff c = c\<lparr>sc_idle_rounds := 0\<rparr>"

definition backoff_multiplier :: "schedule \<Rightarrow> rat" where
  "backoff_multiplier c =
     (let exponent = min (max 0 (sc_idle_rounds c - 1)) 30 in min (sc_max_backoff c) (2 ^ nat exponent))"

definition jitter_factor :: "schedule \<Rightarrow> rat \<Rightarrow> rat" where
  "jitter_factor c sample_arg =
     (let sample = max 0 (min 1 sample_arg) in (1 - sc_jitter c) + 2 * sc_jitter c * sample)"

text \<open>An invalid interval raises after the idle count was updated.\<close>

definition record_round :: "rat \<Rightarrow> rat \<Rightarrow> bool \<Rightarrow> rat option \<Rightarrow> schedule \<Rightarrow> (schedule, rat) outcome" where
  "record_round sample now activity override c0 =
     (let c = c0\<lparr>sc_idle_rounds := (if activity then 0 else min (sc_idle_rounds c0 + 1) 1000000)\<rparr>;
          interval = (case override of None \<Rightarrow> sc_base_interval c | Some i \<Rightarrow> i)
      in if interval \<le> 0 then (c, Inl (ValueError ''schedule interval override must be positive''))
         else let delay = max (1/20) (interval * backoff_multiplier c * jitter_factor c sample)
              in (c\<lparr>sc_last_delay := delay, sc_next_due := now + delay\<rparr>, Inr delay))"

text \<open>\<open>round(x, 3)\<close>, half to even.\<close>

definition round3 :: "rat \<Rightarrow> rat" where
  "round3 x = (let y = x * 1000; n = \<lfloor>y\<rfloor>; f = y - of_int n
     in of_int (if f < 1/2 then n else if 1/2 < f then n + 1 else if even n then n else n + 1) / 1000)"

record snapshot =
  sn_idle_rounds :: int
  sn_last_delay_seconds :: rat
  sn_next_due_seconds :: rat
  sn_base_interval_seconds :: rat
  sn_jitter :: rat
  sn_max_backoff :: rat

definition schedule_snapshot :: "rat \<Rightarrow> schedule \<Rightarrow> snapshot" where
  "schedule_snapshot now c = \<lparr>sn_idle_rounds = sc_idle_rounds c, sn_last_delay_seconds = round3 (sc_last_delay c),
     sn_next_due_seconds = round3 (max 0 (sc_next_due c - now)), sn_base_interval_seconds = sc_base_interval c,
     sn_jitter = sc_jitter c, sn_max_backoff = sc_max_backoff c\<rparr>"

section \<open>Invariant\<close>

definition schedule_inv :: "schedule \<Rightarrow> bool" where
  "schedule_inv c \<longleftrightarrow> 0 < sc_base_interval c \<and> 0 \<le> sc_jitter c \<and> sc_jitter c \<le> 9/10 \<and> 1 \<le> sc_max_backoff c
     \<and> 0 \<le> sc_idle_rounds c \<and> sc_idle_rounds c \<le> 1000000"

lemma schedule_inv_new: "new_schedule b j m = Inr c \<Longrightarrow> schedule_inv c"
  by (auto simp: new_schedule_def schedule_inv_def split: if_splits)

lemma schedule_inv_record: "schedule_inv c \<Longrightarrow> schedule_inv (fst (record_round u now act ov c))"
  by (auto simp: schedule_inv_def record_round_def Let_def)

lemma schedule_inv_reset: "schedule_inv c \<Longrightarrow> schedule_inv (reset_backoff c)"
  by (simp add: schedule_inv_def reset_backoff_def)

lemma multiplier_bounds:
  assumes "schedule_inv c"
  shows "1 \<le> backoff_multiplier c" "backoff_multiplier c \<le> sc_max_backoff c"
  using assms
  by (auto simp: backoff_multiplier_def Let_def schedule_inv_def)

lemma jitter_bounds:
  assumes "schedule_inv c"
  shows "1 - sc_jitter c \<le> jitter_factor c u" "jitter_factor c u \<le> 1 + sc_jitter c"
proof -
  let ?s = "max 0 (min 1 u)"
  have s: "0 \<le> ?s" "?s \<le> 1" by auto
  have j: "0 \<le> sc_jitter c" using assms by (simp add: schedule_inv_def)
  have "0 \<le> sc_jitter c * ?s" using j s by simp
  moreover have "sc_jitter c * ?s \<le> sc_jitter c * 1" using j s(2) by (rule mult_left_mono [rotated])
  ultimately show "1 - sc_jitter c \<le> jitter_factor c u" "jitter_factor c u \<le> 1 + sc_jitter c"
    by (simp_all add: jitter_factor_def Let_def)
qed

lemma record_round_run:
  assumes "c2 = c\<lparr>sc_idle_rounds := if act then 0 else min (sc_idle_rounds c + 1) 1000000\<rparr>"
    and "i = (case ov of None \<Rightarrow> sc_base_interval c | Some i \<Rightarrow> i)"
    and "d = max (1/20) (i * backoff_multiplier c2 * jitter_factor c2 u)"
  shows "record_round u now act ov c =
     (if i \<le> 0 then (c2, Inl (ValueError ''schedule interval override must be positive''))
      else (c2\<lparr>sc_last_delay := d, sc_next_due := now + d\<rparr>, Inr d))"
proof -
  have "(case ov of None \<Rightarrow> sc_base_interval c2 | Some i \<Rightarrow> i) = i"
    by (cases ov) (simp_all add: assms(1,2))
  then show ?thesis unfolding record_round_def Let_def assms(1) [symmetric] assms(3) by (simp only:)
qed

lemma product_bounds:
  fixes i m j :: rat
  assumes "0 < i" and "1 \<le> m" and "m \<le> M" and "1 - q \<le> j" and "j \<le> 1 + q" and "q \<le> 9/10"
  shows "i * (1 - q) \<le> i * m * j" and "i * m * j \<le> i * M * (1 + q)"
proof -
  have j: "0 \<le> j" using assms(4,6) by simp
  have "1 - q \<le> m * j" using mult_right_mono [OF assms(2) j] assms(4) by simp
  then show "i * (1 - q) \<le> i * m * j" using assms(1) by (simp add: mult.assoc mult_left_mono)
  have "m * j \<le> M * (1 + q)" using assms(2,3,5) j by (intro mult_mono) simp_all
  then show "i * m * j \<le> i * M * (1 + q)" using assms(1) by (simp add: mult.assoc mult_left_mono)
qed

section \<open>Properties\<close>

text \<open>
  Every recorded round schedules the next one in the future: the delay is at least 50 ms, at least
  the unjittered minimum of the interval and at most the interval times the backoff limit times the
  largest jitter factor (or 50 ms); the time until the next round is the returned delay, before which
  nothing is due unless forced.
\<close>

theorem record_round_bounds:
  assumes "schedule_inv c" and "record_round u now act ov c = (c', Inr delay)"
    and "i = (case ov of None \<Rightarrow> sc_base_interval c | Some i \<Rightarrow> i)"
  shows "1/20 \<le> delay \<and> i * (1 - sc_jitter c) \<le> delay
    \<and> delay \<le> max (1/20) (i * sc_max_backoff c * (1 + sc_jitter c))
    \<and> sc_next_due c' = now + delay \<and> (due t False False c' \<longleftrightarrow> now + delay \<le> t)"
proof -
  define c2 where "c2 = c\<lparr>sc_idle_rounds := if act then 0 else min (sc_idle_rounds c + 1) 1000000\<rparr>"
  have inv: "schedule_inv c2" using assms(1) by (auto simp: c2_def schedule_inv_def)
  have same: "sc_jitter c2 = sc_jitter c" "sc_max_backoff c2 = sc_max_backoff c" "sc_jitter c \<le> 9/10"
    using assms(1) by (simp_all add: c2_def schedule_inv_def)
  define d where "d = max (1/20) (i * backoff_multiplier c2 * jitter_factor c2 u)"
  note run = assms(2) [unfolded record_round_run [OF c2_def assms(3) d_def]]
  have i: "0 < i" and "delay = d" and next_due: "sc_next_due c' = now + delay"
    using run by (auto split: if_splits)
  then have delay: "delay = max (1/20) (i * backoff_multiplier c2 * jitter_factor c2 u)" by (simp only: d_def)
  note b = product_bounds [OF i multiplier_bounds [OF inv] jitter_bounds [OF inv, of u], unfolded same]
  have "1/20 \<le> delay" unfolding delay by (rule max.cobounded1)
  moreover have "i * (1 - sc_jitter c) \<le> delay" unfolding delay using b(1) same(3) by (intro max.coboundedI2) simp
  moreover have "delay \<le> max (1/20) (i * sc_max_backoff c * (1 + sc_jitter c))"
    unfolding delay using b(2) same(3) by (intro max.mono) simp_all
  ultimately show ?thesis using next_due by (simp add: due_def)
qed

text \<open>\<open>n\<close> idle rounds in a row.\<close>

definition idle_rounds :: "rat \<Rightarrow> rat \<Rightarrow> nat \<Rightarrow> schedule \<Rightarrow> schedule" where
  "idle_rounds u now n c = ((\<lambda>c. fst (record_round u now False None c)) ^^ n) c"

lemma idle_rounds_fields:
  assumes "schedule_inv c" and "sc_idle_rounds c = 0" and "n \<le> 1000000"
  shows "sc_base_interval (idle_rounds u now n c) = sc_base_interval c \<and> sc_jitter (idle_rounds u now n c) = sc_jitter c
    \<and> sc_max_backoff (idle_rounds u now n c) = sc_max_backoff c \<and> sc_idle_rounds (idle_rounds u now n c) = int n"
  using assms(3)
proof (induction n)
  case (Suc n)
  then show ?case using assms(1)
    by (auto simp: idle_rounds_def record_round_def Let_def schedule_inv_def)
qed (simp add: idle_rounds_def assms(2))

text \<open>
  The backoff.  From a fresh or just active schedule, the delay of the n-th idle round in a row is
  the interval times the jitter factor times the smaller of the backoff limit and two to the power
  n - 1 (at most 2 to the 30), so it never shrinks while the schedule stays idle; a round with activity
  starts again at the unmultiplied delay.
\<close>

theorem idle_backoff:
  assumes "schedule_inv c" and "sc_idle_rounds c = 0" and "n < 1000000"
  shows "sc_last_delay (idle_rounds u now (Suc n) c)
      = max (1/20) (sc_base_interval c * min (sc_max_backoff c) (2 ^ min n 30) * jitter_factor c u)
    \<and> snd (record_round u t True None (idle_rounds u now n c)) = Inr (max (1/20) (sc_base_interval c * jitter_factor c u))
    \<and> (0 < n \<longrightarrow> sc_last_delay (idle_rounds u now n c) \<le> sc_last_delay (idle_rounds u now (Suc n) c))"
proof -
  have delay: "sc_last_delay (idle_rounds u now (Suc m) c)
      = max (1/20) (sc_base_interval c * min (sc_max_backoff c) (2 ^ min m 30) * jitter_factor c u)" if "m < 1000000" for m
  proof -
    note f = idle_rounds_fields [OF assms(1,2), of m u now]
    have "nat (min (max 0 (int m + 1 - 1)) 30) = min m 30" by simp
    then show ?thesis using f that assms(1)
      by (simp add: idle_rounds_def record_round_def Let_def schedule_inv_def backoff_multiplier_def jitter_factor_def)
  qed
  moreover have "snd (record_round u t True None (idle_rounds u now n c)) = Inr (max (1/20) (sc_base_interval c * jitter_factor c u))"
    using idle_rounds_fields [OF assms(1,2), of n u now] assms
    by (simp add: record_round_def Let_def schedule_inv_def backoff_multiplier_def jitter_factor_def)
  moreover have "sc_last_delay (idle_rounds u now n c) \<le> sc_last_delay (idle_rounds u now (Suc n) c)" if pos: "0 < n"
  proof -
    obtain m where n: "n = Suc m" using pos by (cases n) simp_all
    with assms(3) have m: "m < 1000000" by simp
    have "(2::rat) ^ min m 30 \<le> 2 ^ min (Suc m) 30" by (rule power_increasing) auto
    then have "min (sc_max_backoff c) (2 ^ min m 30) \<le> min (sc_max_backoff c) (2 ^ min n 30)"
      unfolding n by (rule min.mono [OF order_refl])
    moreover have "0 < sc_base_interval c" "0 \<le> jitter_factor c u"
      using jitter_bounds(1) [OF assms(1), of u] assms(1) by (simp_all add: schedule_inv_def)
    ultimately have "sc_base_interval c * min (sc_max_backoff c) (2 ^ min m 30) * jitter_factor c u
        \<le> sc_base_interval c * min (sc_max_backoff c) (2 ^ min n 30) * jitter_factor c u"
      by (intro mult_right_mono mult_left_mono) simp_all
    then show ?thesis unfolding delay [OF assms(3)] delay [OF m, folded n] by (rule max.mono [OF order_refl])
  qed
  ultimately show ?thesis using assms(3) by blast
qed

section \<open>Examples\<close>

definition demo_schedule :: schedule where
  "demo_schedule = \<lparr>sc_base_interval = 2, sc_jitter = 1/4, sc_max_backoff = 4, sc_idle_rounds = 0,
     sc_next_due = 0, sc_last_delay = 0\<rparr>"

lemma demo_schedule_inv: "schedule_inv demo_schedule" "sc_idle_rounds demo_schedule = 0"
  by (simp_all add: schedule_inv_def demo_schedule_def)

theorem record_round_bounds_witness:
  "\<exists>c' delay. record_round (1/2) 10 False None demo_schedule = (c', Inr delay) \<and> 3/2 \<le> delay \<and> delay \<le> 10"
proof -
  obtain c' delay where r: "record_round (1/2) 10 False None demo_schedule = (c', Inr delay)"
    by (simp add: record_round_def demo_schedule_def Let_def)
  from record_round_bounds [OF demo_schedule_inv(1) r refl] r show ?thesis by (simp add: demo_schedule_def)
qed

theorem idle_backoff_witness: "sc_last_delay (idle_rounds (1/2) 10 3 demo_schedule) = 8"
  using idle_backoff [OF demo_schedule_inv, of 2 "1/2" 10 0]
  by (simp add: demo_schedule_def jitter_factor_def numeral_3_eq_3)

end
