(* ===== verification/Locator.thy ===== *)
theory Locator
  imports Agent_Protocol "HOL-Library.Multiset"
begin

text \<open>
  \<open>locator.py\<close>: transport addresses of the form
  \<open>tls://host:port?scope=lan&zone=...&priority=...\<close>.  The functions of \<open>urllib.parse\<close> it uses,
  \<open>urlsplit\<close> and \<open>parse_qsl\<close>, are modelled on Latin-1 text; the check of a bracketed (IPv6) host
  differs between releases of that library and is the argument \<open>brackets\<close>.
\<close>

section \<open>urllib.parse\<close>

text \<open>\<open>s.partition(c)\<close> and \<open>s.rpartition(c)\<close>, the separator as a flag.\<close>

definition partition :: "char \<Rightarrow> string \<Rightarrow> string \<times> bool \<times> string" where
  "partition c s = (case split_at (\<lambda>x. x = c) s of
     (a, None) \<Rightarrow> (a, False, []) | (a, Some b) \<Rightarrow> (a, True, b))"

definition rpartition :: "char \<Rightarrow> string \<Rightarrow> string \<times> bool \<times> string" where
  "rpartition c s = (case partition c (rev s) of (b, found, a) \<Rightarrow> (rev a, found, rev b))"

record url =
  scheme :: string
  netloc :: string
  path :: string
  query :: string
  fragment :: string

definition scheme_char :: "char \<Rightarrow> bool" where
  "scheme_char c = (is_lower c \<or> is_upper c \<or> is_digit c \<or> c = CHR ''+'' \<or> c = CHR ''-'' \<or> c = CHR ''.'')"

definition split_scheme :: "string \<Rightarrow> string \<times> string" where
  "split_scheme u = (case partition (CHR '':'') u of (a, found, b) \<Rightarrow>
     if found \<and> a \<noteq> [] \<and> (is_lower (hd a) \<or> is_upper (hd a)) \<and> list_all scheme_char a
     then (lower a, b) else ([], u))"

definition split_netloc :: "string \<Rightarrow> string \<times> string" where
  "split_netloc u =
     (if starts_with u ''//''
      then (let ends = (\<lambda>c. c = CHR ''/'' \<or> c = CHR ''?'' \<or> c = CHR ''#'')
            in (takeWhile (\<lambda>c. \<not> ends c) (drop 2 u), dropWhile (\<lambda>c. \<not> ends c) (drop 2 u)))
      else ([], u))"

definition urlsplit :: "(string \<Rightarrow> bool) \<Rightarrow> string \<Rightarrow> exn + url" where
  "urlsplit brackets text =
     (let u = filter (\<lambda>c. code c \<notin> {9, 10, 13}) (dropWhile (\<lambda>c. code c \<le> 32) text);
          (sch, u1) = split_scheme u;
          (net, u2) = split_netloc u1;
          opens = (CHR ''['' \<in> set net); closes = (CHR '']'' \<in> set net)
      in if opens \<noteq> closes \<or> (opens \<and> \<not> brackets net) then Inl (ValueError ''Invalid IPv6 URL'')
         else let (u3, _, frag) = partition (CHR ''#'') u2;
                  (u4, _, qs) = partition (CHR ''?'') u3
              in Inr \<lparr>scheme = sch, netloc = net, path = u4, query = qs, fragment = frag\<rparr>)"

text \<open>The properties of the split result: user name and password, host and port text.\<close>

definition has_userinfo :: "url \<Rightarrow> bool" where
  "has_userinfo u = fst (snd (rpartition (CHR ''@'') (netloc u)))"

definition hostinfo :: "url \<Rightarrow> string \<times> string" where
  "hostinfo u =
     (let (_, _, info) = rpartition (CHR ''@'') (netloc u);
          (_, open_br, bracketed) = partition (CHR ''['') info
      in if open_br
         then let (host, _, rest) = partition (CHR '']'') bracketed;
                  (_, _, port) = partition (CHR '':'') rest in (host, port)
         else let (host, _, port) = partition (CHR '':'') info in (host, port))"

definition hostname :: "url \<Rightarrow> string" where
  "hostname u = (let (host, found, zone) = partition (CHR ''%'') (fst (hostinfo u))
     in lower host @ (if found then [CHR ''%''] else []) @ zone)"

text \<open>\<open>None\<close> inside the result is a missing port.\<close>

definition port_of :: "url \<Rightarrow> exn + int option" where
  "port_of u =
     (let p = snd (hostinfo u)
      in if p = [] then Inr None
         else if \<not> list_all is_digit p then Inl (ValueError ''Port could not be cast to integer value'')
         else case parse_digits 0 False p of
                None \<Rightarrow> Inl (ValueError ''Port could not be cast to integer value'')
              | Some n \<Rightarrow> if n \<le> 65535 then Inr (Some n) else Inl (ValueError ''Port out of range 0-65535''))"

fun split_on :: "char \<Rightarrow> string \<Rightarrow> string list" where
  "split_on c [] = [[]]"
| "split_on c (x # xs) = (if x = c then [] # split_on c xs
     else (case split_on c xs of [] \<Rightarrow> [[x]] | w # ws \<Rightarrow> (x # w) # ws))"

text \<open>
  \<open>unquote\<close>.  Escaped octets form UTF-8 text: two-octet sequences of Latin-1 characters are decoded,
  every other octet above 127 gives one character \<open>ff\<close> in place of the replacement character or of a
  character outside Latin-1.
\<close>

fun unquote :: "string \<Rightarrow> (nat \<times> bool) list" where
  "unquote (c # h # l # cs) =
     (case (c = CHR ''%'', hex_value h, hex_value l) of
        (True, Some a, Some b) \<Rightarrow> (16 * a + b, True) # unquote cs
      | _ \<Rightarrow> (code c, False) # unquote (h # l # cs))"
| "unquote (c # cs) = (code c, False) # unquote cs"
| "unquote [] = []"

fun decode_octets :: "(nat \<times> bool) list \<Rightarrow> string" where
  "decode_octets ((a, True) # (b, True) # rest) =
     (if a < 128 then char_of a # decode_octets ((b, True) # rest)
      else if a \<in> {194, 195} \<and> 128 \<le> b \<and> b < 192
      then char_of ((a mod 32) * 64 + b mod 64) # decode_octets rest
      else char_of (255 :: nat) # decode_octets ((b, True) # rest))"
| "decode_octets ((a, e) # rest) =
     (if e \<and> 128 \<le> a then char_of (255 :: nat) else char_of a) # decode_octets rest"
| "decode_octets [] = []"

definition unquote_plus :: "string \<Rightarrow> string" where
  "unquote_plus s = decode_octets (unquote (map (\<lambda>c. if c = CHR ''+'' then CHR '' '' else c) s))"

text \<open>\<open>parse_qsl(query, keep_blank_values=True, strict_parsing=True)\<close>\<close>

definition query_field :: "string \<Rightarrow> exn + string \<times> string" where
  "query_field s = (case partition (CHR ''='') s of (k, found, v) \<Rightarrow>
     if found then Inr (unquote_plus k, unquote_plus v) else Inl (ValueError ''bad query field''))"

definition parse_qsl :: "string \<Rightarrow> exn + (string \<times> string) list" where
  "parse_qsl qs = (if qs = [] then Inr [] else map_result query_field (split_on (CHR ''&'') qs))"

section \<open>Locators\<close>

record locator =
  lo_raw :: string
  lo_host :: string
  lo_port :: int
  lo_scope :: string
  lo_zone :: string
  lo_priority :: int

text \<open>\<open>[A-Za-z0-9_-]{8,64}\<close>\<close>

definition zone_char :: "char \<Rightarrow> bool" where
  "zone_char c = (is_lower c \<or> is_upper c \<or> is_digit c \<or> c = CHR ''_'' \<or> c = CHR ''-'')"

definition zone_match :: "string \<Rightarrow> bool" where
  "zone_match z = (8 \<le> length z \<and> length z \<le> 64 \<and> list_all zone_char z)"

definition locator_context :: "locator \<Rightarrow> string" where
  "locator_context l = (if lo_scope l \<in> {''host'', ''lan''} then lo_scope l @ '':'' @ lo_zone l else '''')"

definition is_usable :: "string list \<Rightarrow> locator \<Rightarrow> bool" where
  "is_usable contexts l = (locator_context l = '''' \<or> locator_context l \<in> set contexts)"

definition validate_locator_context :: "string \<Rightarrow> exn + string" where
  "validate_locator_context text =
     (case partition (CHR '':'') (strip text) of (scope, found, zone) \<Rightarrow>
        if \<not> found then Inl (ValueError ''locator context must be host:<zone> or lan:<zone>'')
        else if scope \<notin> {''host'', ''lan''} \<or> \<not> zone_match zone
        then Inl (ValueError ''locator context must use host/lan and an 8-64 character opaque zone'')
        else Inr (scope @ '':'' @ zone))"

text \<open>The loop over the query parameters: known names, each at most once.\<close>

fun locator_params :: "(string \<times> string) list \<Rightarrow> (string \<times> string) list \<Rightarrow> exn + (string \<times> string) list" where
  "locator_params [] values = Inr values"
| "locator_params ((k, v) # pairs) values =
     (if k \<notin> {''scope'', ''zone'', ''priority''} then Inl (ValueError (''unsupported locator parameter: '' @ k))
      else if map_of values k \<noteq> None then Inl (ValueError (''duplicate locator parameter: '' @ k))
      else locator_params pairs (values @ [(k, v)]))"

definition value_or :: "string \<Rightarrow> (string \<times> string) list \<Rightarrow> string \<Rightarrow> string" where
  "value_or dflt values k = (case map_of values k of None \<Rightarrow> dflt | Some v \<Rightarrow> v)"

definition scoped_locator :: "string \<Rightarrow> string \<Rightarrow> int \<Rightarrow> (string \<times> string) list \<Rightarrow> exn + locator" where
  "scoped_locator text host port values =
     (let scope = value_or '''' values ''scope''; zone = value_or '''' values ''zone''
      in if scope \<notin> {''host'', ''lan'', ''wan''}
         then Inl (ValueError ''scoped locator requires scope=host, lan, or wan'')
         else if scope \<noteq> ''wan'' \<and> \<not> zone_match zone
         then Inl (ValueError ''host/lan locator requires an 8-64 character opaque zone'')
         else if scope = ''wan'' \<and> zone \<noteq> '''' then Inl (ValueError ''wan locator must not include a zone'')
         else case int_of_text (value_or ''100'' values ''priority'') of
                Inl _ \<Rightarrow> Inl (ValueError ''locator priority must be an integer'')
              | Inr p \<Rightarrow>
                  if 0 \<le> p \<and> p \<le> 10000
                  then Inr \<lparr>lo_raw = text, lo_host = host, lo_port = port, lo_scope = scope, lo_zone = zone, lo_priority = p\<rparr>
                  else Inl (ValueError ''locator priority must be between 0 and 10000''))"

text \<open>The endpoint: scheme, host and port of the address, without credentials, path or fragment.\<close>

definition locator_endpoint :: "string \<Rightarrow> url \<Rightarrow> exn + string \<times> int" where
  "locator_endpoint address u =
     (if scheme u \<notin> {''tls'', ''tcp+tls''} then Inl (ValueError (''unsupported transport address: '' @ address))
      else if hostname u = [] then Inl (ValueError (''address must include host and port: '' @ address))
      else case port_of u of
        Inl _ \<Rightarrow> Inl (ValueError (''address contains an invalid port: '' @ address))
      | Inr None \<Rightarrow> Inl (ValueError (''address must include host and port: '' @ address))
      | Inr (Some port) \<Rightarrow>
          if \<not> (1 \<le> port \<and> port \<le> 65535) then Inl (ValueError (''address must include host and port: '' @ address))
          else if has_userinfo u then Inl (ValueError ''transport address must not contain credentials'')
          else if path u \<notin> {[], ''/''} \<or> fragment u \<noteq> []
          then Inl (ValueError ''transport address must not contain a path or fragment'')
          else Inr (hostname u, port))"

definition parse_locator :: "(string \<Rightarrow> bool) \<Rightarrow> string \<Rightarrow> exn + locator" where
  "parse_locator brackets address =
     (let text = strip address
      in and_then (urlsplit brackets text) (\<lambda>u.
         and_then (locator_endpoint address u) (\<lambda>(host, port).
         and_then (parse_qsl (query u)) (\<lambda>pairs.
         and_then (locator_params pairs []) (\<lambda>values.
           if values = []
           then Inr \<lparr>lo_raw = text, lo_host = host, lo_port = port, lo_scope = ''legacy'', lo_zone = '''', lo_priority = 100\<rparr>
           else scoped_locator text host port values)))))"

definition scope_order :: "string \<Rightarrow> int" where
  "scope_order s = (if s = ''host'' then 0 else if s = ''lan'' then 1 else if s = ''legacy'' then 2 else 3)"

definition usable_locators :: "(string \<Rightarrow> bool) \<Rightarrow> string list \<Rightarrow> string list \<Rightarrow> exn + locator list" where
  "usable_locators brackets addresses contexts =
     and_then (map_result (parse_locator brackets) addresses) (\<lambda>ls.
       Inr (sort_key (\<lambda>l. (lo_priority l, scope_order (lo_scope l), lo_raw l)) (filter (is_usable contexts) ls)))"

section \<open>What an accepted locator is\<close>

definition locator_ok :: "locator \<Rightarrow> bool" where
  "locator_ok l = (lo_host l \<noteq> [] \<and> 1 \<le> lo_port l \<and> lo_port l \<le> 65535
     \<and> 0 \<le> lo_priority l \<and> lo_priority l \<le> 10000
     \<and> lo_scope l \<in> {''host'', ''lan'', ''legacy'', ''wan''}
     \<and> (if lo_scope l \<in> {''host'', ''lan''} then zone_match (lo_zone l) else lo_zone l = ''''))"

lemma locator_endpoint_Inr:
  "locator_endpoint a u = Inr (h, p) \<Longrightarrow> h \<noteq> [] \<and> 1 \<le> p \<and> p \<le> 65535 \<and> \<not> has_userinfo u"
  by (auto simp: locator_endpoint_def split: sum.splits option.splits if_splits)

lemma scoped_locator_ok:
  "scoped_locator t h p vs = Inr l \<Longrightarrow> h \<noteq> [] \<Longrightarrow> 1 \<le> p \<Longrightarrow> p \<le> 65535 \<Longrightarrow> locator_ok l \<and> lo_raw l = t"
  by (auto simp: scoped_locator_def locator_ok_def Let_def split: sum.splits if_splits)

text \<open>
  Whatever text is accepted as an address, the locator has a host, a port between 1 and 65535 and
  a priority between 0 and 10000; a host or LAN locator carries an opaque zone and no other locator
  carries one, and the text is kept without surrounding white space.
\<close>

theorem parse_locator_type:
  assumes "parse_locator brackets address = Inr l"
  shows "locator_ok l \<and> lo_raw l = strip address"
proof -
  obtain u h p where "locator_endpoint address u = Inr (h, p)"
    and l: "\<exists>vs. (if vs = [] then Inr \<lparr>lo_raw = strip address, lo_host = h, lo_port = p, lo_scope = ''legacy'',
        lo_zone = '''', lo_priority = 100\<rparr> else scoped_locator (strip address) h p vs) = Inr l"
    using assms by (auto simp: parse_locator_def Let_def split: if_splits) metis+
  from locator_endpoint_Inr [OF this(1)] l scoped_locator_ok [of "strip address" h p] show ?thesis
    by (auto simp: locator_ok_def split: if_splits)
qed

theorem parse_locator_type_witness:
  "\<exists>l. parse_locator (\<lambda>_. True) ''tls://example.org:4242'' = Inr l \<and> locator_ok l"
proof -
  have "parse_locator (\<lambda>_. True) ''tls://example.org:4242'' = Inr \<lparr>lo_raw = ''tls://example.org:4242'',
      lo_host = ''example.org'', lo_port = 4242, lo_scope = ''legacy'', lo_zone = '''', lo_priority = 100\<rparr>"
    by code_simp
  with parse_locator_type show ?thesis by blast
qed

section \<open>The usable locators\<close>

lemma map_result_Inr: "map_result f xs = Inr ys \<Longrightarrow> map (\<lambda>x. Inr x) ys = map f xs"
  by (induction xs arbitrary: ys) auto

text \<open>
  The usable locators of a peer are those of its addresses that are unscoped, wide-area or in one of
  this node's own contexts, each as often as it is listed, ordered by priority, then scope, then text.
\<close>

theorem usable_locators_correct:
  assumes "usable_locators brackets addresses contexts = Inr ls"
  shows "sorted (map (\<lambda>l. (lo_priority l, scope_order (lo_scope l), lo_raw l)) ls)
    \<and> (\<exists>all. map Inr all = map (parse_locator brackets) addresses \<and> mset ls = mset (filter (is_usable contexts) all))
    \<and> (\<forall>l\<in>set ls. lo_scope l \<in> {''host'', ''lan''} \<longrightarrow> lo_scope l @ '':'' @ lo_zone l \<in> set contexts)"
proof -
  obtain all where a: "map_result (parse_locator brackets) addresses = Inr all"
    and ls: "ls = sort_key (\<lambda>l. (lo_priority l, scope_order (lo_scope l), lo_raw l)) (filter (is_usable contexts) all)"
    using assms by (auto simp: usable_locators_def)
  have "\<exists>all. map Inr all = map (parse_locator brackets) addresses \<and> mset ls = mset (filter (is_usable contexts) all)"
    using map_result_Inr [OF a] ls by (metis mset_sort)
  moreover have "\<forall>l\<in>set ls. lo_scope l \<in> {''host'', ''lan''} \<longrightarrow> lo_scope l @ '':'' @ lo_zone l \<in> set contexts"
    by (auto simp: ls is_usable_def locator_context_def)
  ultimately show ?thesis by (simp add: ls)
qed

theorem usable_locators_witness:
  "\<exists>ls. usable_locators (\<lambda>_. True) [''tls://a.b:42'', ''tls://c.d:43?scope=lan&zone=sharedLan1''] [''lan:sharedLan1''] = Inr ls
     \<and> length ls = 2 \<and> sorted (map (\<lambda>l. (lo_priority l, scope_order (lo_scope l), lo_raw l)) ls)"
proof -
  have "(case usable_locators (\<lambda>_. True) [''tls://a.b:42'', ''tls://c.d:43?scope=lan&zone=sharedLan1''] [''lan:sharedLan1'']
      of Inl _ \<Rightarrow> False | Inr ls \<Rightarrow> length ls = 2)" by code_simp
  then obtain ls where "usable_locators (\<lambda>_. True) [''tls://a.b:42'', ''tls://c.d:43?scope=lan&zone=sharedLan1''] [''lan:sharedLan1''] = Inr ls"
    "length ls = 2" by (auto split: sum.splits)
  with usable_locators_correct show ?thesis by blast
qed

section \<open>Canonical text of a locator\<close>

text \<open>The text a scoped locator is written as, and the characters of its host.\<close>

definition locator_text :: "string \<Rightarrow> int \<Rightarrow> string \<Rightarrow> string \<Rightarrow> int \<Rightarrow> string" where
  "locator_text host port scope zone priority =
     ''tls://'' @ host @ '':'' @ text_of_int port @ ''?scope='' @ scope @ ''&zone='' @ zone
       @ ''&priority='' @ text_of_int priority"

definition plain_char :: "char \<Rightarrow> bool" where
  "plain_char c = (zone_char c \<or> c = CHR ''.'')"

lemma plain_char_code:
  "plain_char c \<longleftrightarrow> (let n = code c in (97 \<le> n \<and> n \<le> 122) \<or> (65 \<le> n \<and> n \<le> 90) \<or> (48 \<le> n \<and> n \<le> 57)
     \<or> n = 95 \<or> n = 45 \<or> n = 46)"
proof -
  have "c = CHR ''_'' \<longleftrightarrow> code c = 95" "c = CHR ''-'' \<longleftrightarrow> code c = 45" "c = CHR ''.'' \<longleftrightarrow> code c = 46"
    by (simp_all add: code_def of_char_eq_iff [symmetric, where ?'a = nat] del: of_char_eq_iff)
  then show ?thesis
    by (simp add: plain_char_def zone_char_def is_lower_def is_upper_def is_digit_def Let_def disj_ac)
qed

definition plain_text :: "string \<Rightarrow> bool" where
  "plain_text s = list_all plain_char s"

lemma reserved_chars:
  "\<not> plain_char (CHR '':'')" "\<not> plain_char (CHR ''/'')" "\<not> plain_char (CHR ''?'')" "\<not> plain_char (CHR ''#'')"
  "\<not> plain_char (CHR ''@'')" "\<not> plain_char (CHR ''['')" "\<not> plain_char (CHR '']'')" "\<not> plain_char (CHR ''%'')"
  "\<not> plain_char (CHR ''&'')" "\<not> plain_char (CHR ''='')" "\<not> plain_char (CHR ''+'')"
  by (simp_all add: plain_char_code code_def)

lemma plain_text_free: "plain_text s \<Longrightarrow> \<not> plain_char c \<Longrightarrow> c \<notin> set s"
  by (auto simp: plain_text_def list_all_iff)

lemma plain_text_append [simp]: "plain_text (a @ b) \<longleftrightarrow> plain_text a \<and> plain_text b" "plain_text []"
  by (simp_all add: plain_text_def)

lemma plain_char_visible: "plain_char c \<Longrightarrow> 32 < code c \<and> code c < 128"
  by (auto simp: plain_char_code Let_def)

lemma zone_plain: "zone_match z \<Longrightarrow> plain_text z"
  by (auto simp: zone_match_def plain_text_def plain_char_def list_all_iff)

lemma scope_plain: "s \<in> {''host'', ''lan''} \<Longrightarrow> plain_text s"
  by (auto simp: plain_text_def plain_char_code code_def)

subsection \<open>Decimal text\<close>

lemma digit_of_nat: "n < 10 \<Longrightarrow> is_digit (char_of (48 + n)) \<and> digit_value (char_of (48 + n)) = int n"
  by (simp add: is_digit_def digit_value_def code_char_of Let_def)

lemma text_of_nat_digits: "list_all is_digit (text_of_nat n) \<and> text_of_nat n \<noteq> []"
  by (induction n rule: text_of_nat.induct) (subst (1 2) text_of_nat.simps, auto simp: digit_of_nat)

lemma parse_digits_append:
  "list_all is_digit a \<Longrightarrow> a \<noteq> [] \<Longrightarrow> parse_digits k p (a @ b) = parse_digits (fold (\<lambda>c v. v * 10 + digit_value c) a k) True b"
  by (induction a arbitrary: k p) (simp_all, metis append_Nil fold_simps(1) id_apply)

lemma fold_text_of_nat: "fold (\<lambda>c v. v * 10 + digit_value c) (text_of_nat n) 0 = int n"
proof (induction n rule: text_of_nat.induct)
  case (1 n)
  have "int (n div 10) * 10 + int (n mod 10) = int n" by (metis div_mult_mod_eq of_nat_add of_nat_mult of_nat_numeral)
  with 1 show ?case by (subst text_of_nat.simps) (auto simp: digit_of_nat)
qed

lemma parse_digits_text: "parse_digits 0 False (text_of_nat n) = Some (int n)"
  using parse_digits_append [of "text_of_nat n" 0 False "[]"] by (simp add: text_of_nat_digits fold_text_of_nat)

lemma digit_plain: "is_digit c \<Longrightarrow> plain_char c"
  by (simp add: plain_char_def zone_char_def)

lemma text_of_nat_plain: "plain_text (text_of_nat n)"
  using text_of_nat_digits [of n] by (auto simp: plain_text_def list_all_iff digit_plain)

lemma plain_not_space: "plain_char c \<Longrightarrow> \<not> py_space c \<and> \<not> int_space c"
  using plain_char_visible [of c] by (auto simp: py_space_def int_space_def Let_def)

lemma int_of_text_nat: "int_of_text (text_of_nat n) = Inr (int n)"
proof -
  obtain c cs where t: "text_of_nat n = c # cs" using text_of_nat_digits [of n] by (cases "text_of_nat n") auto
  then have c: "is_digit c" using text_of_nat_digits [of n] by simp
  then have "c \<noteq> CHR ''-'' \<and> c \<noteq> CHR ''+''" by (auto simp: is_digit_def code_def)
  moreover have "dropWhile int_space (text_of_nat n) = text_of_nat n" "dropWhile int_space (rev (text_of_nat n)) = rev (text_of_nat n)"
    using text_of_nat_digits [of n] by (auto simp: dropWhile_eq_self_iff list_all_iff digit_plain plain_not_space hd_rev)
  ultimately show ?thesis using parse_digits_text [of n] by (simp add: int_of_text_def t)
qed

subsection \<open>Splitting\<close>

lemma partition_found: "c \<notin> set a \<Longrightarrow> partition c (a @ c # b) = (a, True, b)"
proof -
  assume "c \<notin> set a"
  then have "split_at (\<lambda>x. x = c) (a @ c # b) = (a, Some b)" by (induction a) auto
  then show ?thesis by (simp add: partition_def)
qed

lemma partition_none: "c \<notin> set a \<Longrightarrow> partition c a = (a, False, [])"
proof -
  assume "c \<notin> set a"
  then have "split_at (\<lambda>x. x = c) a = (a, None)" by (induction a) auto
  then show ?thesis by (simp add: partition_def)
qed

lemma rpartition_none: "c \<notin> set a \<Longrightarrow> rpartition c a = ([], False, a)"
  by (simp add: rpartition_def partition_none)

lemma split_on_none: "c \<notin> set a \<Longrightarrow> split_on c a = [a]"
  by (induction a) auto

lemma split_on_found: "c \<notin> set a \<Longrightarrow> split_on c (a @ c # b) = a # split_on c b"
  by (induction a) auto

lemma unquote_plain: "CHR ''%'' \<notin> set s \<Longrightarrow> unquote s = map (\<lambda>c. (code c, False)) s"
  by (induction s rule: unquote.induct) auto

lemma decode_raw: "decode_octets (map (\<lambda>c. (code c, False)) s) = s"
  by (induction s) auto

lemma unquote_plus_plain: "plain_text s \<Longrightarrow> unquote_plus s = s"
proof -
  assume s: "plain_text s"
  have "map (\<lambda>c. if c = CHR ''+'' then CHR '' '' else c) s = s"
    using plain_text_free [OF s reserved_chars(11)] by (auto intro: map_idI)
  then show ?thesis using plain_text_free [OF s reserved_chars(8)] by (simp add: unquote_plus_def unquote_plain decode_raw)
qed

lemma query_field_plain:
  "plain_text k \<Longrightarrow> plain_text v \<Longrightarrow> query_field (k @ ''='' @ v) = Inr (k, v)"
  by (simp add: query_field_def partition_found plain_text_free reserved_chars unquote_plus_plain)

subsection \<open>Parsing the canonical text\<close>

text \<open>Host and port as the network location, and the three query fields, as they are written.\<close>

definition endpoint_text :: "string \<Rightarrow> int \<Rightarrow> string" where
  "endpoint_text host port = host @ '':'' @ text_of_int port"

definition query_text :: "string \<Rightarrow> string \<Rightarrow> int \<Rightarrow> string" where
  "query_text scope zone priority =
     (''scope='' @ scope) @ ''&'' @ (''zone='' @ zone) @ ''&'' @ (''priority='' @ text_of_int priority)"

lemma locator_text_parts:
  "locator_text host port scope zone priority =
     ''tls'' @ '':'' @ ''//'' @ endpoint_text host port @ ''?'' @ query_text scope zone priority"
  by (simp add: locator_text_def endpoint_text_def query_text_def)

lemma text_of_int_nat: "0 \<le> i \<Longrightarrow> text_of_int i = text_of_nat (nat i)"
  by (simp add: text_of_int_def)

lemma parse_qsl_query_text:
  assumes "plain_text scope" "plain_text zone" "0 \<le> priority"
  shows "parse_qsl (query_text scope zone priority) =
    Inr [(''scope'', scope), (''zone'', zone), (''priority'', text_of_int priority)]"
proof -
  have p: "plain_text ''scope''" "plain_text ''zone''" "plain_text ''priority''" "plain_text (text_of_int priority)"
    using assms(3) by (simp_all add: text_of_int_nat text_of_nat_plain) (simp_all add: plain_text_def plain_char_code code_def)
  have free: "CHR ''&'' \<notin> set (''scope='' @ scope)" "CHR ''&'' \<notin> set (''zone='' @ zone)"
    "CHR ''&'' \<notin> set (''priority='' @ text_of_int priority)"
    using assms p by (simp_all add: plain_text_free reserved_chars)
  have "split_on (CHR ''&'') (query_text scope zone priority) =
      [''scope='' @ scope, ''zone='' @ zone, ''priority='' @ text_of_int priority]"
    using split_on_found [OF free(1)] split_on_found [OF free(2)] split_on_none [OF free(3)]
    by (simp add: query_text_def)
  moreover have "query_field (''scope='' @ scope) = Inr (''scope'', scope)" "query_field (''zone='' @ zone) = Inr (''zone'', zone)"
    "query_field (''priority='' @ text_of_int priority) = Inr (''priority'', text_of_int priority)"
    using query_field_plain [OF p(1) assms(1)] query_field_plain [OF p(2) assms(2)] query_field_plain [OF p(3,4)] by simp_all
  moreover have "query_text scope zone priority \<noteq> []" by (simp add: query_text_def)
  ultimately show ?thesis by (simp add: parse_qsl_def)
qed

lemma endpoint_text_free:
  assumes "plain_text host" "0 \<le> port" "\<not> plain_char c" "c \<noteq> CHR '':''"
  shows "c \<notin> set (endpoint_text host port)"
  using assms by (auto simp: endpoint_text_def plain_text_free text_of_int_nat text_of_nat_plain)

lemma query_text_free:
  assumes "plain_text scope" "plain_text zone" "0 \<le> priority" "\<not> plain_char c" "c \<notin> {CHR ''&'', CHR ''=''}"
  shows "c \<notin> set (query_text scope zone priority)"
proof -
  have "plain_text ''scope''" "plain_text ''zone''" "plain_text ''priority''"
    by (simp_all add: plain_text_def plain_char_code code_def)
  then have "c \<notin> set ''scope''" "c \<notin> set ''zone''" "c \<notin> set ''priority''" using assms(4) by (blast dest: plain_text_free)+
  with assms show ?thesis by (auto simp: query_text_def plain_text_free text_of_int_nat text_of_nat_plain)
qed

lemma code_literal_colon: "32 < code (CHR '':'')"
  by (simp add: code_def)

lemma endpoint_visible: "plain_text host \<Longrightarrow> 0 \<le> port \<Longrightarrow> c \<in> set (endpoint_text host port) \<Longrightarrow> 32 < code c"
  using text_of_nat_plain [of "nat port"] code_literal_colon
  by (auto simp: endpoint_text_def text_of_int_nat plain_text_def list_all_iff dest: plain_char_visible)

lemma query_visible:
  assumes "plain_text scope" "plain_text zone" "0 \<le> priority" "c \<in> set (query_text scope zone priority)"
  shows "32 < code c"
proof -
  have "\<forall>c \<in> set (''scope='' @ ''&zone='' @ ''&priority=''). 32 < code c" by (simp add: code_def)
  then show ?thesis using assms text_of_nat_plain [of "nat priority"]
    by (auto simp: query_text_def text_of_int_nat plain_text_def list_all_iff dest: plain_char_visible)
qed

lemma visible_clean:
  assumes "\<forall>c \<in> set s. 32 < code c"
  shows "filter (\<lambda>c. code c \<notin> {9, 10, 13}) (dropWhile (\<lambda>c. code c \<le> 32) s) = s"
proof -
  have "dropWhile (\<lambda>c. code c \<le> 32) s = s" using assms by (cases s) auto
  moreover have "filter (\<lambda>c. code c \<notin> {9, 10, 13}) s = s" using assms by (intro filter_True) force
  ultimately show ?thesis by simp
qed

lemma split_netloc_text:
  assumes "CHR ''/'' \<notin> set n" "CHR ''?'' \<notin> set n" "CHR ''#'' \<notin> set n"
  shows "split_netloc (''//'' @ n @ ''?'' @ q) = (n, ''?'' @ q)"
proof -
  have "\<forall>c \<in> set n. \<not> (c = CHR ''/'' \<or> c = CHR ''?'' \<or> c = CHR ''#'')" using assms by auto
  then show ?thesis by (simp add: split_netloc_def starts_with_def takeWhile_append dropWhile_append)
qed

lemma urlsplit_locator_text:
  assumes "plain_text host" "plain_text scope" "plain_text zone" "0 \<le> port" "0 \<le> priority"
  shows "urlsplit brackets (locator_text host port scope zone priority) =
    Inr \<lparr>scheme = ''tls'', netloc = endpoint_text host port, path = [], query = query_text scope zone priority, fragment = []\<rparr>"
proof -
  let ?n = "endpoint_text host port" and ?q = "query_text scope zone priority"
  let ?t = "''tls'' @ '':'' @ ''//'' @ ?n @ ''?'' @ ?q"
  note nf = endpoint_text_free [OF assms(1,4)] and qf = query_text_free [OF assms(2,3,5)]
  have n: "CHR ''/'' \<notin> set ?n" "CHR ''?'' \<notin> set ?n" "CHR ''#'' \<notin> set ?n" "CHR ''['' \<notin> set ?n" "CHR '']'' \<notin> set ?n"
    by (rule nf; simp add: reserved_chars)+
  have q: "CHR ''#'' \<notin> set (''?'' @ ?q)" using qf [of "CHR ''#''"] by (simp add: reserved_chars)
  have "\<forall>c \<in> set ?t. 32 < code c"
    using endpoint_visible [OF assms(1,4)] query_visible [OF assms(2,3,5)] by (auto simp: code_def)
  then have "filter (\<lambda>c. code c \<notin> {9, 10, 13}) (dropWhile (\<lambda>c. code c \<le> 32) ?t) = ?t"
    by (intro visible_clean) blast
  moreover have "split_scheme ?t = (''tls'', ''//'' @ ?n @ ''?'' @ ?q)"
  proof -
    have "partition (CHR '':'') ?t = (''tls'', True, ''//'' @ ?n @ ''?'' @ ?q)"
      using partition_found [of "CHR '':''" "''tls''" "''//'' @ ?n @ ''?'' @ ?q"] by simp
    moreover have "is_lower (hd ''tls'')" "list_all scheme_char ''tls''" "lower ''tls'' = ''tls''" by code_simp+
    ultimately show ?thesis by (simp add: split_scheme_def)
  qed
  moreover have "split_netloc (''//'' @ ?n @ ''?'' @ ?q) = (?n, ''?'' @ ?q)" using n by (intro split_netloc_text)
  moreover have "partition (CHR ''#'') (''?'' @ ?q) = (''?'' @ ?q, False, [])" using q by (rule partition_none)
  moreover have "partition (CHR ''?'') (''?'' @ ?q) = ([], True, ?q)" using partition_found [of "CHR ''?''" "[]" ?q] by simp
  ultimately show ?thesis unfolding locator_text_parts by (simp only: urlsplit_def Let_def n prod.case) simp
qed

lemma endpoint_locator_text:
  assumes "plain_text host" "host \<noteq> []" "lower host = host" "1 \<le> port" "port \<le> 65535"
    and u: "scheme u = ''tls''" "netloc u = endpoint_text host port" "path u = []" "fragment u = []"
  shows "locator_endpoint address u = Inr (host, port)"
proof -
  have "0 \<le> port" using assms(4) by simp
  note nf = endpoint_text_free [OF assms(1) this]
  have "CHR ''@'' \<notin> set (netloc u)" "CHR ''['' \<notin> set (netloc u)" unfolding u by (rule nf; simp add: reserved_chars)+
  moreover have "partition (CHR '':'') (netloc u) = (host, True, text_of_nat (nat port))"
    using partition_found [OF plain_text_free [OF assms(1) reserved_chars(1)]] \<open>0 \<le> port\<close>
    by (simp add: u endpoint_text_def text_of_int_nat)
  ultimately have "hostinfo u = (host, text_of_nat (nat port))" "\<not> has_userinfo u"
    by (simp_all add: hostinfo_def has_userinfo_def rpartition_none partition_none)
  moreover from this(1) have "hostname u = host"
    using assms(1,3) by (simp add: hostname_def partition_none plain_text_free reserved_chars)
  moreover have "port_of u = Inr (Some port)"
    using \<open>hostinfo u = _\<close> assms(4,5) text_of_nat_digits [of "nat port"] by (simp add: port_of_def parse_digits_text)
  ultimately show ?thesis using assms by (simp add: locator_endpoint_def)
qed

text \<open>
  C27: a host or LAN locator written in its canonical form is read back with exactly the host, port,
  scope, zone and priority it was written with.
\<close>

theorem parse_locator_roundtrip:
  assumes "plain_text host" "host \<noteq> []" "lower host = host" "1 \<le> port" "port \<le> 65535"
    and "scope \<in> {''host'', ''lan''}" "zone_match zone" "0 \<le> priority" "priority \<le> 10000"
  shows "parse_locator brackets (locator_text host port scope zone priority) =
    Inr \<lparr>lo_raw = locator_text host port scope zone priority, lo_host = host, lo_port = port, lo_scope = scope,
      lo_zone = zone, lo_priority = priority\<rparr>"
proof -
  let ?t = "locator_text host port scope zone priority"
  let ?vs = "[(''scope'', scope), (''zone'', zone), (''priority'', text_of_int priority)]"
  have sz: "plain_text scope" "plain_text zone" "0 \<le> port"
    using assms(4,6,7) by (simp_all add: scope_plain zone_plain)
  have l: "last ?t = last (text_of_nat (nat priority))" "hd ?t = CHR ''t''"
    using text_of_nat_digits [of "nat priority"] assms(8) by (simp_all add: locator_text_def text_of_int_nat)
  have "plain_char (last (text_of_nat (nat priority)))"
    using text_of_nat_digits [of "nat priority"] by (simp add: list_all_iff digit_plain)
  then have strip: "strip ?t = ?t" 
  proof (intro strip_id disjI2)
    have "\<not> py_space (CHR ''t'')" by code_simp
    with \<open>plain_char _\<close> show "\<not> py_space (hd ?t) \<and> \<not> py_space (last ?t)" by (simp add: l plain_not_space)
  qed
  have params: "locator_params ?vs [] = Inr ?vs" by simp
  have scoped: "scoped_locator ?t host port ?vs = Inr \<lparr>lo_raw = ?t, lo_host = host, lo_port = port, lo_scope = scope,
      lo_zone = zone, lo_priority = priority\<rparr>"
    using assms(6-9) by (auto simp: scoped_locator_def value_or_def text_of_int_nat int_of_text_nat)
  show ?thesis
    by (simp add: parse_locator_def strip urlsplit_locator_text [OF assms(1) sz(1,2,3) assms(8)]
        endpoint_locator_text [OF assms(1-5)] parse_qsl_query_text [OF sz(1,2) assms(8)] params scoped
        del: locator_params.simps)
qed

theorem parse_locator_roundtrip_witness:
  "\<exists>l. parse_locator (\<lambda>_. True) (locator_text ''10.0.0.7'' 4242 ''lan'' ''sharedLan1'' 20) = Inr l \<and> lo_zone l = ''sharedLan1''"
proof -
  have "plain_text ''10.0.0.7''" "lower ''10.0.0.7'' = ''10.0.0.7''" "zone_match ''sharedLan1''" by code_simp+
  with parse_locator_roundtrip [of "''10.0.0.7''" 4242 "''lan''" "''sharedLan1''" 20] show ?thesis by simp
qed

end
