(* ===== verification/Base64.thy ===== *)
theory Base64
  imports Values
begin

text \<open>
  \<open>b64e\<close> and \<open>b64d\<close> of \<open>encoding.py\<close>: URL-safe base 64 without padding.  The decoder of the Python
  library works in its lenient mode: characters outside the alphabet are skipped, and decoding
  stops at a complete padding.
\<close>

section \<open>Operations\<close>

definition b64_char :: "nat \<Rightarrow> char" where
  "b64_char n = (if n < 26 then char_of (65 + n) else if n < 52 then char_of (71 + n)
     else if n < 62 then char_of (n - 4) else if n = 62 then CHR ''-'' else CHR ''_'')"

text \<open>\<open>urlsafe_b64encode(raw).rstrip("=")\<close>\<close>

fun b64e :: "bytes \<Rightarrow> string" where
  "b64e [] = []"
| "b64e [a] = [b64_char (unat a div 4), b64_char (unat a mod 4 * 16)]"
| "b64e [a, b] = [b64_char (unat a div 4), b64_char (unat a mod 4 * 16 + unat b div 16),
     b64_char (unat b mod 16 * 4)]"
| "b64e (a # b # c # rest) =
     [b64_char (unat a div 4), b64_char (unat a mod 4 * 16 + unat b div 16),
      b64_char (unat b mod 16 * 4 + unat c div 64), b64_char (unat c mod 64)] @ b64e rest"

text \<open>The decoding table; \<open>+\<close> and \<open>/\<close> of the standard alphabet are accepted as well.\<close>

definition b64_value :: "char \<Rightarrow> nat option" where
  "b64_value c = (let n = code c in
     if 65 \<le> n \<and> n \<le> 90 then Some (n - 65)
     else if 97 \<le> n \<and> n \<le> 122 then Some (n - 71)
     else if 48 \<le> n \<and> n \<le> 57 then Some (n + 4)
     else if c = CHR ''-'' \<or> c = CHR ''+'' then Some 62
     else if c = CHR ''_'' \<or> c = CHR ''/'' then Some 63 else None)"

text \<open>
  The loop of \<open>binascii.a2b_base64\<close>: the position in the group of four, the bits left over from the
  last character and the number of padding characters in a row.
\<close>

fun b64_scan :: "nat \<Rightarrow> nat \<Rightarrow> nat \<Rightarrow> string \<Rightarrow> exn + bytes" where
  "b64_scan quad left pads [] =
     (if quad = 0 then Inr []
      else if quad = 1 then Inl (ValueError
        ''Invalid base64-encoded string: number of data characters cannot be 1 more than a multiple of 4'')
      else Inl (ValueError ''Incorrect padding''))"
| "b64_scan quad left pads (c # cs) =
     (if c = CHR ''='' then
        (if 2 \<le> quad \<and> 4 \<le> quad + pads + 1 then Inr []
         else b64_scan quad left (if 2 \<le> quad then pads + 1 else pads) cs)
      else (case b64_value c of
          None \<Rightarrow> b64_scan quad left pads cs
        | Some v \<Rightarrow>
            if quad = 0 then b64_scan 1 v 0 cs
            else if quad = 1 then and_then (b64_scan 2 (v mod 16) 0 cs) (\<lambda>bs. Inr (of_nat (left * 4 + v div 16) # bs))
            else if quad = 2 then and_then (b64_scan 3 (v mod 4) 0 cs) (\<lambda>bs. Inr (of_nat (left * 16 + v div 4) # bs))
            else and_then (b64_scan 0 0 0 cs) (\<lambda>bs. Inr (of_nat (left * 64 + v) # bs))))"

definition b64d :: "string \<Rightarrow> exn + bytes" where
  "b64d text =
     (let value = strip text;
          padded = value @ replicate ((4 - length value mod 4) mod 4) (CHR ''='')
      in if list_ex (\<lambda>c. 128 \<le> code c) padded
         then Inl (ValueError ''string argument should contain only ASCII characters'')
         else b64_scan 0 0 0 padded)"

section \<open>The round trip\<close>

lemma code_inject: "code c = code d \<longleftrightarrow> c = d"
  by (simp add: code_def)

lemma code_literals: "code (CHR ''-'') = 45" "code (CHR ''+'') = 43" "code (CHR ''_'') = 95" "code (CHR ''/'') = 47"
  "code (CHR ''='') = 61"
  by (simp_all add: code_def)

lemma literal_codes: "c = CHR ''-'' \<longleftrightarrow> code c = 45" "c = CHR ''+'' \<longleftrightarrow> code c = 43"
  "c = CHR ''_'' \<longleftrightarrow> code c = 95" "c = CHR ''/'' \<longleftrightarrow> code c = 47" "c = CHR ''='' \<longleftrightarrow> code c = 61"
  by (simp_all only: code_inject [symmetric] code_literals)

lemma code_b64_char:
  "n < 64 \<Longrightarrow> code (b64_char n) = (if n < 26 then 65 + n else if n < 52 then 71 + n
     else if n < 62 then n - 4 else if n = 62 then 45 else 95)"
  by (simp add: b64_char_def code_char_of code_literals)

lemma b64_value_code:
  "b64_value c = (
     if 65 \<le> code c \<and> code c \<le> 90 then Some (code c - 65)
     else if 97 \<le> code c \<and> code c \<le> 122 then Some (code c - 71)
     else if 48 \<le> code c \<and> code c \<le> 57 then Some (code c + 4)
     else if code c = 45 \<or> code c = 43 then Some 62 else if code c = 95 \<or> code c = 47 then Some 63 else None)"
  by (simp only: b64_value_def Let_def literal_codes)

lemma b64_value_char: "n < 64 \<Longrightarrow> b64_value (b64_char n) = Some n"
  by (auto simp: b64_value_code code_b64_char)

lemma b64_char_plain:
  assumes "n < 64"
  shows "b64_char n \<noteq> CHR ''=''" "\<not> py_space (b64_char n)" "code (b64_char n) < 128"
proof -
  have c: "45 \<le> code (b64_char n)" "code (b64_char n) < 128" "code (b64_char n) \<noteq> 61"
    using assms by (auto simp: code_b64_char)
  then show "b64_char n \<noteq> CHR ''=''" "\<not> py_space (b64_char n)" "code (b64_char n) < 128"
    by (simp_all only: py_space_def Let_def literal_codes(5)) auto
qed

lemma b64_scan_char:
  "n < 64 \<Longrightarrow> b64_scan quad left pads (b64_char n # cs) =
     (if quad = 0 then b64_scan 1 n 0 cs
      else if quad = 1 then and_then (b64_scan 2 (n mod 16) 0 cs) (\<lambda>bs. Inr (of_nat (left * 4 + n div 16) # bs))
      else if quad = 2 then and_then (b64_scan 3 (n mod 4) 0 cs) (\<lambda>bs. Inr (of_nat (left * 16 + n div 4) # bs))
      else and_then (b64_scan 0 0 0 cs) (\<lambda>bs. Inr (of_nat (left * 64 + n) # bs)))"
  by (simp add: b64_scan.simps(2) b64_value_char b64_char_plain)

declare b64_scan.simps(2) [simp del]

lemma b64_scan_pad:
  "2 \<le> quad \<Longrightarrow> 4 \<le> quad + pads + 1 \<Longrightarrow> b64_scan quad left pads (CHR ''='' # cs) = Inr []"
  "b64_scan 2 left 0 (CHR ''='' # cs) = b64_scan 2 left 1 cs"
  by (simp_all add: b64_scan.simps(2))

lemma sextets:
  fixes a b c :: byte
  shows "unat a div 4 < 64" "unat a mod 4 * 16 < 64" "unat a mod 4 * 16 + unat b div 16 < 64"
    "unat b mod 16 * 4 < 64" "unat b mod 16 * 4 + unat c div 64 < 64" "unat c mod 64 < 64"
proof -
  have "unat a < 256" "unat b < 256" "unat c < 256" by (rule unat_byte_less)+
  then show "unat a div 4 < 64" "unat a mod 4 * 16 < 64" "unat a mod 4 * 16 + unat b div 16 < 64"
    "unat b mod 16 * 4 < 64" "unat b mod 16 * 4 + unat c div 64 < 64" "unat c mod 64 < 64"
    by (linarith | presburger)+
qed

text \<open>The octets come back from their sextets.\<close>

lemma octet1: "y < 16 \<Longrightarrow> x div 4 * 4 + (x mod 4 * 16 + y) div 16 = (x :: nat)"
  by simp

lemma octet2: "b < 256 \<Longrightarrow> y < 4 \<Longrightarrow> (x * 16 + b div 16) mod 16 * 16 + (b mod 16 * 4 + y) div 4 = (b :: nat)"
  by (simp add: mod_simps less_mult_imp_div_less)

lemma octet3: "c < 256 \<Longrightarrow> (x * 4 + c div 64) mod 4 * 64 + c mod 64 = (c :: nat)"
  by (simp add: mod_simps less_mult_imp_div_less)

lemma octets:
  fixes a b c :: byte
  shows "unat a div 4 * 4 + (unat a mod 4 * 16) div 16 = unat a"
    "unat a div 4 * 4 + (unat a mod 4 * 16 + unat b div 16) div 16 = unat a"
    "(unat a mod 4 * 16 + unat b div 16) mod 16 * 16 + (unat b mod 16 * 4) div 4 = unat b"
    "(unat a mod 4 * 16 + unat b div 16) mod 16 * 16 + (unat b mod 16 * 4 + unat c div 64) div 4 = unat b"
    "(unat b mod 16 * 4 + unat c div 64) mod 4 * 64 + unat c mod 64 = unat c"
  using octet1 [of 0 "unat a"] octet1 [of "unat b div 16" "unat a"] octet2 [of "unat b" 0 "unat a mod 4"]
    octet2 [of "unat b" "unat c div 64" "unat a mod 4"] octet3 [of "unat c" "unat b mod 16"]
    unat_byte_less [of b] unat_byte_less [of c]
  by (simp_all only: add_0_right less_mult_imp_div_less [of _ 16 16, simplified] less_mult_imp_div_less [of _ 4 64, simplified] zero_less_numeral simp_thms)

text \<open>One full group, and the two partial ones with their padding.\<close>

lemma b64_scan_group:
  assumes "x < 64" "y < 64" "z < 64" "w < 64"
  shows "b64_scan 0 l p (b64_char x # b64_char y # b64_char z # b64_char w # cs) =
    and_then (b64_scan 0 0 0 cs) (\<lambda>bs. Inr (of_nat (x * 4 + y div 16) # of_nat (y mod 16 * 16 + z div 4) #
      of_nat (z mod 4 * 64 + w) # bs))"
  using assms by (cases "b64_scan 0 0 0 cs") (simp_all add: b64_scan_char del: of_nat_add of_nat_mult)

lemma b64_scan_tail:
  assumes "x < 64" "y < 64" "z < 64"
  shows "b64_scan 0 l p (b64_char x # b64_char y # ''=='') = Inr [of_nat (x * 4 + y div 16)]"
    "b64_scan 0 l p (b64_char x # b64_char y # b64_char z # ''='') =
      Inr [of_nat (x * 4 + y div 16), of_nat (y mod 16 * 16 + z div 4)]"
  using assms by (simp_all add: b64_scan_char b64_scan_pad del: of_nat_add of_nat_mult)

lemma length_b64e: "length (b64e bs) = (4 * length bs + 2) div 3"
  by (induction bs rule: b64e.induct) auto

lemma b64e_alphabet: "c \<in> set (b64e bs) \<Longrightarrow> \<not> py_space c \<and> code c < 128"
  by (induction bs rule: b64e.induct) (auto simp: b64_char_plain sextets)

lemma strip_clean: "(\<And>c. c \<in> set s \<Longrightarrow> \<not> py_space c) \<Longrightarrow> strip s = s"
  unfolding strip_def by (metis dropWhile_eq_self_iff hd_in_set rev_is_Nil_conv rev_rev_ident set_rev)

lemma b64_scan_b64e:
  "b64_scan 0 l p (b64e bs @ replicate ((4 - length (b64e bs) mod 4) mod 4) (CHR ''='')) = Inr bs"
proof (induction bs arbitrary: l p rule: b64e.induct)
  case (2 a)
  have "replicate ((4 - length (b64e [a]) mod 4) mod 4) (CHR ''='') = ''==''" by (simp add: numeral_2_eq_2)
  moreover have "b64_scan 0 l p (b64_char (unat a div 4) # b64_char (unat a mod 4 * 16) # ''=='') = Inr [a]"
    by (simp only: b64_scan_tail(1) [OF sextets(1,2,2)] octets of_nat_unat ucast_id)
  ultimately show ?case by (simp only: b64e.simps append_Cons append_Nil)
next
  case (3 a b)
  then show ?case using b64_scan_tail(2) [OF sextets(1,3,4), of l p a a b b]
    by (simp only: octets of_nat_unat ucast_id b64e.simps) simp
next
  case (4 a b c rest)
  have "length (b64e (a # b # c # rest)) mod 4 = length (b64e rest) mod 4" by simp
  then show ?case using 4
    by (simp only: b64e.simps append_Cons append_Nil b64_scan_group [OF sextets(1,3,5,6)] octets of_nat_unat ucast_id)
      simp
qed simp

theorem b64_roundtrip: "b64d (b64e bs) = Inr bs"
proof -
  have "strip (b64e bs) = b64e bs" by (rule strip_clean) (auto dest: b64e_alphabet)
  moreover have "\<not> list_ex (\<lambda>c. 128 \<le> code c) (b64e bs @ replicate n (CHR ''=''))" for n
    using b64e_alphabet by (force simp: list_ex_iff code_def)
  ultimately show ?thesis by (simp add: b64d_def b64_scan_b64e)
qed

end
