(* ===== verification/Control_Plane.thy ===== *)
theory Control_Plane
  imports Locator Base64
begin

text \<open>
  The signed objects of \<open>control_plane.py\<close>: node descriptors, reachability records, and the grants and
  revocations a human principal issues for devices, with their validation, signing, digests and
  dictionary form.  The fields of the data classes have their declared types, so the \<open>isinstance\<close>
  tests on them have no branch here; values that come in through \<open>from_dict\<close> are dynamic.
\<close>

section \<open>Parameters and constants\<close>

record control_env = crypto +
  net_brackets :: "string \<Rightarrow> bool"

definition NODE_DESCRIPTOR_VERSION :: int where "NODE_DESCRIPTOR_VERSION = 2"
definition REACHABILITY_VERSION :: int where "REACHABILITY_VERSION = 1"
definition HUMAN_DEVICE_GRANT_VERSION :: int where "HUMAN_DEVICE_GRANT_VERSION = 1"
definition HUMAN_DEVICE_REVOCATION_VERSION :: int where "HUMAN_DEVICE_REVOCATION_VERSION = 1"
definition NODE_DESCRIPTOR_TYPE :: string where "NODE_DESCRIPTOR_TYPE = ''anet.node-descriptor.v2''"
definition REACHABILITY_TYPE :: string where "REACHABILITY_TYPE = ''anet.reachability.v1''"
definition HUMAN_DEVICE_GRANT_TYPE :: string where "HUMAN_DEVICE_GRANT_TYPE = ''anet.human-device-grant.v1''"
definition HUMAN_DEVICE_REVOCATION_TYPE :: string where
  "HUMAN_DEVICE_REVOCATION_TYPE = ''anet.human-device-revocation.v1''"
definition GENESIS_DIGEST :: bytes where "GENESIS_DIGEST = replicate 32 0"
definition CONTROL_CLOCK_SKEW_MS :: int where "CONTROL_CLOCK_SKEW_MS = 5 * 60 * 1000"
definition MAX_DESCRIPTOR_TTL_MS :: int where "MAX_DESCRIPTOR_TTL_MS = 366 * 24 * 60 * 60 * 1000"
definition MAX_REACHABILITY_TTL_MS :: int where "MAX_REACHABILITY_TTL_MS = 15 * 60 * 1000"
definition MAX_HUMAN_GRANT_TTL_MS :: int where "MAX_HUMAN_GRANT_TTL_MS = 90 * 24 * 60 * 60 * 1000"
definition MAX_CONTROL_CAPABILITIES :: nat where "MAX_CONTROL_CAPABILITIES = 64"
definition MAX_CANDIDATES :: nat where "MAX_CANDIDATES = 16"
definition MAX_PROTOCOL_VERSIONS :: nat where "MAX_PROTOCOL_VERSIONS = 16"

section \<open>Patterns\<close>

definition is_alnum :: "char \<Rightarrow> bool" where
  "is_alnum c = (is_lower c \<or> is_upper c \<or> is_digit c)"

definition b32_text_char :: "char \<Rightarrow> bool" where
  "b32_text_char c = (is_lower c \<or> (let n = code c in 50 \<le> n \<and> n \<le> 55))"

text \<open>\<open>an1[a-z2-7]{32}\<close>, \<open>hu1[a-z2-7]{32}\<close>\<close>

definition id_match :: "string \<Rightarrow> string \<Rightarrow> bool" where
  "id_match prefix s = (starts_with s prefix \<and> length s = length prefix + 32
     \<and> list_all b32_text_char (drop (length prefix) s))"

text \<open>\<open>[A-Za-z0-9][A-Za-z0-9._+:/-]{0,95}\<close>\<close>

definition token_char :: "char \<Rightarrow> bool" where
  "token_char c = (is_alnum c \<or> c \<in> set ''._+:/-'')"

definition protocol_token :: "string \<Rightarrow> bool" where
  "protocol_token s = token_match is_alnum token_char 95 s"

text \<open>\<open>[a-z][a-z0-9]*(?:[._-][a-z0-9]+)*\<close>: no separator at the end or after another one.\<close>

fun capability_rest :: "bool \<Rightarrow> string \<Rightarrow> bool" where
  "capability_rest separated [] = (\<not> separated)"
| "capability_rest separated (c # cs) =
     (if is_lower c \<or> is_digit c then capability_rest False cs
      else c \<in> set ''._-'' \<and> \<not> separated \<and> capability_rest True cs)"

definition control_capability :: "string \<Rightarrow> bool" where
  "control_capability s = (case s of [] \<Rightarrow> False | c # cs \<Rightarrow> is_lower c \<and> capability_rest False cs)"

text \<open>\<open>[A-Za-z0-9_-]{1,128}\<close>\<close>

definition opaque_match :: "string \<Rightarrow> bool" where
  "opaque_match s = (1 \<le> length s \<and> length s \<le> 128 \<and> list_all zone_char s)"

section \<open>Checks\<close>

fun join_comma :: "string list \<Rightarrow> string" where
  "join_comma [] = []"
| "join_comma [s] = s"
| "join_comma (s # t # ss) = s @ '', '' @ join_comma (t # ss)"

definition require_exact_fields :: "string list \<Rightarrow> pyval \<Rightarrow> exn + pydict" where
  "require_exact_fields required v =
     (case v of
        PDict d \<Rightarrow>
          let missing = filter (\<lambda>k. k \<notin> set (map fst d)) required;
              unknown = filter (\<lambda>k. k \<notin> set required) (map fst d)
          in if missing \<noteq> [] then Inl (ValueError (''control-plane object is missing fields: '' @ join_comma (sort missing)))
             else if unknown \<noteq> [] then Inl (ValueError (''control-plane object has unknown fields: '' @ join_comma (sort unknown)))
             else Inr d
      | _ \<Rightarrow> Inl (ValueError ''control-plane object must be a map''))"

definition check_bytes :: "nat \<Rightarrow> string \<Rightarrow> bytes \<Rightarrow> exn + unit" where
  "check_bytes n name bs = require (length bs = n) (name @ '' must be '' @ text_of_nat n @ '' bytes'')"

definition decode_bytes :: "ext \<Rightarrow> nat \<Rightarrow> string \<Rightarrow> pyval \<Rightarrow> exn + bytes" where
  "decode_bytes E n name v =
     (case b64d (py_str E v) of
        Inl _ \<Rightarrow> Inl (ValueError (''invalid '' @ name))
      | Inr bs \<Rightarrow> and_then (check_bytes n name bs) (\<lambda>_. Inr bs))"

definition parse_int :: "string \<Rightarrow> pyval \<Rightarrow> exn + int" where
  "parse_int name v = (case v of PInt i \<Rightarrow> Inr i | _ \<Rightarrow> Inl (ValueError (name @ '' must be an integer'')))"

definition check_revision_fields :: "int \<Rightarrow> bytes \<Rightarrow> exn + unit" where
  "check_revision_fields sequence previous = checks
     [require (1 \<le> sequence) ''sequence must be a positive integer'',
      check_bytes 32 ''previous digest'' previous,
      require (\<not> (sequence = 1 \<and> previous \<noteq> GENESIS_DIGEST)) ''genesis revision must use the genesis digest'',
      require (\<not> (1 < sequence \<and> previous = GENESIS_DIGEST)) ''non-genesis revision must name its predecessor'']"

definition check_window :: "string \<Rightarrow> int \<Rightarrow> time_ms \<Rightarrow> time_ms \<Rightarrow> time_ms \<Rightarrow> exn + unit" where
  "check_window name max_ttl issued expires now = checks
     [require (\<not> (issued \<le> 0 \<or> expires \<le> issued)) (''invalid '' @ name @ '' validity window''),
      require (expires - issued \<le> max_ttl) (name @ '' validity window is too long''),
      require (issued \<le> now + CONTROL_CLOCK_SKEW_MS) (name @ '' was issued too far in the future''),
      require (now < expires) (name @ '' has expired'')]"

definition check_node_id :: "string \<Rightarrow> exn + unit" where
  "check_node_id s = require (id_match ''an1'' s) ''invalid Anet node id''"

definition check_human_id :: "string \<Rightarrow> exn + unit" where
  "check_human_id s = require (id_match ''hu1'' s) ''invalid Anet human id''"

definition check_label :: "string \<Rightarrow> exn + unit" where
  "check_label s = require (\<not> (64 < length s \<or> list_ex (\<lambda>c. code c < 32) s)) ''invalid node label''"

definition sorted_unique :: "string list \<Rightarrow> string list" where
  "sorted_unique xs = sort (remdups xs)"

definition check_control_capabilities :: "bool \<Rightarrow> string list \<Rightarrow> exn + unit" where
  "check_control_capabilities allow_empty caps = checks
     [require (\<not> ((caps = [] \<and> \<not> allow_empty) \<or> MAX_CONTROL_CAPABILITIES < length caps)) ''capability set has an invalid size'',
      require (caps = sorted_unique caps) ''capabilities must be unique and sorted'',
      require (list_all control_capability caps) ''invalid capability token'']"

definition check_protocol_versions :: "string list \<Rightarrow> exn + unit" where
  "check_protocol_versions vs = checks
     [require (\<not> (vs = [] \<or> MAX_PROTOCOL_VERSIONS < length vs)) ''protocol version set must be non-empty and bounded'',
      require (vs = sorted_unique vs) ''protocol versions must be unique and sorted'',
      require (list_all protocol_token vs) ''invalid protocol version'']"

definition check_candidates :: "(string \<Rightarrow> bool) \<Rightarrow> string list \<Rightarrow> exn + unit" where
  "check_candidates brackets cs = checks
     [require (length cs \<le> MAX_CANDIDATES) ''too many reachability candidates'',
      require (cs = sorted_unique cs) ''reachability candidates must be unique and sorted'',
      and_then (map_result (parse_locator brackets) cs) (\<lambda>_. Inr ())]"

definition object_digest :: "'a crypto_scheme \<Rightarrow> pyval list \<Rightarrow> bytes \<Rightarrow> bytes" where
  "object_digest E fs signature = sha256 E (canonical_pack (ext_of E) (PList (fs @ [PBytes signature])))"

definition derive_human_id :: "'a crypto_scheme \<Rightarrow> bytes \<Rightarrow> exn + string" where
  "derive_human_id E public =
     and_then (check_bytes 32 ''human signing public key'' public) (\<lambda>_.
       Inr (''hu1'' @ b32_groups (blake2s E 20 ''anet-hum'' public)))"

text \<open>The signature test at the end of every \<open>verify\<close>.\<close>

definition check_signature :: "'a crypto_scheme \<Rightarrow> bytes \<Rightarrow> bytes \<Rightarrow> pyval list \<Rightarrow> exn + unit" where
  "check_signature E public signature fs =
     ed_verify E public signature (canonical_pack (ext_of E) (PList fs))"

definition text_list :: "string list \<Rightarrow> pyval" where
  "text_list ss = PList (map PStr ss)"

text \<open>A field that must be a list, and its items as texts.\<close>

definition parse_list :: "string \<Rightarrow> pyval \<Rightarrow> exn + pyval list" where
  "parse_list msg v = (case v of PList vs \<Rightarrow> Inr vs | _ \<Rightarrow> Inl (ValueError msg))"

definition parse_texts :: "ext \<Rightarrow> pyval list \<Rightarrow> string list" where
  "parse_texts E vs = map (py_str E) vs"

section \<open>Node descriptors\<close>

record node_descriptor =
  nd_node_id :: string
  nd_sign_public :: bytes
  nd_box_public :: bytes
  nd_label :: string
  nd_capabilities :: "string list"
  nd_sequence :: int
  nd_previous :: bytes
  nd_issued_ms :: time_ms
  nd_expires_ms :: time_ms
  nd_signature :: bytes
  nd_version :: int
  nd_object_type :: string

definition nd_signing_fields :: "node_descriptor \<Rightarrow> pyval list" where
  "nd_signing_fields d =
     [PInt (nd_version d), PStr (nd_object_type d), PStr (nd_node_id d), PBytes (nd_sign_public d),
      PBytes (nd_box_public d), PStr (nd_label d), text_list (nd_capabilities d), PInt (nd_sequence d),
      PBytes (nd_previous d), PInt (nd_issued_ms d), PInt (nd_expires_ms d)]"

definition nd_digest :: "'a crypto_scheme \<Rightarrow> node_descriptor \<Rightarrow> bytes" where
  "nd_digest E d = object_digest E (nd_signing_fields d) (nd_signature d)"

definition verify_descriptor :: "'a crypto_scheme \<Rightarrow> time_ms \<Rightarrow> node_descriptor \<Rightarrow> exn + unit" where
  "verify_descriptor E now d = checks
     [require (nd_version d = NODE_DESCRIPTOR_VERSION \<and> nd_object_type d = NODE_DESCRIPTOR_TYPE) ''unsupported node descriptor'',
      check_node_id (nd_node_id d),
      check_bytes 32 ''node signing public key'' (nd_sign_public d),
      check_bytes 32 ''node box public key'' (nd_box_public d),
      require (nd_node_id d = derive_node_id E (nd_sign_public d) (nd_box_public d)) ''node descriptor id does not match public keys'',
      check_label (nd_label d),
      check_control_capabilities True (nd_capabilities d),
      check_revision_fields (nd_sequence d) (nd_previous d),
      check_window ''node descriptor'' MAX_DESCRIPTOR_TTL_MS (nd_issued_ms d) (nd_expires_ms d) now,
      check_bytes 64 ''node descriptor signature'' (nd_signature d),
      check_signature E (nd_sign_public d) (nd_signature d) (nd_signing_fields d)]"

definition nd_to_dict :: "node_descriptor \<Rightarrow> pydict" where
  "nd_to_dict d =
     [(''version'', PInt (nd_version d)), (''object_type'', PStr (nd_object_type d)),
      (''node_id'', PStr (nd_node_id d)), (''sign_public'', PStr (b64e (nd_sign_public d))),
      (''box_public'', PStr (b64e (nd_box_public d))), (''label'', PStr (nd_label d)),
      (''capabilities'', text_list (nd_capabilities d)), (''sequence'', PInt (nd_sequence d)),
      (''previous_digest'', PStr (b64e (nd_previous d))), (''issued_ms'', PInt (nd_issued_ms d)),
      (''expires_ms'', PInt (nd_expires_ms d)), (''signature'', PStr (b64e (nd_signature d)))]"

definition nd_fields :: "string list" where
  "nd_fields = [''version'', ''object_type'', ''node_id'', ''sign_public'', ''box_public'', ''label'',
     ''capabilities'', ''sequence'', ''previous_digest'', ''issued_ms'', ''expires_ms'', ''signature'']"

definition nd_from_dict :: "'a crypto_scheme \<Rightarrow> time_ms \<Rightarrow> pyval \<Rightarrow> exn + node_descriptor" where
  "nd_from_dict E now value =
     and_then (require_exact_fields nd_fields value) (\<lambda>v.
     let field = dict_get v; text = (\<lambda>k. py_str (ext_of E) (dict_get v k PNone)) in
       and_then (parse_list ''node descriptor capabilities must be a list'' (field ''capabilities'' PNone)) (\<lambda>caps.
       and_then (parse_int ''node descriptor version'' (field ''version'' PNone)) (\<lambda>ver.
       and_then (decode_bytes (ext_of E) 32 ''node signing public key'' (field ''sign_public'' PNone)) (\<lambda>spk.
       and_then (decode_bytes (ext_of E) 32 ''node box public key'' (field ''box_public'' PNone)) (\<lambda>bpk.
       and_then (parse_int ''node descriptor sequence'' (field ''sequence'' PNone)) (\<lambda>seq.
       and_then (decode_bytes (ext_of E) 32 ''previous digest'' (field ''previous_digest'' PNone)) (\<lambda>prev.
       and_then (parse_int ''node descriptor issued time'' (field ''issued_ms'' PNone)) (\<lambda>issued.
       and_then (parse_int ''node descriptor expiry time'' (field ''expires_ms'' PNone)) (\<lambda>expires.
       and_then (decode_bytes (ext_of E) 64 ''node descriptor signature'' (field ''signature'' PNone)) (\<lambda>sig.
       let d = \<lparr>nd_node_id = text ''node_id'', nd_sign_public = spk, nd_box_public = bpk,
                nd_label = text ''label'', nd_capabilities = parse_texts (ext_of E) caps, nd_sequence = seq,
                nd_previous = prev, nd_issued_ms = issued, nd_expires_ms = expires, nd_signature = sig,
                nd_version = ver, nd_object_type = text ''object_type''\<rparr>
       in and_then (verify_descriptor E now d) (\<lambda>_. Inr d)))))))))))"

text \<open>\<open>issue_node_descriptor\<close>; \<open>issued\<close> is the given time or the clock reading.\<close>

definition issue_node_descriptor ::
    "'a crypto_scheme \<Rightarrow> identity \<Rightarrow> string list \<Rightarrow> int \<Rightarrow> bytes \<Rightarrow> time_ms \<Rightarrow> int \<Rightarrow> exn + node_descriptor" where
  "issue_node_descriptor E me caps seq prev issued ttl =
     (let unsigned = \<lparr>nd_node_id = node_id E me, nd_sign_public = sign_public E me,
            nd_box_public = box_public E me, nd_label = label me, nd_capabilities = sorted_unique caps,
            nd_sequence = seq, nd_previous = prev, nd_issued_ms = issued, nd_expires_ms = issued + ttl,
            nd_signature = [], nd_version = NODE_DESCRIPTOR_VERSION, nd_object_type = NODE_DESCRIPTOR_TYPE\<rparr>;
          d = unsigned\<lparr>nd_signature := ed_sign E (sign_private me)
                 (canonical_pack (ext_of E) (PList (nd_signing_fields unsigned)))\<rparr>
      in and_then (verify_descriptor E issued d) (\<lambda>_. Inr d))"

section \<open>Reachability records\<close>

record reachability =
  rb_node_id :: string
  rb_descriptor_digest :: bytes
  rb_session_id :: string
  rb_protocol_versions :: "string list"
  rb_candidates :: "string list"
  rb_relay_reservation :: string
  rb_capability_digest :: bytes
  rb_sequence :: int
  rb_previous :: bytes
  rb_issued_ms :: time_ms
  rb_expires_ms :: time_ms
  rb_signature :: bytes
  rb_version :: int
  rb_object_type :: string

definition rb_signing_fields :: "reachability \<Rightarrow> pyval list" where
  "rb_signing_fields r =
     [PInt (rb_version r), PStr (rb_object_type r), PStr (rb_node_id r), PBytes (rb_descriptor_digest r),
      PStr (rb_session_id r), text_list (rb_protocol_versions r), text_list (rb_candidates r),
      PStr (rb_relay_reservation r), PBytes (rb_capability_digest r), PInt (rb_sequence r),
      PBytes (rb_previous r), PInt (rb_issued_ms r), PInt (rb_expires_ms r)]"

definition rb_digest :: "'a crypto_scheme \<Rightarrow> reachability \<Rightarrow> bytes" where
  "rb_digest E r = object_digest E (rb_signing_fields r) (rb_signature r)"

definition verify_reachability ::
    "'a control_env_scheme \<Rightarrow> time_ms \<Rightarrow> node_descriptor \<Rightarrow> reachability \<Rightarrow> exn + unit" where
  "verify_reachability E now d r = checks
     [require (rb_version r = REACHABILITY_VERSION \<and> rb_object_type r = REACHABILITY_TYPE) ''unsupported reachability record'',
      verify_descriptor E now d,
      check_node_id (rb_node_id r),
      require (rb_node_id r = nd_node_id d) ''reachability record belongs to another node'',
      check_bytes 32 ''descriptor digest'' (rb_descriptor_digest r),
      require (rb_descriptor_digest r = nd_digest E d) ''reachability record uses a stale descriptor'',
      require (hex_string 32 (rb_session_id r)) ''invalid reachability session id'',
      check_protocol_versions (rb_protocol_versions r),
      check_candidates (net_brackets E) (rb_candidates r),
      require (rb_relay_reservation r = '''' \<or> opaque_match (rb_relay_reservation r)) ''invalid relay reservation'',
      check_bytes 32 ''capability digest'' (rb_capability_digest r),
      check_revision_fields (rb_sequence r) (rb_previous r),
      check_window ''reachability record'' MAX_REACHABILITY_TTL_MS (rb_issued_ms r) (rb_expires_ms r) now,
      check_bytes 64 ''reachability signature'' (rb_signature r),
      check_signature E (nd_sign_public d) (rb_signature r) (rb_signing_fields r)]"

definition rb_to_dict :: "reachability \<Rightarrow> pydict" where
  "rb_to_dict r =
     [(''version'', PInt (rb_version r)), (''object_type'', PStr (rb_object_type r)),
      (''node_id'', PStr (rb_node_id r)), (''descriptor_digest'', PStr (b64e (rb_descriptor_digest r))),
      (''session_id'', PStr (rb_session_id r)), (''protocol_versions'', text_list (rb_protocol_versions r)),
      (''candidates'', text_list (rb_candidates r)), (''relay_reservation'', PStr (rb_relay_reservation r)),
      (''capability_digest'', PStr (b64e (rb_capability_digest r))), (''sequence'', PInt (rb_sequence r)),
      (''previous_digest'', PStr (b64e (rb_previous r))), (''issued_ms'', PInt (rb_issued_ms r)),
      (''expires_ms'', PInt (rb_expires_ms r)), (''signature'', PStr (b64e (rb_signature r)))]"

definition rb_fields :: "string list" where
  "rb_fields = [''version'', ''object_type'', ''node_id'', ''descriptor_digest'', ''session_id'',
     ''protocol_versions'', ''candidates'', ''relay_reservation'', ''capability_digest'', ''sequence'',
     ''previous_digest'', ''issued_ms'', ''expires_ms'', ''signature'']"

definition rb_from_dict ::
    "'a control_env_scheme \<Rightarrow> time_ms \<Rightarrow> node_descriptor \<Rightarrow> pyval \<Rightarrow> exn + reachability" where
  "rb_from_dict E now descriptor value =
     and_then (require_exact_fields rb_fields value) (\<lambda>v.
     let field = dict_get v; text = (\<lambda>k. py_str (ext_of E) (dict_get v k PNone)) in
       and_then (parse_list ''reachability protocols and candidates must be lists'' (field ''protocol_versions'' PNone)) (\<lambda>protocols.
       and_then (parse_list ''reachability protocols and candidates must be lists'' (field ''candidates'' PNone)) (\<lambda>candidates.
       and_then (parse_int ''reachability version'' (field ''version'' PNone)) (\<lambda>ver.
       and_then (decode_bytes (ext_of E) 32 ''descriptor digest'' (field ''descriptor_digest'' PNone)) (\<lambda>dd.
       and_then (decode_bytes (ext_of E) 32 ''capability digest'' (field ''capability_digest'' PNone)) (\<lambda>cd.
       and_then (parse_int ''reachability sequence'' (field ''sequence'' PNone)) (\<lambda>seq.
       and_then (decode_bytes (ext_of E) 32 ''previous digest'' (field ''previous_digest'' PNone)) (\<lambda>prev.
       and_then (parse_int ''reachability issued time'' (field ''issued_ms'' PNone)) (\<lambda>issued.
       and_then (parse_int ''reachability expiry time'' (field ''expires_ms'' PNone)) (\<lambda>expires.
       and_then (decode_bytes (ext_of E) 64 ''reachability signature'' (field ''signature'' PNone)) (\<lambda>sig.
       let r = \<lparr>rb_node_id = text ''node_id'', rb_descriptor_digest = dd, rb_session_id = text ''session_id'',
                rb_protocol_versions = parse_texts (ext_of E) protocols, rb_candidates = parse_texts (ext_of E) candidates,
                rb_relay_reservation = text ''relay_reservation'', rb_capability_digest = cd, rb_sequence = seq,
                rb_previous = prev, rb_issued_ms = issued, rb_expires_ms = expires, rb_signature = sig,
                rb_version = ver, rb_object_type = text ''object_type''\<rparr>
       in and_then (verify_reachability E now descriptor r) (\<lambda>_. Inr r))))))))))))"

text \<open>\<open>issue_reachability_record\<close>; \<open>session\<close> is the given session id or the random one.\<close>

definition issue_reachability_record ::
    "'a control_env_scheme \<Rightarrow> identity \<Rightarrow> node_descriptor \<Rightarrow> string list \<Rightarrow> string list \<Rightarrow> string \<Rightarrow> bytes \<Rightarrow>
     int \<Rightarrow> bytes \<Rightarrow> string \<Rightarrow> time_ms \<Rightarrow> int \<Rightarrow> exn + reachability" where
  "issue_reachability_record E me descriptor protocols candidates relay capability_digest seq prev session issued ttl =
     (if node_id E me \<noteq> nd_node_id descriptor then Inl (ValueError ''identity does not own the node descriptor'')
      else let unsigned = \<lparr>rb_node_id = node_id E me, rb_descriptor_digest = nd_digest E descriptor,
                 rb_session_id = session, rb_protocol_versions = sorted_unique protocols,
                 rb_candidates = sorted_unique candidates, rb_relay_reservation = relay,
                 rb_capability_digest = capability_digest, rb_sequence = seq, rb_previous = prev,
                 rb_issued_ms = issued, rb_expires_ms = issued + ttl, rb_signature = [],
                 rb_version = REACHABILITY_VERSION, rb_object_type = REACHABILITY_TYPE\<rparr>;
               r = unsigned\<lparr>rb_signature := ed_sign E (sign_private me)
                      (canonical_pack (ext_of E) (PList (rb_signing_fields unsigned)))\<rparr>
           in and_then (verify_reachability E issued descriptor r) (\<lambda>_. Inr r))"

section \<open>Human principals and device grants\<close>

record human =
  hu_private :: bytes

definition human_public :: "'a crypto_scheme \<Rightarrow> human \<Rightarrow> bytes" where
  "human_public E h = ed_public E (hu_private h)"

definition human_id :: "'a crypto_scheme \<Rightarrow> human \<Rightarrow> exn + string" where
  "human_id E h = derive_human_id E (human_public E h)"

record device_grant =
  gr_human_id :: string
  gr_human_public :: bytes
  gr_device :: string
  gr_descriptor_digest :: bytes
  gr_capabilities :: "string list"
  gr_sequence :: int
  gr_previous :: bytes
  gr_issued_ms :: time_ms
  gr_expires_ms :: time_ms
  gr_signature :: bytes
  gr_version :: int
  gr_object_type :: string

definition gr_signing_fields :: "device_grant \<Rightarrow> pyval list" where
  "gr_signing_fields g =
     [PInt (gr_version g), PStr (gr_object_type g), PStr (gr_human_id g), PBytes (gr_human_public g),
      PStr (gr_device g), PBytes (gr_descriptor_digest g), text_list (gr_capabilities g), PInt (gr_sequence g),
      PBytes (gr_previous g), PInt (gr_issued_ms g), PInt (gr_expires_ms g)]"

definition gr_digest :: "'a crypto_scheme \<Rightarrow> device_grant \<Rightarrow> bytes" where
  "gr_digest E g = object_digest E (gr_signing_fields g) (gr_signature g)"

definition verify_grant :: "'a crypto_scheme \<Rightarrow> time_ms \<Rightarrow> node_descriptor \<Rightarrow> device_grant \<Rightarrow> exn + unit" where
  "verify_grant E now d g = checks
     [require (gr_version g = HUMAN_DEVICE_GRANT_VERSION \<and> gr_object_type g = HUMAN_DEVICE_GRANT_TYPE) ''unsupported human device grant'',
      verify_descriptor E now d,
      check_human_id (gr_human_id g),
      check_bytes 32 ''human signing public key'' (gr_human_public g),
      require (derive_human_id E (gr_human_public g) = Inr (gr_human_id g)) ''human id does not match its public key'',
      require (gr_human_public g \<noteq> nd_sign_public d) ''human and device signing identities must be separate'',
      check_node_id (gr_device g),
      require (gr_device g = nd_node_id d) ''human grant belongs to another device'',
      check_bytes 32 ''descriptor digest'' (gr_descriptor_digest g),
      require (gr_descriptor_digest g = nd_digest E d) ''human grant uses a stale device descriptor'',
      check_control_capabilities False (gr_capabilities g),
      check_revision_fields (gr_sequence g) (gr_previous g),
      check_window ''human device grant'' MAX_HUMAN_GRANT_TTL_MS (gr_issued_ms g) (gr_expires_ms g) now,
      check_bytes 64 ''human device grant signature'' (gr_signature g),
      check_signature E (gr_human_public g) (gr_signature g) (gr_signing_fields g)]"

definition gr_to_dict :: "device_grant \<Rightarrow> pydict" where
  "gr_to_dict g =
     [(''version'', PInt (gr_version g)), (''object_type'', PStr (gr_object_type g)),
      (''human_id'', PStr (gr_human_id g)), (''human_sign_public'', PStr (b64e (gr_human_public g))),
      (''device_node_id'', PStr (gr_device g)), (''descriptor_digest'', PStr (b64e (gr_descriptor_digest g))),
      (''capabilities'', text_list (gr_capabilities g)), (''sequence'', PInt (gr_sequence g)),
      (''previous_digest'', PStr (b64e (gr_previous g))), (''issued_ms'', PInt (gr_issued_ms g)),
      (''expires_ms'', PInt (gr_expires_ms g)), (''signature'', PStr (b64e (gr_signature g)))]"

definition gr_fields :: "string list" where
  "gr_fields = [''version'', ''object_type'', ''human_id'', ''human_sign_public'', ''device_node_id'',
     ''descriptor_digest'', ''capabilities'', ''sequence'', ''previous_digest'', ''issued_ms'', ''expires_ms'', ''signature'']"

definition gr_from_dict :: "'a crypto_scheme \<Rightarrow> time_ms \<Rightarrow> node_descriptor \<Rightarrow> pyval \<Rightarrow> exn + device_grant" where
  "gr_from_dict E now descriptor value =
     and_then (require_exact_fields gr_fields value) (\<lambda>v.
     let field = dict_get v; text = (\<lambda>k. py_str (ext_of E) (dict_get v k PNone)) in
       and_then (parse_list ''human device capabilities must be a list'' (field ''capabilities'' PNone)) (\<lambda>caps.
       and_then (parse_int ''human device grant version'' (field ''version'' PNone)) (\<lambda>ver.
       and_then (decode_bytes (ext_of E) 32 ''human signing public key'' (field ''human_sign_public'' PNone)) (\<lambda>hpk.
       and_then (decode_bytes (ext_of E) 32 ''descriptor digest'' (field ''descriptor_digest'' PNone)) (\<lambda>dd.
       and_then (parse_int ''human device grant sequence'' (field ''sequence'' PNone)) (\<lambda>seq.
       and_then (decode_bytes (ext_of E) 32 ''previous digest'' (field ''previous_digest'' PNone)) (\<lambda>prev.
       and_then (parse_int ''human device grant issued time'' (field ''issued_ms'' PNone)) (\<lambda>issued.
       and_then (parse_int ''human device grant expiry time'' (field ''expires_ms'' PNone)) (\<lambda>expires.
       and_then (decode_bytes (ext_of E) 64 ''human device grant signature'' (field ''signature'' PNone)) (\<lambda>sig.
       let g = \<lparr>gr_human_id = text ''human_id'', gr_human_public = hpk, gr_device = text ''device_node_id'',
                gr_descriptor_digest = dd, gr_capabilities = parse_texts (ext_of E) caps, gr_sequence = seq,
                gr_previous = prev, gr_issued_ms = issued, gr_expires_ms = expires, gr_signature = sig,
                gr_version = ver, gr_object_type = text ''object_type''\<rparr>
       in and_then (verify_grant E now descriptor g) (\<lambda>_. Inr g)))))))))))"

definition issue_human_device_grant ::
    "'a crypto_scheme \<Rightarrow> human \<Rightarrow> node_descriptor \<Rightarrow> string list \<Rightarrow> int \<Rightarrow> bytes \<Rightarrow> time_ms \<Rightarrow> int \<Rightarrow> exn + device_grant" where
  "issue_human_device_grant E h descriptor caps seq prev issued ttl =
     and_then (human_id E h) (\<lambda>hid.
     let unsigned = \<lparr>gr_human_id = hid, gr_human_public = human_public E h, gr_device = nd_node_id descriptor,
            gr_descriptor_digest = nd_digest E descriptor, gr_capabilities = sorted_unique caps,
            gr_sequence = seq, gr_previous = prev, gr_issued_ms = issued, gr_expires_ms = issued + ttl,
            gr_signature = [], gr_version = HUMAN_DEVICE_GRANT_VERSION, gr_object_type = HUMAN_DEVICE_GRANT_TYPE\<rparr>;
          g = unsigned\<lparr>gr_signature := ed_sign E (hu_private h)
                 (canonical_pack (ext_of E) (PList (gr_signing_fields unsigned)))\<rparr>
      in and_then (verify_grant E issued descriptor g) (\<lambda>_. Inr g))"

section \<open>Device revocations\<close>

record device_revocation =
  rv_human_id :: string
  rv_human_public :: bytes
  rv_device :: string
  rv_descriptor_digest :: bytes
  rv_sequence :: int
  rv_previous :: bytes
  rv_revoked_ms :: time_ms
  rv_reason_code :: string
  rv_signature :: bytes
  rv_version :: int
  rv_object_type :: string

definition rv_signing_fields :: "device_revocation \<Rightarrow> pyval list" where
  "rv_signing_fields r =
     [PInt (rv_version r), PStr (rv_object_type r), PStr (rv_human_id r), PBytes (rv_human_public r),
      PStr (rv_device r), PBytes (rv_descriptor_digest r), PInt (rv_sequence r), PBytes (rv_previous r),
      PInt (rv_revoked_ms r), PStr (rv_reason_code r)]"

definition rv_digest :: "'a crypto_scheme \<Rightarrow> device_revocation \<Rightarrow> bytes" where
  "rv_digest E r = object_digest E (rv_signing_fields r) (rv_signature r)"

definition verify_revocation :: "'a crypto_scheme \<Rightarrow> time_ms \<Rightarrow> node_descriptor \<Rightarrow> device_revocation \<Rightarrow> exn + unit" where
  "verify_revocation E now d r = checks
     [require (rv_version r = HUMAN_DEVICE_REVOCATION_VERSION \<and> rv_object_type r = HUMAN_DEVICE_REVOCATION_TYPE) ''unsupported human device revocation'',
      verify_descriptor E now d,
      check_human_id (rv_human_id r),
      check_bytes 32 ''human signing public key'' (rv_human_public r),
      require (derive_human_id E (rv_human_public r) = Inr (rv_human_id r)) ''human id does not match its public key'',
      require (rv_human_public r \<noteq> nd_sign_public d) ''human and device signing identities must be separate'',
      require (rv_device r = nd_node_id d) ''human revocation belongs to another device'',
      check_bytes 32 ''descriptor digest'' (rv_descriptor_digest r),
      require (rv_descriptor_digest r = nd_digest E d) ''human revocation uses a stale device descriptor'',
      check_revision_fields (rv_sequence r) (rv_previous r),
      require (\<not> (rv_revoked_ms r \<le> 0 \<or> now + CONTROL_CLOCK_SKEW_MS < rv_revoked_ms r)) ''invalid human device revocation time'',
      require (protocol_token (rv_reason_code r)) ''invalid human device revocation reason'',
      check_bytes 64 ''human device revocation signature'' (rv_signature r),
      check_signature E (rv_human_public r) (rv_signature r) (rv_signing_fields r)]"

definition rv_to_dict :: "device_revocation \<Rightarrow> pydict" where
  "rv_to_dict r =
     [(''version'', PInt (rv_version r)), (''object_type'', PStr (rv_object_type r)),
      (''human_id'', PStr (rv_human_id r)), (''human_sign_public'', PStr (b64e (rv_human_public r))),
      (''device_node_id'', PStr (rv_device r)), (''descriptor_digest'', PStr (b64e (rv_descriptor_digest r))),
      (''sequence'', PInt (rv_sequence r)), (''previous_digest'', PStr (b64e (rv_previous r))),
      (''revoked_ms'', PInt (rv_revoked_ms r)), (''reason_code'', PStr (rv_reason_code r)),
      (''signature'', PStr (b64e (rv_signature r)))]"

definition rv_fields :: "string list" where
  "rv_fields = [''version'', ''object_type'', ''human_id'', ''human_sign_public'', ''device_node_id'',
     ''descriptor_digest'', ''sequence'', ''previous_digest'', ''revoked_ms'', ''reason_code'', ''signature'']"

definition rv_from_dict :: "'a crypto_scheme \<Rightarrow> time_ms \<Rightarrow> node_descriptor \<Rightarrow> pyval \<Rightarrow> exn + device_revocation" where
  "rv_from_dict E now descriptor value =
     and_then (require_exact_fields rv_fields value) (\<lambda>v.
     let field = dict_get v; text = (\<lambda>k. py_str (ext_of E) (dict_get v k PNone)) in
       and_then (parse_int ''human device revocation version'' (field ''version'' PNone)) (\<lambda>ver.
       and_then (decode_bytes (ext_of E) 32 ''human signing public key'' (field ''human_sign_public'' PNone)) (\<lambda>hpk.
       and_then (decode_bytes (ext_of E) 32 ''descriptor digest'' (field ''descriptor_digest'' PNone)) (\<lambda>dd.
       and_then (parse_int ''human device revocation sequence'' (field ''sequence'' PNone)) (\<lambda>seq.
       and_then (decode_bytes (ext_of E) 32 ''previous digest'' (field ''previous_digest'' PNone)) (\<lambda>prev.
       and_then (parse_int ''human device revocation time'' (field ''revoked_ms'' PNone)) (\<lambda>revoked.
       and_then (decode_bytes (ext_of E) 64 ''human device revocation signature'' (field ''signature'' PNone)) (\<lambda>sig.
       let r = \<lparr>rv_human_id = text ''human_id'', rv_human_public = hpk, rv_device = text ''device_node_id'',
                rv_descriptor_digest = dd, rv_sequence = seq, rv_previous = prev, rv_revoked_ms = revoked,
                rv_reason_code = text ''reason_code'', rv_signature = sig, rv_version = ver,
                rv_object_type = text ''object_type''\<rparr>
       in and_then (verify_revocation E now descriptor r) (\<lambda>_. Inr r)))))))))"

definition issue_human_device_revocation ::
    "'a crypto_scheme \<Rightarrow> human \<Rightarrow> node_descriptor \<Rightarrow> int \<Rightarrow> bytes \<Rightarrow> string \<Rightarrow> time_ms \<Rightarrow> exn + device_revocation" where
  "issue_human_device_revocation E h descriptor seq prev reason revoked =
     and_then (human_id E h) (\<lambda>hid.
     let unsigned = \<lparr>rv_human_id = hid, rv_human_public = human_public E h, rv_device = nd_node_id descriptor,
            rv_descriptor_digest = nd_digest E descriptor, rv_sequence = seq, rv_previous = prev,
            rv_revoked_ms = revoked, rv_reason_code = reason, rv_signature = [],
            rv_version = HUMAN_DEVICE_REVOCATION_VERSION, rv_object_type = HUMAN_DEVICE_REVOCATION_TYPE\<rparr>;
          r = unsigned\<lparr>rv_signature := ed_sign E (hu_private h)
                 (canonical_pack (ext_of E) (PList (rv_signing_fields unsigned)))\<rparr>
      in and_then (verify_revocation E revoked descriptor r) (\<lambda>_. Inr r))"

section \<open>The JSON form\<close>

text \<open>
  \<open>_json(value)\<close> and \<open>_decoded_json\<close>: JSON text with sorted keys.  The column is the value that is
  read back from it; texts, integers and lists of texts are read back as they were written.
\<close>

definition json_object :: "pydict \<Rightarrow> pyval" where
  "json_object d = PDict (sort_key fst d)"

section \<open>Reading back what was written\<close>

lemma map_of_sort_key: "distinct (map fst d) \<Longrightarrow> map_of (sort_key fst d) k = map_of d k"
proof -
  assume d: "distinct (map fst d)"
  have "distinct (map fst (sort_key fst d))"
    using d by (metis distinct_map distinct_sort set_sort)
  with d have "map_of (sort_key fst d) = map_of d" by (intro map_of_eqI) (auto dest: map_of_is_SomeI)
  then show ?thesis by simp
qed

lemma dict_get_json: "distinct (map fst d) \<Longrightarrow> dict_get (sort_key fst d) k x = dict_get d k x"
  by (simp add: dict_get_def map_of_sort_key)

lemma require_exact_json:
  "set (map fst d) = set fs \<Longrightarrow> require_exact_fields fs (json_object d) = Inr (sort_key fst d)"
  by (auto simp: require_exact_fields_def json_object_def filter_empty_conv)

lemma decode_bytes_b64e: "length bs = n \<Longrightarrow> decode_bytes E n name (PStr (b64e bs)) = Inr bs"
  by (simp add: decode_bytes_def py_str_def b64_roundtrip check_bytes_def require_def)

lemma parse_texts_text [simp]: "parse_texts E (map PStr ss) = ss"
  by (induction ss) (simp_all add: parse_texts_def py_str_def)

lemma dict_get_Cons: "dict_get ((q, v) # d) k x = (if q = k then v else dict_get d k x)"
  by (simp add: dict_get_def)

lemma check_bytes_Inr [simp]: "check_bytes n name bs = Inr u \<longleftrightarrow> length bs = n"
  by (simp add: check_bytes_def)

lemma checks_1 [simp]: "checks [] = Inr u"
  by simp

lemmas dict_of = dict_get_Cons parse_int_def parse_list_def text_list_def Let_def

text \<open>The lengths of the binary fields, which the decoder checks.\<close>

definition nd_sizes :: "node_descriptor \<Rightarrow> bool" where
  "nd_sizes d = (length (nd_sign_public d) = 32 \<and> length (nd_box_public d) = 32
     \<and> length (nd_previous d) = 32 \<and> length (nd_signature d) = 64)"

definition rb_sizes :: "reachability \<Rightarrow> bool" where
  "rb_sizes r = (length (rb_descriptor_digest r) = 32 \<and> length (rb_capability_digest r) = 32
     \<and> length (rb_previous r) = 32 \<and> length (rb_signature r) = 64)"

definition gr_sizes :: "device_grant \<Rightarrow> bool" where
  "gr_sizes g = (length (gr_human_public g) = 32 \<and> length (gr_descriptor_digest g) = 32
     \<and> length (gr_previous g) = 32 \<and> length (gr_signature g) = 64)"

definition rv_sizes :: "device_revocation \<Rightarrow> bool" where
  "rv_sizes r = (length (rv_human_public r) = 32 \<and> length (rv_descriptor_digest r) = 32
     \<and> length (rv_previous r) = 32 \<and> length (rv_signature r) = 64)"

lemma verified_sizes:
  "verify_descriptor E now d = Inr () \<Longrightarrow> nd_sizes d"
  "verify_reachability F now d r = Inr () \<Longrightarrow> rb_sizes r"
  "verify_grant E now d g = Inr () \<Longrightarrow> gr_sizes g"
  "verify_revocation E now d v = Inr () \<Longrightarrow> rv_sizes v"
  by (auto simp: verify_descriptor_def verify_reachability_def verify_grant_def verify_revocation_def
      check_revision_fields_def nd_sizes_def rb_sizes_def gr_sizes_def rv_sizes_def)

lemma nd_json:
  "dict_get (sort_key fst (nd_to_dict d)) k x = dict_get (nd_to_dict d) k x"
  "require_exact_fields nd_fields (json_object (nd_to_dict d)) = Inr (sort_key fst (nd_to_dict d))"
  by (rule dict_get_json, simp add: nd_to_dict_def) (rule require_exact_json, simp add: nd_to_dict_def nd_fields_def)

lemma nd_read:
  assumes "nd_sizes d"
  shows "nd_from_dict E now (json_object (nd_to_dict d)) = and_then (verify_descriptor E now d) (\<lambda>_. Inr d)"
  using assms unfolding nd_from_dict_def nd_sizes_def
  by (cases d) (simp add: nd_json, simp add: nd_to_dict_def dict_of decode_bytes_b64e)

lemma rb_json:
  "dict_get (sort_key fst (rb_to_dict r)) k x = dict_get (rb_to_dict r) k x"
  "require_exact_fields rb_fields (json_object (rb_to_dict r)) = Inr (sort_key fst (rb_to_dict r))"
  by (rule dict_get_json, simp add: rb_to_dict_def) (rule require_exact_json, simp add: rb_to_dict_def rb_fields_def)

lemma rb_read:
  assumes "rb_sizes r"
  shows "rb_from_dict E now nd (json_object (rb_to_dict r)) = and_then (verify_reachability E now nd r) (\<lambda>_. Inr r)"
  using assms unfolding rb_from_dict_def rb_sizes_def
  by (cases r) (simp add: rb_json, simp add: rb_to_dict_def dict_of decode_bytes_b64e)

lemma gr_json:
  "dict_get (sort_key fst (gr_to_dict g)) k x = dict_get (gr_to_dict g) k x"
  "require_exact_fields gr_fields (json_object (gr_to_dict g)) = Inr (sort_key fst (gr_to_dict g))"
  by (rule dict_get_json, simp add: gr_to_dict_def) (rule require_exact_json, simp add: gr_to_dict_def gr_fields_def)

lemma gr_read:
  assumes "gr_sizes g"
  shows "gr_from_dict E now nd (json_object (gr_to_dict g)) = and_then (verify_grant E now nd g) (\<lambda>_. Inr g)"
  using assms unfolding gr_from_dict_def gr_sizes_def
  by (cases g) (simp add: gr_json, simp add: gr_to_dict_def dict_of decode_bytes_b64e)

lemma rv_json:
  "dict_get (sort_key fst (rv_to_dict r)) k x = dict_get (rv_to_dict r) k x"
  "require_exact_fields rv_fields (json_object (rv_to_dict r)) = Inr (sort_key fst (rv_to_dict r))"
  by (rule dict_get_json, simp add: rv_to_dict_def) (rule require_exact_json, simp add: rv_to_dict_def rv_fields_def)

lemma rv_read:
  assumes "rv_sizes r"
  shows "rv_from_dict E now nd (json_object (rv_to_dict r)) = and_then (verify_revocation E now nd r) (\<lambda>_. Inr r)"
  using assms unfolding rv_from_dict_def rv_sizes_def
  by (cases r) (simp add: rv_json, simp add: rv_to_dict_def dict_of decode_bytes_b64e)

text \<open>Whatever dictionary is accepted, the object it gives was verified.\<close>

lemma nd_from_dict_verified: "nd_from_dict E now v = Inr d \<Longrightarrow> verify_descriptor E now d = Inr ()"
  by (auto simp: nd_from_dict_def Let_def)

lemma rb_from_dict_verified: "rb_from_dict E now nd v = Inr r \<Longrightarrow> verify_reachability E now nd r = Inr ()"
  by (auto simp: rb_from_dict_def Let_def)

lemma gr_from_dict_verified: "gr_from_dict E now nd v = Inr g \<Longrightarrow> verify_grant E now nd g = Inr ()"
  by (auto simp: gr_from_dict_def Let_def)

lemma rv_from_dict_verified: "rv_from_dict E now nd v = Inr r \<Longrightarrow> verify_revocation E now nd r = Inr ()"
  by (auto simp: rv_from_dict_def Let_def)

text \<open>
  C16: what is written can be read back.  Reading the stored form of a descriptor, a reachability record,
  a grant or a revocation gives the same object exactly when the object verifies at that time.
\<close>

theorem control_objects_roundtrip:
  "(nd_from_dict E now (json_object (nd_to_dict d)) = Inr d \<longleftrightarrow> verify_descriptor E now d = Inr ())
   \<and> (rb_from_dict F now d (json_object (rb_to_dict r)) = Inr r \<longleftrightarrow> verify_reachability F now d r = Inr ())
   \<and> (gr_from_dict E now d (json_object (gr_to_dict g)) = Inr g \<longleftrightarrow> verify_grant E now d g = Inr ())
   \<and> (rv_from_dict E now d (json_object (rv_to_dict v)) = Inr v \<longleftrightarrow> verify_revocation E now d v = Inr ())"
proof (intro conjI)
  show "nd_from_dict E now (json_object (nd_to_dict d)) = Inr d \<longleftrightarrow> verify_descriptor E now d = Inr ()"
    using nd_from_dict_verified verified_sizes(1) [of E now d] by (auto simp: nd_read)
  show "rb_from_dict F now d (json_object (rb_to_dict r)) = Inr r \<longleftrightarrow> verify_reachability F now d r = Inr ()"
    using rb_from_dict_verified verified_sizes(2) [of F now d r] by (auto simp: rb_read)
  show "gr_from_dict E now d (json_object (gr_to_dict g)) = Inr g \<longleftrightarrow> verify_grant E now d g = Inr ()"
    using gr_from_dict_verified verified_sizes(3) [of E now d g] by (auto simp: gr_read)
  show "rv_from_dict E now d (json_object (rv_to_dict v)) = Inr v \<longleftrightarrow> verify_revocation E now d v = Inr ()"
    using rv_from_dict_verified verified_sizes(4) [of E now d v] by (auto simp: rv_read)
qed

section \<open>What a verified object is\<close>

text \<open>The facts later proofs take from a successful verification.\<close>

lemma verified_revision:
  "verify_descriptor E now d = Inr () \<Longrightarrow> 1 \<le> nd_sequence d"
  "verify_reachability F now d r = Inr () \<Longrightarrow> 1 \<le> rb_sequence r"
  "verify_grant E now d g = Inr () \<Longrightarrow> 1 \<le> gr_sequence g"
  "verify_revocation E now d v = Inr () \<Longrightarrow> 1 \<le> rv_sequence v"
  by (auto simp: verify_descriptor_def verify_reachability_def verify_grant_def verify_revocation_def check_revision_fields_def)

lemma verified_binding:
  "verify_reachability F now d r = Inr () \<Longrightarrow> rb_node_id r = nd_node_id d \<and> rb_descriptor_digest r = nd_digest F d"
  "verify_grant E now d g = Inr () \<Longrightarrow> gr_device g = nd_node_id d \<and> gr_descriptor_digest g = nd_digest E d"
  "verify_revocation E now d v = Inr () \<Longrightarrow> rv_device v = nd_node_id d \<and> rv_descriptor_digest v = nd_digest E d"
  by (auto simp: verify_reachability_def verify_grant_def verify_revocation_def)

lemma verified_descriptor:
  "verify_reachability F now d r = Inr () \<Longrightarrow> verify_descriptor F now d = Inr ()"
  "verify_grant E now d g = Inr () \<Longrightarrow> verify_descriptor E now d = Inr ()"
  "verify_revocation E now d v = Inr () \<Longrightarrow> verify_descriptor E now d = Inr ()"
  by (auto simp: verify_reachability_def verify_grant_def verify_revocation_def)

lemma verified_window:
  "verify_descriptor E now d = Inr () \<Longrightarrow> now < nd_expires_ms d"
  "verify_reachability F now d r = Inr () \<Longrightarrow> now < rb_expires_ms r \<and> rb_expires_ms r - rb_issued_ms r \<le> MAX_REACHABILITY_TTL_MS"
  "verify_grant E now d g = Inr () \<Longrightarrow> now < gr_expires_ms g \<and> gr_expires_ms g - gr_issued_ms g \<le> MAX_HUMAN_GRANT_TTL_MS"
  by (auto simp: verify_descriptor_def verify_reachability_def verify_grant_def check_window_def)

text \<open>What the node or the human issues verifies at the time of issue and carries the normalised capabilities.\<close>

lemma issued_verified:
  "issue_node_descriptor E me caps seq prev issued ttl = Inr d \<Longrightarrow>
     verify_descriptor E issued d = Inr () \<and> nd_node_id d = node_id E me \<and> set (nd_capabilities d) = set caps"
  "issue_reachability_record F me nd protocols candidates relay cd seq prev session issued ttl = Inr r \<Longrightarrow>
     verify_reachability F issued nd r = Inr () \<and> set (rb_candidates r) = set candidates"
  "issue_human_device_grant E h nd caps seq prev issued ttl = Inr g \<Longrightarrow>
     verify_grant E issued nd g = Inr () \<and> human_id E h = Inr (gr_human_id g) \<and> set (gr_capabilities g) = set caps"
  "issue_human_device_revocation E h nd seq prev reason issued = Inr v \<Longrightarrow>
     verify_revocation E issued nd v = Inr () \<and> human_id E h = Inr (rv_human_id v) \<and> rv_sequence v = seq"
  by (auto simp: issue_node_descriptor_def issue_reachability_record_def issue_human_device_grant_def
      issue_human_device_revocation_def Let_def sorted_unique_def)

end
