(* ===== verification/Control_Store.thy ===== *)
theory Control_Store
  imports Control_Plane
begin

text \<open>
  \<open>ControlPlaneRevisionTracker\<close> and \<open>ControlPlaneStore\<close> of \<open>control_plane.py\<close>.  The tracker keeps the
  latest revision of every chain in memory; the store keeps the signed objects in three tables.  The
  \<open>CHECK\<close> and \<open>FOREIGN KEY\<close> constraints of the tables hold for whatever passed its verification (a
  SHA-256 digest has 32 octets, and the current descriptor is looked up first), so they have no branch.
\<close>

section \<open>The tracker\<close>

record checkpoint =
  cp_sequence :: int
  cp_digest :: bytes
  cp_terminal :: bool

record tracker =
  tk_descriptors :: "string \<rightharpoonup> checkpoint"
  tk_reachability :: "string \<rightharpoonup> checkpoint"
  tk_devices :: "string \<times> string \<rightharpoonup> checkpoint"

definition empty_tracker :: tracker where
  "empty_tracker = \<lparr>tk_descriptors = Map.empty, tk_reachability = Map.empty, tk_devices = Map.empty\<rparr>"

text \<open>\<open>_advance\<close>: the new dictionary and whether it changed.\<close>

definition advance ::
    "('k \<rightharpoonup> checkpoint) \<Rightarrow> 'k \<Rightarrow> int \<Rightarrow> bytes \<Rightarrow> bytes \<Rightarrow> bool \<Rightarrow> bool \<Rightarrow> exn + ('k \<rightharpoonup> checkpoint) \<times> bool" where
  "advance cps k seq prev dig is_terminal forbid =
     (let put = Inr (cps(k \<mapsto> \<lparr>cp_sequence = seq, cp_digest = dig, cp_terminal = is_terminal\<rparr>), True)
      in case cps k of
        None \<Rightarrow> if seq \<noteq> 1 \<or> prev \<noteq> GENESIS_DIGEST
                then Inl (ValueError ''revision chain must start at genesis'') else put
      | Some c \<Rightarrow>
          if seq = cp_sequence c
          then (if dig = cp_digest c then Inr (cps, False) else Inl (ValueError ''revision fork at the current sequence''))
          else if seq < cp_sequence c then Inl (ValueError ''stale revision'')
          else if forbid \<and> cp_terminal c then Inl (ValueError ''revision chain is permanently revoked'')
          else if seq \<noteq> cp_sequence c + 1 then Inl (ValueError ''revision sequence gap'')
          else if prev \<noteq> cp_digest c then Inl (ValueError ''revision predecessor mismatch'')
          else put)"

definition tracker_accept_descriptor ::
    "'a crypto_scheme \<Rightarrow> time_ms \<Rightarrow> node_descriptor \<Rightarrow> tracker \<Rightarrow> (tracker, bool) outcome" where
  "tracker_accept_descriptor E now d t =
     checked t (verify_descriptor E now d) (\<lambda>_.
     checked t (advance (tk_descriptors t) (nd_node_id d) (nd_sequence d) (nd_previous d) (nd_digest E d) False False)
       (\<lambda>(cps, changed). (t\<lparr>tk_descriptors := cps\<rparr>, Inr changed)))"

definition tracker_require_current :: "'a crypto_scheme \<Rightarrow> node_descriptor \<Rightarrow> tracker \<Rightarrow> exn + unit" where
  "tracker_require_current E d t =
     require (map_option cp_digest (tk_descriptors t (nd_node_id d)) = Some (nd_digest E d))
       ''object is not bound to the current node descriptor''"

definition tracker_accept_reachability ::
    "'a control_env_scheme \<Rightarrow> time_ms \<Rightarrow> reachability \<Rightarrow> node_descriptor \<Rightarrow> tracker \<Rightarrow> (tracker, bool) outcome" where
  "tracker_accept_reachability E now r d t =
     checked t (verify_reachability E now d r) (\<lambda>_.
     checked t (tracker_require_current E d t) (\<lambda>_.
     checked t (advance (tk_reachability t) (rb_node_id r) (rb_sequence r) (rb_previous r) (rb_digest E r) False False)
       (\<lambda>(cps, changed). (t\<lparr>tk_reachability := cps\<rparr>, Inr changed))))"

definition tracker_accept_grant ::
    "'a crypto_scheme \<Rightarrow> time_ms \<Rightarrow> device_grant \<Rightarrow> node_descriptor \<Rightarrow> tracker \<Rightarrow> (tracker, bool) outcome" where
  "tracker_accept_grant E now g d t =
     checked t (verify_grant E now d g) (\<lambda>_.
     checked t (tracker_require_current E d t) (\<lambda>_.
     checked t (advance (tk_devices t) (gr_human_id g, gr_device g) (gr_sequence g) (gr_previous g) (gr_digest E g) False True)
       (\<lambda>(cps, changed). (t\<lparr>tk_devices := cps\<rparr>, Inr changed))))"

definition tracker_accept_revocation ::
    "'a crypto_scheme \<Rightarrow> time_ms \<Rightarrow> device_revocation \<Rightarrow> node_descriptor \<Rightarrow> tracker \<Rightarrow> (tracker, bool) outcome" where
  "tracker_accept_revocation E now r d t =
     checked t (verify_revocation E now d r) (\<lambda>_.
     checked t (tracker_require_current E d t) (\<lambda>_.
     checked t (require (tk_devices t (rv_human_id r, rv_device r) \<noteq> None) ''cannot revoke a device without an accepted grant'') (\<lambda>_.
     checked t (advance (tk_devices t) (rv_human_id r, rv_device r) (rv_sequence r) (rv_previous r) (rv_digest E r) True True)
       (\<lambda>(cps, changed). (t\<lparr>tk_devices := cps\<rparr>, Inr changed)))))"

section \<open>The store\<close>

record descriptor_row =
  dr_node_id :: string
  dr_sequence :: int
  dr_digest :: bytes
  dr_object :: pyval

record reachability_row =
  rr_node_id :: string
  rr_sequence :: int
  rr_digest :: bytes
  rr_descriptor_digest :: bytes
  rr_expires_ms :: time_ms
  rr_object :: pyval

record device_row =
  hd_human_id :: string
  hd_device :: string
  hd_sequence :: int
  hd_digest :: bytes
  hd_descriptor_digest :: bytes
  hd_terminal :: bool
  hd_event_type :: string
  hd_object :: pyval

record control_store =
  t_descriptors :: "descriptor_row list"
  t_reachability :: "reachability_row list"
  t_devices :: "device_row list"

definition empty_control :: control_store where
  "empty_control = \<lparr>t_descriptors = [], t_reachability = [], t_devices = []\<rparr>"

definition hd_key :: "device_row \<Rightarrow> string \<times> string" where
  "hd_key r = (hd_human_id r, hd_device r)"

text \<open>The row of each table that a statement selects by its primary key.\<close>

definition find_descriptor :: "control_store \<Rightarrow> string \<Rightarrow> descriptor_row option" where
  "find_descriptor s k = find (\<lambda>r. dr_node_id r = k) (t_descriptors s)"

definition find_reachability :: "control_store \<Rightarrow> string \<Rightarrow> reachability_row option" where
  "find_reachability s k = find (\<lambda>r. rr_node_id r = k) (t_reachability s)"

definition find_device :: "control_store \<Rightarrow> string \<times> string \<Rightarrow> device_row option" where
  "find_device s k = find (\<lambda>r. hd_key r = k) (t_devices s)"

text \<open>The columns \<open>sequence\<close>, \<open>digest\<close> and \<open>terminal\<close> of a row.\<close>

definition dr_checkpoint :: "descriptor_row \<Rightarrow> checkpoint" where
  "dr_checkpoint r = \<lparr>cp_sequence = dr_sequence r, cp_digest = dr_digest r, cp_terminal = False\<rparr>"

definition rr_checkpoint :: "reachability_row \<Rightarrow> checkpoint" where
  "rr_checkpoint r = \<lparr>cp_sequence = rr_sequence r, cp_digest = rr_digest r, cp_terminal = False\<rparr>"

definition hd_checkpoint :: "device_row \<Rightarrow> checkpoint" where
  "hd_checkpoint r = \<lparr>cp_sequence = hd_sequence r, cp_digest = hd_digest r, cp_terminal = hd_terminal r\<rparr>"

definition check_revision :: "checkpoint option \<Rightarrow> int \<Rightarrow> bytes \<Rightarrow> bytes \<Rightarrow> bool \<Rightarrow> exn + bool" where
  "check_revision current seq prev dig forbid =
     (case current of
        None \<Rightarrow> if seq \<noteq> 1 \<or> prev \<noteq> GENESIS_DIGEST
                then Inl (ValueError ''revision chain must start at genesis'') else Inr True
      | Some c \<Rightarrow>
          if seq = cp_sequence c
          then (if dig = cp_digest c then Inr False else Inl (ValueError ''revision fork at the current sequence''))
          else if seq < cp_sequence c then Inl (ValueError ''stale revision'')
          else if forbid \<and> cp_terminal c then Inl (ValueError ''revision chain is permanently revoked'')
          else if seq \<noteq> cp_sequence c + 1 then Inl (ValueError ''revision sequence gap'')
          else if prev \<noteq> cp_digest c then Inl (ValueError ''revision predecessor mismatch'')
          else Inr True)"

definition require_current_descriptor :: "'a crypto_scheme \<Rightarrow> node_descriptor \<Rightarrow> control_store \<Rightarrow> exn + unit" where
  "require_current_descriptor E d s =
     require (map_option dr_digest (find_descriptor s (nd_node_id d)) = Some (nd_digest E d))
       ''object is not bound to the current node descriptor''"

definition put_descriptor :: "'a crypto_scheme \<Rightarrow> node_descriptor \<Rightarrow> control_store \<Rightarrow> control_store" where
  "put_descriptor E d s =
     s\<lparr>t_descriptors := upsert dr_node_id
         \<lparr>dr_node_id = nd_node_id d, dr_sequence = nd_sequence d, dr_digest = nd_digest E d,
          dr_object = json_object (nd_to_dict d)\<rparr>
         (\<lambda>r. r\<lparr>dr_sequence := nd_sequence d, dr_digest := nd_digest E d, dr_object := json_object (nd_to_dict d)\<rparr>)
         (t_descriptors s)\<rparr>"

definition accept_descriptor ::
    "'a crypto_scheme \<Rightarrow> time_ms \<Rightarrow> node_descriptor \<Rightarrow> control_store \<Rightarrow> (control_store, bool) outcome" where
  "accept_descriptor E now d s =
     checked s (verify_descriptor E now d) (\<lambda>_. transaction (\<lambda>s.
       and_then (check_revision (map_option dr_checkpoint (find_descriptor s (nd_node_id d)))
           (nd_sequence d) (nd_previous d) (nd_digest E d) False) (\<lambda>changed.
       Inr (if changed then put_descriptor E d s else s, changed))) s)"

definition put_reachability :: "'a crypto_scheme \<Rightarrow> reachability \<Rightarrow> control_store \<Rightarrow> control_store" where
  "put_reachability E r s =
     s\<lparr>t_reachability := upsert rr_node_id
         \<lparr>rr_node_id = rb_node_id r, rr_sequence = rb_sequence r, rr_digest = rb_digest E r,
          rr_descriptor_digest = rb_descriptor_digest r, rr_expires_ms = rb_expires_ms r,
          rr_object = json_object (rb_to_dict r)\<rparr>
         (\<lambda>q. q\<lparr>rr_sequence := rb_sequence r, rr_digest := rb_digest E r,
               rr_descriptor_digest := rb_descriptor_digest r, rr_expires_ms := rb_expires_ms r,
               rr_object := json_object (rb_to_dict r)\<rparr>)
         (t_reachability s)\<rparr>"

definition accept_reachability ::
    "'a control_env_scheme \<Rightarrow> time_ms \<Rightarrow> reachability \<Rightarrow> node_descriptor \<Rightarrow> control_store \<Rightarrow> (control_store, bool) outcome" where
  "accept_reachability E now r d s =
     checked s (verify_reachability E now d r) (\<lambda>_. transaction (\<lambda>s.
       and_then (require_current_descriptor E d s) (\<lambda>_.
       and_then (check_revision (map_option rr_checkpoint (find_reachability s (rb_node_id r)))
           (rb_sequence r) (rb_previous r) (rb_digest E r) False) (\<lambda>changed.
       Inr (if changed then put_reachability E r s else s, changed)))) s)"

definition put_grant :: "'a crypto_scheme \<Rightarrow> device_grant \<Rightarrow> control_store \<Rightarrow> control_store" where
  "put_grant E g s =
     s\<lparr>t_devices := upsert hd_key
         \<lparr>hd_human_id = gr_human_id g, hd_device = gr_device g, hd_sequence = gr_sequence g,
          hd_digest = gr_digest E g, hd_descriptor_digest = gr_descriptor_digest g, hd_terminal = False,
          hd_event_type = ''grant'', hd_object = json_object (gr_to_dict g)\<rparr>
         (\<lambda>r. r\<lparr>hd_sequence := gr_sequence g, hd_digest := gr_digest E g,
               hd_descriptor_digest := gr_descriptor_digest g, hd_terminal := False,
               hd_event_type := ''grant'', hd_object := json_object (gr_to_dict g)\<rparr>)
         (t_devices s)\<rparr>"

definition accept_human_grant ::
    "'a crypto_scheme \<Rightarrow> time_ms \<Rightarrow> device_grant \<Rightarrow> node_descriptor \<Rightarrow> control_store \<Rightarrow> (control_store, bool) outcome" where
  "accept_human_grant E now g d s =
     checked s (verify_grant E now d g) (\<lambda>_. transaction (\<lambda>s.
       and_then (require_current_descriptor E d s) (\<lambda>_.
       and_then (check_revision (map_option hd_checkpoint (find_device s (gr_human_id g, gr_device g)))
           (gr_sequence g) (gr_previous g) (gr_digest E g) True) (\<lambda>changed.
       Inr (if changed then put_grant E g s else s, changed)))) s)"

definition put_revocation :: "'a crypto_scheme \<Rightarrow> device_revocation \<Rightarrow> control_store \<Rightarrow> control_store" where
  "put_revocation E v s =
     s\<lparr>t_devices := update_where (\<lambda>r. hd_key r = (rv_human_id v, rv_device v))
         (\<lambda>r. r\<lparr>hd_sequence := rv_sequence v, hd_digest := rv_digest E v,
               hd_descriptor_digest := rv_descriptor_digest v, hd_terminal := True,
               hd_event_type := ''revocation'', hd_object := json_object (rv_to_dict v)\<rparr>)
         (t_devices s)\<rparr>"

definition accept_human_revocation ::
    "'a crypto_scheme \<Rightarrow> time_ms \<Rightarrow> device_revocation \<Rightarrow> node_descriptor \<Rightarrow> control_store \<Rightarrow> (control_store, bool) outcome" where
  "accept_human_revocation E now v d s =
     checked s (verify_revocation E now d v) (\<lambda>_. transaction (\<lambda>s.
       and_then (require_current_descriptor E d s) (\<lambda>_.
       case find_device s (rv_human_id v, rv_device v) of
         None \<Rightarrow> Inl (ValueError ''cannot revoke a device without an accepted grant'')
       | Some row \<Rightarrow>
           and_then (check_revision (Some (hd_checkpoint row)) (rv_sequence v) (rv_previous v) (rv_digest E v) True) (\<lambda>changed.
           Inr (if changed then put_revocation E v s else s, changed)))) s)"

subsection \<open>Queries\<close>

text \<open>A query that gives \<open>None\<close> returns \<^term>\<open>None\<close>; one argument per reading of the clock.\<close>

definition current_descriptor ::
    "'a crypto_scheme \<Rightarrow> time_ms \<Rightarrow> string \<Rightarrow> control_store \<Rightarrow> exn + node_descriptor option" where
  "current_descriptor E now k s =
     and_then (check_node_id k) (\<lambda>_.
       case find_descriptor s k of
         None \<Rightarrow> Inr None
       | Some row \<Rightarrow> and_then (nd_from_dict E now (dr_object row)) (\<lambda>d. Inr (Some d)))"

text \<open>\<open>current\<close> is the reading of this method, \<open>now\<close> the one of \<open>current_descriptor\<close>.\<close>

definition current_reachability ::
    "'a control_env_scheme \<Rightarrow> time_ms \<Rightarrow> time_ms \<Rightarrow> string \<Rightarrow> control_store \<Rightarrow> exn + reachability option" where
  "current_reachability E current now k s =
     and_then (current_descriptor E now k s) (\<lambda>found.
       case found of None \<Rightarrow> Inr None
       | Some d \<Rightarrow>
         (case find_reachability s (nd_node_id d) of
            None \<Rightarrow> Inr None
          | Some row \<Rightarrow>
              if rr_expires_ms row \<le> current then Inr None
              else if rr_descriptor_digest row \<noteq> nd_digest E d then Inr None
              else and_then (rb_from_dict E current d (rr_object row)) (\<lambda>r. Inr (Some r))))"

definition human_device_grant ::
    "'a crypto_scheme \<Rightarrow> time_ms \<Rightarrow> time_ms \<Rightarrow> string \<Rightarrow> string \<Rightarrow> control_store \<Rightarrow> exn + device_grant option" where
  "human_device_grant E now1 now2 hid dev s =
     and_then (current_descriptor E now1 dev s) (\<lambda>found.
       case found of None \<Rightarrow> Inr None
       | Some d \<Rightarrow>
         and_then (check_human_id hid) (\<lambda>_.
         case find_device s (hid, nd_node_id d) of
            None \<Rightarrow> Inr None
          | Some row \<Rightarrow>
              if hd_event_type row \<noteq> ''grant'' \<or> hd_descriptor_digest row \<noteq> nd_digest E d then Inr None
              else and_then (gr_from_dict E now2 d (hd_object row)) (\<lambda>g. Inr (Some g))))"

definition is_human_device_revoked :: "string \<Rightarrow> string \<Rightarrow> control_store \<Rightarrow> exn + bool" where
  "is_human_device_revoked hid dev s =
     and_then (check_human_id hid) (\<lambda>_. and_then (check_node_id dev) (\<lambda>_.
       Inr (case find_device s (hid, dev) of None \<Rightarrow> False | Some row \<Rightarrow> hd_terminal row)))"

section \<open>Rows after a statement\<close>

lemma find_upsert:
  assumes "\<And>r. key (merge r) = key r"
  shows "find (\<lambda>r. key r = k) (upsert key new merge rs) =
    (if k = key new then Some (case find (\<lambda>r. key r = k) rs of None \<Rightarrow> new | Some r \<Rightarrow> merge r)
     else find (\<lambda>r. key r = k) rs)"
proof (cases "\<exists>r\<in>set rs. key r = key new")
  case True
  then obtain q where q: "find (\<lambda>r. key r = key new) rs = Some q"
    by (metis (mono_tags, lifting) find_None_iff option.exhaust)
  have "find (\<lambda>r. key r = k) (update_where (\<lambda>r. key r = key new) merge rs) =
    (if k = key new then map_option merge (find (\<lambda>r. key r = key new) rs) else find (\<lambda>r. key r = k) rs)"
    using find_update_key [where P = "\<lambda>_. True" and key = key and f = merge and k = "key new" and k' = k] assms by simp
  with True q show ?thesis by (auto simp: upsert_def)
next
  case False
  then have "find (\<lambda>r. key r = key new) rs = None" by (auto simp: find_None_iff)
  then show ?thesis using False by (auto simp: upsert_def find_append split: option.split)
qed

lemma find_update_row:
  assumes "\<And>r. key (f r) = key r"
  shows "find (\<lambda>r. key r = k') (update_where (\<lambda>r. key r = k) f rs) =
     (if k' = k then map_option f (find (\<lambda>r. key r = k) rs) else find (\<lambda>r. key r = k') rs)"
  by (induction rs) (auto simp: assms)

lemma hd_key_simps [simp]:
  "hd_key (r\<lparr>hd_sequence := a\<rparr>) = hd_key r" "hd_key (r\<lparr>hd_digest := b\<rparr>) = hd_key r"
  "hd_key (r\<lparr>hd_descriptor_digest := c\<rparr>) = hd_key r" "hd_key (r\<lparr>hd_terminal := d\<rparr>) = hd_key r"
  "hd_key (r\<lparr>hd_event_type := e\<rparr>) = hd_key r" "hd_key (r\<lparr>hd_object := f\<rparr>) = hd_key r"
  "hd_key \<lparr>hd_human_id = h, hd_device = n, hd_sequence = a, hd_digest = b, hd_descriptor_digest = c,
     hd_terminal = d, hd_event_type = e, hd_object = f\<rparr> = (h, n)"
  by (simp_all add: hd_key_def)

lemma find_put_descriptor:
  "find_descriptor (put_descriptor E d s) k = (if k = nd_node_id d
     then Some \<lparr>dr_node_id = k, dr_sequence = nd_sequence d, dr_digest = nd_digest E d, dr_object = json_object (nd_to_dict d)\<rparr>
     else find_descriptor s k)"
  by (auto simp: find_descriptor_def put_descriptor_def find_upsert split: option.split dest: find_SomeD)

lemma find_put_reachability:
  "find_reachability (put_reachability E r s) k = (if k = rb_node_id r
     then Some \<lparr>rr_node_id = k, rr_sequence = rb_sequence r, rr_digest = rb_digest E r,
            rr_descriptor_digest = rb_descriptor_digest r, rr_expires_ms = rb_expires_ms r,
            rr_object = json_object (rb_to_dict r)\<rparr>
     else find_reachability s k)"
  by (auto simp: find_reachability_def put_reachability_def find_upsert split: option.split dest: find_SomeD)

lemma find_put_grant:
  "find_device (put_grant E g s) k = (if k = (gr_human_id g, gr_device g)
     then Some \<lparr>hd_human_id = gr_human_id g, hd_device = gr_device g, hd_sequence = gr_sequence g,
          hd_digest = gr_digest E g, hd_descriptor_digest = gr_descriptor_digest g, hd_terminal = False,
          hd_event_type = ''grant'', hd_object = json_object (gr_to_dict g)\<rparr>
     else find_device s k)"
  by (simp add: find_device_def put_grant_def find_upsert)
    (auto simp: hd_key_def split: option.split dest!: find_SomeD)

lemma find_put_revocation:
  "find_device (put_revocation E v s) k = (if k = (rv_human_id v, rv_device v)
     then map_option (\<lambda>_. \<lparr>hd_human_id = rv_human_id v, hd_device = rv_device v, hd_sequence = rv_sequence v,
          hd_digest = rv_digest E v, hd_descriptor_digest = rv_descriptor_digest v, hd_terminal = True,
          hd_event_type = ''revocation'', hd_object = json_object (rv_to_dict v)\<rparr>) (find_device s k)
     else find_device s k)"
  by (simp add: find_device_def put_revocation_def find_update_row)
    (auto simp: hd_key_def map_option_case split: option.split dest!: find_SomeD)

lemma put_frames [simp]:
  "find_reachability (put_descriptor E d s) k = find_reachability s k"
  "find_device (put_descriptor E d s) k' = find_device s k'"
  "find_descriptor (put_reachability E r s) k = find_descriptor s k"
  "find_device (put_reachability E r s) k' = find_device s k'"
  "find_descriptor (put_grant E g s) k = find_descriptor s k"
  "find_reachability (put_grant E g s) k = find_reachability s k"
  "find_descriptor (put_revocation E v s) k = find_descriptor s k"
  "find_reachability (put_revocation E v s) k = find_reachability s k"
  by (simp_all add: find_descriptor_def find_reachability_def find_device_def put_descriptor_def
      put_reachability_def put_grant_def put_revocation_def)

section \<open>The store implements the tracker\<close>

definition abs_tracker :: "control_store \<Rightarrow> tracker" where
  "abs_tracker s = \<lparr>tk_descriptors = (\<lambda>k. map_option dr_checkpoint (find_descriptor s k)),
     tk_reachability = (\<lambda>k. map_option rr_checkpoint (find_reachability s k)),
     tk_devices = (\<lambda>k. map_option hd_checkpoint (find_device s k))\<rparr>"

text \<open>Checking a revision and then writing it is what the tracker does in one step.\<close>

lemma advance_check:
  "advance cps k seq prev dig is_terminal forbid =
     and_then (check_revision (cps k) seq prev dig forbid) (\<lambda>changed.
       Inr (if changed then cps(k \<mapsto> \<lparr>cp_sequence = seq, cp_digest = dig, cp_terminal = is_terminal\<rparr>) else cps, changed))"
  by (simp add: advance_def check_revision_def Let_def split: option.split)

lemma abs_put:
  "abs_tracker (put_descriptor E d s) = (abs_tracker s)
     \<lparr>tk_descriptors := (tk_descriptors (abs_tracker s))(nd_node_id d \<mapsto>
        \<lparr>cp_sequence = nd_sequence d, cp_digest = nd_digest E d, cp_terminal = False\<rparr>)\<rparr>"
  "abs_tracker (put_reachability E r s) = (abs_tracker s)
     \<lparr>tk_reachability := (tk_reachability (abs_tracker s))(rb_node_id r \<mapsto>
        \<lparr>cp_sequence = rb_sequence r, cp_digest = rb_digest E r, cp_terminal = False\<rparr>)\<rparr>"
  "abs_tracker (put_grant E g s) = (abs_tracker s)
     \<lparr>tk_devices := (tk_devices (abs_tracker s))((gr_human_id g, gr_device g) \<mapsto>
        \<lparr>cp_sequence = gr_sequence g, cp_digest = gr_digest E g, cp_terminal = False\<rparr>)\<rparr>"
  "find_device s (rv_human_id v, rv_device v) \<noteq> None \<Longrightarrow> abs_tracker (put_revocation E v s) = (abs_tracker s)
     \<lparr>tk_devices := (tk_devices (abs_tracker s))((rv_human_id v, rv_device v) \<mapsto>
        \<lparr>cp_sequence = rv_sequence v, cp_digest = rv_digest E v, cp_terminal = True\<rparr>)\<rparr>"
  by (auto simp: abs_tracker_def find_put_descriptor find_put_reachability find_put_grant find_put_revocation
      dr_checkpoint_def rr_checkpoint_def hd_checkpoint_def fun_eq_iff)

lemma abs_require_current: "tracker_require_current E d (abs_tracker s) = require_current_descriptor E d s"
  by (simp add: tracker_require_current_def require_current_descriptor_def abs_tracker_def dr_checkpoint_def
      option.map_comp comp_def)

lemma tracker_id [simp]:
  "t\<lparr>tk_descriptors := tk_descriptors t\<rparr> = t" "t\<lparr>tk_reachability := tk_reachability t\<rparr> = t"
  "t\<lparr>tk_devices := tk_devices t\<rparr> = t"
  by simp_all

subsection \<open>Calls\<close>

datatype control_call =
    AcceptDescriptor time_ms node_descriptor
  | AcceptReachability time_ms reachability node_descriptor
  | AcceptGrant time_ms device_grant node_descriptor
  | AcceptRevocation time_ms device_revocation node_descriptor

fun control_answer :: "'a control_env_scheme \<Rightarrow> control_call \<Rightarrow> control_store \<Rightarrow> (control_store, bool) outcome" where
  "control_answer E (AcceptDescriptor now d) s = accept_descriptor E now d s"
| "control_answer E (AcceptReachability now r d) s = accept_reachability E now r d s"
| "control_answer E (AcceptGrant now g d) s = accept_human_grant E now g d s"
| "control_answer E (AcceptRevocation now v d) s = accept_human_revocation E now v d s"

fun tracker_answer :: "'a control_env_scheme \<Rightarrow> control_call \<Rightarrow> tracker \<Rightarrow> (tracker, bool) outcome" where
  "tracker_answer E (AcceptDescriptor now d) t = tracker_accept_descriptor E now d t"
| "tracker_answer E (AcceptReachability now r d) t = tracker_accept_reachability E now r d t"
| "tracker_answer E (AcceptGrant now g d) t = tracker_accept_grant E now g d t"
| "tracker_answer E (AcceptRevocation now v d) t = tracker_accept_revocation E now v d t"

definition control_step :: "'a control_env_scheme \<Rightarrow> control_call \<Rightarrow> control_store \<Rightarrow> control_store" where
  "control_step E c s = fst (control_answer E c s)"

text \<open>The results of a sequence of calls, and the state after it.\<close>

fun outcomes :: "('c \<Rightarrow> 's \<Rightarrow> 's \<times> 'r) \<Rightarrow> 'c list \<Rightarrow> 's \<Rightarrow> 's \<times> 'r list" where
  "outcomes f [] s = (s, [])"
| "outcomes f (c # cs) s = (case f c s of (s', r) \<Rightarrow> case outcomes f cs s' of (s'', rs) \<Rightarrow> (s'', r # rs))"

text \<open>Two machines with the same calls and the same results, seen through an abstraction.\<close>

locale simulation =
  fixes concrete :: "'c \<Rightarrow> 's \<Rightarrow> 's \<times> 'r"
    and abstract :: "'c \<Rightarrow> 't \<Rightarrow> 't \<times> 'r"
    and view :: "'s \<Rightarrow> 't"
  assumes sim_call: "abstract c (view s) = (view (fst (concrete c s)), snd (concrete c s))"
begin

lemma sim_outcomes:
  "outcomes abstract cs (view s) = (view (fst (outcomes concrete cs s)), snd (outcomes concrete cs s))"
  by (induction cs arbitrary: s) (simp_all add: sim_call split: prod.splits)

end

lemma sim_descriptor:
  "tracker_accept_descriptor E now d (abs_tracker s) =
     (abs_tracker (fst (accept_descriptor E now d s)), snd (accept_descriptor E now d s))"
proof -
  have "tk_descriptors (abs_tracker s) (nd_node_id d) = map_option dr_checkpoint (find_descriptor s (nd_node_id d))"
    by (simp add: abs_tracker_def)
  then show ?thesis
    by (auto simp: tracker_accept_descriptor_def accept_descriptor_def checked_def transaction_def advance_check
        and_then_def abs_put split: sum.splits)
qed

lemma sim_reachability:
  "tracker_accept_reachability E now r d (abs_tracker s) =
     (abs_tracker (fst (accept_reachability E now r d s)), snd (accept_reachability E now r d s))"
proof -
  have "tk_reachability (abs_tracker s) (rb_node_id r) = map_option rr_checkpoint (find_reachability s (rb_node_id r))"
    by (simp add: abs_tracker_def)
  then show ?thesis
    by (auto simp: tracker_accept_reachability_def accept_reachability_def checked_def transaction_def advance_check
        and_then_def abs_put abs_require_current split: sum.splits)
qed

lemma abs_device: "tk_devices (abs_tracker s) k = map_option hd_checkpoint (find_device s k)"
  by (simp add: abs_tracker_def)

lemma sim_grant:
  "tracker_accept_grant E now g d (abs_tracker s) =
     (abs_tracker (fst (accept_human_grant E now g d s)), snd (accept_human_grant E now g d s))"
  using abs_device [of s "(gr_human_id g, gr_device g)"]
  by (auto simp: tracker_accept_grant_def accept_human_grant_def checked_def transaction_def advance_check
      and_then_def abs_put abs_require_current split: sum.splits)

lemma sim_revocation:
  "tracker_accept_revocation E now v d (abs_tracker s) =
     (abs_tracker (fst (accept_human_revocation E now v d s)), snd (accept_human_revocation E now v d s))"
proof (cases "find_device s (rv_human_id v, rv_device v)")
  case None
  then show ?thesis using abs_device [of s "(rv_human_id v, rv_device v)"]
    by (auto simp: tracker_accept_revocation_def accept_human_revocation_def checked_def transaction_def
        and_then_def abs_require_current require_def split: sum.splits)
next
  case (Some row)
  then show ?thesis using abs_device [of s "(rv_human_id v, rv_device v)"] abs_put(4) [of s v E]
    by (auto simp: tracker_accept_revocation_def accept_human_revocation_def checked_def transaction_def advance_check
        and_then_def abs_require_current require_def split: sum.splits)
qed

lemma sim_control: "tracker_answer E c (abs_tracker s) = (abs_tracker (fst (control_answer E c s)), snd (control_answer E c s))"
  by (cases c) (simp_all add: sim_descriptor sim_reachability sim_grant sim_revocation)

interpretation tracking: simulation "control_answer E" "tracker_answer E" abs_tracker for E
  by unfold_locales (rule sim_control)

text \<open>
  C13: the durable store implements the revision tracker.  Started empty and given the same objects in
  any order, valid or not, both answer every call alike, with the same error, the same acceptance or the
  same repetition, and the columns of the store hold exactly the checkpoints of the tracker.
\<close>

theorem control_store_refines_tracker:
  "outcomes (tracker_answer E) cs empty_tracker =
     (abs_tracker (fst (outcomes (control_answer E) cs empty_control)), snd (outcomes (control_answer E) cs empty_control))"
proof -
  have "empty_tracker = abs_tracker empty_control"
    by (simp add: empty_tracker_def abs_tracker_def empty_control_def find_descriptor_def find_reachability_def find_device_def)
  then show ?thesis using tracking.sim_outcomes [of E cs empty_control] by (rule ssubst)
qed

section \<open>Chains of revisions\<close>

datatype chain = DescriptorChain string | ReachabilityChain string | DeviceChain "string \<times> string"

text \<open>The latest revision of a chain, as the table that keeps it says.\<close>

fun revision :: "chain \<Rightarrow> control_store \<Rightarrow> checkpoint option" where
  "revision (DescriptorChain k) s = map_option dr_checkpoint (find_descriptor s k)"
| "revision (ReachabilityChain k) s = map_option rr_checkpoint (find_reachability s k)"
| "revision (DeviceChain k) s = map_option hd_checkpoint (find_device s k)"

text \<open>How the latest revision of a chain may move.\<close>

inductive revision_flow :: "checkpoint option \<Rightarrow> checkpoint option \<Rightarrow> bool" where
  Genesis: "cp_sequence c = 1 \<Longrightarrow> revision_flow None (Some c)"
| Successor: "\<not> cp_terminal c \<Longrightarrow> cp_sequence c' = cp_sequence c + 1 \<Longrightarrow> revision_flow (Some c) (Some c')"

inductive_simps revision_flow_None: "revision_flow v None"
inductive_cases revision_flow_Some: "revision_flow (Some c) v"

lemma check_revision_True:
  "check_revision current seq prev dig forbid = Inr True \<longleftrightarrow>
     (case current of None \<Rightarrow> seq = 1 \<and> prev = GENESIS_DIGEST
      | Some c \<Rightarrow> seq = cp_sequence c + 1 \<and> prev = cp_digest c \<and> \<not> (forbid \<and> cp_terminal c))"
  by (cases current) (auto simp: check_revision_def)

lemma check_revision_False:
  "check_revision current seq prev dig forbid = Inr False \<longleftrightarrow>
     (\<exists>c. current = Some c \<and> seq = cp_sequence c \<and> dig = cp_digest c)"
  by (cases current) (auto simp: check_revision_def)

text \<open>Every call leaves the store alone or writes one verified object that extends its chain.\<close>

lemma accept_descriptor_cases:
  "fst (accept_descriptor E now d s) = s \<or>
   (verify_descriptor E now d = Inr () \<and> fst (accept_descriptor E now d s) = put_descriptor E d s
    \<and> check_revision (map_option dr_checkpoint (find_descriptor s (nd_node_id d)))
        (nd_sequence d) (nd_previous d) (nd_digest E d) False = Inr True)"
  by (auto simp: accept_descriptor_def checked_def transaction_def and_then_def split: sum.splits)

lemma accept_reachability_cases:
  "fst (accept_reachability E now r d s) = s \<or>
   (verify_reachability E now d r = Inr () \<and> fst (accept_reachability E now r d s) = put_reachability E r s
    \<and> check_revision (map_option rr_checkpoint (find_reachability s (rb_node_id r)))
        (rb_sequence r) (rb_previous r) (rb_digest E r) False = Inr True)"
  by (auto simp: accept_reachability_def checked_def transaction_def and_then_def split: sum.splits)

lemma accept_grant_cases:
  "fst (accept_human_grant E now g d s) = s \<or>
   (verify_grant E now d g = Inr () \<and> fst (accept_human_grant E now g d s) = put_grant E g s
    \<and> check_revision (map_option hd_checkpoint (find_device s (gr_human_id g, gr_device g)))
        (gr_sequence g) (gr_previous g) (gr_digest E g) True = Inr True)"
  by (auto simp: accept_human_grant_def checked_def transaction_def and_then_def split: sum.splits)

lemma accept_revocation_cases:
  "fst (accept_human_revocation E now v d s) = s \<or>
   (verify_revocation E now d v = Inr () \<and> fst (accept_human_revocation E now v d s) = put_revocation E v s
    \<and> find_device s (rv_human_id v, rv_device v) \<noteq> None
    \<and> check_revision (map_option hd_checkpoint (find_device s (rv_human_id v, rv_device v)))
        (rv_sequence v) (rv_previous v) (rv_digest E v) True = Inr True)"
  by (cases "find_device s (rv_human_id v, rv_device v)"; cases "verify_revocation E now d v";
      cases "require_current_descriptor E d s"; simp add: accept_human_revocation_def transaction_def split: sum.split)

section \<open>The invariant\<close>

text \<open>A row holds the object it was written from, under its own key, with its sequence and digest.\<close>

definition descriptor_row_ok :: "'a crypto_scheme \<Rightarrow> string \<Rightarrow> descriptor_row \<Rightarrow> bool" where
  "descriptor_row_ok E k row \<longleftrightarrow> (\<exists>d now. verify_descriptor E now d = Inr () \<and> nd_node_id d = k
     \<and> dr_sequence row = nd_sequence d \<and> dr_digest row = nd_digest E d \<and> dr_object row = json_object (nd_to_dict d))"

definition reachability_row_ok :: "'a control_env_scheme \<Rightarrow> string \<Rightarrow> reachability_row \<Rightarrow> bool" where
  "reachability_row_ok E k row \<longleftrightarrow> (\<exists>r d now. verify_reachability E now d r = Inr () \<and> rb_node_id r = k
     \<and> rr_sequence row = rb_sequence r \<and> rr_digest row = rb_digest E r
     \<and> rr_descriptor_digest row = rb_descriptor_digest r \<and> rr_expires_ms row = rb_expires_ms r
     \<and> rr_object row = json_object (rb_to_dict r))"

definition grant_row_ok :: "'a crypto_scheme \<Rightarrow> string \<times> string \<Rightarrow> device_row \<Rightarrow> bool" where
  "grant_row_ok E k row \<longleftrightarrow> (\<exists>g d now. verify_grant E now d g = Inr () \<and> (gr_human_id g, gr_device g) = k
     \<and> hd_sequence row = gr_sequence g \<and> hd_digest row = gr_digest E g
     \<and> hd_descriptor_digest row = gr_descriptor_digest g \<and> hd_object row = json_object (gr_to_dict g))"

definition revocation_row_ok :: "'a crypto_scheme \<Rightarrow> string \<times> string \<Rightarrow> device_row \<Rightarrow> bool" where
  "revocation_row_ok E k row \<longleftrightarrow> (\<exists>v d now. verify_revocation E now d v = Inr () \<and> (rv_human_id v, rv_device v) = k
     \<and> hd_sequence row = rv_sequence v \<and> hd_digest row = rv_digest E v
     \<and> hd_descriptor_digest row = rv_descriptor_digest v \<and> hd_object row = json_object (rv_to_dict v))"

definition device_row_ok :: "'a crypto_scheme \<Rightarrow> string \<times> string \<Rightarrow> device_row \<Rightarrow> bool" where
  "device_row_ok E k row \<longleftrightarrow>
     (if hd_terminal row then hd_event_type row = ''revocation'' \<and> revocation_row_ok E k row
      else hd_event_type row = ''grant'' \<and> grant_row_ok E k row)"

definition control_inv :: "'a control_env_scheme \<Rightarrow> control_store \<Rightarrow> bool" where
  "control_inv E s \<longleftrightarrow> unique_key dr_node_id (t_descriptors s) \<and> unique_key rr_node_id (t_reachability s)
     \<and> unique_key hd_key (t_devices s)
     \<and> (\<forall>k row. find_descriptor s k = Some row \<longrightarrow> descriptor_row_ok E k row)
     \<and> (\<forall>k row. find_reachability s k = Some row \<longrightarrow> reachability_row_ok E k row)
     \<and> (\<forall>k row. find_device s k = Some row \<longrightarrow> device_row_ok E k row)"

lemma control_inv_empty: "control_inv E empty_control"
  by (simp add: control_inv_def empty_control_def find_descriptor_def find_reachability_def find_device_def)

lemma inv_put_descriptor:
  assumes "control_inv E s" and "verify_descriptor E now d = Inr ()"
  shows "control_inv E (put_descriptor E d s)"
proof -
  have "descriptor_row_ok E (nd_node_id d) \<lparr>dr_node_id = nd_node_id d, dr_sequence = nd_sequence d,
      dr_digest = nd_digest E d, dr_object = json_object (nd_to_dict d)\<rparr>"
    using assms(2) by (auto simp: descriptor_row_ok_def)
  moreover have "unique_key dr_node_id (t_descriptors (put_descriptor E d s))"
    using assms(1) by (auto simp: control_inv_def put_descriptor_def)
  ultimately show ?thesis using assms(1)
    by (auto simp: control_inv_def find_put_descriptor) (simp_all add: put_descriptor_def)
qed

lemma inv_put_reachability:
  assumes "control_inv E s" and "verify_reachability E now d r = Inr ()"
  shows "control_inv E (put_reachability E r s)"
proof -
  have "reachability_row_ok E (rb_node_id r) \<lparr>rr_node_id = rb_node_id r, rr_sequence = rb_sequence r,
      rr_digest = rb_digest E r, rr_descriptor_digest = rb_descriptor_digest r, rr_expires_ms = rb_expires_ms r,
      rr_object = json_object (rb_to_dict r)\<rparr>"
    using assms(2) by (auto simp: reachability_row_ok_def)
  moreover have "unique_key rr_node_id (t_reachability (put_reachability E r s))"
    using assms(1) by (auto simp: control_inv_def put_reachability_def)
  ultimately show ?thesis using assms(1)
    by (auto simp: control_inv_def find_put_reachability) (simp_all add: put_reachability_def)
qed

lemma inv_put_grant:
  assumes "control_inv E s" and "verify_grant E now d g = Inr ()"
  shows "control_inv E (put_grant E g s)"
proof -
  have "device_row_ok E (gr_human_id g, gr_device g) \<lparr>hd_human_id = gr_human_id g, hd_device = gr_device g,
      hd_sequence = gr_sequence g, hd_digest = gr_digest E g, hd_descriptor_digest = gr_descriptor_digest g,
      hd_terminal = False, hd_event_type = ''grant'', hd_object = json_object (gr_to_dict g)\<rparr>"
    using assms(2) by (auto simp: device_row_ok_def grant_row_ok_def)
  moreover have "unique_key hd_key (t_devices (put_grant E g s))"
    using assms(1) by (auto simp: control_inv_def put_grant_def)
  ultimately show ?thesis using assms(1)
    by (auto simp: control_inv_def find_put_grant) (simp_all add: put_grant_def)
qed

lemma inv_put_revocation:
  assumes "control_inv E s" and "verify_revocation E now d v = Inr ()"
  shows "control_inv E (put_revocation E v s)"
proof -
  have "device_row_ok E (rv_human_id v, rv_device v) \<lparr>hd_human_id = rv_human_id v, hd_device = rv_device v,
      hd_sequence = rv_sequence v, hd_digest = rv_digest E v, hd_descriptor_digest = rv_descriptor_digest v,
      hd_terminal = True, hd_event_type = ''revocation'', hd_object = json_object (rv_to_dict v)\<rparr>"
    using assms(2) by (auto simp: device_row_ok_def revocation_row_ok_def)
  moreover have "unique_key hd_key (t_devices (put_revocation E v s))"
    using assms(1) by (auto simp: control_inv_def put_revocation_def)
  ultimately show ?thesis using assms(1)
    by (auto simp: control_inv_def find_put_revocation split: if_splits) (simp_all add: put_revocation_def)
qed

lemma inv_control_step:
  assumes "control_inv E s"
  shows "control_inv E (control_step E c s)"
proof (cases c)
  case (AcceptDescriptor now d)
  with accept_descriptor_cases [of E now d s] inv_put_descriptor [OF assms] assms show ?thesis
    by (auto simp: control_step_def)
next
  case (AcceptReachability now r d)
  with accept_reachability_cases [of E now r d s] inv_put_reachability [OF assms] assms show ?thesis
    by (auto simp: control_step_def)
next
  case (AcceptGrant now g d)
  with accept_grant_cases [of E now g d s] inv_put_grant [OF assms] assms show ?thesis
    by (auto simp: control_step_def)
next
  case (AcceptRevocation now v d)
  with accept_revocation_cases [of E now v d s] inv_put_revocation [OF assms] assms show ?thesis
    by (auto simp: control_step_def)
qed

lemma revision_step:
  "revision k (control_step E c s) = revision k s \<or> revision_flow (revision k s) (revision k (control_step E c s))"
proof (cases c)
  case (AcceptDescriptor now d)
  with accept_descriptor_cases [of E now d s] show ?thesis
    by (cases k) (auto simp: control_step_def find_put_descriptor check_revision_True dr_checkpoint_def
        intro!: revision_flow.intros split: option.splits)
next
  case (AcceptReachability now r d)
  with accept_reachability_cases [of E now r d s] show ?thesis
    by (cases k) (auto simp: control_step_def find_put_reachability check_revision_True rr_checkpoint_def
        intro!: revision_flow.intros split: option.splits)
next
  case (AcceptGrant now g d)
  with accept_grant_cases [of E now g d s] show ?thesis
    by (cases k) (auto simp: control_step_def find_put_grant check_revision_True hd_checkpoint_def
        intro!: revision_flow.intros split: option.splits)
next
  case (AcceptRevocation now v d)
  with accept_revocation_cases [of E now v d s] show ?thesis
    by (cases k) (auto simp: control_step_def find_put_revocation check_revision_True hd_checkpoint_def
        intro!: revision_flow.intros split: option.splits)
qed

interpretation control: refinement_map empty_control "control_step E" "control_inv E" "revision k" revision_flow for E k
  by unfold_locales (simp_all add: control_inv_empty inv_control_step revision_step)

section \<open>No rollback, no fork\<close>

lemma revision_run:
  assumes "revision_flow\<^sup>*\<^sup>* (Some c) v"
  shows "\<exists>c'. v = Some c' \<and> cp_sequence c \<le> cp_sequence c' \<and> (cp_sequence c' = cp_sequence c \<longrightarrow> c' = c)
    \<and> (cp_terminal c \<longrightarrow> c' = c)"
  using assms by (induction rule: rtranclp_induct) (auto elim!: revision_flow_Some)

text \<open>
  C14: no rollback and no fork.  Once a chain has a revision, then after any further calls its sequence
  number is at least as high, a chain that still shows the same number shows the same object, by its
  digest, and a revoked chain never moves again.
\<close>

theorem revisions_monotone:
  assumes "control_inv E s" and "revision k s = Some c"
  shows "\<exists>c'. revision k (fold (control_step E) cs s) = Some c' \<and> cp_sequence c \<le> cp_sequence c'
    \<and> (cp_sequence c' = cp_sequence c \<longrightarrow> c' = c) \<and> (cp_terminal c \<longrightarrow> c' = c)"
  using control.view_run [OF assms(1), of k cs] revision_run assms(2) by auto

definition grant_valid :: "'a crypto_scheme \<Rightarrow> time_ms \<Rightarrow> device_grant \<Rightarrow> node_descriptor \<Rightarrow> control_store \<Rightarrow> bool" where
  "grant_valid E now g d s \<longleftrightarrow> verify_grant E now d g = Inr () \<and> require_current_descriptor E d s = Inr ()"

text \<open>
  C15: an offered grant is answered by its chain.  It is taken as new exactly when it verifies against
  the current descriptor and continues the chain: the first revision, or the successor of the recorded
  one naming its digest, on a chain that is not revoked.  It is a repetition exactly when it has the
  recorded number and digest.  Everything else raises and leaves the store alone.
\<close>

theorem accept_grant_answer:
  "(snd (accept_human_grant E now g d s) = Inr True \<longleftrightarrow> grant_valid E now g d s \<and>
      (case find_device s (gr_human_id g, gr_device g) of
         None \<Rightarrow> gr_sequence g = 1 \<and> gr_previous g = GENESIS_DIGEST
       | Some row \<Rightarrow> gr_sequence g = hd_sequence row + 1 \<and> gr_previous g = hd_digest row \<and> \<not> hd_terminal row))
   \<and> (snd (accept_human_grant E now g d s) = Inr False \<longleftrightarrow> grant_valid E now g d s \<and>
      (\<exists>row. find_device s (gr_human_id g, gr_device g) = Some row \<and> gr_sequence g = hd_sequence row \<and> gr_digest E g = hd_digest row))
   \<and> fst (accept_human_grant E now g d s) = (if snd (accept_human_grant E now g d s) = Inr True then put_grant E g s else s)"
  (is "(_ \<longleftrightarrow> ?new) \<and> (_ \<longleftrightarrow> ?again) \<and> ?state")
proof -
  let ?check = "check_revision (map_option hd_checkpoint (find_device s (gr_human_id g, gr_device g)))
    (gr_sequence g) (gr_previous g) (gr_digest E g) True"
  have answer: "snd (accept_human_grant E now g d s) = Inr b \<longleftrightarrow> grant_valid E now g d s \<and> ?check = Inr b" for b
    by (auto simp: accept_human_grant_def grant_valid_def checked_def transaction_def and_then_def split: sum.splits)
  have "grant_valid E now g d s \<and> ?check = Inr True \<longleftrightarrow> ?new" "grant_valid E now g d s \<and> ?check = Inr False \<longleftrightarrow> ?again"
    unfolding check_revision_True check_revision_False by (auto simp: hd_checkpoint_def split: option.split)
  moreover have ?state
    by (auto simp: accept_human_grant_def checked_def transaction_def and_then_def split: sum.splits)
  ultimately show ?thesis unfolding answer by blast
qed

section \<open>What the queries return\<close>

lemma current_descriptor_Some:
  assumes "control_inv E s" and "current_descriptor E now k s = Inr (Some d)"
  shows "verify_descriptor E now d = Inr () \<and> nd_node_id d = k
    \<and> map_option dr_digest (find_descriptor s k) = Some (nd_digest E d)"
proof -
  obtain row where row: "find_descriptor s k = Some row" and d: "nd_from_dict E now (dr_object row) = Inr d"
    using assms(2) by (auto simp: current_descriptor_def split: option.splits)
  obtain d0 now0 where d0: "verify_descriptor E now0 d0 = Inr ()" "nd_node_id d0 = k" "dr_digest row = nd_digest E d0"
    "dr_object row = json_object (nd_to_dict d0)"
    using assms(1) row unfolding control_inv_def descriptor_row_ok_def by metis
  from d nd_read [OF verified_sizes(1) [OF d0(1)], of E now] have "d = d0" "verify_descriptor E now d = Inr ()"
    by (auto simp: d0(4))
  with d0 row show ?thesis by simp
qed

lemma genuine_grant:
  assumes "control_inv E s" and "human_device_grant E now1 now2 hid dev s = Inr (Some g)"
  shows "gr_human_id g = hid \<and> gr_device g = dev \<and> derive_human_id E (gr_human_public g) = Inr hid
    \<and> check_signature E (gr_human_public g) (gr_signature g) (gr_signing_fields g) = Inr ()
    \<and> map_option dr_digest (find_descriptor s dev) = Some (gr_descriptor_digest g)
    \<and> now2 < gr_expires_ms g
    \<and> revision (DeviceChain (hid, dev)) s =
        Some \<lparr>cp_sequence = gr_sequence g, cp_digest = gr_digest E g, cp_terminal = False\<rparr>"
proof -
  obtain d row where d: "current_descriptor E now1 dev s = Inr (Some d)"
    and row: "find_device s (hid, nd_node_id d) = Some row" "hd_event_type row = ''grant''"
    and g: "gr_from_dict E now2 d (hd_object row) = Inr g"
    using assms(2) by (auto simp: human_device_grant_def split: option.splits if_splits)
  note cur = current_descriptor_Some [OF assms(1) d]
  have ok: "device_row_ok E (hid, dev) row" using assms(1) row(1) cur by (simp add: control_inv_def)
  then have nt: "\<not> hd_terminal row" using row(2) by (auto simp: device_row_ok_def)
  with ok obtain g0 d0 now0 where g0: "verify_grant E now0 d0 g0 = Inr ()" "gr_human_id g0 = hid" "gr_device g0 = dev"
    "hd_sequence row = gr_sequence g0" "hd_digest row = gr_digest E g0" "hd_object row = json_object (gr_to_dict g0)"
    by (auto simp: device_row_ok_def grant_row_ok_def)
  from g gr_read [OF verified_sizes(3) [OF g0(1)], of E now2 d] have "g = g0" and v: "verify_grant E now2 d g = Inr ()"
    by (auto simp: g0(6))
  moreover have "derive_human_id E (gr_human_public g) = Inr (gr_human_id g)"
    "check_signature E (gr_human_public g) (gr_signature g) (gr_signing_fields g) = Inr ()"
    using v by (auto simp: verify_grant_def)
  ultimately show ?thesis using g0 row(1) nt cur verified_window(3) [OF v] verified_binding(2) [OF v]
    by (simp add: hd_checkpoint_def)
qed

text \<open>
  C12: a reported grant is genuine.  Whatever was accepted before, a grant the store reports for a human
  and a device was issued for exactly that pair, carries the human's signature under the key the human
  id is derived from, names the current descriptor of the device, has not expired, and is the latest
  revision of a chain that is not revoked.
\<close>

theorem reported_grant_genuine:
  assumes "control_inv E s" and "human_device_grant E now1 now2 hid dev s = Inr (Some g)"
  shows "gr_human_id g = hid \<and> gr_device g = dev \<and> derive_human_id E (gr_human_public g) = Inr hid
    \<and> check_signature E (gr_human_public g) (gr_signature g) (gr_signing_fields g) = Inr ()
    \<and> map_option dr_digest (find_descriptor s dev) = Some (gr_descriptor_digest g)
    \<and> now2 < gr_expires_ms g
    \<and> revision (DeviceChain (hid, dev)) s =
        Some \<lparr>cp_sequence = gr_sequence g, cp_digest = gr_digest E g, cp_terminal = False\<rparr>"
  using assms by (rule genuine_grant)

text \<open>
  An accepted grant is in force.  When a new grant was accepted against the descriptor the store
  reports, the store reports exactly that grant for its human and device.
\<close>

theorem accepted_grant_reported:
  assumes "current_descriptor E now (nd_node_id d) s = Inr (Some d)"
    and "accept_human_grant E now g d s = (s', Inr True)"
  shows "human_device_grant E now now (gr_human_id g) (gr_device g) s' = Inr (Some g)"
proof -
  have v: "verify_grant E now d g = Inr ()" and s': "s' = put_grant E g s"
    using assms(2) by (auto simp: accept_human_grant_def checked_Inr transaction_Inr)
  have dev: "gr_device g = nd_node_id d" "gr_descriptor_digest g = nd_digest E d" "check_human_id (gr_human_id g) = Inr ()"
    using v by (auto simp: verify_grant_def)
  have "current_descriptor E now (nd_node_id d) s' = Inr (Some d)"
    using assms(1) by (simp add: current_descriptor_def s')
  then show ?thesis using dev gr_read [OF verified_sizes(3) [OF v], of E now d] v
    by (simp add: human_device_grant_def s' find_put_grant)
qed

section \<open>Revocation\<close>

lemma accept_grant_new:
  "find_device s (gr_human_id g, gr_device g) = Some row \<Longrightarrow> hd_terminal row \<Longrightarrow>
   snd (accept_human_grant E now g d s) \<noteq> Inr True"
  using check_revision_True [of "Some (hd_checkpoint row)" "gr_sequence g" "gr_previous g" "gr_digest E g" True]
  by (auto simp: accept_human_grant_def checked_def transaction_def and_then_def hd_checkpoint_def split: sum.splits)

lemma revocation_True:
  assumes "accept_human_revocation E now v d s = (s', Inr True)"
  shows "verify_revocation E now d v = Inr () \<and>
    revision (DeviceChain (rv_human_id v, rv_device v)) s' =
      Some \<lparr>cp_sequence = rv_sequence v, cp_digest = rv_digest E v, cp_terminal = True\<rparr>"
proof -
  have "verify_revocation E now d v = Inr ()" "s' = put_revocation E v s" "find_device s (rv_human_id v, rv_device v) \<noteq> None"
    using assms by (auto simp: accept_human_revocation_def checked_Inr transaction_Inr split: option.splits)
  then show ?thesis by (auto simp: find_put_revocation hd_checkpoint_def)
qed

lemma revoked_forever:
  assumes "control_inv E s" and "accept_human_revocation E now v d s = (s1, Inr True)"
  obtains row where "control_inv E (fold (control_step E) cs s1)"
    "find_device (fold (control_step E) cs s1) (rv_human_id v, rv_device v) = Some row" "hd_terminal row"
    "is_human_device_revoked (rv_human_id v) (rv_device v) (fold (control_step E) cs s1) = Inr True"
proof -
  let ?s2 = "fold (control_step E) cs s1"
  let ?k = "DeviceChain (rv_human_id v, rv_device v)"
  note rv = revocation_True [OF assms(2)]
  have s1: "s1 = control_step E (AcceptRevocation now v d) s" using assms(2) by (simp add: control_step_def)
  then have inv1: "control_inv E s1" using assms(1) by (simp add: inv_control_step)
  then have inv2: "control_inv E ?s2" by (rule control.inv_run)
  have "revision ?k ?s2 = revision ?k s1"
    using control.view_run [OF inv1, of ?k cs] revision_run rv by fastforce
  with rv have rev: "revision ?k ?s2 = Some \<lparr>cp_sequence = rv_sequence v, cp_digest = rv_digest E v, cp_terminal = True\<rparr>"
    by simp
  then obtain row where row: "find_device ?s2 (rv_human_id v, rv_device v) = Some row" "hd_terminal row"
    by (auto simp: hd_checkpoint_def)
  have "check_human_id (rv_human_id v) = Inr ()" "check_node_id (rv_device v) = Inr ()"
    using rv by (auto simp: verify_revocation_def verify_descriptor_def)
  then have "is_human_device_revoked (rv_human_id v) (rv_device v) ?s2 = Inr True"
    using row by (simp add: is_human_device_revoked_def)
  with inv2 row show ?thesis by (rule that)
qed

text \<open>
  C11: revocation is permanent.  After the revocation of a device was accepted for a human, then whatever
  objects are offered afterwards, the device stays revoked, no grant is reported for it, and no grant of
  that human for it is ever taken as new.
\<close>

theorem revocation_permanent:
  assumes "control_inv E s" and "accept_human_revocation E now v d s = (s1, Inr True)"
    and "gr_human_id g = rv_human_id v" and "gr_device g = rv_device v"
  shows "is_human_device_revoked (rv_human_id v) (rv_device v) (fold (control_step E) cs s1) = Inr True
    \<and> human_device_grant E now1 now2 (rv_human_id v) (rv_device v) (fold (control_step E) cs s1) \<noteq> Inr (Some h)
    \<and> snd (accept_human_grant E now3 g d3 (fold (control_step E) cs s1)) \<noteq> Inr True"
proof -
  let ?s2 = "fold (control_step E) cs s1"
  obtain row where inv2: "control_inv E ?s2" and row: "find_device ?s2 (rv_human_id v, rv_device v) = Some row" "hd_terminal row"
    and revoked: "is_human_device_revoked (rv_human_id v) (rv_device v) ?s2 = Inr True"
    using assms(1,2) by (rule revoked_forever)
  have "device_row_ok E (rv_human_id v, rv_device v) row" using inv2 row(1) by (simp add: control_inv_def)
  then have ev: "hd_event_type row = ''revocation''" using row(2) by (simp add: device_row_ok_def)
  moreover have "human_device_grant E now1 now2 (rv_human_id v) (rv_device v) ?s2 \<noteq> Inr (Some h)"
  proof
    assume "human_device_grant E now1 now2 (rv_human_id v) (rv_device v) ?s2 = Inr (Some h)"
    then obtain d' row' where d': "current_descriptor E now1 (rv_device v) ?s2 = Inr (Some d')"
      and row': "find_device ?s2 (rv_human_id v, nd_node_id d') = Some row'" "hd_event_type row' = ''grant''"
      by (auto simp: human_device_grant_def split: option.splits if_splits)
    with current_descriptor_Some [OF inv2 d'] row(1) ev show False by simp
  qed
  moreover have "snd (accept_human_grant E now3 g d3 ?s2) \<noteq> Inr True"
    using row assms(3,4) by (simp add: accept_grant_new)
  ultimately show ?thesis using revoked by blast
qed

section \<open>An example\<close>

text \<open>An environment with constant functions and a decoder \<open>u\<close>, and the one whose decoder finds nothing.\<close>

definition demo_env :: "(bytes \<Rightarrow> exn + pyval) \<Rightarrow> control_env" where
  "demo_env u = \<lparr>packb = (\<lambda>v. []), unpackb = u, repr = (\<lambda>v. ''''),
     blake2s = (\<lambda>n p m. replicate n 0), sha256 = (\<lambda>m. replicate 32 1),
     x_public = (\<lambda>k. replicate 32 0), x_exchange = (\<lambda>a b. Inr []), hkdf = (\<lambda>s i m. []),
     aead_encrypt = (\<lambda>k n p ad. p), aead_decrypt = (\<lambda>k n c ad. Inr c), ed_public = (\<lambda>k. replicate 32 0),
     ed_sign = (\<lambda>k m. replicate 64 0), ed_verify = (\<lambda>k s m. Inr ()), net_brackets = (\<lambda>_. True)\<rparr>"

abbreviation demo_control :: control_env where
  "demo_control \<equiv> demo_env (\<lambda>b. Inr PNone)"

definition demo_device_id :: string where
  "demo_device_id = ''an1'' @ replicate 32 (CHR ''a'')"

definition demo_human_id :: string where
  "demo_human_id = ''hu1'' @ replicate 32 (CHR ''a'')"

definition demo_device :: node_descriptor where
  "demo_device = \<lparr>nd_node_id = demo_device_id, nd_sign_public = replicate 32 0,
     nd_box_public = replicate 32 0, nd_label = ''phone'', nd_capabilities = [], nd_sequence = 1,
     nd_previous = GENESIS_DIGEST, nd_issued_ms = 1000, nd_expires_ms = 9000, nd_signature = replicate 64 0,
     nd_version = 2, nd_object_type = NODE_DESCRIPTOR_TYPE\<rparr>"

definition demo_grant :: device_grant where
  "demo_grant = \<lparr>gr_human_id = demo_human_id, gr_human_public = replicate 32 2,
     gr_device = demo_device_id, gr_descriptor_digest = replicate 32 1,
     gr_capabilities = [''approval.sign''], gr_sequence = 1, gr_previous = GENESIS_DIGEST, gr_issued_ms = 1000,
     gr_expires_ms = 8000, gr_signature = replicate 64 0, gr_version = 1, gr_object_type = HUMAN_DEVICE_GRANT_TYPE\<rparr>"

definition demo_revocation :: device_revocation where
  "demo_revocation = \<lparr>rv_human_id = demo_human_id, rv_human_public = replicate 32 2,
     rv_device = demo_device_id, rv_descriptor_digest = replicate 32 1, rv_sequence = 2,
     rv_previous = replicate 32 1, rv_revoked_ms = 3000, rv_reason_code = ''lost'', rv_signature = replicate 64 0,
     rv_version = 1, rv_object_type = HUMAN_DEVICE_REVOCATION_TYPE\<rparr>"

lemma demo_control_ids: "derive_node_id (demo_env u) a b = demo_device_id"
  "derive_human_id (demo_env u) c = and_then (check_bytes 32 ''human signing public key'' c) (\<lambda>_. Inr demo_human_id)"
proof -
  have "b32_char 0 = CHR ''a''" by (simp add: b32_char_def char_of_eq_iff)
  then have "b32_groups (0 # 0 # 0 # 0 # 0 # xs) = ''aaaaaaaa'' @ b32_groups xs" for xs by simp
  moreover have "replicate 20 (0 :: byte) = [0,0,0,0,0,0,0,0,0,0,0,0,0,0,0,0,0,0,0,0]"
    "replicate 32 (CHR ''a'') = ''aaaaaaaaaaaaaaaaaaaaaaaaaaaaaaaa''"
    by (simp_all add: numeral_eq_Suc)
  ultimately have "b32_groups (replicate 20 0) = replicate 32 (CHR ''a'')" by simp
  then show "derive_node_id (demo_env u) a b = demo_device_id"
    "derive_human_id (demo_env u) c = and_then (check_bytes 32 ''human signing public key'' c) (\<lambda>_. Inr demo_human_id)"
    by (simp_all add: derive_node_id_def derive_human_id_def demo_env_def demo_device_id_def demo_human_id_def)
qed

lemma demo_id_match: "id_match ''an1'' demo_device_id" "id_match ''hu1'' demo_human_id"
  by code_simp+

lemma demo_control_fields:
  "control_capability ''approval.sign''" "protocol_token ''lost''" "check_label ''phone'' = Inr ()"
  "sorted_unique [''approval.sign''] = [''approval.sign'']" "replicate 32 (1 :: byte) \<noteq> GENESIS_DIGEST"
  "replicate 32 (2 :: byte) \<noteq> replicate 32 0"
  by (code_simp, code_simp, code_simp, simp add: sorted_unique_def, simp_all add: GENESIS_DIGEST_def replicate_eq_replicate)

lemmas demo_defs = checks.simps check_bytes_def check_revision_fields_def check_window_def check_node_id_def
  check_human_id_def check_control_capabilities_def check_signature_def require_def demo_control_ids demo_id_match demo_control_fields

lemma demo_verified:
  "verify_descriptor (demo_env u) 2000 demo_device = Inr ()"
  "verify_grant (demo_env u) 2000 demo_device demo_grant = Inr ()"
  "verify_revocation (demo_env u) 2000 demo_device demo_revocation = Inr ()"
proof -
  have digest: "nd_digest (demo_env u) d = replicate 32 1" for d
    by (simp add: nd_digest_def object_digest_def demo_env_def)
  have sig: "ed_verify (demo_env u) = (\<lambda>k s m. Inr ())" by (simp add: demo_env_def)
  have seqs: "sorted_unique [] = []" by (simp add: sorted_unique_def)
  show d: "verify_descriptor (demo_env u) 2000 demo_device = Inr ()"
    by (simp add: verify_descriptor_def demo_device_def demo_defs sig seqs NODE_DESCRIPTOR_VERSION_def
        MAX_CONTROL_CAPABILITIES_def MAX_DESCRIPTOR_TTL_MS_def CONTROL_CLOCK_SKEW_MS_def GENESIS_DIGEST_def)
  show "verify_grant (demo_env u) 2000 demo_device demo_grant = Inr ()"
    unfolding verify_grant_def d
    by (simp add: demo_device_def demo_grant_def demo_defs sig digest HUMAN_DEVICE_GRANT_VERSION_def
        MAX_CONTROL_CAPABILITIES_def MAX_HUMAN_GRANT_TTL_MS_def CONTROL_CLOCK_SKEW_MS_def GENESIS_DIGEST_def)
  show "verify_revocation (demo_env u) 2000 demo_device demo_revocation = Inr ()"
    unfolding verify_revocation_def d
    by (simp add: demo_device_def demo_revocation_def demo_defs sig digest HUMAN_DEVICE_REVOCATION_VERSION_def
        CONTROL_CLOCK_SKEW_MS_def)
qed

text \<open>The device is registered and granted; then the grant is withdrawn.\<close>

definition demo_granted :: "(bytes \<Rightarrow> exn + pyval) \<Rightarrow> control_store" where
  "demo_granted u = fold (control_step (demo_env u)) [AcceptDescriptor 2000 demo_device, AcceptGrant 2000 demo_grant demo_device] empty_control"

abbreviation demo_registered :: control_store where
  "demo_registered \<equiv> demo_granted (\<lambda>b. Inr PNone)"

lemma demo_digests:
  "nd_digest (demo_env u) d = replicate 32 1" "gr_digest (demo_env u) g = replicate 32 1" "rv_digest (demo_env u) v = replicate 32 1"
  by (simp_all add: nd_digest_def gr_digest_def rv_digest_def object_digest_def demo_env_def)

lemma demo_granted_eq: "(demo_granted u) = put_grant (demo_env u) demo_grant (put_descriptor (demo_env u) demo_device empty_control)"
proof -
  have "accept_descriptor (demo_env u) 2000 demo_device empty_control = (put_descriptor (demo_env u) demo_device empty_control, Inr True)"
    by (simp add: accept_descriptor_def demo_verified transaction_def check_revision_def empty_control_def find_descriptor_def)
      (simp add: demo_device_def)
  moreover have "accept_human_grant (demo_env u) 2000 demo_grant demo_device (put_descriptor (demo_env u) demo_device empty_control)
      = (put_grant (demo_env u) demo_grant (put_descriptor (demo_env u) demo_device empty_control), Inr True)"
    by (simp add: accept_human_grant_def demo_verified transaction_def check_revision_def require_current_descriptor_def
        find_put_descriptor demo_digests require_def) (simp add: empty_control_def find_device_def demo_grant_def)
  ultimately show ?thesis by (simp add: demo_granted_def control_step_def)
qed

lemma demo_inv: "control_inv (demo_env u) (demo_granted u)"
  unfolding demo_granted_def by (rule control.inv_reachable)

lemma demo_row: "find_device (demo_granted u) (demo_human_id, demo_device_id) = Some
   \<lparr>hd_human_id = demo_human_id, hd_device = demo_device_id, hd_sequence = 1, hd_digest = replicate 32 1,
    hd_descriptor_digest = replicate 32 1, hd_terminal = False, hd_event_type = ''grant'',
    hd_object = json_object (gr_to_dict demo_grant)\<rparr>"
  by (simp add: demo_granted_eq find_put_grant demo_digests) (simp add: demo_grant_def)

lemma demo_device_revoke:
  "accept_human_revocation (demo_env u) 2000 demo_revocation demo_device (demo_granted u) =
     (put_revocation (demo_env u) demo_revocation (demo_granted u), Inr True)"
proof -
  have key: "rv_human_id demo_revocation = demo_human_id" "rv_device demo_revocation = demo_device_id"
    "rv_sequence demo_revocation = 2" "rv_previous demo_revocation = replicate 32 1" "nd_node_id demo_device = demo_device_id"
    by (simp_all add: demo_revocation_def demo_device_def)
  have "find_descriptor (demo_granted u) demo_device_id \<noteq> None"
    "map_option dr_digest (find_descriptor (demo_granted u) demo_device_id) = Some (replicate 32 1)"
    using key(5) by (simp_all add: demo_granted_eq find_put_descriptor demo_digests)
  then show ?thesis
    by (simp add: accept_human_revocation_def demo_verified transaction_def require_current_descriptor_def key
        demo_digests require_def demo_row hd_checkpoint_def check_revision_def)
qed

theorem revocation_permanent_witness:
  "is_human_device_revoked demo_human_id demo_device_id
     (fold (control_step demo_control) [AcceptGrant 5000 demo_grant demo_device] (put_revocation demo_control demo_revocation demo_registered)) = Inr True"
proof -
  have key: "gr_human_id demo_grant = rv_human_id demo_revocation" "gr_device demo_grant = rv_device demo_revocation"
    "rv_human_id demo_revocation = demo_human_id" "rv_device demo_revocation = demo_device_id"
    by (simp_all add: demo_revocation_def demo_grant_def)
  from revocation_permanent [OF demo_inv demo_device_revoke key(1,2)] show ?thesis unfolding key(3,4) by blast
qed

theorem revisions_monotone_witness:
  "\<exists>c. revision (DeviceChain (demo_human_id, demo_device_id)) (fold (control_step demo_control)
      [AcceptRevocation 2000 demo_revocation demo_device] demo_registered) = Some c \<and> 1 \<le> cp_sequence c"
proof -
  have "revision (DeviceChain (demo_human_id, demo_device_id)) demo_registered =
      Some \<lparr>cp_sequence = 1, cp_digest = replicate 32 1, cp_terminal = False\<rparr>"
    by (simp add: demo_row hd_checkpoint_def)
  from revisions_monotone [OF demo_inv this, where cs = "[AcceptRevocation 2000 demo_revocation demo_device]"]
  obtain c where "revision (DeviceChain (demo_human_id, demo_device_id)) (fold (control_step demo_control)
      [AcceptRevocation 2000 demo_revocation demo_device] demo_registered) = Some c"
    "cp_sequence \<lparr>cp_sequence = 1, cp_digest = replicate 32 1, cp_terminal = False\<rparr> \<le> cp_sequence c" by blast
  then show ?thesis by (intro exI conjI) simp_all
qed

lemma demo_node_ok: "check_node_id (nd_node_id demo_device) = Inr ()"
  by (simp add: demo_device_def check_node_id_def demo_id_match)

lemma demo_current: "current_descriptor (demo_env u) 2000 (nd_node_id demo_device) (demo_granted u) = Inr (Some demo_device)"
  by (simp add: current_descriptor_def demo_granted_eq find_put_descriptor nd_read verified_sizes(1) [OF demo_verified(1)] demo_verified demo_node_ok)

lemma demo_reported: "human_device_grant (demo_env u) 2000 2000 demo_human_id demo_device_id (demo_granted u) = Inr (Some demo_grant)"
proof -
  have "nd_node_id demo_device = demo_device_id" by (simp add: demo_device_def)
  with demo_current demo_row show ?thesis
    by (simp add: human_device_grant_def demo_defs demo_digests gr_read verified_sizes(3) [OF demo_verified(2)] demo_verified)
qed

theorem reported_grant_genuine_witness:
  "gr_human_id demo_grant = demo_human_id \<and> derive_human_id demo_control (gr_human_public demo_grant) = Inr demo_human_id"
  using reported_grant_genuine [OF demo_inv demo_reported] by blast

theorem accepted_grant_reported_witness:
  "\<exists>s'. human_device_grant demo_control 2000 2000 (gr_human_id demo_grant) (gr_device demo_grant) s' = Inr (Some demo_grant)"
proof -
  let ?s = "put_descriptor demo_control demo_device empty_control"
  have "current_descriptor demo_control 2000 (nd_node_id demo_device) ?s = Inr (Some demo_device)"
    by (simp add: current_descriptor_def find_put_descriptor nd_read verified_sizes(1) [OF demo_verified(1)] demo_verified demo_node_ok)
  moreover have "accept_human_grant demo_control 2000 demo_grant demo_device ?s = (put_grant demo_control demo_grant ?s, Inr True)"
    by (simp add: accept_human_grant_def demo_verified transaction_def check_revision_def require_current_descriptor_def
        find_put_descriptor demo_digests require_def) (simp add: empty_control_def find_device_def demo_grant_def)
  ultimately show ?thesis using accepted_grant_reported by blast
qed

end
