(* ===== verification/Companion_Protocol.thy ===== *)
theory Companion_Protocol
  imports Control_Plane
begin

text \<open>
  \<open>companion_protocol.py\<close>: the messages between a companion device and its agent (observation batches,
  episodes, interventions, user responses, approval requests and decisions), how they are built and
  validated, and the binding of a decision to its request.  Message fields are dynamic values; a float
  is its exact rational value, so the test for finite numbers has no branch.
\<close>

section \<open>Constants\<close>

definition COMPANION_PROTOCOL :: string where "COMPANION_PROTOCOL = ''anet.companion''"
definition COMPANION_PROTOCOL_VERSION :: int where "COMPANION_PROTOCOL_VERSION = 1"
definition MAX_BATCH_OBSERVATIONS :: nat where "MAX_BATCH_OBSERVATIONS = 256"
definition MAX_SOURCE_BATCHES :: nat where "MAX_SOURCE_BATCHES = 64"
definition MAX_METRICS :: nat where "MAX_METRICS = 64"
definition MAX_OPTIONS :: nat where "MAX_OPTIONS = 16"
definition MAX_TEXT_CHARS :: nat where "MAX_TEXT_CHARS = 4096"
definition MAX_SELF_REPORT_CHARS :: nat where "MAX_SELF_REPORT_CHARS = 2048"
definition MAX_BODY_TTL_MS :: int where "MAX_BODY_TTL_MS = 7 * 24 * 60 * 60 * 1000"
definition MAX_APPROVAL_REQUEST_TTL_MS :: int where "MAX_APPROVAL_REQUEST_TTL_MS = 15 * 60 * 1000"
definition MAX_APPROVAL_GRANT_TTL_MS :: int where "MAX_APPROVAL_GRANT_TTL_MS = 60 * 60 * 1000"
definition COMPANION_CLOCK_SKEW_MS :: int where "COMPANION_CLOCK_SKEW_MS = 5 * 60 * 1000"

definition DATA_LEVELS :: "string list" where "DATA_LEVELS = [''operational'', ''personal-low'']"
definition CONSENT_BASES :: "string list" where "CONSENT_BASES = [''device-essential'', ''user-opt-in'', ''user-initiated'']"
definition INTERVENTION_PRIORITIES :: "string list" where
  "INTERVENTION_PRIORITIES = [''low'', ''normal'', ''high'', ''urgent'']"
definition INTERVENTION_CATEGORIES :: "string list" where
  "INTERVENTION_CATEGORIES = [''notification'', ''reminder'', ''choice'', ''report'']"
definition USER_DISPOSITIONS :: "string list" where
  "USER_DISPOSITIONS = [''presented'', ''ignored'', ''snoozed'', ''accepted'', ''rejected'', ''answered'']"
definition APPROVAL_DECISIONS :: "string list" where "APPROVAL_DECISIONS = [''approved'', ''rejected'']"
definition OBSERVATION_TYPES :: "string list" where
  "OBSERVATION_TYPES = [''device.battery'', ''device.network'', ''human.presence'', ''human.self-report'', ''device.app-category-window'']"
definition EPISODE_TYPES :: "string list" where
  "EPISODE_TYPES = [''device.battery-window'', ''device.connectivity-window'', ''human.presence-window'',
     ''human.self-report'', ''device.app-category-window'']"
definition FORBIDDEN_KEYS :: "string list" where
  "FORBIDDEN_KEYS = [''audio'', ''audio_bytes'', ''image'', ''image_bytes'', ''video'', ''video_bytes'', ''raw'',
     ''raw_events'', ''precise_location'', ''latitude'', ''longitude'', ''chat_body'', ''message_body'',
     ''health_detail'', ''diagnosis'', ''emotion'', ''mood'', ''fatigue'', ''human_state'', ''state_hypothesis'']"

section \<open>Fields\<close>

definition exact :: "string list \<Rightarrow> string \<Rightarrow> pyval \<Rightarrow> exn + pydict" where
  "exact required name v =
     (case v of
        PDict d \<Rightarrow>
          let missing = filter (\<lambda>k. k \<notin> set (map fst d)) required;
              unknown = filter (\<lambda>k. k \<notin> set required) (map fst d)
          in if missing \<noteq> [] then Inl (ValueError (name @ '' is missing fields: '' @ join_comma (sort missing)))
             else if unknown \<noteq> [] then Inl (ValueError (name @ '' has unknown fields: '' @ join_comma (sort unknown)))
             else Inr d
      | _ \<Rightarrow> Inl (ValueError (name @ '' must be a map'')))"

text \<open>\<open>str(value).strip().lower()\<close>, and the checks that follow it.\<close>

definition normal_text :: "ext \<Rightarrow> pyval \<Rightarrow> string" where
  "normal_text E v = lower (strip (py_str E v))"

definition normalized :: "(string \<Rightarrow> bool) \<Rightarrow> string \<Rightarrow> ext \<Rightarrow> pyval \<Rightarrow> exn + string" where
  "normalized ok msg E v = (let n = normal_text E v in if ok n then Inr n else Inl (ValueError msg))"

definition long_id :: "string \<Rightarrow> string \<Rightarrow> bool" where
  "long_id prefix s = (starts_with s prefix \<and> length prefix + 17 \<le> length s \<and> list_all b32_text_char (drop (length prefix) s))"

definition id32_arg :: "ext \<Rightarrow> string \<Rightarrow> pyval \<Rightarrow> exn + string" where
  "id32_arg E name v = normalized (hex_string 32) (name @ '' must be 32 lowercase hexadecimal characters'') E v"

definition digest_arg :: "ext \<Rightarrow> string \<Rightarrow> pyval \<Rightarrow> exn + string" where
  "digest_arg E name v = normalized (hex_string 64) (name @ '' must be 64 lowercase hexadecimal characters'') E v"

definition node_id_arg :: "ext \<Rightarrow> string \<Rightarrow> pyval \<Rightarrow> exn + string" where
  "node_id_arg E name v = normalized (long_id ''an1'') (''invalid '' @ name) E v"

definition human_id_arg :: "ext \<Rightarrow> pyval \<Rightarrow> exn + string" where
  "human_id_arg E v = normalized (long_id ''hu1'') ''invalid human_id'' E v"

definition token_arg :: "ext \<Rightarrow> string \<Rightarrow> pyval \<Rightarrow> exn + string" where
  "token_arg E name v = normalized capability_match (''invalid '' @ name) E v"

definition one_of :: "ext \<Rightarrow> string list \<Rightarrow> string \<Rightarrow> pyval \<Rightarrow> exn + string" where
  "one_of E allowed msg v = normalized (\<lambda>n. n \<in> set allowed) msg E v"

definition text_arg :: "ext \<Rightarrow> string \<Rightarrow> bool \<Rightarrow> nat \<Rightarrow> pyval \<Rightarrow> exn + string" where
  "text_arg E name required limit v =
     (case v of PBytes _ \<Rightarrow> Inl (ValueError (name @ '' must be text''))
      | _ \<Rightarrow>
         let n = strip (py_str E v)
         in if required \<and> n = [] then Inl (ValueError (name @ '' is required''))
            else if limit < length n then Inl (ValueError (name @ '' is too long'')) else Inr n)"

definition integer_arg :: "string \<Rightarrow> int \<Rightarrow> pyval \<Rightarrow> exn + int" where
  "integer_arg name minimum v =
     (case v of PInt i \<Rightarrow> (if i < minimum then Inl (ValueError (''invalid '' @ name)) else Inr i)
      | _ \<Rightarrow> Inl (ValueError (''invalid '' @ name)))"

definition timestamp :: "string \<Rightarrow> pyval \<Rightarrow> exn + int" where
  "timestamp name v = integer_arg name 1 v"

definition lifetime :: "int \<Rightarrow> pyval \<Rightarrow> pyval \<Rightarrow> exn + int \<times> int" where
  "lifetime max_ttl created expires =
     and_then (timestamp ''created_ms'' created) (\<lambda>c.
     and_then (timestamp ''expires_ms'' expires) (\<lambda>e.
       if e \<le> c \<or> max_ttl < e - c then Inl (ValueError ''invalid object lifetime'') else Inr (c, e)))"

text \<open>\<open>v == n\<close> for an integer \<open>n\<close>: Booleans and floats compare by value.\<close>

definition equals_int :: "pyval \<Rightarrow> int \<Rightarrow> bool" where
  "equals_int v n = (case v of PInt i \<Rightarrow> i = n | PBool b \<Rightarrow> (if b then 1 else 0) = n | PFloat q \<Rightarrow> q = of_int n | _ \<Rightarrow> False)"

text \<open>\<open>{**value, k: v, ...}\<close>\<close>

definition update_fields :: "pydict \<Rightarrow> pydict \<Rightarrow> pydict" where
  "update_fields d ups = fold (\<lambda>(k, v). dict_set k v) ups d"

definition base_fields :: "string \<Rightarrow> string list" where
  "base_fields id_name = [''protocol'', ''version'', ''object_type'', id_name, ''created_ms'', ''expires_ms'']"

text \<open>\<open>_validate_base\<close>: the map as it came in, and its creation and expiry times.\<close>

definition validate_base ::
    "ext \<Rightarrow> string \<Rightarrow> string \<Rightarrow> string list \<Rightarrow> int \<Rightarrow> pyval \<Rightarrow> exn + pydict \<times> int \<times> int" where
  "validate_base E object_type id_name extra max_ttl body =
     (case body of
        PDict d \<Rightarrow>
          if dict_get d ''protocol'' PNone \<noteq> PStr COMPANION_PROTOCOL then Inl (ValueError ''unsupported Companion protocol'')
          else if \<not> equals_int (dict_get d ''version'' PNone) COMPANION_PROTOCOL_VERSION
          then Inl (ValueError ''unsupported Companion protocol version'')
          else if dict_get d ''object_type'' PNone \<noteq> PStr object_type
          then Inl (ValueError ''Companion kind/object_type mismatch'')
          else and_then (exact (base_fields id_name @ extra) object_type body) (\<lambda>value.
               and_then (id32_arg E id_name (dict_get value id_name PNone)) (\<lambda>_.
               and_then (lifetime max_ttl (dict_get value ''created_ms'' PNone) (dict_get value ''expires_ms'' PNone)) (\<lambda>(c, e).
                 Inr (value, c, e))))
      | _ \<Rightarrow> Inl (ValueError (object_type @ '' must be a map'')))"

text \<open>The common form of the validators: the base, then the fields of the kind in their normal form.\<close>

definition validated ::
    "ext \<Rightarrow> string \<Rightarrow> string \<Rightarrow> string list \<Rightarrow> int \<Rightarrow> (pydict \<Rightarrow> int \<Rightarrow> exn + pydict) \<Rightarrow> pyval \<Rightarrow> exn + pydict" where
  "validated E object_type id_name extra max_ttl normal body =
     and_then (validate_base E object_type id_name extra max_ttl body) (\<lambda>(value, created, expires).
     and_then (normal value created) (\<lambda>ups. Inr (update_fields value ups)))"

text \<open>\<open>_base\<close>: \<open>random\<close> is the fresh id, \<open>now\<close> the clock reading.\<close>

definition companion_base ::
    "ext \<Rightarrow> 128 word \<Rightarrow> time_ms \<Rightarrow> string \<Rightarrow> string \<Rightarrow> string \<Rightarrow> int option \<Rightarrow> int option \<Rightarrow> int \<Rightarrow> exn + pydict" where
  "companion_base E random now object_type id_name object_id created_opt expires_opt ttl =
     (let created = (case created_opt of None \<Rightarrow> now | Some c \<Rightarrow> c);
          expires = (case expires_opt of None \<Rightarrow> created + ttl | Some e \<Rightarrow> e)
      in and_then (lifetime MAX_BODY_TTL_MS (PInt created) (PInt expires)) (\<lambda>(c, e).
         and_then (id32_arg E id_name (PStr (if object_id = '''' then token_hex random else object_id))) (\<lambda>i.
           Inr [(''protocol'', PStr COMPANION_PROTOCOL), (''version'', PInt COMPANION_PROTOCOL_VERSION),
                (''object_type'', PStr object_type), (id_name, PStr i), (''created_ms'', PInt c), (''expires_ms'', PInt e)])))"

section \<open>Consent and data level\<close>

definition data_level :: "ext \<Rightarrow> pyval \<Rightarrow> exn + string" where
  "data_level E v = one_of E DATA_LEVELS ''P0 Companion only permits operational or personal-low data'' v"

record consent =
  cn_basis :: string
  cn_grant_id :: string
  cn_scope :: "string list"

definition consent_value :: "consent \<Rightarrow> pyval" where
  "consent_value c = PDict [(''basis'', PStr (cn_basis c)), (''grant_id'', PStr (cn_grant_id c)), (''scope'', text_list (cn_scope c))]"

definition consent_scope :: "ext \<Rightarrow> pyval \<Rightarrow> exn + string list" where
  "consent_scope E v =
     (case v of
        PList vs \<Rightarrow>
          if vs = [] then Inl (ValueError ''consent scope must be a non-empty list'')
          else and_then (map_result (token_arg E ''consent scope'') vs) (\<lambda>ts.
            let scope = sorted_unique ts
            in if 32 < length scope then Inl (ValueError ''too many consent scopes'') else Inr scope)
      | _ \<Rightarrow> Inl (ValueError ''consent scope must be a non-empty list''))"

definition consent_arg :: "ext \<Rightarrow> pyval \<Rightarrow> exn + consent" where
  "consent_arg E v =
     and_then (exact [''basis'', ''grant_id'', ''scope''] ''consent'' v) (\<lambda>item.
     and_then (one_of E CONSENT_BASES ''invalid consent basis'' (dict_get item ''basis'' PNone)) (\<lambda>basis.
     let grant_id = normal_text E (dict_get item ''grant_id'' PNone)
     in and_then (if basis = ''user-opt-in'' then id32_arg E ''consent grant_id'' (PStr grant_id)
                  else if grant_id \<noteq> [] then Inl (ValueError ''only user-opt-in consent may carry grant_id'')
                  else Inr grant_id) (\<lambda>gid.
        and_then (consent_scope E (dict_get item ''scope'' PNone)) (\<lambda>scope.
          Inr \<lparr>cn_basis = basis, cn_grant_id = gid, cn_scope = scope\<rparr>))))"

definition consent_evidence :: "ext \<Rightarrow> string \<Rightarrow> string list \<Rightarrow> string \<Rightarrow> exn + pyval" where
  "consent_evidence E basis scope grant_id =
     and_then (consent_arg E (PDict [(''basis'', PStr basis), (''grant_id'', PStr grant_id), (''scope'', text_list scope)]))
       (\<lambda>c. Inr (consent_value c))"

section \<open>Forbidden fields\<close>

text \<open>The first complaint about a forbidden key or a binary value anywhere inside, with its path.\<close>

fun reject_forbidden :: "string \<Rightarrow> pyval \<Rightarrow> exn + unit"
  and reject_entries :: "string \<Rightarrow> pydict \<Rightarrow> exn + unit"
  and reject_items :: "string \<Rightarrow> nat \<Rightarrow> pyval list \<Rightarrow> exn + unit" where
  "reject_forbidden p (PDict d) = reject_entries p d"
| "reject_forbidden p (PList vs) = reject_items p 0 vs"
| "reject_forbidden p (PBytes _) = Inl (ValueError ''Companion objects cannot contain binary sensor payloads'')"
| "reject_forbidden p _ = Inr ()"
| "reject_entries p [] = Inr ()"
| "reject_entries p ((k, v) # d) =
     (let n = lower (strip k)
      in if n \<in> set FORBIDDEN_KEYS then Inl (ValueError (''forbidden Companion field: '' @ p @ ''.'' @ n))
         else and_then (reject_forbidden (p @ ''.'' @ n) v) (\<lambda>_. reject_entries p d))"
| "reject_items p i [] = Inr ()"
| "reject_items p i (v # vs) =
     and_then (reject_forbidden (p @ ''['' @ text_of_nat i @ '']'') v) (\<lambda>_. reject_items p (i + 1) vs)"

section \<open>Observations\<close>

text \<open>\<open>{_token(k): f(v) for k, v in d.items()}\<close>: keys that become equal keep the last value.\<close>

fun normal_map :: "(string \<Rightarrow> exn + string) \<Rightarrow> (pyval \<Rightarrow> exn + pyval) \<Rightarrow> pydict \<Rightarrow> pydict \<Rightarrow> exn + pydict" where
  "normal_map fk fv [] acc = Inr acc"
| "normal_map fk fv ((k, v) # d) acc =
     and_then (fk k) (\<lambda>k'. and_then (fv v) (\<lambda>v'. normal_map fk fv d (dict_set k' v' acc)))"

definition is_bool :: "pyval \<Rightarrow> bool" where
  "is_bool v = (case v of PBool _ \<Rightarrow> True | _ \<Rightarrow> False)"

definition battery_value :: "ext \<Rightarrow> pyval \<Rightarrow> exn + pyval" where
  "battery_value E v =
     and_then (exact [''percent'', ''charging''] ''battery observation'' v) (\<lambda>item.
     and_then (integer_arg ''battery percent'' 0 (dict_get item ''percent'' PNone)) (\<lambda>p.
       if 100 < p \<or> \<not> is_bool (dict_get item ''charging'' PNone) then Inl (ValueError ''invalid battery observation'')
       else Inr (PDict [(''percent'', PInt p), (''charging'', dict_get item ''charging'' PNone)])))"

definition network_value :: "ext \<Rightarrow> pyval \<Rightarrow> exn + pyval" where
  "network_value E v =
     and_then (exact [''transport'', ''metered''] ''network observation'' v) (\<lambda>item.
     and_then (one_of E [''offline'', ''wifi'', ''cellular'', ''ethernet'', ''other''] ''invalid network transport''
        (dict_get item ''transport'' PNone)) (\<lambda>t.
       if \<not> is_bool (dict_get item ''metered'' PNone) then Inl (ValueError ''invalid network metered flag'')
       else Inr (PDict [(''transport'', PStr t), (''metered'', dict_get item ''metered'' PNone)])))"

definition presence_value :: "ext \<Rightarrow> pyval \<Rightarrow> exn + pyval" where
  "presence_value E v =
     and_then (exact [''state''] ''presence observation'' v) (\<lambda>item.
     and_then (one_of E [''present'', ''away'', ''unknown''] ''invalid presence state'' (dict_get item ''state'' PNone)) (\<lambda>s.
       Inr (PDict [(''state'', PStr s)])))"

definition self_report_value :: "ext \<Rightarrow> pyval \<Rightarrow> exn + pyval" where
  "self_report_value E v =
     and_then (exact [''text'', ''format''] ''self-report observation'' v) (\<lambda>item.
       if dict_get item ''format'' PNone \<noteq> PStr ''plain'' then Inl (ValueError ''self-report format must be plain'')
       else and_then (text_arg E ''self-report text'' True MAX_SELF_REPORT_CHARS (dict_get item ''text'' PNone)) (\<lambda>t.
         Inr (PDict [(''text'', PStr t), (''format'', PStr ''plain'')])))"

definition app_window_value :: "ext \<Rightarrow> pyval \<Rightarrow> exn + pyval" where
  "app_window_value E v =
     and_then (exact [''category_durations_ms'', ''switch_count''] ''app category window'' v) (\<lambda>item.
       case dict_get item ''category_durations_ms'' PNone of
         PDict d \<Rightarrow>
           if d = [] then Inl (ValueError ''app category durations must be a non-empty map'')
           else if 32 < length d then Inl (ValueError ''too many app categories'')
           else and_then (normal_map (\<lambda>k. token_arg E ''app category'' (PStr k))
                    (\<lambda>v. and_then (integer_arg ''app category duration'' 0 v) (\<lambda>i. Inr (PInt i))) d []) (\<lambda>durations.
                and_then (integer_arg ''app switch count'' 0 (dict_get item ''switch_count'' PNone)) (\<lambda>n.
                  Inr (PDict [(''category_durations_ms'', PDict (sort_key fst durations)), (''switch_count'', PInt n)])))
       | _ \<Rightarrow> Inl (ValueError ''app category durations must be a non-empty map''))"

definition observation_value :: "ext \<Rightarrow> string \<Rightarrow> pyval \<Rightarrow> exn + pyval" where
  "observation_value E type v =
     (if type = ''device.battery'' then battery_value E v
      else if type = ''device.network'' then network_value E v
      else if type = ''human.presence'' then presence_value E v
      else if type = ''human.self-report'' then self_report_value E v
      else app_window_value E v)"

record observation =
  ob_id :: string
  ob_observed_ms :: int
  ob_type :: string
  ob_value :: pyval

definition observation_dict :: "observation \<Rightarrow> pyval" where
  "observation_dict b = PDict [(''observation_id'', PStr (ob_id b)), (''observed_ms'', PInt (ob_observed_ms b)),
     (''type'', PStr (ob_type b)), (''value'', ob_value b)]"

definition observation_arg :: "ext \<Rightarrow> pyval \<Rightarrow> exn + observation" where
  "observation_arg E v =
     and_then (exact [''observation_id'', ''observed_ms'', ''type'', ''value''] ''observation'' v) (\<lambda>item.
     and_then (one_of E OBSERVATION_TYPES ''unsupported P0 observation type'' (dict_get item ''type'' PNone)) (\<lambda>type.
     and_then (id32_arg E ''observation_id'' (dict_get item ''observation_id'' PNone)) (\<lambda>i.
     and_then (timestamp ''observed_ms'' (dict_get item ''observed_ms'' PNone)) (\<lambda>ms.
     and_then (observation_value E type (dict_get item ''value'' PNone)) (\<lambda>val.
     let b = \<lparr>ob_id = i, ob_observed_ms = ms, ob_type = type, ob_value = val\<rparr>
     in and_then (reject_forbidden ''value'' (observation_dict b)) (\<lambda>_. Inr b))))))"

definition required_basis :: "string \<Rightarrow> string" where
  "required_basis type =
     (if type = ''human.self-report'' then ''user-initiated''
      else if type = ''human.presence'' \<or> type = ''device.app-category-window'' then ''user-opt-in''
      else ''device-essential'')"

text \<open>
  The loop over the types that occur; the set it runs over has no fixed order, which only decides which
  of several complaints is raised.
\<close>

definition check_consent :: "consent \<Rightarrow> string list \<Rightarrow> exn + unit" where
  "check_consent c types = checks (map (\<lambda>type. checks
     [require (cn_basis c = required_basis type) (type @ '' requires '' @ required_basis type @ '' consent basis''),
      require (type \<in> set (cn_scope c)) ''consent scope does not cover observation type'']) types)"

definition window_arg :: "string \<Rightarrow> pydict \<Rightarrow> int \<Rightarrow> exn + int \<times> int" where
  "window_arg msg value created =
     and_then (timestamp ''window_start_ms'' (dict_get value ''window_start_ms'' PNone)) (\<lambda>a.
     and_then (timestamp ''window_end_ms'' (dict_get value ''window_end_ms'' PNone)) (\<lambda>b.
       if b < a \<or> created < b then Inl (ValueError msg) else Inr (a, b)))"

definition observation_list :: "ext \<Rightarrow> pyval \<Rightarrow> exn + observation list" where
  "observation_list E v =
     (case v of
        PList vs \<Rightarrow>
          if vs = [] then Inl (ValueError ''observations must be a non-empty list'')
          else if MAX_BATCH_OBSERVATIONS < length vs then Inl (ValueError ''too many observations'')
          else map_result (observation_arg E) vs
      | _ \<Rightarrow> Inl (ValueError ''observations must be a non-empty list''))"

definition batch_extra :: "string list" where
  "batch_extra = [''source_node_id'', ''window_start_ms'', ''window_end_ms'', ''data_level'', ''consent'', ''observations'']"

definition batch_fields :: "ext \<Rightarrow> pydict \<Rightarrow> int \<Rightarrow> exn + pydict" where
  "batch_fields E value created =
     and_then (window_arg ''invalid observation window'' value created) (\<lambda>(a, b).
     and_then (observation_list E (dict_get value ''observations'' PNone)) (\<lambda>obs.
       if \<not> distinct (map ob_id obs) then Inl (ValueError ''duplicate observation_id'')
       else if list_ex (\<lambda>x. ob_observed_ms x < a \<or> b < ob_observed_ms x) obs
       then Inl (ValueError ''observation is outside its declared window'')
       else and_then (consent_arg E (dict_get value ''consent'' PNone)) (\<lambda>c.
            and_then (check_consent c (remdups (map ob_type obs))) (\<lambda>_.
            and_then (node_id_arg E ''source_node_id'' (dict_get value ''source_node_id'' PNone)) (\<lambda>src.
            and_then (data_level E (dict_get value ''data_level'' PNone)) (\<lambda>level.
              Inr [(''source_node_id'', PStr src), (''window_start_ms'', PInt a), (''window_end_ms'', PInt b),
                   (''data_level'', PStr level), (''consent'', consent_value c),
                   (''observations'', PList (map observation_dict obs))]))))))"

definition validate_observation_batch :: "ext \<Rightarrow> pyval \<Rightarrow> exn + pydict" where
  "validate_observation_batch E body =
     validated E ''observation_batch'' ''batch_id'' batch_extra MAX_BODY_TTL_MS (batch_fields E) body"

definition observation_batch ::
    "ext \<Rightarrow> 128 word \<Rightarrow> time_ms \<Rightarrow> string \<Rightarrow> int \<Rightarrow> int \<Rightarrow> string \<Rightarrow> pyval \<Rightarrow> pyval list \<Rightarrow> string \<Rightarrow>
     int option \<Rightarrow> int option \<Rightarrow> exn + pydict" where
  "observation_batch E random now source a b level consent observations batch_id created expires =
     and_then (companion_base E random now ''observation_batch'' ''batch_id'' batch_id created expires (24 * 60 * 60 * 1000)) (\<lambda>base.
     validate_observation_batch E (PDict (update_fields base
       [(''source_node_id'', PStr source), (''window_start_ms'', PInt a), (''window_end_ms'', PInt b),
        (''data_level'', PStr level), (''consent'', consent), (''observations'', PList observations)])))"

section \<open>Episodes\<close>

fun metric_value :: "ext \<Rightarrow> pyval \<Rightarrow> exn + pyval"
  and metric_values :: "ext \<Rightarrow> pyval list \<Rightarrow> exn + pyval list" where
  "metric_value E (PBytes _) = Inl (ValueError ''Companion objects cannot contain binary sensor payloads'')"
| "metric_value E (PStr s) = and_then (text_arg E ''episode metric'' False 512 (PStr s)) (\<lambda>t. Inr (PStr t))"
| "metric_value E (PList vs) =
     (if 32 < length vs then Inl (ValueError ''episode metric list is too long'')
      else and_then (metric_values E vs) (\<lambda>ws. Inr (PList ws)))"
| "metric_value E (PDict _) = Inl (ValueError ''episode metrics must contain only bounded scalar values'')"
| "metric_value E v = Inr v"
| "metric_values E [] = Inr []"
| "metric_values E (v # vs) = and_then (metric_value E v) (\<lambda>w. and_then (metric_values E vs) (\<lambda>ws. Inr (w # ws)))"

definition consent_contract :: "string \<Rightarrow> string \<times> string" where
  "consent_contract type =
     (if type = ''device.battery-window'' then (''device-essential'', ''device.battery'')
      else if type = ''device.connectivity-window'' then (''device-essential'', ''device.network'')
      else if type = ''human.presence-window'' then (''user-opt-in'', ''human.presence'')
      else if type = ''human.self-report'' then (''user-initiated'', ''human.self-report'')
      else (''user-opt-in'', ''device.app-category-window''))"

definition source_batches :: "ext \<Rightarrow> pyval \<Rightarrow> exn + string list" where
  "source_batches E v =
     (case v of
        PList vs \<Rightarrow>
          if vs = [] then Inl (ValueError ''source_batch_ids must be a non-empty list'')
          else and_then (map_result (id32_arg E ''source batch ID'') vs) (\<lambda>ids.
            if MAX_SOURCE_BATCHES < length ids \<or> \<not> distinct ids then Inl (ValueError ''invalid source_batch_ids'') else Inr ids)
      | _ \<Rightarrow> Inl (ValueError ''source_batch_ids must be a non-empty list''))"

definition episode_metrics :: "ext \<Rightarrow> pyval \<Rightarrow> exn + pydict" where
  "episode_metrics E v =
     (case v of
        PDict d \<Rightarrow>
          if MAX_METRICS < length d then Inl (ValueError ''invalid episode metrics'')
          else and_then (normal_map (\<lambda>k. token_arg E ''episode metric name'' (PStr k)) (metric_value E) d []) (\<lambda>ms.
               and_then (reject_forbidden ''metrics'' (PDict ms)) (\<lambda>_. Inr (sort_key fst ms)))
      | _ \<Rightarrow> Inl (ValueError ''invalid episode metrics''))"

definition episode_extra :: "string list" where
  "episode_extra = [''source_node_id'', ''source_batch_ids'', ''episode_type'', ''window_start_ms'', ''window_end_ms'',
     ''data_level'', ''consent'', ''transform_version'', ''metrics'']"

definition episode_fields :: "ext \<Rightarrow> pydict \<Rightarrow> int \<Rightarrow> exn + pydict" where
  "episode_fields E value created =
     and_then (source_batches E (dict_get value ''source_batch_ids'' PNone)) (\<lambda>ids.
     and_then (one_of E EPISODE_TYPES ''unsupported P0 episode type'' (dict_get value ''episode_type'' PNone)) (\<lambda>type.
     and_then (window_arg ''invalid episode window'' value created) (\<lambda>(a, b).
     and_then (episode_metrics E (dict_get value ''metrics'' PNone)) (\<lambda>metrics.
     and_then (consent_arg E (dict_get value ''consent'' PNone)) (\<lambda>c.
     let (basis, scope) = consent_contract type
     in if cn_basis c \<noteq> basis then Inl (ValueError (type @ '' requires '' @ basis @ '' consent basis''))
        else if scope \<notin> set (cn_scope c) then Inl (ValueError ''consent scope does not cover episode type'')
        else and_then (node_id_arg E ''source_node_id'' (dict_get value ''source_node_id'' PNone)) (\<lambda>src.
             and_then (data_level E (dict_get value ''data_level'' PNone)) (\<lambda>level.
             and_then (token_arg E ''transform_version'' (dict_get value ''transform_version'' PNone)) (\<lambda>tv.
               Inr [(''source_node_id'', PStr src), (''source_batch_ids'', text_list ids), (''episode_type'', PStr type),
                    (''window_start_ms'', PInt a), (''window_end_ms'', PInt b), (''data_level'', PStr level),
                    (''consent'', consent_value c), (''transform_version'', PStr tv), (''metrics'', PDict metrics)]))))))))"

definition validate_episode :: "ext \<Rightarrow> pyval \<Rightarrow> exn + pydict" where
  "validate_episode E body = validated E ''episode'' ''episode_id'' episode_extra MAX_BODY_TTL_MS (episode_fields E) body"

definition episode ::
    "ext \<Rightarrow> 128 word \<Rightarrow> time_ms \<Rightarrow> string \<Rightarrow> string list \<Rightarrow> string \<Rightarrow> int \<Rightarrow> int \<Rightarrow> string \<Rightarrow> pyval \<Rightarrow> string \<Rightarrow> pydict \<Rightarrow>
     string \<Rightarrow> int option \<Rightarrow> int option \<Rightarrow> exn + pydict" where
  "episode E random now source ids type a b level consent transform metrics episode_id created expires =
     and_then (companion_base E random now ''episode'' ''episode_id'' episode_id created expires (24 * 60 * 60 * 1000)) (\<lambda>base.
     validate_episode E (PDict (update_fields base
       [(''source_node_id'', PStr source), (''source_batch_ids'', text_list ids), (''episode_type'', PStr type),
        (''window_start_ms'', PInt a), (''window_end_ms'', PInt b), (''data_level'', PStr level), (''consent'', consent),
        (''transform_version'', PStr transform), (''metrics'', PDict metrics)])))"

section \<open>Interventions and user responses\<close>

record response_option =
  ro_action_id :: string
  ro_label :: string

definition option_dict :: "response_option \<Rightarrow> pyval" where
  "option_dict r = PDict [(''action_id'', PStr (ro_action_id r)), (''label'', PStr (ro_label r))]"

definition option_arg :: "ext \<Rightarrow> pyval \<Rightarrow> exn + response_option" where
  "option_arg E v =
     and_then (exact [''action_id'', ''label''] ''response option'' v) (\<lambda>item.
     and_then (token_arg E ''action_id'' (dict_get item ''action_id'' PNone)) (\<lambda>a.
     and_then (text_arg E ''response option label'' True 128 (dict_get item ''label'' PNone)) (\<lambda>l.
       Inr \<lparr>ro_action_id = a, ro_label = l\<rparr>)))"

definition response_options :: "ext \<Rightarrow> pyval \<Rightarrow> exn + response_option list" where
  "response_options E v =
     (case v of
        PList vs \<Rightarrow>
          if MAX_OPTIONS < length vs then Inl (ValueError ''too many response options'')
          else and_then (map_result (option_arg E) vs) (\<lambda>os.
            if \<not> distinct (map ro_action_id os) then Inl (ValueError ''duplicate response action_id'') else Inr os)
      | _ \<Rightarrow> Inl (ValueError ''response_options must be a list''))"

definition related_episodes :: "ext \<Rightarrow> pyval \<Rightarrow> exn + string list" where
  "related_episodes E v =
     (case v of
        PList vs \<Rightarrow>
          if 64 < length vs then Inl (ValueError ''invalid related_episode_ids'')
          else and_then (map_result (id32_arg E ''related episode ID'') vs) (\<lambda>ids.
            if \<not> distinct ids then Inl (ValueError ''duplicate related episode ID'') else Inr ids)
      | _ \<Rightarrow> Inl (ValueError ''invalid related_episode_ids''))"

definition intervention_extra :: "string list" where
  "intervention_extra = [''human_id'', ''target_device_id'', ''category'', ''priority'', ''title'', ''message'',
     ''dedupe_key'', ''response_options'', ''related_episode_ids'']"

text \<open>Category and priority are normalised first and then checked, category before priority.\<close>

definition intervention_fields :: "ext \<Rightarrow> pydict \<Rightarrow> int \<Rightarrow> exn + pydict" where
  "intervention_fields E value created =
     and_then (one_of E INTERVENTION_CATEGORIES ''invalid intervention category'' (dict_get value ''category'' PNone)) (\<lambda>category.
     and_then (one_of E INTERVENTION_PRIORITIES ''invalid intervention priority'' (dict_get value ''priority'' PNone)) (\<lambda>priority.
     and_then (response_options E (dict_get value ''response_options'' PNone)) (\<lambda>os.
     and_then (related_episodes E (dict_get value ''related_episode_ids'' PNone)) (\<lambda>related.
     and_then (human_id_arg E (dict_get value ''human_id'' PNone)) (\<lambda>human.
     and_then (node_id_arg E ''device_node_id'' (dict_get value ''target_device_id'' PNone)) (\<lambda>target.
     and_then (text_arg E ''intervention title'' True 256 (dict_get value ''title'' PNone)) (\<lambda>title.
     and_then (text_arg E ''intervention message'' True MAX_TEXT_CHARS (dict_get value ''message'' PNone)) (\<lambda>message.
     and_then (id32_arg E ''dedupe_key'' (dict_get value ''dedupe_key'' PNone)) (\<lambda>dedupe.
       Inr [(''human_id'', PStr human), (''target_device_id'', PStr target), (''category'', PStr category),
            (''priority'', PStr priority), (''title'', PStr title), (''message'', PStr message),
            (''dedupe_key'', PStr dedupe), (''response_options'', PList (map option_dict os)),
            (''related_episode_ids'', text_list related)])))))))))"

definition validate_intervention :: "ext \<Rightarrow> pyval \<Rightarrow> exn + pydict" where
  "validate_intervention E body =
     validated E ''intervention'' ''intervention_id'' intervention_extra MAX_BODY_TTL_MS (intervention_fields E) body"

definition intervention ::
    "ext \<Rightarrow> 128 word \<Rightarrow> time_ms \<Rightarrow> string \<Rightarrow> string \<Rightarrow> string \<Rightarrow> string \<Rightarrow> string \<Rightarrow> string \<Rightarrow> pyval list \<Rightarrow> string list \<Rightarrow>
     string \<Rightarrow> string \<Rightarrow> int option \<Rightarrow> int option \<Rightarrow> exn + pydict" where
  "intervention E random now human target category priority title message options related intervention_id dedupe created expires =
     and_then (companion_base E random now ''intervention'' ''intervention_id'' intervention_id created expires (24 * 60 * 60 * 1000)) (\<lambda>base.
     validate_intervention E (PDict (update_fields base
       [(''human_id'', PStr human), (''target_device_id'', PStr target), (''category'', PStr category),
        (''priority'', PStr priority), (''title'', PStr title), (''message'', PStr message),
        (''dedupe_key'', if dedupe = '''' then dict_get base ''intervention_id'' PNone else PStr dedupe),
        (''response_options'', PList options), (''related_episode_ids'', text_list related)])))"

definition response_extra :: "string list" where
  "response_extra = [''intervention_id'', ''human_id'', ''device_node_id'', ''disposition'', ''action_id'', ''text'']"

definition response_fields :: "ext \<Rightarrow> pydict \<Rightarrow> int \<Rightarrow> exn + pydict" where
  "response_fields E value created =
     and_then (one_of E USER_DISPOSITIONS ''invalid user response disposition'' (dict_get value ''disposition'' PNone)) (\<lambda>disposition.
     let action = normal_text E (dict_get value ''action_id'' PNone)
     in and_then (if action \<noteq> [] then token_arg E ''action_id'' (PStr action) else Inr action) (\<lambda>action_id.
        and_then (text_arg E ''user response text'' False MAX_SELF_REPORT_CHARS (dict_get value ''text'' PNone)) (\<lambda>t.
          if disposition = ''answered'' \<and> action_id = [] \<and> t = []
          then Inl (ValueError ''answered response requires action_id or text'')
          else and_then (id32_arg E ''intervention_id'' (dict_get value ''intervention_id'' PNone)) (\<lambda>i.
               and_then (human_id_arg E (dict_get value ''human_id'' PNone)) (\<lambda>human.
               and_then (node_id_arg E ''device_node_id'' (dict_get value ''device_node_id'' PNone)) (\<lambda>device.
                 Inr [(''intervention_id'', PStr i), (''human_id'', PStr human), (''device_node_id'', PStr device),
                      (''disposition'', PStr disposition), (''action_id'', PStr action_id), (''text'', PStr t)]))))))"

definition validate_user_response :: "ext \<Rightarrow> pyval \<Rightarrow> exn + pydict" where
  "validate_user_response E body =
     validated E ''user_response'' ''response_id'' response_extra MAX_BODY_TTL_MS (response_fields E) body"

definition user_response ::
    "ext \<Rightarrow> 128 word \<Rightarrow> time_ms \<Rightarrow> string \<Rightarrow> string \<Rightarrow> string \<Rightarrow> string \<Rightarrow> string \<Rightarrow> string \<Rightarrow> string \<Rightarrow>
     int option \<Rightarrow> int option \<Rightarrow> exn + pydict" where
  "user_response E random now intervention_id human device disposition action_id t response_id created expires =
     and_then (companion_base E random now ''user_response'' ''response_id'' response_id created expires (24 * 60 * 60 * 1000)) (\<lambda>base.
     validate_user_response E (PDict (update_fields base
       [(''intervention_id'', PStr intervention_id), (''human_id'', PStr human), (''device_node_id'', PStr device),
        (''disposition'', PStr disposition), (''action_id'', PStr action_id), (''text'', PStr t)])))"

section \<open>Approvals\<close>

definition resource_char :: "char \<Rightarrow> bool" where
  "resource_char c = (is_alnum c \<or> c \<in> set '':/_.@-'')"

text \<open>\<open>[a-zA-Z0-9][a-zA-Z0-9:/_.@-]{0,511}\<close>\<close>

definition resource_match :: "string \<Rightarrow> bool" where
  "resource_match s = token_match is_alnum resource_char 511 s"

record approval_action =
  ac_capability :: string
  ac_resource :: string
  ac_parameters_digest :: string
  ac_summary :: string

definition action_dict :: "approval_action \<Rightarrow> pyval" where
  "action_dict a = PDict [(''capability'', PStr (ac_capability a)), (''resource'', PStr (ac_resource a)),
     (''parameters_digest'', PStr (ac_parameters_digest a)), (''summary'', PStr (ac_summary a))]"

definition approval_action :: "ext \<Rightarrow> pyval \<Rightarrow> exn + approval_action" where
  "approval_action E v =
     and_then (exact [''capability'', ''resource'', ''parameters_digest'', ''summary''] ''approval action'' v) (\<lambda>item.
     let resource = strip (py_str E (dict_get item ''resource'' PNone))
     in if \<not> resource_match resource then Inl (ValueError ''invalid approval resource'')
        else and_then (token_arg E ''approval capability'' (dict_get item ''capability'' PNone)) (\<lambda>c.
             and_then (digest_arg E ''parameters_digest'' (dict_get item ''parameters_digest'' PNone)) (\<lambda>dg.
             and_then (text_arg E ''approval action summary'' True 512 (dict_get item ''summary'' PNone)) (\<lambda>s.
               Inr \<lparr>ac_capability = c, ac_resource = resource, ac_parameters_digest = dg, ac_summary = s\<rparr>))))"

record approval_scope =
  sc_mode :: string
  sc_max_uses :: int
  sc_grant_expires_ms :: int

definition scope_dict :: "approval_scope \<Rightarrow> pyval" where
  "scope_dict s = PDict [(''mode'', PStr (sc_mode s)), (''max_uses'', PInt (sc_max_uses s)), (''grant_expires_ms'', PInt (sc_grant_expires_ms s))]"

definition approval_scope :: "ext \<Rightarrow> int \<Rightarrow> pyval \<Rightarrow> exn + approval_scope" where
  "approval_scope E created v =
     and_then (exact [''mode'', ''max_uses'', ''grant_expires_ms''] ''approval scope'' v) (\<lambda>item.
     and_then (one_of E [''once'', ''bounded''] ''approval scope mode must be once or bounded'' (dict_get item ''mode'' PNone)) (\<lambda>mode.
     and_then (integer_arg ''approval max_uses'' 1 (dict_get item ''max_uses'' PNone)) (\<lambda>n.
     and_then (timestamp ''grant_expires_ms'' (dict_get item ''grant_expires_ms'' PNone)) (\<lambda>g.
       if g \<le> created \<or> MAX_APPROVAL_GRANT_TTL_MS < g - created then Inl (ValueError ''invalid approval grant lifetime'')
       else if mode = ''once'' \<and> n \<noteq> 1 then Inl (ValueError ''once approval must have max_uses=1'')
       else if mode = ''bounded'' \<and> 100 < n then Inl (ValueError ''bounded approval max_uses exceeds limit'')
       else Inr \<lparr>sc_mode = mode, sc_max_uses = n, sc_grant_expires_ms = g\<rparr>))))"

definition request_extra :: "string list" where
  "request_extra = [''human_id'', ''device_node_id'', ''action'', ''scope'', ''risk'', ''nonce'']"

definition request_fields :: "ext \<Rightarrow> pydict \<Rightarrow> int \<Rightarrow> exn + pydict" where
  "request_fields E value created =
     and_then (human_id_arg E (dict_get value ''human_id'' PNone)) (\<lambda>human.
     and_then (node_id_arg E ''device_node_id'' (dict_get value ''device_node_id'' PNone)) (\<lambda>device.
     and_then (approval_action E (dict_get value ''action'' PNone)) (\<lambda>a.
     and_then (approval_scope E created (dict_get value ''scope'' PNone)) (\<lambda>s.
     and_then (text_arg E ''approval risk'' True 1024 (dict_get value ''risk'' PNone)) (\<lambda>risk.
     and_then (id32_arg E ''approval nonce'' (dict_get value ''nonce'' PNone)) (\<lambda>nonce.
       Inr [(''human_id'', PStr human), (''device_node_id'', PStr device), (''action'', action_dict a),
            (''scope'', scope_dict s), (''risk'', PStr risk), (''nonce'', PStr nonce)]))))))"

definition validate_approval_request :: "ext \<Rightarrow> pyval \<Rightarrow> exn + pydict" where
  "validate_approval_request E body =
     validated E ''approval_request'' ''request_id'' request_extra MAX_APPROVAL_REQUEST_TTL_MS (request_fields E) body"

definition approval_request ::
    "ext \<Rightarrow> 128 word \<Rightarrow> 128 word \<Rightarrow> time_ms \<Rightarrow> string \<Rightarrow> string \<Rightarrow> pyval \<Rightarrow> pyval \<Rightarrow> string \<Rightarrow> string \<Rightarrow> string \<Rightarrow>
     int option \<Rightarrow> int option \<Rightarrow> exn + pydict" where
  "approval_request E random random2 now human device action scope risk request_id nonce created expires =
     and_then (companion_base E random now ''approval_request'' ''request_id'' request_id created expires (5 * 60 * 1000)) (\<lambda>base.
     validate_approval_request E (PDict (update_fields base
       [(''human_id'', PStr human), (''device_node_id'', PStr device), (''action'', action), (''scope'', scope),
        (''risk'', PStr risk), (''nonce'', PStr (if nonce = '''' then token_hex random2 else nonce))])))"

definition decision_extra :: "string list" where
  "decision_extra = [''request_id'', ''human_id'', ''device_node_id'', ''decision'', ''reason'', ''nonce'', ''action'', ''scope'']"

definition decision_fields :: "ext \<Rightarrow> pydict \<Rightarrow> int \<Rightarrow> exn + pydict" where
  "decision_fields E value created =
     and_then (one_of E APPROVAL_DECISIONS ''invalid approval decision'' (dict_get value ''decision'' PNone)) (\<lambda>decision.
     and_then (id32_arg E ''request_id'' (dict_get value ''request_id'' PNone)) (\<lambda>i.
     and_then (human_id_arg E (dict_get value ''human_id'' PNone)) (\<lambda>human.
     and_then (node_id_arg E ''device_node_id'' (dict_get value ''device_node_id'' PNone)) (\<lambda>device.
     and_then (text_arg E ''approval decision reason'' False 1024 (dict_get value ''reason'' PNone)) (\<lambda>reason.
     and_then (id32_arg E ''approval nonce'' (dict_get value ''nonce'' PNone)) (\<lambda>nonce.
     and_then (approval_action E (dict_get value ''action'' PNone)) (\<lambda>a.
     and_then (approval_scope E created (dict_get value ''scope'' PNone)) (\<lambda>s.
       Inr [(''request_id'', PStr i), (''human_id'', PStr human), (''device_node_id'', PStr device),
            (''decision'', PStr decision), (''reason'', PStr reason), (''nonce'', PStr nonce),
            (''action'', action_dict a), (''scope'', scope_dict s)]))))))))"

definition validate_approval_decision :: "ext \<Rightarrow> pyval \<Rightarrow> exn + pydict" where
  "validate_approval_decision E body =
     validated E ''approval_decision'' ''decision_id'' decision_extra MAX_APPROVAL_REQUEST_TTL_MS (decision_fields E) body"

definition binding_fields :: "string list" where
  "binding_fields = [''request_id'', ''human_id'', ''device_node_id'', ''nonce'', ''action'', ''scope'']"

text \<open>The integer of a field that was validated as a time.\<close>

definition time_field :: "pydict \<Rightarrow> string \<Rightarrow> int" where
  "time_field d k = (case dict_get d k PNone of PInt i \<Rightarrow> i | _ \<Rightarrow> 0)"

definition validate_approval_decision_binding :: "ext \<Rightarrow> pyval \<Rightarrow> pyval \<Rightarrow> exn + pydict" where
  "validate_approval_decision_binding E request decision =
     and_then (validate_approval_request E request) (\<lambda>r.
     and_then (validate_approval_decision E decision) (\<lambda>d.
     and_then (checks (map (\<lambda>k. require (dict_get d k PNone = dict_get r k PNone)
         (''approval decision does not match request '' @ k)) binding_fields)) (\<lambda>_.
       if time_field d ''created_ms'' < time_field r ''created_ms''
       then Inl (ValueError ''approval decision predates its request'')
       else if time_field r ''expires_ms'' \<le> time_field d ''created_ms''
       then Inl (ValueError ''approval decision was created after request expiry'') else Inr d)))"

definition approval_decision ::
    "ext \<Rightarrow> 128 word \<Rightarrow> time_ms \<Rightarrow> pyval \<Rightarrow> string \<Rightarrow> string \<Rightarrow> string \<Rightarrow> int option \<Rightarrow> int option \<Rightarrow> exn + pydict" where
  "approval_decision E random now request decision reason decision_id created expires =
     and_then (validate_approval_request E request) (\<lambda>r.
     and_then (companion_base E random now ''approval_decision'' ''decision_id'' decision_id created expires (5 * 60 * 1000)) (\<lambda>base.
     and_then (validate_approval_decision E (PDict (update_fields base
       [(''request_id'', dict_get r ''request_id'' PNone), (''human_id'', dict_get r ''human_id'' PNone),
        (''device_node_id'', dict_get r ''device_node_id'' PNone), (''decision'', PStr decision),
        (''reason'', PStr reason), (''nonce'', dict_get r ''nonce'' PNone), (''action'', dict_get r ''action'' PNone),
        (''scope'', dict_get r ''scope'' PNone)]))) (\<lambda>d.
     and_then (validate_approval_decision_binding E (PDict r) (PDict d)) (\<lambda>_. Inr d))))"

section \<open>Messages by kind\<close>

datatype companion_kind = Observations | Episode | Intervention | UserResponse | ApprovalRequest | ApprovalDecision

definition kind_text :: "companion_kind \<Rightarrow> string" where
  "kind_text k = (case k of Observations \<Rightarrow> ''companion.observation.batch'' | Episode \<Rightarrow> ''companion.episode''
     | Intervention \<Rightarrow> ''companion.intervention'' | UserResponse \<Rightarrow> ''companion.user-response''
     | ApprovalRequest \<Rightarrow> ''companion.approval.request'' | ApprovalDecision \<Rightarrow> ''companion.approval.decision'')"

definition kind_of_text :: "string \<Rightarrow> companion_kind option" where
  "kind_of_text s = find (\<lambda>k. kind_text k = s) [Observations, Episode, Intervention, UserResponse, ApprovalRequest, ApprovalDecision]"

definition validate_kind :: "ext \<Rightarrow> companion_kind \<Rightarrow> pyval \<Rightarrow> exn + pydict" where
  "validate_kind E k body = (case k of Observations \<Rightarrow> validate_observation_batch E body | Episode \<Rightarrow> validate_episode E body
     | Intervention \<Rightarrow> validate_intervention E body | UserResponse \<Rightarrow> validate_user_response E body
     | ApprovalRequest \<Rightarrow> validate_approval_request E body | ApprovalDecision \<Rightarrow> validate_approval_decision E body)"

definition validate_companion_message :: "ext \<Rightarrow> string \<Rightarrow> pyval \<Rightarrow> exn + pydict" where
  "validate_companion_message E kind body =
     (case kind_of_text (lower (strip kind)) of
        None \<Rightarrow> Inl (ValueError ''unsupported Companion kind'')
      | Some k \<Rightarrow> validate_kind E k body)"

text \<open>The field that must name the sender, and the one that must name the destination.\<close>

definition source_field :: "companion_kind \<Rightarrow> string option" where
  "source_field k = (case k of Observations \<Rightarrow> Some ''source_node_id'' | Episode \<Rightarrow> Some ''source_node_id''
     | UserResponse \<Rightarrow> Some ''device_node_id'' | ApprovalDecision \<Rightarrow> Some ''device_node_id'' | _ \<Rightarrow> None)"

definition target_field :: "companion_kind \<Rightarrow> string option" where
  "target_field k = (case k of Intervention \<Rightarrow> Some ''target_device_id'' | ApprovalRequest \<Rightarrow> Some ''device_node_id'' | _ \<Rightarrow> None)"

definition names_node :: "string option \<Rightarrow> pydict \<Rightarrow> string \<Rightarrow> bool" where
  "names_node f d n = (case f of None \<Rightarrow> True | Some k \<Rightarrow> dict_get d k PNone = PStr n)"

definition validate_companion_endpoint_binding ::
    "ext \<Rightarrow> time_ms \<Rightarrow> string \<Rightarrow> pyval \<Rightarrow> string \<Rightarrow> string \<Rightarrow> int option \<Rightarrow> exn + pydict" where
  "validate_companion_endpoint_binding E now kind body packet_sender receiver_id now_opt =
     and_then (validate_companion_message E (lower (strip kind)) body) (\<lambda>d.
     and_then (node_id_arg E ''Packet sender_node_id'' (PStr packet_sender)) (\<lambda>sender.
     and_then (node_id_arg E ''Packet destination_node_id'' (PStr receiver_id)) (\<lambda>destination.
     and_then (case now_opt of None \<Rightarrow> Inr now | Some n \<Rightarrow> timestamp ''current time'' (PInt n)) (\<lambda>current.
     if current + COMPANION_CLOCK_SKEW_MS < time_field d ''created_ms''
     then Inl (ValueError ''Companion object creation time is too far in the future'')
     else if time_field d ''expires_ms'' \<le> current then Inl (ValueError ''Companion object expired'')
     else case kind_of_text (lower (strip kind)) of
       None \<Rightarrow> Inr d
     | Some k \<Rightarrow>
         if \<not> names_node (source_field k) d sender
         then Inl (ValueError (lower (strip kind) @ '' '' @ the (source_field k) @ '' does not match Packet sender''))
         else if \<not> names_node (target_field k) d destination
         then Inl (ValueError (lower (strip kind) @ '' '' @ the (target_field k) @ '' does not match Packet destination''))
         else Inr d))))"

section \<open>Normal forms\<close>

lemma dict_get_set: "dict_get (dict_set k v d) k' x = (if k' = k then v else dict_get d k' x)"
  by (induction k v d rule: dict_set.induct) (auto simp: dict_get_def)

lemma keys_dict_set: "k \<in> set (map fst d) \<Longrightarrow> map fst (dict_set k v d) = map fst d"
  by (induction k v d rule: dict_set.induct) auto

lemma dict_set_same: "map_of d k = Some v \<Longrightarrow> dict_set k v d = d"
  by (induction k v d rule: dict_set.induct) (auto split: if_splits)

lemma dict_get_update:
  "distinct (map fst ups) \<Longrightarrow>
   dict_get (update_fields d ups) k x = (case map_of ups k of Some v \<Rightarrow> v | None \<Rightarrow> dict_get d k x)"
proof (induction ups arbitrary: d)
  case (Cons kv ups)
  obtain q v where kv: "kv = (q, v)" by (cases kv)
  have "update_fields d (kv # ups) = update_fields (dict_set q v d) ups" by (simp add: update_fields_def kv)
  moreover have "q \<notin> set (map fst ups)" using Cons.prems kv by auto
  then have "map_of ups q = None" by (simp add: map_of_eq_None_iff)
  ultimately show ?case using Cons kv by (auto simp: dict_get_set split: option.split)
qed (simp add: update_fields_def)

lemma keys_update: "set (map fst ups) \<subseteq> set (map fst d) \<Longrightarrow> map fst (update_fields d ups) = map fst d"
proof (induction ups arbitrary: d)
  case (Cons kv ups)
  obtain q v where kv: "kv = (q, v)" by (cases kv)
  then have q: "q \<in> set (map fst d)" and sub: "set (map fst ups) \<subseteq> set (map fst (dict_set q v d))"
    using Cons.prems keys_dict_set [of q d v] by auto
  from Cons.IH [OF sub] keys_dict_set [OF q] show ?case by (simp add: update_fields_def kv)
qed (simp add: update_fields_def)

lemma update_again:
  assumes "\<forall>(k, v)\<in>set ups. map_of d k = Some v"
  shows "update_fields d ups = d"
  using assms by (induction ups) (auto simp: update_fields_def dict_set_same)

lemma map_of_dict_get: "k \<in> set (map fst d) \<Longrightarrow> map_of d k = Some (dict_get d k x)"
  by (auto simp: dict_get_def map_of_eq_None_iff split: option.split)

lemma exact_Inr: "exact required name (PDict d) = Inr d' \<longleftrightarrow> d' = d \<and> set (map fst d) = set required"
  by (auto simp: exact_def Let_def filter_empty_conv)

lemma validate_base_Inr:
  "validate_base E object_type id_name extra max_ttl body = Inr (vals, c, e) \<longleftrightarrow> body = PDict vals
     \<and> dict_get vals ''protocol'' PNone = PStr COMPANION_PROTOCOL
     \<and> equals_int (dict_get vals ''version'' PNone) COMPANION_PROTOCOL_VERSION
     \<and> dict_get vals ''object_type'' PNone = PStr object_type
     \<and> set (map fst vals) = set (base_fields id_name @ extra)
     \<and> (\<exists>i. id32_arg E id_name (dict_get vals id_name PNone) = Inr i)
     \<and> lifetime max_ttl (dict_get vals ''created_ms'' PNone) (dict_get vals ''expires_ms'' PNone) = Inr (c, e)"
proof (cases body)
  case (PDict d)
  then show ?thesis
    by (simp add: validate_base_def exact_Inr split: prod.split del: set_map set_append map_append) (rule iffI; clarsimp)
qed (simp_all add: validate_base_def)

text \<open>
  The contract of a kind: its fields in normal form carry exactly the names of the kind, and the normal
  form of fields that are already normal is the same.
\<close>

locale companion_object =
  fixes normal :: "pydict \<Rightarrow> int \<Rightarrow> exn + pydict" and object_type id_name :: string
    and extra :: "string list" and max_ttl :: int and E :: ext
  assumes names: "normal v c = Inr ups \<Longrightarrow> distinct (map fst ups) \<and> set (map fst ups) = set extra"
    and fixpoint: "normal v c = Inr ups \<Longrightarrow> (\<And>k. k \<in> set extra \<Longrightarrow> dict_get w k PNone = dict_get ups k PNone)
      \<Longrightarrow> normal w c = Inr ups"
    and apart: "set (base_fields id_name) \<inter> set extra = {}"
begin

text \<open>A validated message is its own normal form.\<close>

lemma idempotent:
  assumes "validated E object_type id_name extra max_ttl normal body = Inr d"
  shows "validated E object_type id_name extra max_ttl normal (PDict d) = Inr d"
proof -
  obtain vals c e ups where base: "validate_base E object_type id_name extra max_ttl body = Inr (vals, c, e)"
    and ups: "normal vals c = Inr ups" and d: "d = update_fields vals ups"
    using assms by (auto simp: validated_def)
  note b = base [unfolded validate_base_Inr]
  then have keys: "set (map fst vals) = set (base_fields id_name @ extra)" by blast
  note nm = names [OF ups]
  then have dist: "distinct (map fst ups)" and sub: "set (map fst ups) \<subseteq> set (map fst vals)"
    unfolding keys by simp_all
  have dg: "dict_get d k PNone = (case map_of ups k of Some x \<Rightarrow> x | None \<Rightarrow> dict_get vals k PNone)" for k
    unfolding d using dist by (rule dict_get_update)
  have old: "dict_get d k PNone = dict_get vals k PNone" if "k \<in> set (base_fields id_name)" for k
  proof -
    have "k \<notin> set (map fst ups)" using that apart nm by blast
    then have "map_of ups k = None" by (simp only: map_of_eq_None_iff set_map not_False_eq_True)
    then show ?thesis by (simp add: dg)
  qed
  have kd: "map fst d = map fst vals" unfolding d using sub by (rule keys_update)
  have "dict_get d ''protocol'' PNone = dict_get vals ''protocol'' PNone" "dict_get d ''version'' PNone = dict_get vals ''version'' PNone"
    "dict_get d ''object_type'' PNone = dict_get vals ''object_type'' PNone" "dict_get d id_name PNone = dict_get vals id_name PNone"
    "dict_get d ''created_ms'' PNone = dict_get vals ''created_ms'' PNone" "dict_get d ''expires_ms'' PNone = dict_get vals ''expires_ms'' PNone"
    by (rule old; simp only: base_fields_def list.set insert_iff simp_thms)+
  then have "validate_base E object_type id_name extra max_ttl (PDict d) = Inr (d, c, e)"
    using b unfolding validate_base_Inr kd by (simp only: simp_thms)
  moreover have "normal d c = Inr ups"
  proof (rule fixpoint [OF ups])
    fix k assume "k \<in> set extra"
    then have "k \<in> set (map fst ups)" using nm by blast
    then show "dict_get d k PNone = dict_get ups k PNone"
      using map_of_dict_get [of k ups PNone] by (simp add: dg)
  qed
  moreover have "update_fields d ups = d"
  proof (rule update_again, rule ballI, rule prod.case_eq_if [THEN iffD2])
    fix kx assume kx: "kx \<in> set ups"
    then have k: "fst kx \<in> set (map fst d)" using sub kd by auto
    have "map_of ups (fst kx) = Some (snd kx)" using kx dist by (simp add: map_of_is_SomeI)
    then show "map_of d (fst kx) = Some (snd kx)" using map_of_dict_get [OF k, of PNone] dg [of "fst kx"] by simp
  qed
  ultimately show ?thesis by (simp add: validated_def)
qed

end

subsection \<open>Fields that are already normal\<close>

lemma normalized_fix: "normalized ok msg E v = Inr n \<Longrightarrow> normalized ok msg F (PStr n) = Inr n"
  by (auto simp: normalized_def normal_text_def Let_def split: if_splits)

lemmas field_defs = id32_arg_def digest_arg_def node_id_arg_def human_id_arg_def token_arg_def one_of_def data_level_def

lemma field_fix:
  "id32_arg E name v = Inr n \<Longrightarrow> id32_arg E name (PStr n) = Inr n"
  "digest_arg E name v = Inr n \<Longrightarrow> digest_arg E name (PStr n) = Inr n"
  "node_id_arg E name v = Inr n \<Longrightarrow> node_id_arg E name (PStr n) = Inr n"
  "human_id_arg E v = Inr n \<Longrightarrow> human_id_arg E (PStr n) = Inr n"
  "token_arg E name v = Inr n \<Longrightarrow> token_arg E name (PStr n) = Inr n"
  "one_of E allowed msg v = Inr n \<Longrightarrow> one_of E allowed msg (PStr n) = Inr n"
  "data_level E v = Inr n \<Longrightarrow> data_level E (PStr n) = Inr n"
  unfolding field_defs by (rule normalized_fix, assumption)+

lemma text_fix: "text_arg E name required limit v = Inr t \<Longrightarrow> text_arg E name required limit (PStr t) = Inr t"
  by (auto simp: text_arg_def Let_def split: pyval.splits if_splits)

lemma integer_Inr: "integer_arg name m v = Inr i \<longleftrightarrow> v = PInt i \<and> m \<le> i"
  by (auto simp: integer_arg_def split: pyval.splits)

lemma timestamp_Inr: "timestamp name v = Inr i \<longleftrightarrow> v = PInt i \<and> 1 \<le> i"
  by (simp add: timestamp_def integer_Inr)

lemma map_result_fix:
  "map_result f vs = Inr ws \<Longrightarrow> (\<And>v w. f v = Inr w \<Longrightarrow> f (g w) = Inr w) \<Longrightarrow> map_result f (map g ws) = Inr ws"
  by (induction vs arbitrary: ws) auto

lemma map_result_in: "map_result f vs = Inr ws \<Longrightarrow> w \<in> set ws \<Longrightarrow> \<exists>v\<in>set vs. f v = Inr w"
  by (induction vs arbitrary: ws) auto

lemma map_result_each: "(\<And>w. w \<in> set ws \<Longrightarrow> f (g w) = Inr w) \<Longrightarrow> map_result f (map g ws) = Inr ws"
  by (induction ws) auto

lemma sorted_unique_props [simp]: "set (sorted_unique xs) = set xs" "sorted_unique (sorted_unique xs) = sorted_unique xs"
  by (simp_all add: sorted_unique_def sort_key_id_if_sorted)

lemma exact_ok: "set (map fst d) = set required \<Longrightarrow> exact required name (PDict d) = Inr d"
  by (simp add: exact_Inr del: set_map)

lemma consent_scope_fix: "consent_scope E v = Inr s \<Longrightarrow> consent_scope E (text_list s) = Inr s"
proof -
  assume s: "consent_scope E v = Inr s"
  then obtain vs ts where ts: "map_result (token_arg E ''consent scope'') vs = Inr ts" "s = sorted_unique ts" "vs \<noteq> []"
    and len: "\<not> 32 < length s"
    by (auto simp: consent_scope_def Let_def split: pyval.splits)
  have "token_arg E ''consent scope'' (PStr t) = Inr t" if "t \<in> set s" for t
    using that map_result_in [OF ts(1)] by (auto simp: ts(2) dest: field_fix)
  then have "map_result (token_arg E ''consent scope'') (map PStr s) = Inr s" by (rule map_result_each)
  moreover have "ts \<noteq> []" using ts map_result_Inr_length [OF ts(1)] by auto
  then have "s \<noteq> []" by (metis sorted_unique_props(1) set_empty ts(2))
  moreover have "sorted_unique s = s" by (simp add: ts(2))
  ultimately show ?thesis using len by (simp add: consent_scope_def text_list_def)
qed

lemma normal_text_PStr: "normal_text E (PStr s) = lower (strip s)"
  by (simp add: normal_text_def)

lemma normal_text_Nil: "normal_text E (PStr []) = []"
  by (simp add: normal_text_def strip_def lower_def)

lemma normal_text_idem: "normal_text F (PStr (normal_text E v)) = normal_text E v"
  by (simp add: normal_text_def)

lemma id32_lower: "id32_arg E name v = Inr n \<Longrightarrow> n = normal_text E v"
  by (auto simp: id32_arg_def normalized_def Let_def split: if_splits)

lemma token_lower: "token_arg E name v = Inr n \<Longrightarrow> n = normal_text E v"
  by (auto simp: token_arg_def normalized_def Let_def split: if_splits)

lemma consent_fix: "consent_arg E v = Inr c \<Longrightarrow> consent_arg E (consent_value c) = Inr c"
proof -
  assume "consent_arg E v = Inr c"
  then obtain item basis gid scope where b: "one_of E CONSENT_BASES ''invalid consent basis'' (dict_get item ''basis'' PNone) = Inr basis"
    and g: "(if basis = ''user-opt-in'' then id32_arg E ''consent grant_id'' (PStr (normal_text E (dict_get item ''grant_id'' PNone)))
        else if normal_text E (dict_get item ''grant_id'' PNone) \<noteq> [] then Inl (ValueError ''only user-opt-in consent may carry grant_id'')
        else Inr (normal_text E (dict_get item ''grant_id'' PNone))) = Inr gid"
    and s: "consent_scope E (dict_get item ''scope'' PNone) = Inr scope" and c: "c = \<lparr>cn_basis = basis, cn_grant_id = gid, cn_scope = scope\<rparr>"
    by (auto simp: consent_arg_def Let_def)
  have gid: "normal_text E (PStr gid) = gid"
    using g by (auto simp: normal_text_idem normal_text_Nil dest!: id32_lower split: if_splits)
  have "(if basis = ''user-opt-in'' then id32_arg E ''consent grant_id'' (PStr gid)
      else if gid \<noteq> [] then Inl (ValueError ''only user-opt-in consent may carry grant_id'') else Inr gid) = Inr gid"
    using g by (auto dest: field_fix(1) split: if_splits)
  moreover have "exact [''basis'', ''grant_id'', ''scope''] ''consent'' (consent_value c)
      = Inr [(''basis'', PStr basis), (''grant_id'', PStr gid), (''scope'', text_list scope)]"
    unfolding consent_value_def by (simp add: c exact_ok)
  ultimately show ?thesis
    by (simp add: consent_arg_def dict_get_Cons field_fix(6) [OF b] gid consent_scope_fix [OF s] c)
qed

subsection \<open>Maps and metrics\<close>

lemma dict_set_props: "distinct (map fst d) \<Longrightarrow> distinct (map fst (dict_set k v d)) \<and> length (dict_set k v d) \<le> length d + 1
    \<and> dict_set k v d \<noteq> [] \<and> set (dict_set k v d) \<subseteq> insert (k, v) (set d) \<and> fst ` set (dict_set k v d) = insert k (fst ` set d)"
  by (induction k v d rule: dict_set.induct) auto

lemma normal_map_props:
  assumes fk: "\<And>k n. fk k = Inr n \<Longrightarrow> fk n = Inr n" and fv: "\<And>v w. fv v = Inr w \<Longrightarrow> fv w = Inr w"
  shows "normal_map fk fv d acc = Inr ms \<Longrightarrow> distinct (map fst acc) \<Longrightarrow> \<forall>(k, v)\<in>set acc. fk k = Inr k \<and> fv v = Inr v \<Longrightarrow>
    distinct (map fst ms) \<and> (\<forall>(k, v)\<in>set ms. fk k = Inr k \<and> fv v = Inr v) \<and> length ms \<le> length acc + length d
    \<and> (acc \<noteq> [] \<or> d \<noteq> [] \<longrightarrow> ms \<noteq> [])"
proof (induction d arbitrary: acc)
  case (Cons kv d)
  obtain k v where kv: "kv = (k, v)" by (cases kv)
  with Cons.prems(1) obtain k' v' where f: "fk k = Inr k'" "fv v = Inr v'" and rest: "normal_map fk fv d (dict_set k' v' acc) = Inr ms"
    by auto
  note p = dict_set_props [OF Cons.prems(2), of k' v']
  have "\<forall>(k, v)\<in>set (dict_set k' v' acc). fk k = Inr k \<and> fv v = Inr v"
    using p Cons.prems(3) fk [OF f(1)] fv [OF f(2)] by auto
  from Cons.IH [OF rest conjunct1 [OF p] this] p show ?case by auto
qed simp

lemma normal_map_id:
  "distinct (map fst (acc @ d)) \<Longrightarrow> \<forall>(k, v)\<in>set d. fk k = Inr k \<and> fv v = Inr v \<Longrightarrow> normal_map fk fv d acc = Inr (acc @ d)"
proof (induction d arbitrary: acc)
  case (Cons kv d)
  obtain k v where kv: "kv = (k, v)" by (cases kv)
  have "k \<notin> fst ` set acc" using Cons.prems(1) kv by auto
  then have "dict_set k v acc = acc @ [(k, v)]" by (induction acc) auto
  then show ?case using Cons.IH [of "acc @ [(k, v)]"] Cons.prems kv by simp
qed simp

text \<open>A map in normal form, sorted by its keys, is read back as it is.\<close>

lemma normal_map_fix:
  assumes "normal_map fk fv d [] = Inr ms"
    and "\<forall>k n. fk k = Inr n \<longrightarrow> fk n = Inr n" and "\<forall>v w. fv v = Inr w \<longrightarrow> fv w = Inr w"
  shows "normal_map fk fv (sort_key fst ms) [] = Inr (sort_key fst ms)"
    and "length (sort_key fst ms) \<le> length d" and "d \<noteq> [] \<Longrightarrow> sort_key fst ms \<noteq> []"
    and "sort_key fst (sort_key fst ms) = sort_key fst ms"
proof -
  have props: "distinct (map fst ms) \<and> (\<forall>(k, v)\<in>set ms. fk k = Inr k \<and> fv v = Inr v) \<and> length ms \<le> length ([] :: pydict) + length d
    \<and> (([] :: pydict) \<noteq> [] \<or> d \<noteq> [] \<longrightarrow> ms \<noteq> [])"
    by (rule normal_map_props [OF _ _ assms(1)]) (use assms(2,3) in blast, use assms(2,3) in blast, simp_all)
  note dist = conjunct1 [OF props] and fixed = conjunct1 [OF conjunct2 [OF props]]
  have len: "length ms \<le> length d" and ne: "d \<noteq> [] \<longrightarrow> ms \<noteq> []"
    using conjunct2 [OF conjunct2 [OF props]] by simp_all
  have d': "distinct (map fst (sort_key fst ms))" using dist by (metis distinct_map distinct_sort set_sort)
  have "normal_map fk fv (sort_key fst ms) [] = Inr ([] @ sort_key fst ms)"
    by (rule normal_map_id) (simp_all only: append.simps d' set_sort, rule fixed)
  then show "normal_map fk fv (sort_key fst ms) [] = Inr (sort_key fst ms)" by (simp only: append.simps)
  show "length (sort_key fst ms) \<le> length d" using len by simp
  show "d \<noteq> [] \<Longrightarrow> sort_key fst ms \<noteq> []" using ne by (metis sort_key_Nil_iff)
  show "sort_key fst (sort_key fst ms) = sort_key fst ms" by (simp add: sort_key_id_if_sorted)
qed

lemma metric_fix:
  "metric_value E v = Inr w \<Longrightarrow> metric_value E w = Inr w"
  "metric_values E vs = Inr ws \<Longrightarrow> metric_values E ws = Inr ws \<and> length ws = length vs"
proof (induction E v and E vs arbitrary: w and ws rule: metric_value_metric_values.induct)
  case (2 E s)
  then show ?case by (auto dest: text_fix)
qed auto

lemma reject_entries_iff:
  "reject_entries p d = Inr () \<longleftrightarrow> (\<forall>(k, v)\<in>set d. lower (strip k) \<notin> set FORBIDDEN_KEYS
     \<and> reject_forbidden (p @ ''.'' @ lower (strip k)) v = Inr ())"
  by (induction d) (auto simp: Let_def)

lemma metrics_fix: "episode_metrics E v = Inr m \<Longrightarrow> episode_metrics E (PDict m) = Inr m"
proof -
  assume m: "episode_metrics E v = Inr m"
  then obtain d ms where n: "normal_map (\<lambda>k. token_arg E ''episode metric name'' (PStr k)) (metric_value E) d [] = Inr ms"
    and r: "reject_entries ''metrics'' ms = Inr ()" and l: "\<not> MAX_METRICS < length d" "m = sort_key fst ms"
    by (auto simp: episode_metrics_def split: pyval.splits)
  have "\<forall>k n. token_arg E ''episode metric name'' (PStr k) = Inr n \<longrightarrow> token_arg E ''episode metric name'' (PStr n) = Inr n"
    "\<forall>v w. metric_value E v = Inr w \<longrightarrow> metric_value E w = Inr w"
    by (simp_all add: field_fix(5) metric_fix(1))
  note f = normal_map_fix [OF n this]
  have "reject_entries ''metrics'' (sort_key fst ms) = Inr ()" using r by (simp add: reject_entries_iff)
  with f l show ?thesis by (auto simp: episode_metrics_def)
qed

subsection \<open>Observations\<close>

lemma app_window_Inr:
  assumes "app_window_value E v = Inr w"
  obtains d ms n where "normal_map (\<lambda>k. token_arg E ''app category'' (PStr k))
      (\<lambda>v. and_then (integer_arg ''app category duration'' 0 v) (\<lambda>i. Inr (PInt i))) d [] = Inr ms"
    "d \<noteq> []" "\<not> 32 < length d" "0 \<le> n"
    "w = PDict [(''category_durations_ms'', PDict (sort_key fst ms)), (''switch_count'', PInt n)]"
proof -
  obtain item where item: "(case dict_get item ''category_durations_ms'' PNone of
         PDict d \<Rightarrow>
           if d = [] then Inl (ValueError ''app category durations must be a non-empty map'')
           else if 32 < length d then Inl (ValueError ''too many app categories'')
           else and_then (normal_map (\<lambda>k. token_arg E ''app category'' (PStr k))
                    (\<lambda>v. and_then (integer_arg ''app category duration'' 0 v) (\<lambda>i. Inr (PInt i))) d []) (\<lambda>durations.
                and_then (integer_arg ''app switch count'' 0 (dict_get item ''switch_count'' PNone)) (\<lambda>n.
                  Inr (PDict [(''category_durations_ms'', PDict (sort_key fst durations)), (''switch_count'', PInt n)])))
       | _ \<Rightarrow> Inl (ValueError ''app category durations must be a non-empty map'')) = Inr w"
    using assms unfolding app_window_value_def and_then_eq_Inr by (elim exE conjE) assumption
  then obtain d where d: "dict_get item ''category_durations_ms'' PNone = PDict d"
    by (cases "dict_get item ''category_durations_ms'' PNone") simp_all
  obtain ms where "normal_map (\<lambda>k. token_arg E ''app category'' (PStr k))
      (\<lambda>v. and_then (integer_arg ''app category duration'' 0 v) (\<lambda>i. Inr (PInt i))) d [] = Inr ms"
    using item unfolding d by (cases "normal_map (\<lambda>k. token_arg E ''app category'' (PStr k))
      (\<lambda>v. and_then (integer_arg ''app category duration'' 0 v) (\<lambda>i. Inr (PInt i))) d []") (simp_all split: if_splits)
  moreover from this obtain n where "0 \<le> n"
    "PDict [(''category_durations_ms'', PDict (sort_key fst ms)), (''switch_count'', PInt n)] = w"
    using item unfolding d
    by (cases "integer_arg ''app switch count'' 0 (dict_get item ''switch_count'' PNone)") (auto simp: integer_Inr split: if_splits)
  moreover have "d \<noteq> []" "\<not> 32 < length d" using item unfolding d by (simp_all split: if_splits)
  ultimately show ?thesis by (intro that) (rule sym, assumption | assumption)+
qed

lemma app_window_fix: "app_window_value E v = Inr w \<Longrightarrow> app_window_value E w = Inr w"
proof -
  let ?fk = "\<lambda>k. token_arg E ''app category'' (PStr k)"
  let ?fv = "\<lambda>v. and_then (integer_arg ''app category duration'' 0 v) (\<lambda>i. Inr (PInt i))"
  assume "app_window_value E v = Inr w"
  then obtain d ms n where m: "normal_map ?fk ?fv d [] = Inr ms" "d \<noteq> []" "\<not> 32 < length d" "0 \<le> n"
    and w: "w = PDict [(''category_durations_ms'', PDict (sort_key fst ms)), (''switch_count'', PInt n)]"
    by (rule app_window_Inr)
  have fv: "\<forall>v w. ?fv v = Inr w \<longrightarrow> ?fv w = Inr w" by (auto simp: integer_Inr)
  have fk: "\<forall>k n. ?fk k = Inr n \<longrightarrow> ?fk n = Inr n" by (simp add: field_fix(5))
  note f = normal_map_fix [OF m(1) fk fv]
  have "exact [''category_durations_ms'', ''switch_count''] ''app category window'' w
      = Inr [(''category_durations_ms'', PDict (sort_key fst ms)), (''switch_count'', PInt n)]"
    unfolding w by (simp add: exact_ok)
  moreover have "integer_arg ''app switch count'' 0 (PInt n) = Inr n" using m(4) by (simp add: integer_Inr)
  ultimately show ?thesis using f m(2,3) by (simp add: app_window_value_def dict_get_Cons w)
qed

lemma observation_value_fix: "observation_value E t v = Inr w \<Longrightarrow> observation_value E t w = Inr w"
proof -
  have "battery_value E v = Inr w \<Longrightarrow> battery_value E w = Inr w"
    by (auto simp: battery_value_def integer_Inr dict_get_Cons exact_ok)
  moreover have "network_value E v = Inr w \<Longrightarrow> network_value E w = Inr w"
    by (auto simp: network_value_def dict_get_Cons exact_ok dest: field_fix(6))
  moreover have "presence_value E v = Inr w \<Longrightarrow> presence_value E w = Inr w"
    by (auto simp: presence_value_def dict_get_Cons exact_ok dest: field_fix(6))
  moreover have "self_report_value E v = Inr w \<Longrightarrow> self_report_value E w = Inr w"
    by (auto simp: self_report_value_def dict_get_Cons exact_ok dest: text_fix)
  ultimately show "observation_value E t v = Inr w \<Longrightarrow> observation_value E t w = Inr w"
    using app_window_fix [of E v w] by (simp add: observation_value_def split: if_splits)
qed

lemma observation_Inr:
  "observation_arg E v = Inr b \<Longrightarrow> ob_type b \<in> set OBSERVATION_TYPES \<and> hex_string 32 (ob_id b)
    \<and> reject_forbidden ''value'' (observation_dict b) = Inr ()"
  by (auto simp: observation_arg_def Let_def one_of_def id32_arg_def normalized_def split: if_splits)

lemma observation_fix: "observation_arg E v = Inr b \<Longrightarrow> observation_arg E (observation_dict b) = Inr b"
proof -
  assume b: "observation_arg E v = Inr b"
  then obtain item where i: "one_of E OBSERVATION_TYPES ''unsupported P0 observation type'' (dict_get item ''type'' PNone) = Inr (ob_type b)"
    "id32_arg E ''observation_id'' (dict_get item ''observation_id'' PNone) = Inr (ob_id b)"
    "timestamp ''observed_ms'' (dict_get item ''observed_ms'' PNone) = Inr (ob_observed_ms b)"
    "observation_value E (ob_type b) (dict_get item ''value'' PNone) = Inr (ob_value b)"
    by (auto simp: observation_arg_def Let_def)
  have "exact [''observation_id'', ''observed_ms'', ''type'', ''value''] ''observation'' (observation_dict b)
     = Inr [(''observation_id'', PStr (ob_id b)), (''observed_ms'', PInt (ob_observed_ms b)), (''type'', PStr (ob_type b)), (''value'', ob_value b)]"
    unfolding observation_dict_def by (simp add: exact_ok)
  moreover have "timestamp ''observed_ms'' (PInt (ob_observed_ms b)) = Inr (ob_observed_ms b)" using i(3) by (simp add: timestamp_Inr)
  moreover note observation_Inr [OF b]
  moreover have eta: "\<lparr>ob_id = ob_id b, ob_observed_ms = ob_observed_ms b, ob_type = ob_type b, ob_value = ob_value b\<rparr> = b"
    by simp
  ultimately show ?thesis
    by (simp add: observation_arg_def Let_def dict_get_Cons field_fix(6) [OF i(1)] field_fix(1) [OF i(2)] observation_value_fix [OF i(4)] eta)
qed

lemma observation_list_fix: "observation_list E v = Inr obs \<Longrightarrow> observation_list E (PList (map observation_dict obs)) = Inr obs"
proof -
  assume "observation_list E v = Inr obs"
  then obtain vs where m: "map_result (observation_arg E) vs = Inr obs" "vs \<noteq> []" "\<not> MAX_BATCH_OBSERVATIONS < length vs"
    by (auto simp: observation_list_def split: pyval.splits)
  from map_result_fix [OF m(1) observation_fix] map_result_Inr_length [OF m(1)] m(2,3) show ?thesis
    by (auto simp: observation_list_def)
qed

subsection \<open>The other fields\<close>

lemma ids_fix: "map_result (id32_arg E name) vs = Inr ids \<Longrightarrow> map_result (id32_arg E name) (map PStr ids) = Inr ids"
  by (rule map_result_fix, assumption, rule field_fix)

lemma source_batches_fix: "source_batches E v = Inr ids \<Longrightarrow> source_batches E (text_list ids) = Inr ids"
proof -
  assume "source_batches E v = Inr ids"
  then obtain vs where m: "map_result (id32_arg E ''source batch ID'') vs = Inr ids" "vs \<noteq> []"
    and ids: "\<not> (MAX_SOURCE_BATCHES < length ids \<or> \<not> distinct ids)"
    by (auto simp: source_batches_def split: pyval.splits if_splits)
  have "ids \<noteq> []" using m map_result_Inr_length [OF m(1)] by auto
  with ids ids_fix [OF m(1)] show ?thesis by (simp add: source_batches_def text_list_def)
qed

lemma related_episodes_fix: "related_episodes E v = Inr ids \<Longrightarrow> related_episodes E (text_list ids) = Inr ids"
proof -
  assume "related_episodes E v = Inr ids"
  then obtain vs where m: "map_result (id32_arg E ''related episode ID'') vs = Inr ids" "\<not> 64 < length vs" "distinct ids"
    by (auto simp: related_episodes_def split: pyval.splits if_splits)
  with ids_fix [OF m(1)] map_result_Inr_length [OF m(1)] show ?thesis by (simp add: related_episodes_def text_list_def)
qed

lemma option_fix: "option_arg E v = Inr r \<Longrightarrow> option_arg E (option_dict r) = Inr r"
proof -
  assume "option_arg E v = Inr r"
  then obtain item where i: "token_arg E ''action_id'' (dict_get item ''action_id'' PNone) = Inr (ro_action_id r)"
    "text_arg E ''response option label'' True 128 (dict_get item ''label'' PNone) = Inr (ro_label r)"
    by (auto simp: option_arg_def)
  have "exact [''action_id'', ''label''] ''response option'' (option_dict r)
      = Inr [(''action_id'', PStr (ro_action_id r)), (''label'', PStr (ro_label r))]"
    unfolding option_dict_def by (simp add: exact_ok)
  then show ?thesis by (simp add: option_arg_def dict_get_Cons field_fix(5) [OF i(1)] text_fix [OF i(2)])
qed

lemma response_options_fix: "response_options E v = Inr os \<Longrightarrow> response_options E (PList (map option_dict os)) = Inr os"
proof -
  assume "response_options E v = Inr os"
  then obtain vs where m: "map_result (option_arg E) vs = Inr os" "\<not> MAX_OPTIONS < length vs" "distinct (map ro_action_id os)"
    by (auto simp: response_options_def split: pyval.splits if_splits)
  from map_result_fix [OF m(1) option_fix] map_result_Inr_length [OF m(1)] m(2,3) show ?thesis
    by (simp add: response_options_def)
qed

lemma action_fix: "approval_action E v = Inr a \<Longrightarrow> approval_action E (action_dict a) = Inr a"
proof -
  assume "approval_action E v = Inr a"
  then obtain item where i: "ac_resource a = strip (py_str E (dict_get item ''resource'' PNone))" "resource_match (ac_resource a)"
    "token_arg E ''approval capability'' (dict_get item ''capability'' PNone) = Inr (ac_capability a)"
    "digest_arg E ''parameters_digest'' (dict_get item ''parameters_digest'' PNone) = Inr (ac_parameters_digest a)"
    "text_arg E ''approval action summary'' True 512 (dict_get item ''summary'' PNone) = Inr (ac_summary a)"
    by (auto simp: approval_action_def Let_def)
  have "exact [''capability'', ''resource'', ''parameters_digest'', ''summary''] ''approval action'' (action_dict a)
      = Inr [(''capability'', PStr (ac_capability a)), (''resource'', PStr (ac_resource a)),
             (''parameters_digest'', PStr (ac_parameters_digest a)), (''summary'', PStr (ac_summary a))]"
    unfolding action_dict_def by (simp add: exact_ok)
  moreover have "strip (ac_resource a) = ac_resource a" by (simp add: i(1))
  ultimately show ?thesis
    by (simp add: approval_action_def Let_def dict_get_Cons i(2) field_fix(5) [OF i(3)] field_fix(2) [OF i(4)] text_fix [OF i(5)])
qed

lemma scope_fix: "approval_scope E c v = Inr s \<Longrightarrow> approval_scope E c (scope_dict s) = Inr s"
proof -
  assume "approval_scope E c v = Inr s"
  then obtain item where i: "one_of E [''once'', ''bounded''] ''approval scope mode must be once or bounded'' (dict_get item ''mode'' PNone) = Inr (sc_mode s)"
    and n: "1 \<le> sc_max_uses s" "1 \<le> sc_grant_expires_ms s"
    and ok: "\<not> (sc_grant_expires_ms s \<le> c \<or> MAX_APPROVAL_GRANT_TTL_MS < sc_grant_expires_ms s - c)"
      "\<not> (sc_mode s = ''once'' \<and> sc_max_uses s \<noteq> 1)" "\<not> (sc_mode s = ''bounded'' \<and> 100 < sc_max_uses s)"
    by (auto simp: approval_scope_def integer_Inr timestamp_Inr split: if_splits)
  have "exact [''mode'', ''max_uses'', ''grant_expires_ms''] ''approval scope'' (scope_dict s)
      = Inr [(''mode'', PStr (sc_mode s)), (''max_uses'', PInt (sc_max_uses s)), (''grant_expires_ms'', PInt (sc_grant_expires_ms s))]"
    unfolding scope_dict_def by (simp add: exact_ok)
  moreover have "integer_arg ''approval max_uses'' 1 (PInt (sc_max_uses s)) = Inr (sc_max_uses s)" using n(1) by (simp only: integer_Inr simp_thms)
  moreover have "timestamp ''grant_expires_ms'' (PInt (sc_grant_expires_ms s)) = Inr (sc_grant_expires_ms s)" using n(2) by (simp only: timestamp_Inr simp_thms)
  ultimately show ?thesis using ok by (simp add: approval_scope_def dict_get_Cons field_fix(6) [OF i])
qed

lemma window_fix:
  "window_arg msg vals c = Inr (a, b) \<Longrightarrow> dict_get w ''window_start_ms'' PNone = PInt a \<Longrightarrow>
   dict_get w ''window_end_ms'' PNone = PInt b \<Longrightarrow> window_arg msg w c = Inr (a, b)"
  by (auto simp: window_arg_def timestamp_Inr split: if_splits)

section \<open>The kinds meet the contract\<close>

text \<open>A chain of fallible steps that succeeds, taken apart from the front.\<close>

lemma step_triple:
  "and_then r (\<lambda>(a, b, c). k a b c) = Inr y \<Longrightarrow> (\<And>a b c. r = Inr (a, b, c) \<Longrightarrow> k a b c = Inr y \<Longrightarrow> P) \<Longrightarrow> P"
  by auto

lemma step_pair: "and_then r (\<lambda>(a, b). k a b) = Inr y \<Longrightarrow> (\<And>a b. r = Inr (a, b) \<Longrightarrow> k a b = Inr y \<Longrightarrow> P) \<Longrightarrow> P"
  by auto

lemma step_next: "and_then r k = Inr y \<Longrightarrow> (\<And>a. r = Inr a \<Longrightarrow> k a = Inr y \<Longrightarrow> P) \<Longrightarrow> P"
  by auto

lemma step_unit: "and_then r (\<lambda>u :: unit. k) = Inr y \<Longrightarrow> (r = Inr () \<Longrightarrow> k = Inr y \<Longrightarrow> P) \<Longrightarrow> P"
  by auto

lemma step_guard_not: "(if \<not> c then Inl e else r) = Inr y \<Longrightarrow> (c \<Longrightarrow> r = Inr y \<Longrightarrow> P) \<Longrightarrow> P"
  by (auto split: if_splits)

lemma step_guard: "(if c then Inl e else r) = Inr y \<Longrightarrow> (\<not> c \<Longrightarrow> r = Inr y \<Longrightarrow> P) \<Longrightarrow> P"
  by (auto split: if_splits)

lemma step_last: "Inr a = Inr y \<Longrightarrow> (y = a \<Longrightarrow> P) \<Longrightarrow> P"
  by simp

lemma step_let: "(let x = e in f x) = Inr y \<Longrightarrow> (f e = Inr y \<Longrightarrow> P) \<Longrightarrow> P"
  by simp

lemma step_let_pair: "(let (a, b) = e in f a b) = Inr y \<Longrightarrow> (f (fst e) (snd e) = Inr y \<Longrightarrow> P) \<Longrightarrow> P"
  by (simp add: case_prod_beta)

lemmas step_elims = step_triple step_pair step_unit step_next step_guard_not step_guard step_last step_let_pair step_let

lemma batch_fields_Inr:
  assumes "batch_fields E v c = Inr ups"
  obtains a b obs cn src level where "window_arg ''invalid observation window'' v c = Inr (a, b)"
    "observation_list E (dict_get v ''observations'' PNone) = Inr obs" "distinct (map ob_id obs)"
    "\<not> list_ex (\<lambda>x. ob_observed_ms x < a \<or> b < ob_observed_ms x) obs"
    "consent_arg E (dict_get v ''consent'' PNone) = Inr cn" "check_consent cn (remdups (map ob_type obs)) = Inr ()"
    "node_id_arg E ''source_node_id'' (dict_get v ''source_node_id'' PNone) = Inr src"
    "data_level E (dict_get v ''data_level'' PNone) = Inr level"
    "ups = [(''source_node_id'', PStr src), (''window_start_ms'', PInt a), (''window_end_ms'', PInt b),
            (''data_level'', PStr level), (''consent'', consent_value cn), (''observations'', PList (map observation_dict obs))]"
  using assms unfolding batch_fields_def
  by (elim step_elims) (rule that)

text \<open>The fields of a kind in normal form, on a dictionary that agrees with them.\<close>

lemma batch_fixpoint:
  assumes "batch_fields E v c = Inr ups" and w: "\<And>k. k \<in> set batch_extra \<Longrightarrow> dict_get w k PNone = dict_get ups k PNone"
  shows "batch_fields E w c = Inr ups"
  using assms(1)
proof (rule batch_fields_Inr)
  fix a b obs cn src level
  assume f: "window_arg ''invalid observation window'' v c = Inr (a, b)"
    "observation_list E (dict_get v ''observations'' PNone) = Inr obs" "distinct (map ob_id obs)"
    "\<not> list_ex (\<lambda>x. ob_observed_ms x < a \<or> b < ob_observed_ms x) obs"
    "consent_arg E (dict_get v ''consent'' PNone) = Inr cn" "check_consent cn (remdups (map ob_type obs)) = Inr ()"
    "node_id_arg E ''source_node_id'' (dict_get v ''source_node_id'' PNone) = Inr src"
    "data_level E (dict_get v ''data_level'' PNone) = Inr level"
    and ups: "ups = [(''source_node_id'', PStr src), (''window_start_ms'', PInt a), (''window_end_ms'', PInt b),
            (''data_level'', PStr level), (''consent'', consent_value cn), (''observations'', PList (map observation_dict obs))]"
  note g = w [unfolded batch_extra_def ups]
  show ?thesis
    by (simp add: batch_fields_def window_fix [OF f(1)] observation_list_fix [OF f(2)] f(3,4,6) consent_fix [OF f(5)]
        field_fix(3) [OF f(7)] field_fix(7) [OF f(8)] g dict_get_Cons ups)
qed

interpretation batch: companion_object "batch_fields E" "''observation_batch''" "''batch_id''" batch_extra MAX_BODY_TTL_MS E for E
proof unfold_locales
  show "batch_fields E v c = Inr ups \<Longrightarrow> distinct (map fst ups) \<and> set (map fst ups) = set batch_extra" for v c ups
    by (erule batch_fields_Inr) (simp add: batch_extra_def)
qed (rule batch_fixpoint, simp_all add: base_fields_def batch_extra_def)

lemma episode_fields_Inr:
  assumes "episode_fields E v c = Inr ups"
  obtains ids type a b metrics cn src level tv where
    "source_batches E (dict_get v ''source_batch_ids'' PNone) = Inr ids"
    "one_of E EPISODE_TYPES ''unsupported P0 episode type'' (dict_get v ''episode_type'' PNone) = Inr type"
    "window_arg ''invalid episode window'' v c = Inr (a, b)"
    "episode_metrics E (dict_get v ''metrics'' PNone) = Inr metrics"
    "consent_arg E (dict_get v ''consent'' PNone) = Inr cn" "\<not> cn_basis cn \<noteq> fst (consent_contract type)"
    "\<not> snd (consent_contract type) \<notin> set (cn_scope cn)"
    "node_id_arg E ''source_node_id'' (dict_get v ''source_node_id'' PNone) = Inr src"
    "data_level E (dict_get v ''data_level'' PNone) = Inr level"
    "token_arg E ''transform_version'' (dict_get v ''transform_version'' PNone) = Inr tv"
    "ups = [(''source_node_id'', PStr src), (''source_batch_ids'', text_list ids), (''episode_type'', PStr type),
            (''window_start_ms'', PInt a), (''window_end_ms'', PInt b), (''data_level'', PStr level),
            (''consent'', consent_value cn), (''transform_version'', PStr tv), (''metrics'', PDict metrics)]"
  using assms unfolding episode_fields_def by (elim step_elims) (rule that, (simp only: not_not not_False_eq_True | assumption)+)

lemma episode_fixpoint:
  assumes "episode_fields E v c = Inr ups" and w: "\<And>k. k \<in> set episode_extra \<Longrightarrow> dict_get w k PNone = dict_get ups k PNone"
  shows "episode_fields E w c = Inr ups"
  using assms(1)
proof (rule episode_fields_Inr)
  fix ids type a b metrics cn src level tv
  assume f: "source_batches E (dict_get v ''source_batch_ids'' PNone) = Inr ids"
    "one_of E EPISODE_TYPES ''unsupported P0 episode type'' (dict_get v ''episode_type'' PNone) = Inr type"
    "window_arg ''invalid episode window'' v c = Inr (a, b)"
    "episode_metrics E (dict_get v ''metrics'' PNone) = Inr metrics"
    "consent_arg E (dict_get v ''consent'' PNone) = Inr cn" "\<not> cn_basis cn \<noteq> fst (consent_contract type)"
    "\<not> snd (consent_contract type) \<notin> set (cn_scope cn)"
    "node_id_arg E ''source_node_id'' (dict_get v ''source_node_id'' PNone) = Inr src"
    "data_level E (dict_get v ''data_level'' PNone) = Inr level"
    "token_arg E ''transform_version'' (dict_get v ''transform_version'' PNone) = Inr tv"
    and ups: "ups = [(''source_node_id'', PStr src), (''source_batch_ids'', text_list ids), (''episode_type'', PStr type),
            (''window_start_ms'', PInt a), (''window_end_ms'', PInt b), (''data_level'', PStr level),
            (''consent'', consent_value cn), (''transform_version'', PStr tv), (''metrics'', PDict metrics)]"
  note g = w [unfolded episode_extra_def ups]
  show ?thesis using f(6,7)
    by (simp add: episode_fields_def source_batches_fix [OF f(1)] field_fix(6) [OF f(2)] window_fix [OF f(3)] metrics_fix [OF f(4)]
        consent_fix [OF f(5)] field_fix(3) [OF f(8)] field_fix(7) [OF f(9)] field_fix(5) [OF f(10)] case_prod_beta g dict_get_Cons ups)
qed

interpretation episode: companion_object "episode_fields E" "''episode''" "''episode_id''" episode_extra MAX_BODY_TTL_MS E for E
proof unfold_locales
  show "episode_fields E v c = Inr ups \<Longrightarrow> distinct (map fst ups) \<and> set (map fst ups) = set episode_extra" for v c ups
    by (erule episode_fields_Inr) (simp add: episode_extra_def)
qed (rule episode_fixpoint, simp_all add: base_fields_def episode_extra_def)

lemma intervention_fields_Inr:
  assumes "intervention_fields E v c = Inr ups"
  obtains category priority os related human target title message dedupe where
    "one_of E INTERVENTION_CATEGORIES ''invalid intervention category'' (dict_get v ''category'' PNone) = Inr category"
    "one_of E INTERVENTION_PRIORITIES ''invalid intervention priority'' (dict_get v ''priority'' PNone) = Inr priority"
    "response_options E (dict_get v ''response_options'' PNone) = Inr os"
    "related_episodes E (dict_get v ''related_episode_ids'' PNone) = Inr related"
    "human_id_arg E (dict_get v ''human_id'' PNone) = Inr human"
    "node_id_arg E ''device_node_id'' (dict_get v ''target_device_id'' PNone) = Inr target"
    "text_arg E ''intervention title'' True 256 (dict_get v ''title'' PNone) = Inr title"
    "text_arg E ''intervention message'' True MAX_TEXT_CHARS (dict_get v ''message'' PNone) = Inr message"
    "id32_arg E ''dedupe_key'' (dict_get v ''dedupe_key'' PNone) = Inr dedupe"
    "ups = [(''human_id'', PStr human), (''target_device_id'', PStr target), (''category'', PStr category),
            (''priority'', PStr priority), (''title'', PStr title), (''message'', PStr message),
            (''dedupe_key'', PStr dedupe), (''response_options'', PList (map option_dict os)),
            (''related_episode_ids'', text_list related)]"
  using assms unfolding intervention_fields_def by (elim step_elims) (rule that)

lemma intervention_fixpoint:
  assumes "intervention_fields E v c = Inr ups" and w: "\<And>k. k \<in> set intervention_extra \<Longrightarrow> dict_get w k PNone = dict_get ups k PNone"
  shows "intervention_fields E w c' = Inr ups"
  using assms(1)
proof (rule intervention_fields_Inr)
  fix category priority os related human target title message dedupe
  assume f: "one_of E INTERVENTION_CATEGORIES ''invalid intervention category'' (dict_get v ''category'' PNone) = Inr category"
    "one_of E INTERVENTION_PRIORITIES ''invalid intervention priority'' (dict_get v ''priority'' PNone) = Inr priority"
    "response_options E (dict_get v ''response_options'' PNone) = Inr os"
    "related_episodes E (dict_get v ''related_episode_ids'' PNone) = Inr related"
    "human_id_arg E (dict_get v ''human_id'' PNone) = Inr human"
    "node_id_arg E ''device_node_id'' (dict_get v ''target_device_id'' PNone) = Inr target"
    "text_arg E ''intervention title'' True 256 (dict_get v ''title'' PNone) = Inr title"
    "text_arg E ''intervention message'' True MAX_TEXT_CHARS (dict_get v ''message'' PNone) = Inr message"
    "id32_arg E ''dedupe_key'' (dict_get v ''dedupe_key'' PNone) = Inr dedupe"
    and ups: "ups = [(''human_id'', PStr human), (''target_device_id'', PStr target), (''category'', PStr category),
            (''priority'', PStr priority), (''title'', PStr title), (''message'', PStr message),
            (''dedupe_key'', PStr dedupe), (''response_options'', PList (map option_dict os)),
            (''related_episode_ids'', text_list related)]"
  note g = w [unfolded intervention_extra_def ups]
  show ?thesis
    by (simp add: intervention_fields_def field_fix(6) [OF f(1)] field_fix(6) [OF f(2)] response_options_fix [OF f(3)]
        related_episodes_fix [OF f(4)] field_fix(4) [OF f(5)] field_fix(3) [OF f(6)] text_fix [OF f(7)] text_fix [OF f(8)]
        field_fix(1) [OF f(9)] g dict_get_Cons ups)
qed

interpretation intervention: companion_object "intervention_fields E" "''intervention''" "''intervention_id''" intervention_extra MAX_BODY_TTL_MS E for E
proof unfold_locales
  show "intervention_fields E v c = Inr ups \<Longrightarrow> distinct (map fst ups) \<and> set (map fst ups) = set intervention_extra" for v c ups
    by (erule intervention_fields_Inr) (simp add: intervention_extra_def)
qed (rule intervention_fixpoint, simp_all add: base_fields_def intervention_extra_def)

lemma response_fields_Inr:
  assumes "response_fields E v c = Inr ups"
  obtains disposition action t i human device where
    "one_of E USER_DISPOSITIONS ''invalid user response disposition'' (dict_get v ''disposition'' PNone) = Inr disposition"
    "(if normal_text E (dict_get v ''action_id'' PNone) \<noteq> [] then token_arg E ''action_id'' (PStr (normal_text E (dict_get v ''action_id'' PNone)))
      else Inr (normal_text E (dict_get v ''action_id'' PNone))) = Inr action"
    "text_arg E ''user response text'' False MAX_SELF_REPORT_CHARS (dict_get v ''text'' PNone) = Inr t"
    "\<not> (disposition = ''answered'' \<and> action = [] \<and> t = [])"
    "id32_arg E ''intervention_id'' (dict_get v ''intervention_id'' PNone) = Inr i"
    "human_id_arg E (dict_get v ''human_id'' PNone) = Inr human"
    "node_id_arg E ''device_node_id'' (dict_get v ''device_node_id'' PNone) = Inr device"
    "ups = [(''intervention_id'', PStr i), (''human_id'', PStr human), (''device_node_id'', PStr device),
            (''disposition'', PStr disposition), (''action_id'', PStr action), (''text'', PStr t)]"
  using assms unfolding response_fields_def Let_def by (elim step_elims) (rule that)

lemma response_fixpoint:
  assumes "response_fields E v c = Inr ups" and w: "\<And>k. k \<in> set response_extra \<Longrightarrow> dict_get w k PNone = dict_get ups k PNone"
  shows "response_fields E w c' = Inr ups"
  using assms(1)
proof (rule response_fields_Inr)
  fix disposition action t i human device
  assume f: "one_of E USER_DISPOSITIONS ''invalid user response disposition'' (dict_get v ''disposition'' PNone) = Inr disposition"
    "(if normal_text E (dict_get v ''action_id'' PNone) \<noteq> [] then token_arg E ''action_id'' (PStr (normal_text E (dict_get v ''action_id'' PNone)))
      else Inr (normal_text E (dict_get v ''action_id'' PNone))) = Inr action"
    "text_arg E ''user response text'' False MAX_SELF_REPORT_CHARS (dict_get v ''text'' PNone) = Inr t"
    "\<not> (disposition = ''answered'' \<and> action = [] \<and> t = [])"
    "id32_arg E ''intervention_id'' (dict_get v ''intervention_id'' PNone) = Inr i"
    "human_id_arg E (dict_get v ''human_id'' PNone) = Inr human"
    "node_id_arg E ''device_node_id'' (dict_get v ''device_node_id'' PNone) = Inr device"
    and ups: "ups = [(''intervention_id'', PStr i), (''human_id'', PStr human), (''device_node_id'', PStr device),
            (''disposition'', PStr disposition), (''action_id'', PStr action), (''text'', PStr t)]"
  note g = w [unfolded response_extra_def ups]
  have "normal_text E (PStr action) = action"
    using f(2) by (auto simp: normal_text_idem normal_text_Nil dest!: token_lower split: if_splits)
  moreover have "action \<noteq> [] \<Longrightarrow> token_arg E ''action_id'' (PStr action) = Inr action"
    using f(2) by (auto dest: field_fix(5) split: if_splits)
  ultimately show ?thesis using f(4)
    by (auto simp: response_fields_def Let_def field_fix(6) [OF f(1)] text_fix [OF f(3)] field_fix(1) [OF f(5)]
        field_fix(4) [OF f(6)] field_fix(3) [OF f(7)] g dict_get_Cons ups)
qed

interpretation response: companion_object "response_fields E" "''user_response''" "''response_id''" response_extra MAX_BODY_TTL_MS E for E
proof unfold_locales
  show "response_fields E v c = Inr ups \<Longrightarrow> distinct (map fst ups) \<and> set (map fst ups) = set response_extra" for v c ups
    by (erule response_fields_Inr) (simp add: response_extra_def)
qed (rule response_fixpoint, simp_all add: base_fields_def response_extra_def)

lemma request_fields_Inr:
  assumes "request_fields E v c = Inr ups"
  obtains human device a s risk nonce where "human_id_arg E (dict_get v ''human_id'' PNone) = Inr human"
    "node_id_arg E ''device_node_id'' (dict_get v ''device_node_id'' PNone) = Inr device"
    "approval_action E (dict_get v ''action'' PNone) = Inr a" "approval_scope E c (dict_get v ''scope'' PNone) = Inr s"
    "text_arg E ''approval risk'' True 1024 (dict_get v ''risk'' PNone) = Inr risk"
    "id32_arg E ''approval nonce'' (dict_get v ''nonce'' PNone) = Inr nonce"
    "ups = [(''human_id'', PStr human), (''device_node_id'', PStr device), (''action'', action_dict a),
            (''scope'', scope_dict s), (''risk'', PStr risk), (''nonce'', PStr nonce)]"
  using assms unfolding request_fields_def by (elim step_elims) (rule that)

lemma request_fixpoint:
  assumes "request_fields E v c = Inr ups" and w: "\<And>k. k \<in> set request_extra \<Longrightarrow> dict_get w k PNone = dict_get ups k PNone"
  shows "request_fields E w c = Inr ups"
  using assms(1)
proof (rule request_fields_Inr)
  fix human device a s risk nonce
  assume f: "human_id_arg E (dict_get v ''human_id'' PNone) = Inr human"
    "node_id_arg E ''device_node_id'' (dict_get v ''device_node_id'' PNone) = Inr device"
    "approval_action E (dict_get v ''action'' PNone) = Inr a" "approval_scope E c (dict_get v ''scope'' PNone) = Inr s"
    "text_arg E ''approval risk'' True 1024 (dict_get v ''risk'' PNone) = Inr risk"
    "id32_arg E ''approval nonce'' (dict_get v ''nonce'' PNone) = Inr nonce"
    and ups: "ups = [(''human_id'', PStr human), (''device_node_id'', PStr device), (''action'', action_dict a),
            (''scope'', scope_dict s), (''risk'', PStr risk), (''nonce'', PStr nonce)]"
  note g = w [unfolded request_extra_def ups]
  show ?thesis
    by (simp add: request_fields_def field_fix(4) [OF f(1)] field_fix(3) [OF f(2)] action_fix [OF f(3)] scope_fix [OF f(4)]
        text_fix [OF f(5)] field_fix(1) [OF f(6)] g dict_get_Cons ups)
qed

interpretation request: companion_object "request_fields E" "''approval_request''" "''request_id''" request_extra
    MAX_APPROVAL_REQUEST_TTL_MS E for E
proof unfold_locales
  show "request_fields E v c = Inr ups \<Longrightarrow> distinct (map fst ups) \<and> set (map fst ups) = set request_extra" for v c ups
    by (erule request_fields_Inr) (simp add: request_extra_def)
qed (rule request_fixpoint, simp_all add: base_fields_def request_extra_def)

lemma decision_fields_Inr:
  assumes "decision_fields E v c = Inr ups"
  obtains decision i human device reason nonce a s where
    "one_of E APPROVAL_DECISIONS ''invalid approval decision'' (dict_get v ''decision'' PNone) = Inr decision"
    "id32_arg E ''request_id'' (dict_get v ''request_id'' PNone) = Inr i"
    "human_id_arg E (dict_get v ''human_id'' PNone) = Inr human"
    "node_id_arg E ''device_node_id'' (dict_get v ''device_node_id'' PNone) = Inr device"
    "text_arg E ''approval decision reason'' False 1024 (dict_get v ''reason'' PNone) = Inr reason"
    "id32_arg E ''approval nonce'' (dict_get v ''nonce'' PNone) = Inr nonce"
    "approval_action E (dict_get v ''action'' PNone) = Inr a" "approval_scope E c (dict_get v ''scope'' PNone) = Inr s"
    "ups = [(''request_id'', PStr i), (''human_id'', PStr human), (''device_node_id'', PStr device),
            (''decision'', PStr decision), (''reason'', PStr reason), (''nonce'', PStr nonce),
            (''action'', action_dict a), (''scope'', scope_dict s)]"
  using assms unfolding decision_fields_def by (elim step_elims) (rule that)

lemma decision_fixpoint:
  assumes "decision_fields E v c = Inr ups" and w: "\<And>k. k \<in> set decision_extra \<Longrightarrow> dict_get w k PNone = dict_get ups k PNone"
  shows "decision_fields E w c = Inr ups"
  using assms(1)
proof (rule decision_fields_Inr)
  fix decision i human device reason nonce a s
  assume f: "one_of E APPROVAL_DECISIONS ''invalid approval decision'' (dict_get v ''decision'' PNone) = Inr decision"
    "id32_arg E ''request_id'' (dict_get v ''request_id'' PNone) = Inr i"
    "human_id_arg E (dict_get v ''human_id'' PNone) = Inr human"
    "node_id_arg E ''device_node_id'' (dict_get v ''device_node_id'' PNone) = Inr device"
    "text_arg E ''approval decision reason'' False 1024 (dict_get v ''reason'' PNone) = Inr reason"
    "id32_arg E ''approval nonce'' (dict_get v ''nonce'' PNone) = Inr nonce"
    "approval_action E (dict_get v ''action'' PNone) = Inr a" "approval_scope E c (dict_get v ''scope'' PNone) = Inr s"
    and ups: "ups = [(''request_id'', PStr i), (''human_id'', PStr human), (''device_node_id'', PStr device),
            (''decision'', PStr decision), (''reason'', PStr reason), (''nonce'', PStr nonce),
            (''action'', action_dict a), (''scope'', scope_dict s)]"
  note g = w [unfolded decision_extra_def ups]
  show ?thesis
    by (simp add: decision_fields_def field_fix(6) [OF f(1)] field_fix(1) [OF f(2)] field_fix(4) [OF f(3)] field_fix(3) [OF f(4)]
        text_fix [OF f(5)] field_fix(1) [OF f(6)] action_fix [OF f(7)] scope_fix [OF f(8)] g dict_get_Cons ups)
qed

interpretation decision: companion_object "decision_fields E" "''approval_decision''" "''decision_id''" decision_extra
    MAX_APPROVAL_REQUEST_TTL_MS E for E
proof unfold_locales
  show "decision_fields E v c = Inr ups \<Longrightarrow> distinct (map fst ups) \<and> set (map fst ups) = set decision_extra" for v c ups
    by (erule decision_fields_Inr) (simp add: decision_extra_def)
qed (rule decision_fixpoint, simp_all add: base_fields_def decision_extra_def)

section \<open>What is forbidden\<close>

text \<open>The values inside a value, and those a message may hold.\<close>

inductive inside :: "pyval \<Rightarrow> pyval \<Rightarrow> bool" where
  here: "inside v v"
| entry: "(k, v) \<in> set d \<Longrightarrow> inside w v \<Longrightarrow> inside w (PDict d)"
| item: "v \<in> set vs \<Longrightarrow> inside w v \<Longrightarrow> inside w (PList vs)"

inductive_simps inside_simps [simp]:
  "inside w PNone" "inside w (PBool b)" "inside w (PInt i)" "inside w (PFloat q)" "inside w (PStr s)" "inside w (PBytes bs)"

inductive_simps inside_PDict: "inside w (PDict d)"
inductive_simps inside_PList: "inside w (PList vs)"

definition permitted :: "pyval \<Rightarrow> bool" where
  "permitted w = (case w of PBytes _ \<Rightarrow> False | PDict d \<Rightarrow> \<forall>(k, v)\<in>set d. lower (strip k) \<notin> set FORBIDDEN_KEYS | _ \<Rightarrow> True)"

lemma permitted_simps [simp]:
  "permitted PNone" "permitted (PBool b)" "permitted (PInt i)" "permitted (PFloat q)" "permitted (PStr s)" "permitted (PList vs)"
  "\<not> permitted (PBytes bs)" "permitted (PDict d) \<longleftrightarrow> (\<forall>(k, v)\<in>set d. lower (strip k) \<notin> set FORBIDDEN_KEYS)"
  by (simp_all add: permitted_def)

definition all_permitted :: "pyval \<Rightarrow> bool" where
  "all_permitted v = (\<forall>w. inside w v \<longrightarrow> permitted w)"

lemma all_permitted_scalar [simp]:
  "all_permitted PNone" "all_permitted (PBool b)" "all_permitted (PInt i)" "all_permitted (PFloat q)" "all_permitted (PStr s)"
  "\<not> all_permitted (PBytes bs)"
  by (simp_all add: all_permitted_def)

lemma all_permitted_PList [simp]: "all_permitted (PList vs) \<longleftrightarrow> (\<forall>v\<in>set vs. all_permitted v)"
  by (auto simp: all_permitted_def inside_PList)

lemma all_permitted_PDict [simp]:
  "all_permitted (PDict d) \<longleftrightarrow> (\<forall>(k, v)\<in>set d. lower (strip k) \<notin> set FORBIDDEN_KEYS \<and> all_permitted v)" (is "_ = ?r")
proof
  assume a: "all_permitted (PDict d)"
  have "permitted (PDict d)" using a here unfolding all_permitted_def by blast
  moreover have "all_permitted v" if "(k, v) \<in> set d" for k v
    using a entry [OF that] unfolding all_permitted_def by blast
  ultimately show ?r by fastforce
next
  assume r: ?r
  show "all_permitted (PDict d)" unfolding all_permitted_def
  proof (intro allI impI)
    fix w assume "inside w (PDict d)"
    then show "permitted w"
    proof cases
      case here then show ?thesis using r by fastforce
    next
      case (entry k v) then show ?thesis using r by (auto simp: all_permitted_def)
    qed
  qed
qed

lemma reject_forbidden_iff:
  "reject_forbidden p v = Inr () \<longleftrightarrow> all_permitted v"
  "reject_entries p d = Inr () \<longleftrightarrow> (\<forall>(k, v)\<in>set d. lower (strip k) \<notin> set FORBIDDEN_KEYS \<and> all_permitted v)"
  "reject_items p i vs = Inr () \<longleftrightarrow> (\<forall>v\<in>set vs. all_permitted v)"
  by (induction p v and p d and p i vs rule: reject_forbidden_reject_entries_reject_items.induct)
     (simp_all add: Let_def cong: conj_cong)

section \<open>Messages\<close>

lemma validate_kind_idempotent: "validate_kind E k body = Inr d \<Longrightarrow> validate_kind E k (PDict d) = Inr d"
  by (cases k) (simp_all add: validate_kind_def validate_observation_batch_def validate_episode_def validate_intervention_def
      validate_user_response_def validate_approval_request_def validate_approval_decision_def batch.idempotent episode.idempotent
      intervention.idempotent response.idempotent request.idempotent decision.idempotent)

text \<open>
  C28: A validated companion message is its own normal form: validating it again, under the same kind, returns
  exactly the same message, for every kind of message and whatever the body looked like before.
\<close>
theorem companion_message_idempotent:
  "validate_companion_message E kind body = Inr d \<Longrightarrow> validate_companion_message E kind (PDict d) = Inr d"
  by (auto simp: validate_companion_message_def validate_kind_idempotent split: option.splits)

definition cmp_ext :: ext where
  "cmp_ext = \<lparr>packb = (\<lambda>v. []), unpackb = (\<lambda>bs. Inr PNone), repr = (\<lambda>v. ''''), blake2s = (\<lambda>n s bs. bs), sha256 = (\<lambda>bs. bs)\<rparr>"

definition cmp_hex32 :: "char \<Rightarrow> string" where "cmp_hex32 c = replicate 32 c"
definition cmp_device :: string where "cmp_device = ''an1'' @ replicate 32 CHR ''a''"
definition cmp_human :: string where "cmp_human = ''hu1'' @ replicate 32 CHR ''a''"

definition cmp_action :: pyval where
  "cmp_action = PDict [(''capability'', PStr ''door.open''), (''resource'', PStr ''door/1''),
     (''parameters_digest'', PStr (replicate 64 CHR ''0'')), (''summary'', PStr ''Open'')]"

definition cmp_scope :: pyval where
  "cmp_scope = PDict [(''mode'', PStr ''once''), (''max_uses'', PInt 1), (''grant_expires_ms'', PInt 5000)]"

definition cmp_request :: "string \<Rightarrow> pydict" where
  "cmp_request i = [(''protocol'', PStr COMPANION_PROTOCOL), (''version'', PInt 1), (''object_type'', PStr ''approval_request''),
     (''request_id'', PStr i), (''created_ms'', PInt 1000), (''expires_ms'', PInt 3000), (''human_id'', PStr cmp_human),
     (''device_node_id'', PStr cmp_device), (''action'', cmp_action), (''scope'', cmp_scope), (''risk'', PStr ''low''),
     (''nonce'', PStr (cmp_hex32 CHR ''1''))]"

definition cmp_decision :: "string \<Rightarrow> pydict" where
  "cmp_decision i = [(''protocol'', PStr COMPANION_PROTOCOL), (''version'', PInt 1), (''object_type'', PStr ''approval_decision''),
     (''decision_id'', PStr (cmp_hex32 CHR ''2'')), (''created_ms'', PInt 1500), (''expires_ms'', PInt 3000),
     (''request_id'', PStr i), (''human_id'', PStr cmp_human), (''device_node_id'', PStr cmp_device),
     (''decision'', PStr ''approved''), (''reason'', PStr ''''), (''nonce'', PStr (cmp_hex32 CHR ''1'')), (''action'', cmp_action),
     (''scope'', cmp_scope)]"

lemma strip_replicate: "\<not> py_space c \<Longrightarrow> strip (replicate n c) = replicate n c"
  by (simp add: strip_def)

lemma cmp_chars: "\<not> py_space CHR ''0''" "\<not> py_space CHR ''1''" "\<not> py_space CHR ''2''" "\<not> py_space CHR ''a''" "\<not> py_space CHR ''A''"
  "lower_char CHR ''0'' = CHR ''0''" "lower_char CHR ''1'' = CHR ''1''" "lower_char CHR ''2'' = CHR ''2''"
  "lower_char CHR ''a'' = CHR ''a''" "lower_char CHR ''A'' = CHR ''a''"
  "is_lower_hex CHR ''0''" "is_lower_hex CHR ''1''" "is_lower_hex CHR ''2''" "is_lower_hex CHR ''a''"
  by code_simp+

lemma cmp_ids [simp]:
  "hex_string 32 (cmp_hex32 CHR ''1'')" "hex_string 32 (cmp_hex32 CHR ''2'')" "hex_string 32 (cmp_hex32 CHR ''a'')"
  "lower (strip (cmp_hex32 CHR ''1'')) = cmp_hex32 CHR ''1''" "lower (strip (cmp_hex32 CHR ''2'')) = cmp_hex32 CHR ''2''"
  "lower (strip (cmp_hex32 CHR ''a'')) = cmp_hex32 CHR ''a''" "lower (strip (cmp_hex32 CHR ''A'')) = cmp_hex32 CHR ''a''"
  "hex_string 64 (replicate 64 CHR ''0'')" "lower (strip (replicate 64 CHR ''0'')) = replicate 64 CHR ''0''"
  "cmp_hex32 CHR ''A'' \<noteq> cmp_hex32 CHR ''a''"
  by (simp_all add: cmp_hex32_def strip_replicate cmp_chars lower_def hex_string_def list_all_iff)

lemma cmp_names [simp]:
  "lower (strip cmp_device) = cmp_device" "lower (strip cmp_human) = cmp_human"
  "long_id ''an1'' cmp_device" "long_id ''hu1'' cmp_human"
  by code_simp+

lemma cmp_action_ok: "approval_action E cmp_action
    = Inr \<lparr>ac_capability = ''door.open'', ac_resource = ''door/1'', ac_parameters_digest = replicate 64 CHR ''0'', ac_summary = ''Open''\<rparr>"
proof -
  have "resource_match ''door/1''" "capability_match ''door.open''" "strip ''door/1'' = ''door/1''" "strip ''Open'' = ''Open''"
    "lower (strip ''door.open'') = ''door.open''"
    by code_simp+
  then show ?thesis
    by (simp add: approval_action_def cmp_action_def exact_ok dict_get_Cons token_arg_def digest_arg_def text_arg_def
        normalized_def normal_text_def py_str_def Let_def)
qed

lemma cmp_scope_ok: "c < 5000 \<Longrightarrow> 1000 \<le> c \<Longrightarrow> approval_scope E c cmp_scope
    = Inr \<lparr>sc_mode = ''once'', sc_max_uses = 1, sc_grant_expires_ms = 5000\<rparr>"
proof -
  have "lower (strip ''once'') = ''once''" by code_simp
  then show "c < 5000 \<Longrightarrow> 1000 \<le> c \<Longrightarrow> approval_scope E c cmp_scope
    = Inr \<lparr>sc_mode = ''once'', sc_max_uses = 1, sc_grant_expires_ms = 5000\<rparr>"
    by (simp add: approval_scope_def cmp_scope_def exact_ok dict_get_Cons one_of_def integer_arg_def timestamp_def
        normalized_def normal_text_def py_str_def Let_def MAX_APPROVAL_GRANT_TTL_MS_def)
qed

lemma cmp_dicts: "action_dict \<lparr>ac_capability = ''door.open'', ac_resource = ''door/1'', ac_parameters_digest = replicate 64 CHR ''0'',
      ac_summary = ''Open''\<rparr> = cmp_action"
  "scope_dict \<lparr>sc_mode = ''once'', sc_max_uses = 1, sc_grant_expires_ms = 5000\<rparr> = cmp_scope"
  by (simp_all add: action_dict_def cmp_action_def scope_dict_def cmp_scope_def)

lemmas cmp_arg_defs = human_id_arg_def node_id_arg_def id32_arg_def one_of_def text_arg_def normalized_def normal_text_def
  py_str_def Let_def

lemma cmp_request_ok:
  assumes i: "hex_string 32 (lower (strip i))"
  shows "validate_approval_request E (PDict (cmp_request i)) = Inr (cmp_request i)"
proof -
  have "id32_arg E ''request_id'' (PStr i) = Inr (lower (strip i))"
    using i by (simp add: id32_arg_def normalized_def normal_text_PStr)
  then have base: "validate_base E ''approval_request'' ''request_id'' request_extra MAX_APPROVAL_REQUEST_TTL_MS (PDict (cmp_request i))
      = Inr (cmp_request i, 1000, 3000)"
    unfolding validate_base_Inr
    by (simp add: cmp_request_def dict_get_Cons equals_int_def COMPANION_PROTOCOL_VERSION_def base_fields_def request_extra_def
        lifetime_def timestamp_def integer_arg_def MAX_APPROVAL_REQUEST_TTL_MS_def)
  have l: "lower (strip ''low'') = ''low''" "strip ''low'' = ''low''" by code_simp+
  have "request_fields E (cmp_request i) 1000 = Inr [(''human_id'', PStr cmp_human), (''device_node_id'', PStr cmp_device),
      (''action'', cmp_action), (''scope'', cmp_scope), (''risk'', PStr ''low''), (''nonce'', PStr (cmp_hex32 CHR ''1''))]"
    by (simp add: request_fields_def cmp_request_def dict_get_Cons cmp_action_ok cmp_scope_ok cmp_dicts cmp_arg_defs l)
  with base show ?thesis
    by (simp add: validate_approval_request_def validated_def update_fields_def cmp_request_def)
qed

lemma cmp_decision_ok:
  "validate_approval_decision E (PDict (cmp_decision (cmp_hex32 CHR ''a''))) = Inr (cmp_decision (cmp_hex32 CHR ''a''))"
proof -
  let ?i = "cmp_hex32 CHR ''a''"
  have "id32_arg E ''decision_id'' (PStr (cmp_hex32 CHR ''2'')) = Inr (cmp_hex32 CHR ''2'')"
    by (simp add: id32_arg_def normalized_def normal_text_PStr)
  then have base: "validate_base E ''approval_decision'' ''decision_id'' decision_extra MAX_APPROVAL_REQUEST_TTL_MS (PDict (cmp_decision ?i))
      = Inr (cmp_decision ?i, 1500, 3000)"
    unfolding validate_base_Inr
    by (simp add: cmp_decision_def dict_get_Cons equals_int_def COMPANION_PROTOCOL_VERSION_def base_fields_def decision_extra_def
        lifetime_def timestamp_def integer_arg_def MAX_APPROVAL_REQUEST_TTL_MS_def)
  have l: "lower (strip ''approved'') = ''approved''" "strip '''' = ''''" by code_simp+
  have "decision_fields E (cmp_decision ?i) 1500 = Inr [(''request_id'', PStr ?i), (''human_id'', PStr cmp_human),
      (''device_node_id'', PStr cmp_device), (''decision'', PStr ''approved''), (''reason'', PStr ''''), (''nonce'', PStr (cmp_hex32 CHR ''1'')),
      (''action'', cmp_action), (''scope'', cmp_scope)]"
    by (simp add: decision_fields_def cmp_decision_def dict_get_Cons cmp_action_ok cmp_scope_ok cmp_dicts cmp_arg_defs l APPROVAL_DECISIONS_def)
  with base show ?thesis
    by (simp add: validate_approval_decision_def validated_def update_fields_def cmp_decision_def)
qed

lemma cmp_binding_ok: "validate_approval_decision_binding E (PDict (cmp_request (cmp_hex32 CHR ''a''))) (PDict (cmp_decision (cmp_hex32 CHR ''a'')))
    = Inr (cmp_decision (cmp_hex32 CHR ''a''))"
proof -
  have "hex_string 32 (lower (strip (cmp_hex32 CHR ''a'')))" by simp
  note r = cmp_request_ok [OF this, of E]
  have "checks (map (\<lambda>k. require (dict_get (cmp_decision (cmp_hex32 CHR ''a'')) k PNone = dict_get (cmp_request (cmp_hex32 CHR ''a'')) k PNone)
         (''approval decision does not match request '' @ k)) binding_fields) = Inr ()"
    by (simp add: binding_fields_def cmp_decision_def cmp_request_def dict_get_Cons require_def)
  moreover have "time_field (cmp_decision (cmp_hex32 CHR ''a'')) ''created_ms'' = 1500" "time_field (cmp_request (cmp_hex32 CHR ''a'')) ''created_ms'' = 1000"
    "time_field (cmp_request (cmp_hex32 CHR ''a'')) ''expires_ms'' = 3000"
    by (simp_all add: time_field_def cmp_decision_def cmp_request_def dict_get_Cons)
  ultimately show ?thesis
    unfolding validate_approval_decision_binding_def r cmp_decision_ok and_then_simps by simp
qed

lemma cmp_message_ok:
  "validate_companion_message E ''companion.approval.request'' (PDict (cmp_request (cmp_hex32 CHR ''a''))) = Inr (cmp_request (cmp_hex32 CHR ''a''))"
proof -
  have "kind_of_text (lower (strip ''companion.approval.request'')) = Some ApprovalRequest" by code_simp
  then show ?thesis by (simp add: validate_companion_message_def validate_kind_def cmp_request_ok)
qed

theorem companion_message_idempotent_witness:
  "validate_companion_message cmp_ext ''companion.approval.request'' (PDict (cmp_request (cmp_hex32 CHR ''a'')))
     = Inr (cmp_request (cmp_hex32 CHR ''a''))"
  by (rule companion_message_idempotent [OF cmp_message_ok])

lemma checks_all: "checks (map f xs) = Inr () \<longleftrightarrow> (\<forall>x\<in>set xs. f x = Inr ())"
  by (induction xs) auto

text \<open>
  C29: Every observation of a validated batch was made inside the declared window, which ends before the batch was
  created; the consent that the batch carries has the basis its type requires and names its type; and nothing inside
  it is binary or under a forbidden key, at any depth.
\<close>
theorem observation_batch_consented:
  assumes "validate_observation_batch E body = Inr d"
  shows "\<exists>obs c a b. dict_get d ''observations'' PNone = PList (map observation_dict obs) \<and> obs \<noteq> []
    \<and> dict_get d ''consent'' PNone = consent_value c \<and> distinct (map ob_id obs)
    \<and> dict_get d ''window_start_ms'' PNone = PInt a \<and> dict_get d ''window_end_ms'' PNone = PInt b \<and> b \<le> time_field d ''created_ms''
    \<and> (\<forall>x\<in>set obs. a \<le> ob_observed_ms x \<and> ob_observed_ms x \<le> b \<and> ob_type x \<in> set OBSERVATION_TYPES
         \<and> cn_basis c = required_basis (ob_type x) \<and> ob_type x \<in> set (cn_scope c)
         \<and> (\<forall>w. inside w (observation_dict x) \<longrightarrow> permitted w))"
proof -
  obtain vals c e ups where base: "validate_base E ''observation_batch'' ''batch_id'' batch_extra MAX_BODY_TTL_MS body = Inr (vals, c, e)"
    and ups: "batch_fields E vals c = Inr ups" and d: "d = update_fields vals ups"
    using assms unfolding validate_observation_batch_def validated_def by (elim step_elims) (rule that)
  from ups obtain a b obs cn src level where w: "window_arg ''invalid observation window'' vals c = Inr (a, b)"
    and o: "observation_list E (dict_get vals ''observations'' PNone) = Inr obs" "distinct (map ob_id obs)"
    and inw: "\<not> list_ex (\<lambda>x. ob_observed_ms x < a \<or> b < ob_observed_ms x) obs"
    and cc: "check_consent cn (remdups (map ob_type obs)) = Inr ()"
    and u: "ups = [(''source_node_id'', PStr src), (''window_start_ms'', PInt a), (''window_end_ms'', PInt b),
            (''data_level'', PStr level), (''consent'', consent_value cn), (''observations'', PList (map observation_dict obs))]"
    by (rule batch_fields_Inr) (rule that)
  have dg: "dict_get d k PNone = (case map_of ups k of Some x \<Rightarrow> x | None \<Rightarrow> dict_get vals k PNone)" for k
    unfolding d by (rule dict_get_update) (simp add: u)
  have "dict_get vals ''created_ms'' PNone = PInt c"
    using base by (auto simp: validate_base_Inr lifetime_def timestamp_Inr split: if_splits)
  then have "time_field d ''created_ms'' = c" by (simp add: time_field_def dg u)
  moreover have "b \<le> c" using w by (auto simp: window_arg_def split: if_splits)
  moreover obtain vs where vs: "map_result (observation_arg E) vs = Inr obs" "vs \<noteq> []"
    using o(1) by (auto simp: observation_list_def split: pyval.splits if_splits)
  moreover have "obs \<noteq> []" using vs map_result_Inr_length [OF vs(1)] by auto
  moreover have "\<forall>x\<in>set obs. a \<le> ob_observed_ms x \<and> ob_observed_ms x \<le> b \<and> ob_type x \<in> set OBSERVATION_TYPES
         \<and> cn_basis cn = required_basis (ob_type x) \<and> ob_type x \<in> set (cn_scope cn)
         \<and> (\<forall>w. inside w (observation_dict x) \<longrightarrow> permitted w)"
  proof
    fix x assume x: "x \<in> set obs"
    then have "a \<le> ob_observed_ms x \<and> ob_observed_ms x \<le> b" using inw by (auto simp: list_ex_iff)
    moreover from map_result_in [OF vs(1) x] have "ob_type x \<in> set OBSERVATION_TYPES" "all_permitted (observation_dict x)"
      by (auto dest!: observation_Inr simp: reject_forbidden_iff)
    moreover have "cn_basis cn = required_basis (ob_type x)" "ob_type x \<in> set (cn_scope cn)"
      using cc x by (auto simp: check_consent_def checks_all require_def split: if_splits)
    ultimately show "a \<le> ob_observed_ms x \<and> ob_observed_ms x \<le> b \<and> ob_type x \<in> set OBSERVATION_TYPES
         \<and> cn_basis cn = required_basis (ob_type x) \<and> ob_type x \<in> set (cn_scope cn)
         \<and> (\<forall>w. inside w (observation_dict x) \<longrightarrow> permitted w)"
      by (simp add: all_permitted_def)
  qed
  ultimately show ?thesis using o(2) by (intro exI [of _ obs] exI [of _ cn] exI [of _ a] exI [of _ b]) (simp add: dg u)
qed

lemma binding_Inr:
  assumes "validate_approval_decision_binding E request decision = Inr d"
  obtains r where "validate_approval_request E request = Inr r" "validate_approval_decision E decision = Inr d"
    "checks (map (\<lambda>k. require (dict_get d k PNone = dict_get r k PNone)
         (''approval decision does not match request '' @ k)) binding_fields) = Inr ()"
    "\<not> time_field d ''created_ms'' < time_field r ''created_ms''" "\<not> time_field r ''expires_ms'' \<le> time_field d ''created_ms''"
  using assms unfolding validate_approval_decision_binding_def by (elim step_elims) (hypsubst, rule that)

text \<open>
  A decision that passes the binding check answers exactly the request it is checked against: both are valid,
  the request's identifier, human, device, nonce, action and scope are the decision's, and the decision was made
  while the request was open.
\<close>
theorem bound_decision_answers_request:
  assumes "validate_approval_decision_binding E request decision = Inr d"
  shows "\<exists>r. validate_approval_request E request = Inr r \<and> validate_approval_decision E decision = Inr d
    \<and> (\<forall>k\<in>{''request_id'', ''human_id'', ''device_node_id'', ''nonce'', ''action'', ''scope''}. dict_get d k PNone = dict_get r k PNone)
    \<and> time_field r ''created_ms'' \<le> time_field d ''created_ms'' \<and> time_field d ''created_ms'' < time_field r ''expires_ms''"
proof -
  from assms obtain r where r: "validate_approval_request E request = Inr r" and d: "validate_approval_decision E decision = Inr d"
    and c: "checks (map (\<lambda>k. require (dict_get d k PNone = dict_get r k PNone)
         (''approval decision does not match request '' @ k)) binding_fields) = Inr ()"
    and t: "\<not> time_field d ''created_ms'' < time_field r ''created_ms''" "\<not> time_field r ''expires_ms'' \<le> time_field d ''created_ms''"
    by (rule binding_Inr)
  have "\<forall>k\<in>set binding_fields. dict_get d k PNone = dict_get r k PNone"
    using c by (auto simp: checks_all require_def split: if_splits)
  with r d t show ?thesis by (intro exI [of _ r]) (simp add: binding_fields_def)
qed

theorem bound_decision_answers_request_witness:
  "\<exists>r. validate_approval_request cmp_ext (PDict (cmp_request (cmp_hex32 CHR ''a''))) = Inr r
    \<and> dict_get (cmp_decision (cmp_hex32 CHR ''a'')) ''scope'' PNone = dict_get r ''scope'' PNone"
proof -
  obtain r where "validate_approval_request cmp_ext (PDict (cmp_request (cmp_hex32 CHR ''a''))) = Inr r"
    and "\<forall>k\<in>{''request_id'', ''human_id'', ''device_node_id'', ''nonce'', ''action'', ''scope''}.
      dict_get (cmp_decision (cmp_hex32 CHR ''a'')) k PNone = dict_get r k PNone"
    using bound_decision_answers_request [OF cmp_binding_ok [of cmp_ext]] by (elim exE conjE) (rule that)
  then show ?thesis by (simp only: ball_simps simp_thms) simp
qed

lemma decision_request_id:
  assumes "validate_approval_decision E decision = Inr d"
  obtains i where "dict_get d ''request_id'' PNone = PStr i" "normal_text E (PStr i) = i"
proof -
  obtain vals c e ups where "decision_fields E vals c = Inr ups" and d: "d = update_fields vals ups"
    using assms unfolding validate_approval_decision_def validated_def by (elim step_elims) (rule that)
  from this(1) show ?thesis
  proof (rule decision_fields_Inr)
    fix dc i human device reason nonce a s
    assume i: "id32_arg E ''request_id'' (dict_get vals ''request_id'' PNone) = Inr i"
      and ups: "ups = [(''request_id'', PStr i), (''human_id'', PStr human), (''device_node_id'', PStr device),
            (''decision'', PStr dc), (''reason'', PStr reason), (''nonce'', PStr nonce),
            (''action'', action_dict a), (''scope'', scope_dict s)]"
    have "dict_get d ''request_id'' PNone = PStr i" unfolding d by (subst dict_get_update) (simp_all add: ups)
    moreover have "normal_text E (PStr i) = i" using id32_lower [OF i] by (simp only: normal_text_idem)
    ultimately show ?thesis by (rule that)
  qed
qed

text \<open>
  C30: The identifier of a request is checked but kept as it came, while a decision's copy of it is lower-cased and
  stripped: a valid request whose identifier is not in lower case is answered by no decision at all.
\<close>
theorem unnormalised_request_id_unanswerable:
  assumes "validate_approval_request E request = Inr r"
    and "dict_get r ''request_id'' PNone \<noteq> PStr (normal_text E (dict_get r ''request_id'' PNone))"
  shows "\<exists>e. validate_approval_decision_binding E request decision = Inl e"
proof (cases "validate_approval_decision_binding E request decision")
  case (Inr d)
  then obtain r' where r': "validate_approval_request E request = Inr r'" and v: "validate_approval_decision E decision = Inr d"
    and c: "checks (map (\<lambda>k. require (dict_get d k PNone = dict_get r' k PNone)
         (''approval decision does not match request '' @ k)) binding_fields) = Inr ()"
    by (rule binding_Inr)
  from r' assms(1) have "r' = r" by simp
  with c have same: "dict_get d ''request_id'' PNone = dict_get r ''request_id'' PNone"
    by (auto simp: checks_all require_def binding_fields_def split: if_splits)
  obtain i where "dict_get d ''request_id'' PNone = PStr i" "normal_text E (PStr i) = i"
    using v by (rule decision_request_id)
  with same assms(2) show ?thesis by simp
qed blast

theorem unnormalised_request_id_unanswerable_witness:
  "\<exists>e. validate_approval_decision_binding cmp_ext (PDict (cmp_request (cmp_hex32 CHR ''A'')))
      (PDict (cmp_decision (cmp_hex32 CHR ''a''))) = Inl e"
proof (rule unnormalised_request_id_unanswerable)
  show "validate_approval_request cmp_ext (PDict (cmp_request (cmp_hex32 CHR ''A''))) = Inr (cmp_request (cmp_hex32 CHR ''A''))"
    by (rule cmp_request_ok) simp
qed (simp add: cmp_request_def dict_get_Cons normal_text_PStr)

definition cmp_observation :: observation where
  "cmp_observation = \<lparr>ob_id = cmp_hex32 CHR ''1'', ob_observed_ms = 5, ob_type = ''device.battery'',
     ob_value = PDict [(''percent'', PInt 80), (''charging'', PBool True)]\<rparr>"

definition cmp_consent :: consent where
  "cmp_consent = \<lparr>cn_basis = ''device-essential'', cn_grant_id = '''', cn_scope = [''device.battery'']\<rparr>"

definition cmp_batch :: pydict where
  "cmp_batch = [(''protocol'', PStr COMPANION_PROTOCOL), (''version'', PInt 1), (''object_type'', PStr ''observation_batch''),
     (''batch_id'', PStr (cmp_hex32 CHR ''2'')), (''created_ms'', PInt 10), (''expires_ms'', PInt 20),
     (''source_node_id'', PStr cmp_device), (''window_start_ms'', PInt 1), (''window_end_ms'', PInt 10),
     (''data_level'', PStr ''operational''), (''consent'', consent_value cmp_consent),
     (''observations'', PList [observation_dict cmp_observation])]"

lemma cmp_texts: "lower (strip ''device.battery'') = ''device.battery''" "lower (strip ''device-essential'') = ''device-essential''"
  "lower (strip ''operational'') = ''operational''" "capability_match ''device.battery''"
  by code_simp+

lemma cmp_observation_ok: "observation_arg E (observation_dict cmp_observation) = Inr cmp_observation"
proof -
  have "observation_dict cmp_observation = PDict [(''observation_id'', PStr (cmp_hex32 CHR ''1'')), (''observed_ms'', PInt 5),
     (''type'', PStr ''device.battery''), (''value'', PDict [(''percent'', PInt 80), (''charging'', PBool True)])]"
    by (simp add: observation_dict_def cmp_observation_def)
  moreover have "battery_value E (PDict [(''percent'', PInt 80), (''charging'', PBool True)]) = Inr (PDict [(''percent'', PInt 80), (''charging'', PBool True)])"
    by (simp add: battery_value_def exact_ok dict_get_Cons integer_arg_def is_bool_def)
  moreover have "reject_forbidden ''value'' (PDict [(''observation_id'', PStr (cmp_hex32 CHR ''1'')), (''observed_ms'', PInt 5),
     (''type'', PStr ''device.battery''), (''value'', PDict [(''percent'', PInt 80), (''charging'', PBool True)])]) = Inr ()"
    by code_simp
  ultimately show ?thesis
    by (simp add: observation_arg_def exact_ok dict_get_Cons cmp_texts cmp_arg_defs timestamp_def integer_arg_def
        OBSERVATION_TYPES_def observation_value_def cmp_observation_def)
qed

lemma cmp_consent_ok: "consent_arg E (consent_value cmp_consent) = Inr cmp_consent"
  by (simp add: consent_arg_def consent_value_def cmp_consent_def exact_ok dict_get_Cons one_of_def normalized_def normal_text_def
      py_str_def Let_def cmp_texts CONSENT_BASES_def consent_scope_def text_list_def token_arg_def sorted_unique_def)
     (simp add: strip_def lower_def)

lemma cmp_batch_ok: "validate_observation_batch E (PDict cmp_batch) = Inr cmp_batch"
proof -
  have "id32_arg E ''batch_id'' (PStr (cmp_hex32 CHR ''2'')) = Inr (cmp_hex32 CHR ''2'')"
    by (simp add: id32_arg_def normalized_def normal_text_PStr)
  then have base: "validate_base E ''observation_batch'' ''batch_id'' batch_extra MAX_BODY_TTL_MS (PDict cmp_batch) = Inr (cmp_batch, 10, 20)"
    unfolding validate_base_Inr
    by (simp add: cmp_batch_def dict_get_Cons equals_int_def COMPANION_PROTOCOL_VERSION_def base_fields_def batch_extra_def
        lifetime_def timestamp_def integer_arg_def MAX_BODY_TTL_MS_def)
  have w: "window_arg msg cmp_batch 10 = Inr (1, 10)" for msg
    by (simp add: window_arg_def cmp_batch_def dict_get_Cons timestamp_def integer_arg_def)
  have o: "observation_list E (dict_get cmp_batch ''observations'' PNone) = Inr [cmp_observation]"
    by (simp add: observation_list_def cmp_batch_def dict_get_Cons cmp_observation_ok MAX_BATCH_OBSERVATIONS_def)
  have c: "check_consent cmp_consent [ob_type cmp_observation] = Inr ()"
    by (simp add: check_consent_def cmp_consent_def cmp_observation_def require_def required_basis_def)
  have f: "consent_arg E (dict_get cmp_batch ''consent'' PNone) = Inr cmp_consent"
    "node_id_arg E ''source_node_id'' (dict_get cmp_batch ''source_node_id'' PNone) = Inr cmp_device"
    "data_level E (dict_get cmp_batch ''data_level'' PNone) = Inr ''operational''"
    by (simp_all add: cmp_batch_def dict_get_Cons cmp_consent_ok data_level_def cmp_arg_defs cmp_texts DATA_LEVELS_def)
  have "ob_observed_ms cmp_observation = 5" by (simp add: cmp_observation_def)
  then have "batch_fields E cmp_batch 10 = Inr [(''source_node_id'', PStr cmp_device), (''window_start_ms'', PInt 1), (''window_end_ms'', PInt 10),
     (''data_level'', PStr ''operational''), (''consent'', consent_value cmp_consent), (''observations'', PList [observation_dict cmp_observation])]"
    by (simp add: batch_fields_def w o c f)
  with base show ?thesis by (simp add: validate_observation_batch_def validated_def update_fields_def cmp_batch_def)
qed

theorem observation_batch_consented_witness:
  "\<exists>obs c. dict_get cmp_batch ''observations'' PNone = PList (map observation_dict obs) \<and> obs \<noteq> []
     \<and> dict_get cmp_batch ''consent'' PNone = consent_value c \<and> (\<forall>x\<in>set obs. ob_type x \<in> set (cn_scope c))"
  using observation_batch_consented [OF cmp_batch_ok [of cmp_ext]] by (elim exE conjE) (intro exI conjI ballI; (assumption | blast))

end
