(* ===== verification/Store_Approvals.thy ===== *)
theory Store_Approvals
  imports Store_Machine Control_Store Companion_Protocol
begin

text \<open>
  Companion approvals of \<open>store.py\<close>: requests a node registers, decisions of a human's device that
  activate them under a consumer claim, and the bounded effects an activated approval allows.  The
  control-plane store that is consulted is an argument.  A call that reads the database before its
  transaction gets the states it read as arguments of their own (\<open>seen\<close>): other calls may come
  between the reads and the transaction.
\<close>

section \<open>Tables\<close>

record request_row =
  rq_id :: string
  rq_human :: string
  rq_device :: string
  rq_nonce :: string
  rq_hash :: string
  rq_body :: bytes
  rq_created_ms :: time_ms
  rq_expires_ms :: time_ms
  rq_registered_ms :: time_ms

datatype authorization_state = AuthActive | AuthRejected

record authorization_row =
  az_request :: string
  az_decision_id :: string
  az_packet :: string
  az_hash :: string
  az_sender :: string
  az_human :: string
  az_device :: string
  az_nonce :: string
  az_decision :: string
  az_state :: authorization_state
  az_max_uses :: int
  az_grant_expires_ms :: time_ms
  az_activated_ms :: time_ms

datatype effect_state = EfWorking | EfRetry | EfExecuted | EfRejected

record effect_row =
  ef_request :: string
  ef_effect :: string
  ef_idempotency :: string
  ef_state :: effect_state
  ef_owner :: string
  ef_token :: string
  ef_lease_until_ms :: time_ms
  ef_retry_after_ms :: time_ms
  ef_attempts :: int
  ef_started_ms :: time_ms
  ef_updated_ms :: time_ms
  ef_completed_ms :: time_ms
  ef_result :: "bytes option"
  ef_error :: string

record approvals =
  ap_core :: store
  ap_requests :: "request_row list"
  ap_authorizations :: "authorization_row list"
  ap_effects :: "effect_row list"

definition empty_approvals :: approvals where
  "empty_approvals = \<lparr>ap_core = empty_store, ap_requests = [], ap_authorizations = [], ap_effects = []\<rparr>"

definition rq_nonce_key :: "request_row \<Rightarrow> string \<times> string \<times> string" where
  "rq_nonce_key r = (rq_human r, rq_device r, rq_nonce r)"

definition az_nonce_key :: "authorization_row \<Rightarrow> string \<times> string \<times> string" where
  "az_nonce_key a = (az_human a, az_device a, az_nonce a)"

definition effect_key :: "effect_row \<Rightarrow> string \<times> string" where
  "effect_key e = (ef_request e, ef_effect e)"

definition find_request :: "approvals \<Rightarrow> string \<Rightarrow> request_row option" where
  "find_request s i = find (\<lambda>r. rq_id r = i) (ap_requests s)"

definition find_authorization :: "approvals \<Rightarrow> string \<Rightarrow> authorization_row option" where
  "find_authorization s i = find (\<lambda>a. az_request a = i) (ap_authorizations s)"

definition find_effect :: "approvals \<Rightarrow> string \<times> string \<Rightarrow> effect_row option" where
  "find_effect s k = find (\<lambda>e. effect_key e = k) (ap_effects s)"

section \<open>Helpers\<close>

definition companion_approval_id :: "string \<Rightarrow> string \<Rightarrow> exn + string" where
  "companion_approval_id what v = (let n = lower (strip v)
     in if hex_string 32 n then Inr n else Inl (ValueError (what @ '' must be 32 lowercase hexadecimal characters'')))"

definition companion_approval_hash :: "ext \<Rightarrow> pydict \<Rightarrow> string" where
  "companion_approval_hash E d = hex_of_bytes (sha256 E (canonical_pack E (PDict d)))"

text \<open>A text field of a validated message.\<close>

definition str_field :: "pydict \<Rightarrow> string \<Rightarrow> string" where
  "str_field d k = (case dict_get d k PNone of PStr s \<Rightarrow> s | _ \<Rightarrow> '''')"

definition scope_of :: "pydict \<Rightarrow> pydict" where
  "scope_of d = (case dict_get d ''scope'' PNone of PDict s \<Rightarrow> s | _ \<Rightarrow> [])"

text \<open>
  An identifier that was checked but not normalised, as an SQL parameter: it is text, or an integer of
  32 digits, which SQLite cannot take.
\<close>

definition id_parameter :: "pyval \<Rightarrow> exn + string" where
  "id_parameter v = (case v of PStr s \<Rightarrow> Inr s
     | _ \<Rightarrow> Inl (OverflowError ''Python int too large to convert to SQLite INTEGER''))"

definition require_approval_grant ::
    "'a control_env_scheme \<Rightarrow> time_ms \<Rightarrow> string \<Rightarrow> string \<Rightarrow> control_store \<Rightarrow> exn + device_grant" where
  "require_approval_grant C current human device cs =
     and_then (is_human_device_revoked human device cs) (\<lambda>revoked.
     if revoked then Inl (PermissionError ''approval device is revoked'')
     else case human_device_grant C current current human device cs of
       Inl (ValueError _) \<Rightarrow> Inl (PermissionError ''approval device grant is not current'')
     | Inl e \<Rightarrow> Inl e
     | Inr None \<Rightarrow> Inl (PermissionError ''approval device has no current grant'')
     | Inr (Some g) \<Rightarrow>
         if ''approval.sign'' \<notin> set (gr_capabilities g)
         then Inl (PermissionError ''approval device grant lacks approval.sign'') else Inr g)"

section \<open>Registering a request\<close>

definition registered_row :: "ext \<Rightarrow> time_ms \<Rightarrow> string \<Rightarrow> pydict \<Rightarrow> request_row" where
  "registered_row E current i n =
     \<lparr>rq_id = i, rq_human = str_field n ''human_id'', rq_device = str_field n ''device_node_id'',
      rq_nonce = str_field n ''nonce'', rq_hash = companion_approval_hash E n, rq_body = pack E (PDict n),
      rq_created_ms = time_field n ''created_ms'', rq_expires_ms = time_field n ''expires_ms'',
      rq_registered_ms = current\<rparr>"

definition register_body ::
    "ext \<Rightarrow> time_ms \<Rightarrow> pydict \<Rightarrow> approvals \<Rightarrow> exn + approvals \<times> string \<times> bool \<times> string" where
  "register_body E current n s =
     (let h = companion_approval_hash E n
      in and_then (id_parameter (dict_get n ''request_id'' PNone)) (\<lambda>i.
         case find_request s i of
           Some r \<Rightarrow>
             if rq_hash r \<noteq> h then Inl (ValueError ''approval request ID conflicts with another body'')
             else Inr (s, i, False, h)
         | None \<Rightarrow>
             let r = registered_row E current i n
             in if exists_where (\<lambda>q. rq_nonce_key q = rq_nonce_key r) (ap_requests s)
                then Inl (ValueError ''approval nonce is already bound to another request'')
                else Inr (s\<lparr>ap_requests := ap_requests s @ [r]\<rparr>, i, True, h)))"

text \<open>The result is the identifier, whether it was registered by this call, and the hash of the body.\<close>

definition register_companion_approval_request ::
    "ext \<Rightarrow> time_ms \<Rightarrow> pyval \<Rightarrow> approvals \<Rightarrow> (approvals, string \<times> bool \<times> string) outcome" where
  "register_companion_approval_request E current body s =
     checked s (and_then (validate_companion_message E ''companion.approval.request'' body) (\<lambda>n.
       if current + MAX_CLOCK_SKEW_MS < time_field n ''created_ms''
       then Inl (ValueError ''approval request creation time is too far in the future'')
       else if time_field n ''expires_ms'' \<le> current then Inl (ValueError ''approval request expired'')
       else Inr n))
     (\<lambda>n. transaction (register_body E current n) s)"

section \<open>Activating a decision\<close>

record activation =
  ac_request :: string
  ac_decision_id :: pyval
  ac_state :: authorization_state
  ac_activated :: bool
  ac_max_uses :: int
  ac_grant_expires_ms :: time_ms

text \<open>The leased claim a call names with its message, before its lease is looked at.\<close>

definition leased_claim :: "store \<Rightarrow> string \<Rightarrow> string \<Rightarrow> string \<Rightarrow> (claim_row \<times> inbox_row) option" where
  "leased_claim s gid owner token =
     (case find (\<lambda>d. owned_lease gid owner token d \<and> in_inbox s (cd_packet d)) (t_claims s) of
        None \<Rightarrow> None
      | Some d \<Rightarrow> map_option (Pair d) (find (\<lambda>i. ib_packet i = cd_packet d) (t_inbox s)))"

definition decision_message :: "ext \<Rightarrow> inbox_row \<Rightarrow> exn + pydict" where
  "decision_message E i = and_then (unpack E (ib_body i)) (validate_companion_message E ''companion.approval.decision'')"

definition claimed_decision ::
    "ext \<Rightarrow> time_ms \<Rightarrow> string \<Rightarrow> string \<Rightarrow> string \<Rightarrow> store \<Rightarrow> exn + inbox_row \<times> pydict" where
  "claimed_decision E current gid owner token s =
     (case leased_claim s gid owner token of
        None \<Rightarrow> Inl (ValueError ''approval claim is stale, expired, or unknown'')
      | Some (d, i) \<Rightarrow>
          if cd_lease_until_ms d \<le> current then Inl (ValueError ''approval claim is stale, expired, or unknown'')
          else if \<not> ib_trusted i then Inl (PermissionError ''approval decision requires a trusted sender'')
          else if ib_kind i \<noteq> ''companion.approval.decision''
          then Inl (ValueError ''claim does not contain an ApprovalDecision'')
          else and_then (decision_message E i) (\<lambda>n.
            if dict_get n ''device_node_id'' PNone \<noteq> PStr (ib_sender i)
            then Inl (PermissionError ''approval decision device does not match Packet sender'')
            else if time_field n ''expires_ms'' \<le> current then Inl (ValueError ''approval decision expired'')
            else Inr (i, n)))"

definition grant_expiry :: "pydict \<Rightarrow> time_ms" where
  "grant_expiry n = time_field (scope_of n) ''grant_expires_ms''"

text \<open>The checks before the transaction: the claim as seen first, then the request as seen after it.\<close>

definition activation_checks ::
    "'a control_env_scheme \<Rightarrow> time_ms \<Rightarrow> string \<Rightarrow> string \<Rightarrow> string \<Rightarrow> control_store \<Rightarrow> approvals \<Rightarrow> approvals
      \<Rightarrow> exn + string \<times> pydict \<times> string" where
  "activation_checks C current gid owner token cs seen1 seen2 =
     and_then (claimed_decision (ext_of C) current gid owner token (ap_core seen1)) (\<lambda>(i, n).
     case find_request seen2 (str_field n ''request_id'') of
       None \<Rightarrow> Inl (PermissionError ''approval decision has no local request'')
     | Some r \<Rightarrow>
         and_then (and_then (unpack (ext_of C) (rq_body r)) (validate_companion_message (ext_of C) ''companion.approval.request'')) (\<lambda>q.
         and_then (validate_approval_decision_binding (ext_of C) (PDict q) (PDict n)) (\<lambda>_.
         if grant_expiry n \<le> current then Inl (ValueError ''approval grant scope expired'')
         else and_then (require_approval_grant C current (str_field n ''human_id'') (str_field n ''device_node_id'') cs) (\<lambda>_.
           Inr (ib_sender i, n, rq_hash r)))))"

definition approved :: "pydict \<Rightarrow> bool" where
  "approved n = (dict_get n ''decision'' PNone = PStr ''approved'')"

definition decided_state :: "pydict \<Rightarrow> authorization_state" where
  "decided_state n = (if approved n then AuthActive else AuthRejected)"

definition decided_uses :: "pydict \<Rightarrow> int" where
  "decided_uses n = (if approved n then time_field (scope_of n) ''max_uses'' else 0)"

definition new_authorization ::
    "ext \<Rightarrow> time_ms \<Rightarrow> string \<Rightarrow> string \<Rightarrow> string \<Rightarrow> pydict \<Rightarrow> authorization_row" where
  "new_authorization E current sender packet decision_id n =
     \<lparr>az_request = str_field n ''request_id'', az_decision_id = decision_id, az_packet = packet,
      az_hash = companion_approval_hash E n, az_sender = sender, az_human = str_field n ''human_id'',
      az_device = str_field n ''device_node_id'', az_nonce = str_field n ''nonce'',
      az_decision = str_field n ''decision'', az_state = decided_state n, az_max_uses = decided_uses n,
      az_grant_expires_ms = grant_expiry n, az_activated_ms = current\<rparr>"

definition enter_authorization ::
    "ext \<Rightarrow> time_ms \<Rightarrow> string \<Rightarrow> string \<Rightarrow> pydict \<Rightarrow> approvals \<Rightarrow> exn + approvals \<times> bool" where
  "enter_authorization E current sender packet n s =
     (case find_authorization s (str_field n ''request_id'') of
        Some a \<Rightarrow>
          if az_hash a \<noteq> companion_approval_hash E n \<or> az_sender a \<noteq> sender
          then Inl (ValueError ''approval request already has another decision'') else Inr (s, False)
      | None \<Rightarrow>
          and_then (id_parameter (dict_get n ''decision_id'' PNone)) (\<lambda>decision_id.
          let a = new_authorization E current sender packet decision_id n
          in if exists_where (\<lambda>b. az_decision_id b = az_decision_id a \<or> az_nonce_key b = az_nonce_key a) (ap_authorizations s)
             then Inl (ValueError ''approval decision or nonce is already consumed'')
             else Inr (s\<lparr>ap_authorizations := ap_authorizations s @ [a]\<rparr>, True)))"

definition activate_body ::
    "ext \<Rightarrow> time_ms \<Rightarrow> string \<Rightarrow> string \<Rightarrow> string \<Rightarrow> string \<Rightarrow> pydict \<Rightarrow> string \<Rightarrow> approvals
      \<Rightarrow> exn + approvals \<times> activation" where
  "activate_body E current gid owner token sender n request_hash s =
     (case live_claim (ap_core s) current gid owner token of
        None \<Rightarrow> Inl (ValueError ''approval claim changed before activation'')
      | Some (d, i) \<Rightarrow>
          and_then (decision_message E i) (\<lambda>live.
          if ib_sender i \<noteq> sender \<or> companion_approval_hash E live \<noteq> companion_approval_hash E n
          then Inl (ValueError ''approval claim changed before activation'')
          else if map_option rq_hash (find_request s (str_field n ''request_id'')) \<noteq> Some request_hash
          then Inl (ValueError ''approval request changed before activation'')
          else and_then (enter_authorization E current sender (ib_packet i) n s) (\<lambda>(s1, fresh).
            if count_where (owned_lease gid owner token) (t_claims (ap_core s1)) \<noteq> 1
            then Inl (ValueError ''approval claim changed before acknowledgement'')
            else Inr (s1\<lparr>ap_core := ack_where (owned_lease gid owner token) current (ap_core s1)\<rparr>,
                   \<lparr>ac_request = str_field n ''request_id'', ac_decision_id = dict_get n ''decision_id'' PNone,
                    ac_state = decided_state n, ac_activated = fresh, ac_max_uses = decided_uses n,
                    ac_grant_expires_ms = grant_expiry n\<rparr>))))"

definition activate_companion_approval ::
    "'a control_env_scheme \<Rightarrow> time_ms \<Rightarrow> string \<Rightarrow> string \<Rightarrow> string \<Rightarrow> control_store \<Rightarrow> approvals \<Rightarrow> approvals \<Rightarrow> approvals
      \<Rightarrow> (approvals, activation) outcome" where
  "activate_companion_approval C current g own t cs seen1 seen2 s =
     checked s (and_then (claim_args g own t) (\<lambda>(gid, owner, token).
       and_then (activation_checks C current gid owner token cs seen1 seen2) (\<lambda>r. Inr (gid, owner, token, r))))
     (\<lambda>(gid, owner, token, sender, n, h). transaction (activate_body (ext_of C) current gid owner token sender n h) s)"

section \<open>Effects\<close>

record effect_item =
  ei_request :: string
  ei_effect :: string
  ei_idempotency :: string
  ei_state :: effect_state
  ei_attempts :: int
  ei_lease_until_ms :: time_ms
  ei_retry_after_ms :: time_ms
  ei_started_ms :: time_ms
  ei_updated_ms :: time_ms
  ei_completed_ms :: time_ms
  ei_result :: pyval
  ei_error :: string

definition companion_effect_item :: "ext \<Rightarrow> effect_row \<Rightarrow> exn + effect_item" where
  "companion_effect_item E e =
     and_then (case ef_result e of None \<Rightarrow> Inr PNone | Some b \<Rightarrow> unpack E b) (\<lambda>v.
       Inr \<lparr>ei_request = ef_request e, ei_effect = ef_effect e, ei_idempotency = ef_idempotency e,
            ei_state = ef_state e, ei_attempts = ef_attempts e, ei_lease_until_ms = ef_lease_until_ms e,
            ei_retry_after_ms = ef_retry_after_ms e, ei_started_ms = ef_started_ms e,
            ei_updated_ms = ef_updated_ms e, ei_completed_ms = ef_completed_ms e, ei_result = v,
            ei_error = ef_error e\<rparr>)"

text \<open>The row a \<open>SELECT\<close> after the update found, as an item.\<close>

definition selected_item :: "ext \<Rightarrow> effect_row option \<Rightarrow> exn + effect_item" where
  "selected_item E v = (case v of None \<Rightarrow> Inl (TypeError ''NoneType object is not subscriptable'')
     | Some e \<Rightarrow> companion_effect_item E e)"

definition idempotency_key :: "ext \<Rightarrow> string \<Rightarrow> string \<Rightarrow> string" where
  "idempotency_key E i e = hex_of_bytes (sha256 E (canonical_pack E
     (PList [PStr ''anet.companion.approval-effect.v1'', PStr i, PStr e])))"

definition effect_final :: "effect_row \<Rightarrow> bool" where
  "effect_final e = (ef_state e = EfExecuted \<or> ef_state e = EfRejected)"

text \<open>\<open>state IN ('working', 'retry', 'executed')\<close>: an effect that occupies one use.\<close>

definition reserved_use :: "string \<Rightarrow> effect_row \<Rightarrow> bool" where
  "reserved_use i e = (ef_request e = i \<and> (ef_state e = EfWorking \<or> ef_state e = EfRetry \<or> ef_state e = EfExecuted))"

definition leased_effect :: "string \<Rightarrow> string \<Rightarrow> time_ms \<Rightarrow> time_ms \<Rightarrow> effect_row \<Rightarrow> effect_row" where
  "leased_effect owner token lease_until current e =
     e\<lparr>ef_state := EfWorking, ef_owner := owner, ef_token := token, ef_lease_until_ms := lease_until,
       ef_retry_after_ms := 0, ef_attempts := ef_attempts e + 1, ef_updated_ms := current, ef_error := ''''\<rparr>"

definition new_effect ::
    "ext \<Rightarrow> string \<Rightarrow> string \<Rightarrow> string \<Rightarrow> string \<Rightarrow> time_ms \<Rightarrow> time_ms \<Rightarrow> effect_row" where
  "new_effect E i e owner token lease_until current =
     \<lparr>ef_request = i, ef_effect = e, ef_idempotency = idempotency_key E i e, ef_state = EfWorking,
      ef_owner = owner, ef_token = token, ef_lease_until_ms = lease_until, ef_retry_after_ms = 0,
      ef_attempts = 1, ef_started_ms = current, ef_updated_ms = current, ef_completed_ms = 0,
      ef_result = None, ef_error = ''''\<rparr>"

text \<open>Rows other than the one of a key that would violate the unique index on execution tokens.\<close>

definition token_taken :: "string \<times> string \<Rightarrow> string \<Rightarrow> effect_row list \<Rightarrow> bool" where
  "token_taken k token es = exists_where (\<lambda>e. effect_key e \<noteq> k \<and> ef_token e = token) es"

definition TOKEN_CONSTRAINT :: exn where
  "TOKEN_CONSTRAINT = IntegrityError ''UNIQUE constraint failed: companion_approval_effects.execution_token''"

text \<open>The effect's row, its execution token and whether this call acquired it.\<close>

definition reacquire_effect ::
    "128 word \<Rightarrow> time_ms \<Rightarrow> string \<Rightarrow> int \<Rightarrow> effect_row \<Rightarrow> approvals
      \<Rightarrow> exn + approvals \<times> effect_row option \<times> string \<times> bool" where
  "reacquire_effect random current owner lease_ms e s =
     (let token = token_hex random; k = effect_key e;
          s' = s\<lparr>ap_effects := update_where (\<lambda>x. effect_key x = k)
                  (leased_effect owner token (current + lease_ms) current) (ap_effects s)\<rparr>
      in if effect_final e then Inr (s, Some e, '''', False)
         else if ef_state e = EfWorking \<and> current < ef_lease_until_ms e
         then (if ef_owner e \<noteq> owner then Inl (ValueError ''approval effect is leased by another worker'')
               else Inr (s, Some e, ef_token e, False))
         else if ef_state e = EfRetry \<and> current < ef_retry_after_ms e
         then Inl (ValueError ''approval effect retry is not due'')
         else if token_taken k token (ap_effects s) then Inl TOKEN_CONSTRAINT
         else Inr (s', find_effect s' k, token, True))"

definition insert_effect ::
    "ext \<Rightarrow> 128 word \<Rightarrow> time_ms \<Rightarrow> string \<Rightarrow> int \<Rightarrow> string \<Rightarrow> string \<Rightarrow> int \<Rightarrow> approvals
      \<Rightarrow> exn + approvals \<times> effect_row option \<times> string \<times> bool" where
  "insert_effect E random current owner lease_ms i e max_uses s =
     (let token = token_hex random; r = new_effect E i e owner token (current + lease_ms) current;
          s' = s\<lparr>ap_effects := ap_effects s @ [r]\<rparr>
      in if max_uses \<le> int (count_where (reserved_use i) (ap_effects s))
         then Inl (PermissionError ''approval use limit exhausted'')
         else if exists_where (\<lambda>x. ef_idempotency x = ef_idempotency r) (ap_effects s)
         then Inl (IntegrityError ''UNIQUE constraint failed: companion_approval_effects.effect_idempotency_key'')
         else if token_taken (i, e) token (ap_effects s) then Inl TOKEN_CONSTRAINT
         else Inr (s', find_effect s' (i, e), token, True))"

text \<open>\<open>SELECT ... WHERE request_id = ? AND state = 'active'\<close>\<close>

definition active_authorization :: "approvals \<Rightarrow> string \<Rightarrow> authorization_row option" where
  "active_authorization s i = find (\<lambda>a. az_request a = i \<and> az_state a = AuthActive) (ap_authorizations s)"

definition begin_effect_body ::
    "ext \<Rightarrow> 128 word \<Rightarrow> time_ms \<Rightarrow> string \<Rightarrow> int \<Rightarrow> string \<Rightarrow> string \<Rightarrow> approvals
      \<Rightarrow> exn + approvals \<times> effect_row option \<times> string \<times> bool" where
  "begin_effect_body E random current owner lease_ms i e s =
     (case active_authorization s i of
        None \<Rightarrow> Inl (PermissionError ''approval authorization expired'')
      | Some a \<Rightarrow>
          if az_grant_expires_ms a \<le> current then Inl (PermissionError ''approval authorization expired'')
          else case find_effect s (i, e) of
            Some x \<Rightarrow> reacquire_effect random current owner lease_ms x s
          | None \<Rightarrow> insert_effect E random current owner lease_ms i e (az_max_uses a) s)"

definition effect_permission ::
    "'a control_env_scheme \<Rightarrow> time_ms \<Rightarrow> string \<Rightarrow> control_store \<Rightarrow> approvals \<Rightarrow> exn + device_grant" where
  "effect_permission C current i cs seen =
     (case active_authorization seen i of
        None \<Rightarrow> Inl (PermissionError ''approval request is not active'')
      | Some a \<Rightarrow>
          if az_grant_expires_ms a \<le> current then Inl (PermissionError ''approval authorization expired'')
          else require_approval_grant C current (az_human a) (az_device a) cs)"

text \<open>The result is the item, the execution token and whether this call acquired the effect.\<close>

definition begin_companion_approval_effect ::
    "'a control_env_scheme \<Rightarrow> 128 word \<Rightarrow> time_ms \<Rightarrow> string \<Rightarrow> string \<Rightarrow> string \<Rightarrow> rat \<Rightarrow> control_store \<Rightarrow> approvals \<Rightarrow> approvals
      \<Rightarrow> (approvals, effect_item \<times> string \<times> bool) outcome" where
  "begin_companion_approval_effect C random current request_arg effect_arg owner_arg lease_seconds cs seen s =
     checked s (and_then (companion_approval_id ''request_id'' request_arg) (\<lambda>i.
       and_then (companion_approval_id ''effect_id'' effect_arg) (\<lambda>e.
       and_then (consumer_id ''owner'' owner_arg) (\<lambda>owner.
       and_then (effect_permission C current i cs seen) (\<lambda>_. Inr (i, e, owner))))))
     (\<lambda>(i, e, owner).
       after_commit (\<lambda>(row, token, acquired). and_then (selected_item (ext_of C) row) (\<lambda>item. Inr (item, token, acquired)))
         (transaction (begin_effect_body (ext_of C) random current owner (lease_duration lease_seconds) i e) s))"

definition settle_outcome :: "string \<Rightarrow> effect_state option" where
  "settle_outcome v = (if v = ''executed'' then Some EfExecuted else if v = ''retry'' then Some EfRetry
     else if v = ''rejected'' then Some EfRejected else None)"

definition effect_settlement ::
    "ext \<Rightarrow> string \<Rightarrow> pyval \<Rightarrow> string \<Rightarrow> exn + effect_state \<times> bytes option \<times> string" where
  "effect_settlement E outcome_arg result_arg error_arg =
     (let error = strip error_arg;
          encoded = (if result_arg = PNone then None else Some (pack E result_arg))
      in case settle_outcome (lower (strip outcome_arg)) of
        None \<Rightarrow> Inl (ValueError ''invalid approval effect outcome'')
      | Some st \<Rightarrow>
          if st = EfExecuted \<and> error \<noteq> '''' then Inl (ValueError ''executed approval effect cannot contain an error'')
          else if st = EfRejected \<and> error = '''' then Inl (ValueError ''rejected approval effect requires an error'')
          else if (case encoded of None \<Rightarrow> False | Some b \<Rightarrow> MAX_WIRE_BYTES < length b)
          then Inl (ValueError ''approval effect result is too large'')
          else Inr (st, encoded, error))"

definition settled_effect ::
    "time_ms \<Rightarrow> time_ms \<Rightarrow> effect_state \<Rightarrow> bytes option \<Rightarrow> string \<Rightarrow> effect_row \<Rightarrow> effect_row" where
  "settled_effect current retry_after st encoded error e =
     (let e' = e\<lparr>ef_state := st, ef_owner := '''', ef_token := '''', ef_lease_until_ms := 0, ef_updated_ms := current\<rparr>
      in if st = EfExecuted
         then e'\<lparr>ef_retry_after_ms := 0, ef_completed_ms := current, ef_result := encoded, ef_error := ''''\<rparr>
         else if st = EfRetry
         then e'\<lparr>ef_retry_after_ms := retry_after, ef_result := None, ef_error := take 1000 error\<rparr>
         else e'\<lparr>ef_retry_after_ms := 0, ef_completed_ms := current, ef_result := None, ef_error := take 1000 error\<rparr>)"

definition settle_effect_body ::
    "time_ms \<Rightarrow> time_ms \<Rightarrow> string \<times> string \<Rightarrow> string \<Rightarrow> effect_state \<Rightarrow> bytes option \<Rightarrow> string \<Rightarrow> approvals
      \<Rightarrow> exn + approvals \<times> effect_row option" where
  "settle_effect_body current retry_after k token st encoded error s =
     (let s' = s\<lparr>ap_effects := update_where (\<lambda>e. effect_key e = k)
                 (settled_effect current retry_after st encoded error) (ap_effects s)\<rparr>
      in if exists_where (\<lambda>e. effect_key e = k \<and> ef_token e = token \<and> ef_state e = EfWorking) (ap_effects s)
         then Inr (s', find_effect s' k)
         else Inl (ValueError ''approval execution token is stale or fenced''))"

definition settle_companion_approval_effect ::
    "ext \<Rightarrow> time_ms \<Rightarrow> string \<Rightarrow> string \<Rightarrow> string \<Rightarrow> string \<Rightarrow> pyval \<Rightarrow> string \<Rightarrow> rat \<Rightarrow> approvals \<Rightarrow> (approvals, effect_item) outcome" where
  "settle_companion_approval_effect E current request_arg effect_arg tok_arg outcome_arg result_arg error_arg retry_seconds s =
     checked s (and_then (companion_approval_id ''request_id'' request_arg) (\<lambda>i.
       and_then (companion_approval_id ''effect_id'' effect_arg) (\<lambda>e.
       and_then (claim_token tok_arg) (\<lambda>token.
       and_then (effect_settlement E outcome_arg result_arg error_arg) (\<lambda>r. Inr ((i, e), token, r))))))
     (\<lambda>(k, token, st, encoded, error).
       after_commit (selected_item E)
         (transaction (settle_effect_body current (current + retry_duration retry_seconds) k token st encoded error) s))"

definition companion_approval_effect :: "ext \<Rightarrow> string \<Rightarrow> string \<Rightarrow> approvals \<Rightarrow> exn + effect_item option" where
  "companion_approval_effect E request_arg effect_arg s =
     and_then (companion_approval_id ''request_id'' request_arg) (\<lambda>i.
     and_then (companion_approval_id ''effect_id'' effect_arg) (\<lambda>e.
       case find_effect s (i, e) of None \<Rightarrow> Inr None
       | Some x \<Rightarrow> and_then (companion_effect_item E x) (\<lambda>item. Inr (Some item))))"

section \<open>Calls\<close>

text \<open>A call of the rest of the store works on its own tables.\<close>

datatype approval_call =
    CoreCall store_call
  | RegisterApproval ext time_ms pyval
  | ActivateApproval control_env time_ms string string string control_store approvals approvals
  | BeginEffect control_env "128 word" time_ms string string string rat control_store approvals
  | SettleEffect ext time_ms string string string string pyval string rat

fun approval_step :: "approval_call \<Rightarrow> approvals \<Rightarrow> approvals" where
  "approval_step (CoreCall c) s = s\<lparr>ap_core := store_step c (ap_core s)\<rparr>"
| "approval_step (RegisterApproval E now b) s = fst (register_companion_approval_request E now b s)"
| "approval_step (ActivateApproval C now g own t cs s1 s2) s = fst (activate_companion_approval C now g own t cs s1 s2 s)"
| "approval_step (BeginEffect C rnd now i e own secs cs seen) s =
     fst (begin_companion_approval_effect C rnd now i e own secs cs seen s)"
| "approval_step (SettleEffect E now i e t oc res err secs) s = fst (settle_companion_approval_effect E now i e t oc res err secs s)"

section \<open>Changes of the tables\<close>

text \<open>
  What a call can do to the tables: nothing but the rest of the store, one new request, one new
  authorization of a request that had none, one new effect within the limit of its authorization, a new
  lease of an effect that is not settled, or the settlement of a working effect.
\<close>

inductive approval_change :: "approvals \<Rightarrow> approvals \<Rightarrow> bool" where
  core: "store_inv c \<Longrightarrow> approval_change s (s\<lparr>ap_core := c\<rparr>)"
| registered: "find_request s (rq_id r) = None \<Longrightarrow> \<forall>q\<in>set (ap_requests s). rq_nonce_key q \<noteq> rq_nonce_key r \<Longrightarrow>
    approval_change s (s\<lparr>ap_requests := ap_requests s @ [r]\<rparr>)"
| decided: "find_request s (az_request a) \<noteq> None \<Longrightarrow> find_authorization s (az_request a) = None \<Longrightarrow>
    \<forall>b\<in>set (ap_authorizations s). az_decision_id b \<noteq> az_decision_id a \<and> az_nonce_key b \<noteq> az_nonce_key a \<Longrightarrow>
    0 \<le> az_max_uses a \<and> az_max_uses a \<le> 100 \<Longrightarrow> store_inv c \<Longrightarrow>
    approval_change s (s\<lparr>ap_authorizations := ap_authorizations s @ [a], ap_core := c\<rparr>)"
| started: "a \<in> set (ap_authorizations s) \<Longrightarrow> az_request a = ef_request e \<Longrightarrow> az_state a = AuthActive \<Longrightarrow>
    find_effect s (effect_key e) = None \<Longrightarrow> int (count_where (reserved_use (ef_request e)) (ap_effects s)) < az_max_uses a \<Longrightarrow>
    ef_state e = EfWorking \<Longrightarrow> ef_token e \<noteq> '''' \<Longrightarrow> \<not> token_taken (effect_key e) (ef_token e) (ap_effects s) \<Longrightarrow>
    approval_change s (s\<lparr>ap_effects := ap_effects s @ [e]\<rparr>)"
| leased: "find_effect s k = Some e \<Longrightarrow> \<not> effect_final e \<Longrightarrow> token \<noteq> '''' \<Longrightarrow> \<not> token_taken k token (ap_effects s) \<Longrightarrow>
    approval_change s (s\<lparr>ap_effects := update_where (\<lambda>x. effect_key x = k) (leased_effect owner token till now) (ap_effects s)\<rparr>)"
| settled: "find_effect s k = Some e \<Longrightarrow> ef_state e = EfWorking \<Longrightarrow> st \<noteq> EfWorking \<Longrightarrow>
    approval_change s (s\<lparr>ap_effects := update_where (\<lambda>x. effect_key x = k) (settled_effect now ra st res err) (ap_effects s)\<rparr>)"

lemma leased_effect_simps [simp]:
  "effect_key (leased_effect owner token till now e) = effect_key e" "ef_request (leased_effect owner token till now e) = ef_request e"
  "ef_state (leased_effect owner token till now e) = EfWorking" "ef_token (leased_effect owner token till now e) = token"
  by (simp_all add: leased_effect_def effect_key_def)

lemma settled_effect_simps [simp]:
  "effect_key (settled_effect now ra st res err e) = effect_key e" "ef_request (settled_effect now ra st res err e) = ef_request e"
  "ef_state (settled_effect now ra st res err e) = st" "ef_token (settled_effect now ra st res err e) = ''''"
  by (simp_all add: settled_effect_def effect_key_def Let_def)

section \<open>Invariant\<close>

text \<open>
  Requests, decisions and effects have unique keys and nonces; every authorization answers a registered
  request and every effect an active authorization; an effect has an execution token exactly while it is
  worked on, nobody else's; and the uses an authorization allows are not exceeded.
\<close>

definition effects_ok :: "authorization_row list \<Rightarrow> effect_row list \<Rightarrow> bool" where
  "effects_ok as es \<longleftrightarrow> unique_key effect_key es
     \<and> (\<forall>e\<in>set es. (ef_state e = EfWorking) = (ef_token e \<noteq> '''') \<and> (\<exists>a\<in>set as. az_request a = ef_request e \<and> az_state a = AuthActive))
     \<and> (\<forall>d\<in>set es. \<forall>e\<in>set es. ef_token d = ef_token e \<longrightarrow> ef_token d \<noteq> '''' \<longrightarrow> effect_key d = effect_key e)
     \<and> (\<forall>a\<in>set as. int (count_where (reserved_use (az_request a)) es) \<le> az_max_uses a)"

definition approval_inv :: "approvals \<Rightarrow> bool" where
  "approval_inv s \<longleftrightarrow> store_inv (ap_core s) \<and> unique_key rq_id (ap_requests s) \<and> unique_key rq_nonce_key (ap_requests s)
     \<and> unique_key az_request (ap_authorizations s) \<and> unique_key az_decision_id (ap_authorizations s)
     \<and> unique_key az_nonce_key (ap_authorizations s)
     \<and> (\<forall>a\<in>set (ap_authorizations s). 0 \<le> az_max_uses a \<and> az_max_uses a \<le> 100 \<and> (\<exists>r\<in>set (ap_requests s). rq_id r = az_request a))
     \<and> effects_ok (ap_authorizations s) (ap_effects s)"

lemma approval_inv_empty: "approval_inv empty_approvals"
  by (simp add: approval_inv_def effects_ok_def empty_approvals_def store_inv_empty)

lemma approval_invD:
  assumes "approval_inv s"
  shows "store_inv (ap_core s)" "unique_key rq_id (ap_requests s)" "unique_key az_request (ap_authorizations s)"
    "effects_ok (ap_authorizations s) (ap_effects s)"
  using assms by (simp_all add: approval_inv_def)

lemma effects_okD:
  assumes "effects_ok as es"
  shows "unique_key effect_key es" "e \<in> set es \<Longrightarrow> (ef_state e = EfWorking) = (ef_token e \<noteq> '''')"
    "e \<in> set es \<Longrightarrow> \<exists>a\<in>set as. az_request a = ef_request e \<and> az_state a = AuthActive"
    "d \<in> set es \<Longrightarrow> e \<in> set es \<Longrightarrow> ef_token d = ef_token e \<Longrightarrow> ef_token d \<noteq> '''' \<Longrightarrow> effect_key d = effect_key e"
    "a \<in> set as \<Longrightarrow> int (count_where (reserved_use (az_request a)) es) \<le> az_max_uses a"
  using assms unfolding effects_ok_def by blast+

lemma count_where_update_le:
  "(\<And>r. r \<in> set rs \<Longrightarrow> Q r \<Longrightarrow> P (f r) \<Longrightarrow> P r) \<Longrightarrow> count_where P (update_where Q f rs) \<le> count_where P rs"
  by (induction rs) (auto simp: count_where_def)

lemma count_where_append: "count_where P (rs @ [r]) = count_where P rs + (if P r then 1 else 0)"
  by (simp add: count_where_def)

text \<open>Changing the row of one key, its token to a fresh one or to none.\<close>

lemma effects_ok_update:
  assumes ok: "effects_ok as es"
    and f: "\<And>e. e \<in> set es \<Longrightarrow> effect_key e = k \<Longrightarrow> effect_key (f e) = k \<and> ef_token (f e) = token
        \<and> (ef_state (f e) = EfWorking) = (token \<noteq> '''') \<and> (\<forall>i. reserved_use i (f e) \<longrightarrow> reserved_use i e)"
    and free: "token \<noteq> '''' \<longrightarrow> \<not> token_taken k token es"
  shows "effects_ok as (update_where (\<lambda>x. effect_key x = k) f es)"
proof -
  let ?g = "\<lambda>x. if effect_key x = k then f x else x"
  have key: "effect_key (?g e) = effect_key e" if "e \<in> set es" for e using f that by auto
  then have "map effect_key (update_where (\<lambda>x. effect_key x = k) f es) = map effect_key es"
    by (simp add: update_where_def)
  then have "unique_key effect_key (update_where (\<lambda>x. effect_key x = k) f es)"
    using effects_okD(1) [OF ok] by (simp only: unique_key_def)
  moreover have "(ef_state (?g e) = EfWorking) = (ef_token (?g e) \<noteq> '''') \<and> (\<exists>a\<in>set as. az_request a = ef_request (?g e) \<and> az_state a = AuthActive)"
    if "e \<in> set es" for e
    using effects_okD(2,3) [OF ok that] f [OF that] key [OF that] by (auto simp: effect_key_def)
  moreover have "effect_key (?g d) = effect_key (?g e)"
    if "d \<in> set es" "e \<in> set es" "ef_token (?g d) = ef_token (?g e)" "ef_token (?g d) \<noteq> ''''" for d e
  proof (cases "effect_key d = k \<longleftrightarrow> effect_key e = k")
    case True
    then show ?thesis using effects_okD(4) [OF ok that(1,2)] key [OF that(1)] key [OF that(2)] that(3,4) by (auto split: if_splits)
  next
    case False
    then show ?thesis using free f [OF that(1)] f [OF that(2)] that by (auto simp: token_taken_def)
  qed
  moreover have "count_where (reserved_use i) (update_where (\<lambda>x. effect_key x = k) f es) \<le> count_where (reserved_use i) es" for i
    by (rule count_where_update_le) (use f in blast)
  then have "\<forall>a\<in>set as. int (count_where (reserved_use (az_request a)) (update_where (\<lambda>x. effect_key x = k) f es)) \<le> az_max_uses a"
    using effects_okD(5) [OF ok] by (meson int_ops(1) of_nat_mono order_trans)
  ultimately show ?thesis unfolding effects_ok_def set_update_where by blast
qed

lemma find_effectD: "find_effect s k = Some e \<Longrightarrow> e \<in> set (ap_effects s) \<and> effect_key e = k"
  by (auto simp: find_effect_def dest: find_SomeD)

lemma effect_unique: "approval_inv s \<Longrightarrow> find_effect s k = Some e \<Longrightarrow> x \<in> set (ap_effects s) \<Longrightarrow> effect_key x = k \<Longrightarrow> x = e"
  using effects_okD(1) [OF approval_invD(4)] by (metis find_effectD unique_keyD)

lemma approval_invI:
  assumes "store_inv (ap_core s)" "unique_key rq_id (ap_requests s)" "unique_key rq_nonce_key (ap_requests s)"
    "unique_key az_request (ap_authorizations s)" "unique_key az_decision_id (ap_authorizations s)"
    "unique_key az_nonce_key (ap_authorizations s)"
    "\<And>a. a \<in> set (ap_authorizations s) \<Longrightarrow> 0 \<le> az_max_uses a \<and> az_max_uses a \<le> 100 \<and> (\<exists>r\<in>set (ap_requests s). rq_id r = az_request a)"
    "effects_ok (ap_authorizations s) (ap_effects s)"
  shows "approval_inv s"
  using assms by (simp add: approval_inv_def)

lemma approval_inv_rest:
  assumes "approval_inv s"
  shows "unique_key rq_nonce_key (ap_requests s)" "unique_key az_decision_id (ap_authorizations s)"
    "unique_key az_nonce_key (ap_authorizations s)"
    "a \<in> set (ap_authorizations s) \<Longrightarrow> 0 \<le> az_max_uses a \<and> az_max_uses a \<le> 100 \<and> (\<exists>r\<in>set (ap_requests s). rq_id r = az_request a)"
  using assms by (simp_all add: approval_inv_def)

lemma inv_registered:
  assumes "approval_inv s" and "find_request s (rq_id r) = None" and "\<forall>q\<in>set (ap_requests s). rq_nonce_key q \<noteq> rq_nonce_key r"
  shows "approval_inv (s\<lparr>ap_requests := ap_requests s @ [r]\<rparr>)"
proof (rule approval_invI)
  show "unique_key rq_id (ap_requests (s\<lparr>ap_requests := ap_requests s @ [r]\<rparr>))"
    using approval_invD(2) [OF assms(1)] assms(2) by (auto simp: find_request_def find_None_iff_all intro!: unique_key_append)
  show "unique_key rq_nonce_key (ap_requests (s\<lparr>ap_requests := ap_requests s @ [r]\<rparr>))"
    using approval_inv_rest(1) [OF assms(1)] assms(3) by (auto intro!: unique_key_append)
  fix a assume "a \<in> set (ap_authorizations (s\<lparr>ap_requests := ap_requests s @ [r]\<rparr>))"
  then have "0 \<le> az_max_uses a \<and> az_max_uses a \<le> 100 \<and> (\<exists>r\<in>set (ap_requests s). rq_id r = az_request a)"
    using approval_inv_rest(4) [OF assms(1)] by simp
  then show "0 \<le> az_max_uses a \<and> az_max_uses a \<le> 100 \<and>
      (\<exists>q\<in>set (ap_requests (s\<lparr>ap_requests := ap_requests s @ [r]\<rparr>)). rq_id q = az_request a)" by auto
qed (use approval_invD [OF assms(1)] approval_inv_rest [OF assms(1)] in simp_all)

lemma inv_decided:
  assumes inv: "approval_inv s" and req: "find_request s (az_request a) \<noteq> None" and none: "find_authorization s (az_request a) = None"
    and fresh: "\<forall>b\<in>set (ap_authorizations s). az_decision_id b \<noteq> az_decision_id a \<and> az_nonce_key b \<noteq> az_nonce_key a"
    and uses: "0 \<le> az_max_uses a \<and> az_max_uses a \<le> 100" and c: "store_inv c"
  shows "approval_inv (s\<lparr>ap_authorizations := ap_authorizations s @ [a], ap_core := c\<rparr>)" (is "approval_inv ?t")
proof (rule approval_invI)
  have new: "az_request b \<noteq> az_request a" if "b \<in> set (ap_authorizations s)" for b
    using none that by (auto simp: find_authorization_def find_None_iff_all)
  have "\<not> reserved_use (az_request a) e" if e: "e \<in> set (ap_effects s)" for e
    using effects_okD(3) [OF approval_invD(4) [OF inv] e] new by (auto simp: reserved_use_def)
  then have zero: "count_where (reserved_use (az_request a)) (ap_effects s) = 0" using count_where_pos by metis
  have "effects_ok (ap_authorizations s @ [a]) (ap_effects s)"
    unfolding effects_ok_def
  proof (intro conjI)
    show "\<forall>e\<in>set (ap_effects s). (ef_state e = EfWorking) = (ef_token e \<noteq> [])
        \<and> (\<exists>b\<in>set (ap_authorizations s @ [a]). az_request b = ef_request e \<and> az_state b = AuthActive)"
      using effects_okD(2,3) [OF approval_invD(4) [OF inv]] by fastforce
    show "\<forall>b\<in>set (ap_authorizations s @ [a]). int (count_where (reserved_use (az_request b)) (ap_effects s)) \<le> az_max_uses b"
      using effects_okD(5) [OF approval_invD(4) [OF inv]] zero uses by auto
  qed (use effects_okD(1,4) [OF approval_invD(4) [OF inv]] in blast)+
  then show "effects_ok (ap_authorizations ?t) (ap_effects ?t)" by simp
  show "unique_key az_request (ap_authorizations ?t)" using approval_invD(3) [OF inv] new by (auto intro!: unique_key_append)
  show "unique_key az_decision_id (ap_authorizations ?t)" "unique_key az_nonce_key (ap_authorizations ?t)"
    using approval_inv_rest(2,3) [OF inv] fresh by (auto intro!: unique_key_append)
  fix b assume "b \<in> set (ap_authorizations ?t)"
  then show "0 \<le> az_max_uses b \<and> az_max_uses b \<le> 100 \<and> (\<exists>r\<in>set (ap_requests ?t). rq_id r = az_request b)"
    using approval_inv_rest(4) [OF inv, of b] uses req by (auto simp: find_request_def dest: find_SomeD)
qed (use approval_invD [OF inv] approval_inv_rest [OF inv] c in simp_all)

lemma inv_effects:
  assumes "approval_inv s" and "effects_ok (ap_authorizations s) es"
  shows "approval_inv (s\<lparr>ap_effects := es\<rparr>)"
  using assms by (simp add: approval_inv_def)

lemma approval_inv_change: "approval_change s s' \<Longrightarrow> approval_inv s \<Longrightarrow> approval_inv s'"
proof (induction rule: approval_change.induct)
  case (core c s)
  then show ?case by (simp add: approval_inv_def)
next
  case (registered s r)
  then show ?case by (intro inv_registered)
next
  case (decided s a c)
  then show ?case by (intro inv_decided)
next
  case (started a s e)
  note ok = approval_invD(4) [OF started.prems]
  have new: "effect_key x \<noteq> effect_key e" if "x \<in> set (ap_effects s)" for x
    using started.hyps(4) that by (auto simp: find_effect_def find_None_iff_all)
  have "unique_key effect_key (ap_effects s @ [e])" using effects_okD(1) [OF ok] new by (auto intro: unique_key_append)
  moreover have "effect_key x = effect_key y" if "x \<in> set (ap_effects s @ [e])" "y \<in> set (ap_effects s @ [e])"
    "ef_token x = ef_token y" "ef_token x \<noteq> ''''" for x y
    using that effects_okD(4) [OF ok, of x y] started.hyps(8) new by (auto simp: token_taken_def)
  moreover have "int (count_where (reserved_use (az_request b)) (ap_effects s @ [e])) \<le> az_max_uses b"
    if b: "b \<in> set (ap_authorizations s)" for b
  proof (cases "az_request b = ef_request e")
    case True
    then have "b = a" using unique_keyD [OF approval_invD(3) [OF started.prems] b started.hyps(1)] started.hyps(2) by simp
    then show ?thesis using started.hyps(5) True by (simp add: count_where_append)
  next
    case False
    then have "\<not> reserved_use (az_request b) e" by (auto simp: reserved_use_def)
    then show ?thesis using effects_okD(5) [OF ok b] by (simp add: count_where_append)
  qed
  moreover have "\<forall>x\<in>set (ap_effects s @ [e]). (ef_state x = EfWorking) = (ef_token x \<noteq> '''')
      \<and> (\<exists>a\<in>set (ap_authorizations s). az_request a = ef_request x \<and> az_state a = AuthActive)"
    using effects_okD(2,3) [OF ok] started.hyps by auto
  ultimately have "effects_ok (ap_authorizations s) (ap_effects s @ [e])" unfolding effects_ok_def by blast
  then show ?case by (rule inv_effects [OF started.prems])
next
  case (leased s k e token owner till now)
  have "effects_ok (ap_authorizations s) (update_where (\<lambda>x. effect_key x = k) (leased_effect owner token till now) (ap_effects s))"
  proof (rule effects_ok_update [OF approval_invD(4) [OF leased.prems], where token = token])
    fix x assume x: "x \<in> set (ap_effects s)" "effect_key x = k"
    then have "x = e" by (rule effect_unique [OF leased.prems leased.hyps(1)])
    then have "ef_state x = EfWorking \<or> ef_state x = EfRetry" using leased.hyps(2) by (cases "ef_state x") (auto simp: effect_final_def)
    then show "effect_key (leased_effect owner token till now x) = k \<and> ef_token (leased_effect owner token till now x) = token
        \<and> (ef_state (leased_effect owner token till now x) = EfWorking) = (token \<noteq> [])
        \<and> (\<forall>i. reserved_use i (leased_effect owner token till now x) \<longrightarrow> reserved_use i x)"
      using x(2) leased.hyps(3) by (simp add: reserved_use_def) blast
  qed (use leased.hyps(4) in simp)
  then show ?case by (rule inv_effects [OF leased.prems])
next
  case (settled s k e st now ra res err)
  have "effects_ok (ap_authorizations s) (update_where (\<lambda>x. effect_key x = k) (settled_effect now ra st res err) (ap_effects s))"
  proof (rule effects_ok_update [OF approval_invD(4) [OF settled.prems], where token = "[]"])
    fix x assume x: "x \<in> set (ap_effects s)" "effect_key x = k"
    then have "x = e" by (rule effect_unique [OF settled.prems settled.hyps(1)])
    then show "effect_key (settled_effect now ra st res err x) = k \<and> ef_token (settled_effect now ra st res err x) = []
        \<and> (ef_state (settled_effect now ra st res err x) = EfWorking) = ([] \<noteq> ([] :: string))
        \<and> (\<forall>i. reserved_use i (settled_effect now ra st res err x) \<longrightarrow> reserved_use i x)"
      using x(2) settled.hyps(2,3) by (simp add: reserved_use_def)
  qed simp
  then show ?case by (rule inv_effects [OF settled.prems])
qed

section \<open>Every call is such a change\<close>

lemma approval_same: "approval_inv s \<Longrightarrow> approval_change s s"
  using approval_change.core [of "ap_core s" s] by (simp add: approval_inv_def)

lemma active_authorizationD:
  "active_authorization s i = Some a \<Longrightarrow> a \<in> set (ap_authorizations s) \<and> az_request a = i \<and> az_state a = AuthActive"
  by (auto simp: active_authorization_def dest: find_SomeD)

lemma change_reacquire:
  assumes "approval_inv s" and "find_effect s k = Some e"
    and "reacquire_effect random current owner lease_ms e s = Inr (s', row, token, acquired)"
  shows "approval_change s s'"
proof -
  have k: "effect_key e = k" using find_effectD [OF assms(2)] by simp
  have "s' = s \<or> \<not> effect_final e \<and> \<not> token_taken k (token_hex random) (ap_effects s)
      \<and> s' = s\<lparr>ap_effects := update_where (\<lambda>x. effect_key x = k)
                  (leased_effect owner (token_hex random) (current + lease_ms) current) (ap_effects s)\<rparr>"
    using assms(3) unfolding reacquire_effect_def k by (auto simp: Let_def split: if_splits)
  then show ?thesis
  proof (elim disjE conjE)
    assume "s' = s" then show ?thesis using approval_same [OF assms(1)] by simp
  next
    assume a: "\<not> effect_final e" "\<not> token_taken k (token_hex random) (ap_effects s)"
      and s': "s' = s\<lparr>ap_effects := update_where (\<lambda>x. effect_key x = k)
                  (leased_effect owner (token_hex random) (current + lease_ms) current) (ap_effects s)\<rparr>"
    show ?thesis unfolding s' using assms(2) a(1) token_hex_nonempty a(2) by (rule approval_change.leased)
  qed
qed

lemma change_insert:
  assumes a: "active_authorization s i = Some a" and fresh: "find_effect s (i, e) = None"
    and run: "insert_effect E random current owner lease_ms i e (az_max_uses a) s = Inr (s', row, token, acquired)"
  shows "approval_change s s'"
proof -
  let ?r = "new_effect E i e owner (token_hex random) (current + lease_ms) current"
  have r: "ef_request ?r = i" "effect_key ?r = (i, e)" "ef_state ?r = EfWorking" "ef_token ?r = token_hex random"
    by (simp_all add: new_effect_def effect_key_def)
  have "s' = s\<lparr>ap_effects := ap_effects s @ [?r]\<rparr>" "\<not> token_taken (i, e) (token_hex random) (ap_effects s)"
    "int (count_where (reserved_use i) (ap_effects s)) < az_max_uses a"
    using run by (auto simp: insert_effect_def Let_def)
  moreover from this have "approval_change s (s\<lparr>ap_effects := ap_effects s @ [?r]\<rparr>)"
    using active_authorizationD [OF a] fresh by (intro approval_change.started [where a = a]) (simp_all add: r)
  ultimately show ?thesis by simp
qed

lemma begin_effect_body_Inr:
  assumes "begin_effect_body E random current owner lease_ms i e s = Inr (s', row, token, acquired)"
  obtains a x where "active_authorization s i = Some a" "current < az_grant_expires_ms a" "find_effect s (i, e) = Some x"
      "reacquire_effect random current owner lease_ms x s = Inr (s', row, token, acquired)"
  | a where "active_authorization s i = Some a" "current < az_grant_expires_ms a" "find_effect s (i, e) = None"
      "insert_effect E random current owner lease_ms i e (az_max_uses a) s = Inr (s', row, token, acquired)"
proof -
  obtain a where "active_authorization s i = Some a" "current < az_grant_expires_ms a"
    using assms by (auto simp: begin_effect_body_def not_le)
  then show ?thesis using assms that by (cases "find_effect s (i, e)") (auto simp: begin_effect_body_def)
qed

lemma change_begin:
  assumes "approval_inv s" and "begin_effect_body E random current owner lease_ms i e s = Inr (s', row, token, acquired)"
  shows "approval_change s s'"
  using assms(2)
proof (rule begin_effect_body_Inr)
  fix a x assume "find_effect s (i, e) = Some x" "reacquire_effect random current owner lease_ms x s = Inr (s', row, token, acquired)"
  then show ?thesis by (rule change_reacquire [OF assms(1)])
next
  fix a assume "active_authorization s i = Some a" "find_effect s (i, e) = None"
    "insert_effect E random current owner lease_ms i e (az_max_uses a) s = Inr (s', row, token, acquired)"
  then show ?thesis by (rule change_insert)
qed

lemma register_body_Inr:
  assumes "register_body E current n s = Inr (s', i, fresh, h)"
  shows "id_parameter (dict_get n ''request_id'' PNone) = Inr i \<and> h = companion_approval_hash E n \<and>
    (if fresh then find_request s i = None \<and> (\<forall>q\<in>set (ap_requests s). rq_nonce_key q \<noteq> rq_nonce_key (registered_row E current i n))
        \<and> s' = s\<lparr>ap_requests := ap_requests s @ [registered_row E current i n]\<rparr>
     else s' = s \<and> map_option rq_hash (find_request s i) = Some h)"
proof -
  obtain j where j: "id_parameter (dict_get n ''request_id'' PNone) = Inr j"
    using assms by (cases "id_parameter (dict_get n ''request_id'' PNone)") (simp_all add: register_body_def)
  show ?thesis
  proof (cases "find_request s j")
    case None
    then show ?thesis using assms
      unfolding register_body_def Let_def j and_then_simps by (auto split: if_splits)
  next
    case (Some q)
    then show ?thesis using assms unfolding register_body_def Let_def j and_then_simps by (auto split: if_splits)
  qed
qed

lemma change_register:
  assumes "approval_inv s" and "register_body E current n s = Inr (s', r)"
  shows "approval_change s s'"
proof -
  obtain i fresh h where r: "r = (i, fresh, h)" by (cases r)
  note b = register_body_Inr [OF assms(2) [unfolded r]]
  show ?thesis
  proof (cases fresh)
    case True
    with b have "s' = s\<lparr>ap_requests := ap_requests s @ [registered_row E current i n]\<rparr>"
      "find_request s (rq_id (registered_row E current i n)) = None"
      "\<forall>q\<in>set (ap_requests s). rq_nonce_key q \<noteq> rq_nonce_key (registered_row E current i n)"
      by (simp_all add: registered_row_def)
    then show ?thesis by (simp only: approval_change.registered)
  next
    case False
    with b show ?thesis using approval_same [OF assms(1)] by simp
  qed
qed

text \<open>What a validated decision allows.\<close>

lemma decision_uses:
  assumes "validate_companion_message E ''companion.approval.decision'' body = Inr n"
  shows "0 \<le> decided_uses n \<and> decided_uses n \<le> 100 \<and> (approved n \<longrightarrow> 1 \<le> decided_uses n)"
proof -
  have "kind_of_text (lower (strip ''companion.approval.decision'')) = Some ApprovalDecision" by code_simp
  then have "validate_approval_decision E body = Inr n"
    using assms by (simp add: validate_companion_message_def validate_kind_def)
  then obtain vals c e ups where "decision_fields E vals c = Inr ups" and n: "n = update_fields vals ups"
    unfolding validate_approval_decision_def validated_def by (elim step_elims) (rule that)
  from this(1) show ?thesis
  proof (rule decision_fields_Inr)
    fix dc i human device reason nonce a s
    assume s: "approval_scope E c (dict_get vals ''scope'' PNone) = Inr s"
      and ups: "ups = [(''request_id'', PStr i), (''human_id'', PStr human), (''device_node_id'', PStr device),
            (''decision'', PStr dc), (''reason'', PStr reason), (''nonce'', PStr nonce),
            (''action'', action_dict a), (''scope'', scope_dict s)]"
    have "dict_get n ''scope'' PNone = scope_dict s" unfolding n by (subst dict_get_update) (simp_all add: ups)
    then have "time_field (scope_of n) ''max_uses'' = sc_max_uses s"
      by (simp add: scope_of_def scope_dict_def time_field_def dict_get_Cons)
    moreover have "1 \<le> sc_max_uses s \<and> sc_max_uses s \<le> 100"
      using s by (auto simp: approval_scope_def integer_Inr one_of_def normalized_def Let_def split: if_splits)
    ultimately show ?thesis by (simp add: decided_uses_def)
  qed
qed

lemma claimed_decision_Inr:
  assumes "claimed_decision E current gid owner token s = Inr (i, n)"
  obtains d where "leased_claim s gid owner token = Some (d, i)" "current < cd_lease_until_ms d" "ib_trusted i"
    "ib_kind i = ''companion.approval.decision''" "decision_message E i = Inr n"
    "dict_get n ''device_node_id'' PNone = PStr (ib_sender i)" "current < time_field n ''expires_ms''"
  using assms by (auto simp: claimed_decision_def not_le split: if_splits)

lemma activation_checks_Inr:
  assumes "activation_checks C current gid owner token cs seen1 seen2 = Inr (sender, n, h)"
  obtains i r q g where "claimed_decision (ext_of C) current gid owner token (ap_core seen1) = Inr (i, n)" "sender = ib_sender i"
    "find_request seen2 (str_field n ''request_id'') = Some r" "h = rq_hash r"
    "and_then (unpack (ext_of C) (rq_body r)) (validate_companion_message (ext_of C) ''companion.approval.request'') = Inr q"
    "\<exists>d. validate_approval_decision_binding (ext_of C) (PDict q) (PDict n) = Inr d" "current < grant_expiry n"
    "require_approval_grant C current (str_field n ''human_id'') (str_field n ''device_node_id'') cs = Inr g"
  using assms by (auto simp: activation_checks_def not_le simp del: and_then_eq_Inr elim!: step_pair step_next)

lemma activate_body_Inr:
  assumes "activate_body E current gid owner token sender n h s = Inr (s', out)"
  obtains d i live s1 where "live_claim (ap_core s) current gid owner token = Some (d, i)" "decision_message E i = Inr live"
    "ib_sender i = sender" "companion_approval_hash E live = companion_approval_hash E n"
    "map_option rq_hash (find_request s (str_field n ''request_id'')) = Some h"
    "enter_authorization E current sender (ib_packet i) n s = Inr (s1, ac_activated out)"
    "count_where (owned_lease gid owner token) (t_claims (ap_core s1)) = 1"
    "s' = s1\<lparr>ap_core := ack_where (owned_lease gid owner token) current (ap_core s1)\<rparr>"
    "out = \<lparr>ac_request = str_field n ''request_id'', ac_decision_id = dict_get n ''decision_id'' PNone,
       ac_state = decided_state n, ac_activated = ac_activated out, ac_max_uses = decided_uses n, ac_grant_expires_ms = grant_expiry n\<rparr>"
  using assms by (auto simp: activate_body_def simp del: and_then_eq_Inr elim!: step_next split: prod.splits)

lemma store_inv_ack: "store_inv s \<Longrightarrow> store_inv (ack_where hit now s)"
  by (simp add: store_inv_def consumer_inv_ack packet_inv_frame [of "ack_where hit now s" s] prekey_inv_frame [of "ack_where hit now s" s]
      inbox_inv_same [of "ack_where hit now s" s] path_inv_same [of "ack_where hit now s" s] task_inv_same [of "ack_where hit now s" s])
    (simp add: ack_where_def packet_inv_def prekey_inv_def inbox_inv_def path_inv_def local_row_ok_def bundled_def meta_get_def)

lemma enter_authorization_Inr:
  assumes "enter_authorization E current sender packet n s = Inr (s1, fresh)"
  shows "if fresh then \<exists>i. id_parameter (dict_get n ''decision_id'' PNone) = Inr i
       \<and> find_authorization s (str_field n ''request_id'') = None
       \<and> (\<forall>b\<in>set (ap_authorizations s). az_decision_id b \<noteq> i \<and> az_nonce_key b \<noteq> az_nonce_key (new_authorization E current sender packet i n))
       \<and> s1 = s\<lparr>ap_authorizations := ap_authorizations s @ [new_authorization E current sender packet i n]\<rparr>
     else s1 = s \<and> (\<exists>a. find_authorization s (str_field n ''request_id'') = Some a \<and> az_hash a = companion_approval_hash E n \<and> az_sender a = sender)"
proof (cases "find_authorization s (str_field n ''request_id'')")
  case None
  obtain i where i: "id_parameter (dict_get n ''decision_id'' PNone) = Inr i"
    using assms by (cases "id_parameter (dict_get n ''decision_id'' PNone)") (simp_all add: enter_authorization_def None)
  have "az_decision_id (new_authorization E current sender packet i n) = i" by (simp add: new_authorization_def)
  with assms show ?thesis unfolding enter_authorization_def None option.case i and_then_simps Let_def by (auto split: if_splits)
next
  case (Some a)
  with assms show ?thesis by (auto simp: enter_authorization_def split: if_splits)
qed

lemma new_authorization_simps [simp]:
  "az_request (new_authorization E now sender packet i n) = str_field n ''request_id''"
  "az_decision_id (new_authorization E now sender packet i n) = i"
  "az_state (new_authorization E now sender packet i n) = decided_state n"
  "az_max_uses (new_authorization E now sender packet i n) = decided_uses n"
  "az_sender (new_authorization E now sender packet i n) = sender"
  "az_human (new_authorization E now sender packet i n) = str_field n ''human_id''"
  "az_device (new_authorization E now sender packet i n) = str_field n ''device_node_id''"
  by (simp_all add: new_authorization_def)

lemma change_activate:
  assumes inv: "approval_inv s" and uses: "0 \<le> decided_uses n \<and> decided_uses n \<le> 100"
    and run: "activate_body E current gid owner token sender n h s = Inr (s', out)"
  shows "approval_change s s'"
  using run
proof (rule activate_body_Inr)
  fix d i live s1
  assume req: "map_option rq_hash (find_request s (str_field n ''request_id'')) = Some h"
    and enter: "enter_authorization E current sender (ib_packet i) n s = Inr (s1, ac_activated out)"
    and s': "s' = s1\<lparr>ap_core := ack_where (owned_lease gid owner token) current (ap_core s1)\<rparr>"
  note e = enter_authorization_Inr [OF enter]
  show ?thesis
  proof (cases "ac_activated out")
    case True
    with e obtain did where none: "find_authorization s (str_field n ''request_id'') = None"
      and new: "\<forall>b\<in>set (ap_authorizations s). az_decision_id b \<noteq> did \<and>
          az_nonce_key b \<noteq> az_nonce_key (new_authorization E current sender (ib_packet i) did n)"
      and s1: "s1 = s\<lparr>ap_authorizations := ap_authorizations s @ [new_authorization E current sender (ib_packet i) did n]\<rparr>"
      by auto
    have "approval_change s (s\<lparr>ap_authorizations := ap_authorizations s @ [new_authorization E current sender (ib_packet i) did n],
        ap_core := ack_where (owned_lease gid owner token) current (ap_core s)\<rparr>)"
      by (rule approval_change.decided) (use req none new uses store_inv_ack [OF approval_invD(1) [OF inv]] in auto)
    then show ?thesis unfolding s' s1 by simp
  next
    case False
    with e have "s1 = s" by simp
    then show ?thesis unfolding s' using store_inv_ack [OF approval_invD(1) [OF inv]] by (simp add: approval_change.core)
  qed
qed

lemma settle_effect_body_Inr:
  assumes "settle_effect_body current ra k token st res err s = Inr (s', row)"
  shows "(\<exists>e\<in>set (ap_effects s). effect_key e = k \<and> ef_token e = token \<and> ef_state e = EfWorking)
    \<and> s' = s\<lparr>ap_effects := update_where (\<lambda>e. effect_key e = k) (settled_effect current ra st res err) (ap_effects s)\<rparr>
    \<and> row = find_effect s' k"
  using assms by (auto simp: settle_effect_body_def Let_def split: if_splits)

lemma find_effect_row: "approval_inv s \<Longrightarrow> e \<in> set (ap_effects s) \<Longrightarrow> find_effect s (effect_key e) = Some e"
  unfolding find_effect_def by (rule find_unique) (rule effects_okD(1) [OF approval_invD(4)])

lemma change_settle:
  assumes "approval_inv s" and "st \<noteq> EfWorking" and run: "settle_effect_body current ra k token st res err s = Inr (s', row)"
  shows "approval_change s s'"
proof -
  from settle_effect_body_Inr [OF run] obtain e where e: "e \<in> set (ap_effects s)" "effect_key e = k" "ef_state e = EfWorking"
    and s': "s' = s\<lparr>ap_effects := update_where (\<lambda>e. effect_key e = k) (settled_effect current ra st res err) (ap_effects s)\<rparr>"
    by blast
  show ?thesis unfolding s'
    by (rule approval_change.settled [OF _ e(3) assms(2)]) (use find_effect_row [OF assms(1) e(1)] e(2) in simp)
qed

lemma effect_settlement_state: "effect_settlement E oc res err = Inr (st, b, e) \<Longrightarrow> st \<noteq> EfWorking"
  by (auto simp: effect_settlement_def settle_outcome_def Let_def split: if_splits)

text \<open>The calls, taken apart.\<close>

lemma activate_Inr:
  assumes "activate_companion_approval C current g own t cs seen1 seen2 s = (s', Inr out)"
  obtains gid owner token sender n h where "claim_args g own t = Inr (gid, owner, token)"
    "activation_checks C current gid owner token cs seen1 seen2 = Inr (sender, n, h)"
    "activate_body (ext_of C) current gid owner token sender n h s = Inr (s', out)"
  using assms by (auto simp: activate_companion_approval_def checked_Inr transaction_Inr)

lemma begin_Inr:
  assumes "begin_companion_approval_effect C random current ra ea oa secs cs seen s = (s', Inr (item, token, acquired))"
  obtains i e owner g row where "companion_approval_id ''request_id'' ra = Inr i" "companion_approval_id ''effect_id'' ea = Inr e"
    "consumer_id ''owner'' oa = Inr owner" "effect_permission C current i cs seen = Inr g"
    "begin_effect_body (ext_of C) random current owner (lease_duration secs) i e s = Inr (s', row, token, acquired)"
    "selected_item (ext_of C) row = Inr item"
  using assms by (auto simp: begin_companion_approval_effect_def checked_Inr after_commit_Inr transaction_Inr)

lemma settle_Inr:
  assumes "settle_companion_approval_effect E current ra ea ta oc res err secs s = (s', Inr item)"
  obtains i e token st b er row where "companion_approval_id ''request_id'' ra = Inr i" "companion_approval_id ''effect_id'' ea = Inr e"
    "claim_token ta = Inr token" "effect_settlement E oc res err = Inr (st, b, er)"
    "settle_effect_body current (current + retry_duration secs) (i, e) token st b er s = Inr (s', row)" "selected_item E row = Inr item"
  using assms by (auto simp: settle_companion_approval_effect_def checked_Inr after_commit_Inr transaction_Inr)

text \<open>An operation keeps the state or commits what its body gives.\<close>

lemma change_transaction:
  assumes "approval_inv s" and "\<And>s' b. body s = Inr (s', b) \<Longrightarrow> approval_change s s'"
  shows "approval_change s (fst (transaction body s))"
  using assms approval_same by (auto simp: fst_transaction split: sum.split)

lemma change_checked:
  assumes "approval_inv s" and "\<And>a. r = Inr a \<Longrightarrow> approval_change s (fst (k a))"
  shows "approval_change s (fst (checked s r k))"
  using assms approval_same by (cases r) auto

lemma approval_step_change:
  assumes inv: "approval_inv s"
  shows "approval_change s (approval_step c s)"
proof (cases c)
  case (CoreCall d)
  show ?thesis unfolding CoreCall approval_step.simps
    by (rule approval_change.core) (rule store_inv_step [OF approval_invD(1) [OF inv]])
next
  case (RegisterApproval E now b)
  have "approval_change s (fst (transaction (register_body E now n) s))" for n
    by (rule change_transaction [OF inv]) (rule change_register [OF inv])
  then show ?thesis unfolding RegisterApproval approval_step.simps register_companion_approval_request_def
    by (rule change_checked [OF inv])
next
  case (ActivateApproval C now g own t cs s1 s2)
  have "approval_change s (fst (transaction (activate_body (ext_of C) now gid owner token sender n h) s))" if a: "activation_checks C now gid owner token cs s1 s2 = Inr (sender, n, h)" for gid owner token sender n h
  proof -
    from a obtain i where "claimed_decision (ext_of C) now gid owner token (ap_core s1) = Inr (i, n)"
      by (rule activation_checks_Inr)
    then have "decision_message (ext_of C) i = Inr n" by (rule claimed_decision_Inr)
    then have "0 \<le> decided_uses n \<and> decided_uses n \<le> 100" using decision_uses by (fastforce simp: decision_message_def)
    then show ?thesis by (intro change_transaction [OF inv]) (rule change_activate [OF inv])
  qed
  then show ?thesis unfolding ActivateApproval approval_step.simps activate_companion_approval_def
    by (intro change_checked [OF inv]) (auto split: prod.split)
next
  case (BeginEffect C rnd now i e own secs cs seen)
  have b: "approval_change s s'" if "begin_effect_body (ext_of C) rnd now owner (lease_duration secs) i e s = Inr (s', b)" for s' b owner i e
    by (cases b rule: prod_cases3) (use that change_begin [OF inv] in blast)
  have "approval_change s (fst (transaction (begin_effect_body (ext_of C) rnd now owner (lease_duration secs) i e) s))" for owner i e
    by (rule change_transaction [OF inv]) (rule b)
  then show ?thesis unfolding BeginEffect approval_step.simps begin_companion_approval_effect_def
    by (intro change_checked [OF inv]) (auto split: prod.split)
next
  case (SettleEffect E now i e t oc res err secs)
  have "approval_change s (fst (transaction (settle_effect_body now ra k token st b er) s))" if "st \<noteq> EfWorking" for ra k token st b er
    by (rule change_transaction [OF inv]) (rule change_settle [OF inv that])
  then show ?thesis unfolding SettleEffect approval_step.simps settle_companion_approval_effect_def
    by (intro change_checked [OF inv])
      (auto split: prod.split dest: effect_settlement_state)
qed

lemma approval_inv_step: "approval_inv s \<Longrightarrow> approval_inv (approval_step c s)"
  using approval_inv_change approval_step_change by blast

interpretation approving: machine empty_approvals approval_step approval_inv
  by unfold_locales (rule approval_inv_empty, rule approval_inv_step)

section \<open>What lasts\<close>

lemma find_effect_update:
  assumes "\<And>e. effect_key (f e) = effect_key e"
  shows "find_effect (s\<lparr>ap_effects := update_where (\<lambda>x. effect_key x = k) f (ap_effects s)\<rparr>) k' =
    (if k' = k then map_option f (find_effect s k) else find_effect s k')"
  using find_update_key [of effect_key f k' k "\<lambda>_. True", OF assms] by (simp add: find_effect_def)

text \<open>The life of one effect.\<close>

definition effect_view :: "string \<times> string \<Rightarrow> approvals \<Rightarrow> effect_state option" where
  "effect_view k s = map_option ef_state (find_effect s k)"

inductive effect_flow :: "effect_state option \<Rightarrow> effect_state option \<Rightarrow> bool" where
  start: "effect_flow None (Some EfWorking)"
| again: "effect_flow (Some EfRetry) (Some EfWorking)"
| finish: "st \<noteq> EfWorking \<Longrightarrow> effect_flow (Some EfWorking) (Some st)"

inductive_cases effect_flowE: "effect_flow v w"
inductive_cases effect_flow_finalE: "effect_flow (Some EfExecuted) w" "effect_flow (Some EfRejected) w"

lemma effect_view_change:
  "approval_change s s' \<Longrightarrow> approval_inv s \<Longrightarrow> effect_view k s' = effect_view k s \<or> effect_flow (effect_view k s) (effect_view k s')"
proof (induction rule: approval_change.induct)
  case (started a s e)
  then show ?case
    by (cases "effect_key e = k") (auto simp: effect_view_def find_effect_def find_append intro: effect_flow.start split: option.split)
next
  case (leased s j e token owner till now)
  have "ef_state e = EfWorking \<or> ef_state e = EfRetry" using leased.hyps(2) by (cases "ef_state e") (auto simp: effect_final_def)
  then show ?case using leased.hyps(1)
    by (auto simp: effect_view_def find_effect_update effect_flow.again)
next
  case (settled s j e st now ra res err)
  then show ?case by (auto simp: effect_view_def find_effect_update effect_flow.finish)
qed (simp_all add: effect_view_def find_effect_def)

interpretation effect_life: refinement_map empty_approvals approval_step approval_inv "effect_view k" effect_flow for k
  by unfold_locales (rule effect_view_change [OF approval_step_change])

text \<open>Authorizations are never changed, and a settled effect stays as it is.\<close>

definition authorized :: "authorization_row \<Rightarrow> approvals \<Rightarrow> bool" where
  "authorized a s = (a \<in> set (ap_authorizations s))"

definition effect_settled :: "effect_row \<Rightarrow> approvals \<Rightarrow> bool" where
  "effect_settled e s = (find_effect s (effect_key e) = Some e \<and> effect_final e)"

lemma authorized_change: "approval_change s s' \<Longrightarrow> authorized a s \<Longrightarrow> authorized a s'"
  by (induction rule: approval_change.induct) (simp_all add: authorized_def)

lemma effect_settled_change: "approval_change s s' \<Longrightarrow> effect_settled e s \<Longrightarrow> effect_settled e s'"
proof (induction rule: approval_change.induct)
  case (started a s x)
  then show ?case by (simp add: effect_settled_def find_effect_def find_append)
next
  case (leased s k x token owner till now)
  then show ?case by (auto simp: effect_settled_def find_effect_update)
next
  case (settled s k x st now ra res err)
  then show ?case by (auto simp: effect_settled_def find_effect_update effect_final_def)
qed (simp_all add: effect_settled_def find_effect_def)

interpretation authorizations: stable_machine empty_approvals approval_step approval_inv authorized
  by unfold_locales (rule authorized_change [OF approval_step_change])

interpretation settlements: stable_machine empty_approvals approval_step approval_inv effect_settled
  by unfold_locales (rule effect_settled_change [OF approval_step_change])

section \<open>Properties\<close>

text \<open>
  C31: Over all sequences of calls, with arbitrary reads before the transactions, an authorization that was entered
  stays as it is, and the effects under it that are being worked on, waiting for a retry or executed never
  exceed the uses it allows, at most one hundred.
\<close>
theorem approval_uses_bounded:
  assumes "approval_inv s" and "a \<in> set (ap_authorizations s)"
  shows "a \<in> set (ap_authorizations (fold approval_step cs s))
    \<and> int (count_where (reserved_use (az_request a)) (ap_effects (fold approval_step cs s))) \<le> az_max_uses a \<and> az_max_uses a \<le> 100"
proof -
  have inv: "approval_inv (fold approval_step cs s)" by (rule approving.inv_run [OF assms(1)])
  have a: "a \<in> set (ap_authorizations (fold approval_step cs s))"
    using authorizations.fact_run [OF assms(1)] assms(2) by (simp add: authorized_def)
  with effects_okD(5) [OF approval_invD(4) [OF inv] a] approval_inv_rest(4) [OF inv a] show ?thesis by simp
qed

text \<open>
  C32: The recorded state of an effect moves only along its life cycle, whatever the calls and the reads before them:
  from nothing to working, from working to retry, executed or rejected, and from retry back to working.
\<close>
theorem effect_life_refines_flow:
  "effect_flow\<^sup>*\<^sup>* (effect_view k (fold approval_step cs empty_approvals)) (effect_view k (fold approval_step ds (fold approval_step cs empty_approvals)))"
  by (rule effect_life.view_run [OF approving.inv_reachable])

lemma selected_item_Inr: "selected_item E row = Inr item \<Longrightarrow> \<exists>e. row = Some e \<and> companion_effect_item E e = Inr item"
  by (auto simp: selected_item_def split: option.splits)

lemma item_fields:
  "companion_effect_item E e = Inr item \<Longrightarrow> ei_request item = ef_request e \<and> ei_effect item = ef_effect e \<and> ei_state item = ef_state e
     \<and> ei_lease_until_ms item = ef_lease_until_ms e"
  by (auto simp: companion_effect_item_def)

text \<open>
  C33: When an effect was settled as executed or rejected, over all later calls whoever begins it again, with any
  control store and whatever was read before, is told the same final state and is neither given the effect nor a token.
\<close>
theorem settled_effect_not_repeated:
  assumes "approval_inv s" and "settle_companion_approval_effect E now ra ea ta oc res err secs s = (s1, Inr item)"
    and "ei_state item \<noteq> EfRetry"
    and "begin_companion_approval_effect C rnd now' ra ea oa secs' cs seen (fold approval_step calls s1) = (s2, Inr (item', token, acquired))"
  shows "\<not> acquired \<and> token = '''' \<and> ei_state item' = ei_state item \<and> s2 = fold approval_step calls s1"
proof -
  let ?t = "fold approval_step calls s1"
  from assms(2) obtain i e tok st b er row where ids: "companion_approval_id ''request_id'' ra = Inr i" "companion_approval_id ''effect_id'' ea = Inr e"
    and st: "effect_settlement E oc res err = Inr (st, b, er)"
    and body: "settle_effect_body now (now + retry_duration secs) (i, e) tok st b er s = Inr (s1, row)" and item: "selected_item E row = Inr item"
    by (rule settle_Inr)
  from selected_item_Inr [OF item] obtain x where x: "row = Some x" "companion_effect_item E x = Inr item" by blast
  from settle_effect_body_Inr [OF body] x(1) have fx: "find_effect s1 (i, e) = Some x"
    and s1: "s1 = s\<lparr>ap_effects := update_where (\<lambda>e'. effect_key e' = (i, e)) (settled_effect now (now + retry_duration secs) st b er) (ap_effects s)\<rparr>"
    by simp_all
  have kx: "effect_key x = (i, e)" using find_effectD [OF fx] by simp
  have "ef_state x = st" using fx unfolding s1 find_effect_update [OF settled_effect_simps(1)] by (auto simp: map_option_case split: option.splits)
  moreover have "ei_state item = ef_state x" using item_fields [OF x(2)] by simp
  ultimately have "effect_final x"
    using assms(3) effect_settlement_state [OF st] by (cases st) (simp_all add: effect_final_def)
  then have "effect_settled x s1" using fx kx by (simp add: effect_settled_def)
  moreover have "s1 = approval_step (SettleEffect E now ra ea ta oc res err secs) s" using assms(2) by simp
  then have inv1: "approval_inv s1" by (simp only: approval_inv_step [OF assms(1)])
  ultimately have "effect_settled x ?t" by (intro settlements.fact_run)
  then have fin: "find_effect ?t (i, e) = Some x" "effect_final x" using kx by (simp_all add: effect_settled_def)
  from assms(4) obtain i' e' owner g row' where ids': "companion_approval_id ''request_id'' ra = Inr i'" "companion_approval_id ''effect_id'' ea = Inr e'"
    and body': "begin_effect_body (ext_of C) rnd now' owner (lease_duration secs') i' e' ?t = Inr (s2, row', token, acquired)"
    and item': "selected_item (ext_of C) row' = Inr item'"
    by (rule begin_Inr)
  have "i' = i" "e' = e" using ids ids' by simp_all
  with body' fin have "s2 = ?t \<and> row' = Some x \<and> token = '''' \<and> \<not> acquired"
    by (auto simp: begin_effect_body_def reacquire_effect_def Let_def split: option.splits if_splits)
  moreover from this item' have "companion_effect_item (ext_of C) x = Inr item'" by (simp add: selected_item_def)
  then have "ei_state item' = ef_state x" using item_fields by blast
  ultimately show ?thesis using \<open>ei_state item = ef_state x\<close> by simp
qed

lemma reacquire_effect_acquired:
  assumes "reacquire_effect random current owner lease_ms e s = Inr (s', row, token, True)" and "find_effect s (effect_key e) = Some e"
  shows "token = token_hex random \<and> \<not> effect_final e \<and> \<not> token_taken (effect_key e) token (ap_effects s)
    \<and> (ef_state e = EfWorking \<longrightarrow> ef_lease_until_ms e \<le> current)
    \<and> row = Some (leased_effect owner token (current + lease_ms) current e) \<and> find_effect s' (effect_key e) = row"
proof -
  have "token = token_hex random \<and> \<not> effect_final e \<and> \<not> token_taken (effect_key e) (token_hex random) (ap_effects s)
    \<and> (ef_state e = EfWorking \<longrightarrow> ef_lease_until_ms e \<le> current)
    \<and> s' = s\<lparr>ap_effects := update_where (\<lambda>x. effect_key x = effect_key e)
         (leased_effect owner (token_hex random) (current + lease_ms) current) (ap_effects s)\<rparr> \<and> row = find_effect s' (effect_key e)"
    using assms(1) by (auto simp: reacquire_effect_def Let_def split: if_splits)
  then show ?thesis using assms(2) by (auto simp: find_effect_update)
qed

lemma new_effect_simps [simp]:
  "ef_request (new_effect E i e owner token till now) = i" "effect_key (new_effect E i e owner token till now) = (i, e)"
  "ef_state (new_effect E i e owner token till now) = EfWorking" "ef_token (new_effect E i e owner token till now) = token"
  "ef_owner (new_effect E i e owner token till now) = owner" "ef_lease_until_ms (new_effect E i e owner token till now) = till"
  "ef_result (new_effect E i e owner token till now) = None"
  by (simp_all add: new_effect_def effect_key_def)

lemma insert_effect_Inr:
  assumes "insert_effect E random current owner lease_ms i e n s = Inr (s', row, token, acquired)" and "find_effect s (i, e) = None"
  shows "acquired \<and> token = token_hex random \<and> \<not> token_taken (i, e) token (ap_effects s)
    \<and> int (count_where (reserved_use i) (ap_effects s)) < n
    \<and> row = Some (new_effect E i e owner token (current + lease_ms) current) \<and> find_effect s' (i, e) = row"
proof -
  have "acquired \<and> token = token_hex random \<and> \<not> token_taken (i, e) (token_hex random) (ap_effects s)
    \<and> int (count_where (reserved_use i) (ap_effects s)) < n
    \<and> s' = s\<lparr>ap_effects := ap_effects s @ [new_effect E i e owner (token_hex random) (current + lease_ms) current]\<rparr>
    \<and> row = find_effect s' (i, e)"
    using assms(1) by (auto simp: insert_effect_def Let_def)
  then show ?thesis using assms(2) by (auto simp: find_effect_def find_append)
qed

lemma leased_effect_fields [simp]:
  "ef_owner (leased_effect owner token till now e) = owner" "ef_lease_until_ms (leased_effect owner token till now e) = till"
  by (simp_all add: leased_effect_def)

text \<open>An acquired effect: the row is working for the caller under the new token, which no other effect has.\<close>

lemma begin_effect_acquired:
  assumes "begin_effect_body E random current owner lease_ms i e s = Inr (s', row, token, True)"
  shows "\<exists>x a. row = Some x \<and> find_effect s' (i, e) = Some x \<and> effect_key x = (i, e) \<and> ef_state x = EfWorking \<and> ef_token x = token
    \<and> ef_owner x = owner \<and> ef_lease_until_ms x = current + lease_ms \<and> token = token_hex random \<and> \<not> token_taken (i, e) token (ap_effects s)
    \<and> active_authorization s i = Some a \<and> current < az_grant_expires_ms a
    \<and> (case find_effect s (i, e) of None \<Rightarrow> int (count_where (reserved_use i) (ap_effects s)) < az_max_uses a
       | Some y \<Rightarrow> \<not> effect_final y \<and> (ef_state y = EfWorking \<longrightarrow> ef_lease_until_ms y \<le> current))"
  using assms
proof (rule begin_effect_body_Inr)
  fix a y assume a: "active_authorization s i = Some a" "current < az_grant_expires_ms a" and y: "find_effect s (i, e) = Some y"
    and run: "reacquire_effect random current owner lease_ms y s = Inr (s', row, token, True)"
  have k: "effect_key y = (i, e)" using find_effectD [OF y] by simp
  have "find_effect s (effect_key y) = Some y" using y k by simp
  note acq = reacquire_effect_acquired [OF run this, unfolded k]
  have "token = token_hex random" using acq by blast
  moreover from acq have "\<not> effect_final y \<and> \<not> token_taken (i, e) token (ap_effects s)
      \<and> (ef_state y = EfWorking \<longrightarrow> ef_lease_until_ms y \<le> current)
      \<and> row = Some (leased_effect owner token (current + lease_ms) current y) \<and> find_effect s' (i, e) = row" by blast
  ultimately show ?thesis using a y k
    by (intro exI [of _ "leased_effect owner token (current + lease_ms) current y"] exI [of _ a]) (simp del: token_hex_inj)
next
  fix a assume a: "active_authorization s i = Some a" "current < az_grant_expires_ms a" and y: "find_effect s (i, e) = None"
    and run: "insert_effect E random current owner lease_ms i e (az_max_uses a) s = Inr (s', row, token, True)"
  note acq = insert_effect_Inr [OF run y]
  have "token = token_hex random" using acq by blast
  moreover from acq have "\<not> token_taken (i, e) token (ap_effects s) \<and> int (count_where (reserved_use i) (ap_effects s)) < az_max_uses a
      \<and> row = Some (new_effect E i e owner token (current + lease_ms) current) \<and> find_effect s' (i, e) = row" by blast
  ultimately show ?thesis using a y
    by (intro exI [of _ "new_effect E i e owner token (current + lease_ms) current"] exI [of _ a]) (simp del: token_hex_inj)
qed

lemma require_approval_grant_Inr:
  "require_approval_grant C current human device cs = Inr g \<longleftrightarrow> is_human_device_revoked human device cs = Inr False
     \<and> human_device_grant C current current human device cs = Inr (Some g) \<and> ''approval.sign'' \<in> set (gr_capabilities g)"
  by (auto simp: require_approval_grant_def split: sum.splits exn.splits option.splits)

lemma effect_permission_Inr:
  "effect_permission C current i cs seen = Inr g \<longleftrightarrow> (\<exists>a. active_authorization seen i = Some a \<and> current < az_grant_expires_ms a
     \<and> require_approval_grant C current (az_human a) (az_device a) cs = Inr g)"
  by (auto simp: effect_permission_def not_le split: option.splits)


text \<open>
  C35: After a human's revocation of a device was accepted by the control-plane store, then whatever else that store
  is offered, no effect is handed out under any authorization of that human and device: beginning raises and
  changes nothing.
\<close>
theorem revoked_device_begins_nothing:
  assumes "control_inv C cs" and "accept_human_revocation C rnow v d cs = (cs1, Inr True)"
    and "active_authorization seen i = Some a" and "az_human a = rv_human_id v" and "az_device a = rv_device v"
    and "companion_approval_id ''request_id'' ra = Inr i"
  shows "\<exists>e. begin_companion_approval_effect C random now ra ea oa secs (fold (control_step C) calls cs1) seen s = (s, Inl e)"
proof -
  obtain row where rev: "is_human_device_revoked (rv_human_id v) (rv_device v) (fold (control_step C) calls cs1) = Inr True"
    using assms(1,2) by (rule revoked_forever)
  have "\<exists>x. effect_permission C now i (fold (control_step C) calls cs1) seen = Inl x"
    using assms(3-5) rev by (simp add: effect_permission_def require_approval_grant_def)
  then obtain x where x: "effect_permission C now i (fold (control_step C) calls cs1) seen = Inl x" by blast
  show ?thesis unfolding begin_companion_approval_effect_def assms(6) and_then_simps
    by (cases "companion_approval_id ''effect_id'' ea"; cases "consumer_id ''owner'' oa") (simp_all add: x)
qed

text \<open>
  C36: An effect that is due is handed out.  When the authorization is active and unexpired, the device is not
  revoked and has a current grant to sign approvals, and the effect is new with a use left, or its lease has run
  out, or its retry is due, then beginning it succeeds: the caller gets a fresh token and the effect is working for
  it until the end of the lease.
\<close>
theorem due_effect_acquired:
  assumes ids: "companion_approval_id ''request_id'' ra = Inr i" "companion_approval_id ''effect_id'' ea = Inr e"
      "consumer_id ''owner'' oa = Inr owner"
    and auth: "active_authorization s i = Some a" "now < az_grant_expires_ms a"
    and grant: "is_human_device_revoked (az_human a) (az_device a) cs = Inr False"
      "human_device_grant C now now (az_human a) (az_device a) cs = Inr (Some g)" "''approval.sign'' \<in> set (gr_capabilities g)"
    and token: "\<not> token_taken (i, e) (token_hex random) (ap_effects s)"
    and due: "case find_effect s (i, e) of
        None \<Rightarrow> int (count_where (reserved_use i) (ap_effects s)) < az_max_uses a
          \<and> \<not> exists_where (\<lambda>x. ef_idempotency x = idempotency_key (ext_of C) i e) (ap_effects s)
      | Some x \<Rightarrow> ef_result x = None \<and> (ef_state x = EfWorking \<and> ef_lease_until_ms x \<le> now \<or> ef_state x = EfRetry \<and> ef_retry_after_ms x \<le> now)"
  shows "\<exists>s' item. begin_companion_approval_effect C random now ra ea oa secs cs s s = (s', Inr (item, token_hex random, True))
    \<and> (\<exists>x. find_effect s' (i, e) = Some x \<and> ef_state x = EfWorking \<and> ef_owner x = owner \<and> ef_token x = token_hex random
         \<and> ef_lease_until_ms x = now + lease_duration secs)"
proof -
  have perm: "effect_permission C now i cs s = Inr g" using auth grant by (simp add: effect_permission_Inr require_approval_grant_Inr)
  have "\<exists>s' x. begin_effect_body (ext_of C) random now owner (lease_duration secs) i e s = Inr (s', Some x, token_hex random, True)
      \<and> find_effect s' (i, e) = Some x \<and> ef_state x = EfWorking \<and> ef_owner x = owner \<and> ef_token x = token_hex random
      \<and> ef_lease_until_ms x = now + lease_duration secs \<and> ef_result x = None"
  proof (cases "find_effect s (i, e)")
    case None
    let ?x = "new_effect (ext_of C) i e owner (token_hex random) (now + lease_duration secs) now"
    let ?s = "s\<lparr>ap_effects := ap_effects s @ [?x]\<rparr>"
    have "find_effect ?s (i, e) = Some ?x" using None by (simp add: find_effect_def find_append)
    moreover have "ef_idempotency ?x = idempotency_key (ext_of C) i e" by (simp add: new_effect_def)
    ultimately have "begin_effect_body (ext_of C) random now owner (lease_duration secs) i e s = Inr (?s, Some ?x, token_hex random, True)"
      using due token None auth by (auto simp: begin_effect_body_def insert_effect_def Let_def not_le)
    then show ?thesis using \<open>find_effect ?s (i, e) = Some ?x\<close> by (intro exI [of _ ?s] exI [of _ ?x]) simp
  next
    case (Some y)
    let ?f = "leased_effect owner (token_hex random) (now + lease_duration secs) now"
    let ?s = "s\<lparr>ap_effects := update_where (\<lambda>x. effect_key x = (i, e)) ?f (ap_effects s)\<rparr>"
    have k: "effect_key y = (i, e)" using find_effectD [OF Some] by simp
    have f: "find_effect ?s (i, e) = Some (?f y)" using Some by (simp add: find_effect_update)
    have st: "ef_state y = EfWorking \<and> ef_lease_until_ms y \<le> now \<or> ef_state y = EfRetry \<and> ef_retry_after_ms y \<le> now" "ef_result y = None"
      using due Some by simp_all
    then have "reacquire_effect random now owner (lease_duration secs) y s = Inr (?s, find_effect ?s (i, e), token_hex random, True)"
      using token by (auto simp: reacquire_effect_def k Let_def effect_final_def)
    then have "begin_effect_body (ext_of C) random now owner (lease_duration secs) i e s = Inr (?s, Some (?f y), token_hex random, True)"
      using auth Some f by (simp add: begin_effect_body_def)
    moreover have "ef_result (?f y) = None" using st(2) by (simp add: leased_effect_def)
    ultimately show ?thesis using f by (intro exI [of _ ?s] exI [of _ "?f y"]) simp
  qed
  then obtain s' x where b: "begin_effect_body (ext_of C) random now owner (lease_duration secs) i e s = Inr (s', Some x, token_hex random, True)"
    and x: "find_effect s' (i, e) = Some x" "ef_state x = EfWorking" "ef_owner x = owner" "ef_token x = token_hex random"
      "ef_lease_until_ms x = now + lease_duration secs" "ef_result x = None" by blast
  obtain item where "selected_item (ext_of C) (Some x) = Inr item" using x(6) by (simp add: selected_item_def companion_effect_item_def)
  with b have "begin_companion_approval_effect C random now ra ea oa secs cs s s = (s', Inr (item, token_hex random, True))"
    by (simp add: begin_companion_approval_effect_def ids perm transaction_def after_commit_def)
  with x show ?thesis by (intro exI conjI)
qed

text \<open>
  Fencing.  Once a worker acquired an effect under a token, a settlement of that effect with any other token,
  such as one of an earlier lease, raises and changes nothing.
\<close>
theorem stale_effect_token_fenced:
  assumes "approval_inv s" and "begin_companion_approval_effect C random now ra ea oa secs cs seen s = (s1, Inr (item, token, True))"
    and "claim_token ta = Inr other" and "other \<noteq> token"
  shows "\<exists>e. settle_companion_approval_effect E now' ra ea ta oc res err secs' s1 = (s1, Inl e)"
  using assms(2)
proof (rule begin_Inr)
  fix i e owner g row
  assume ids: "companion_approval_id ''request_id'' ra = Inr i" "companion_approval_id ''effect_id'' ea = Inr e"
    and body: "begin_effect_body (ext_of C) random now owner (lease_duration secs) i e s = Inr (s1, row, token, True)"
  from begin_effect_acquired [OF body] obtain x where x: "find_effect s1 (i, e) = Some x" "ef_token x = token" by blast
  have inv1: "approval_inv s1" using change_begin [OF assms(1) body] assms(1) by (rule approval_inv_change)
  have "\<not> (\<exists>y\<in>set (ap_effects s1). effect_key y = (i, e) \<and> ef_token y = other \<and> ef_state y = EfWorking)"
    using effect_unique [OF inv1 x(1)] x(2) assms(4) by blast
  then have fail: "settle_effect_body now' (now' + retry_duration secs') (i, e) other st b er s1
      = Inl (ValueError ''approval execution token is stale or fenced'')" for st b er
    unfolding settle_effect_body_def Let_def exists_where_iff by (rule if_not_P)
  show ?thesis
  proof (cases "effect_settlement E oc res err")
    case (Inr r)
    obtain st b er where "r = (st, b, er)" by (cases r)
    then show ?thesis
      by (simp add: settle_companion_approval_effect_def ids assms(3) Inr transaction_def fail after_commit_def)
  qed (simp add: settle_companion_approval_effect_def ids assms(3))
qed

lemma find_authorization_row: "approval_inv s \<Longrightarrow> a \<in> set (ap_authorizations s) \<Longrightarrow> find_authorization s (az_request a) = Some a"
  unfolding find_authorization_def by (rule find_unique) (rule approval_invD(3))

lemma activate_authorization:
  assumes "approval_inv s" and "activate_body E current gid owner token sender n h s = Inr (s', out)"
  shows "ac_request out = str_field n ''request_id'' \<and> (\<exists>a. find_authorization s' (ac_request out) = Some a
      \<and> az_hash a = companion_approval_hash E n \<and> az_sender a = sender)
    \<and> (ac_activated out \<longrightarrow> find_authorization s (ac_request out) = None)
    \<and> (\<not> ac_activated out \<longrightarrow> ap_authorizations s' = ap_authorizations s)
    \<and> map_option rq_hash (find_request s (ac_request out)) = Some h"
  using assms(2)
proof (rule activate_body_Inr)
  fix d i live s1
  assume req: "map_option rq_hash (find_request s (str_field n ''request_id'')) = Some h"
    and enter: "enter_authorization E current sender (ib_packet i) n s = Inr (s1, ac_activated out)"
    and s': "s' = s1\<lparr>ap_core := ack_where (owned_lease gid owner token) current (ap_core s1)\<rparr>"
    and out: "out = \<lparr>ac_request = str_field n ''request_id'', ac_decision_id = dict_get n ''decision_id'' PNone,
       ac_state = decided_state n, ac_activated = ac_activated out, ac_max_uses = decided_uses n, ac_grant_expires_ms = grant_expiry n\<rparr>"
  have rid: "ac_request out = str_field n ''request_id''" by (subst out) simp
  note e = enter_authorization_Inr [OF enter]
  have same: "find_authorization s' j = find_authorization s1 j" "ap_authorizations s' = ap_authorizations s1" for j
    unfolding s' find_authorization_def by simp_all
  show ?thesis
  proof (cases "ac_activated out")
    case True
    with e obtain did where none: "find_authorization s (str_field n ''request_id'') = None"
      and s1: "s1 = s\<lparr>ap_authorizations := ap_authorizations s @ [new_authorization E current sender (ib_packet i) did n]\<rparr>"
      by auto
    have "find_authorization s1 (str_field n ''request_id'') = Some (new_authorization E current sender (ib_packet i) did n)"
      using none unfolding s1 by (simp add: find_authorization_def find_append)
    then show ?thesis using True none req unfolding rid same by (simp add: new_authorization_def)
  next
    case False
    with e have "s1 = s" "\<exists>a. find_authorization s (str_field n ''request_id'') = Some a \<and> az_hash a = companion_approval_hash E n \<and> az_sender a = sender"
      by simp_all
    then show ?thesis using False req unfolding rid same by simp
  qed
qed

lemma decision_message_valid:
  assumes "decision_message E i = Inr n"
  shows "validate_approval_decision E (PDict n) = Inr n"
proof -
  have "kind_of_text (lower (strip ''companion.approval.decision'')) = Some ApprovalDecision" by code_simp
  then obtain b where "validate_approval_decision E b = Inr n"
    using assms by (auto simp: decision_message_def validate_companion_message_def validate_kind_def)
  then show ?thesis by (simp add: validate_approval_decision_def decision.idempotent)
qed

lemma request_message_valid:
  assumes "validate_companion_message E ''companion.approval.request'' b = Inr q"
  shows "validate_approval_request E (PDict q) = Inr q"
proof -
  have "kind_of_text (lower (strip ''companion.approval.request'')) = Some ApprovalRequest" by code_simp
  then have "validate_approval_request E b = Inr q"
    using assms by (simp add: validate_companion_message_def validate_kind_def)
  then show ?thesis by (simp add: validate_approval_request_def request.idempotent)
qed

lemma binding_idem:
  assumes "validate_approval_request E (PDict q) = Inr q" "validate_approval_decision E (PDict n) = Inr n"
    and "validate_approval_decision_binding E (PDict q) (PDict n) = Inr d"
  shows "\<forall>k\<in>set binding_fields. dict_get n k PNone = dict_get q k PNone"
  using assms(3)
proof (rule binding_Inr)
  fix r assume "validate_approval_request E (PDict q) = Inr r" "validate_approval_decision E (PDict n) = Inr d"
    and c: "checks (map (\<lambda>k. require (dict_get d k PNone = dict_get r k PNone)
         (''approval decision does not match request '' @ k)) binding_fields) = Inr ()"
  then have "r = q" "d = n" using assms(1,2) by simp_all
  with c show ?thesis by (simp only: checks_all require_Inr)
qed

text \<open>
  C37: A request is decided once.  After a decision was activated for a request, then over all later calls an
  activation for the same request enters nothing: it is the same decision again or it raises.
\<close>
theorem request_decided_once:
  assumes "approval_inv s" and "activate_companion_approval C now g own t cs seen1 seen2 s = (s1, Inr out)"
    and "activate_companion_approval C' now' g' own' t' cs' seen3 seen4 (fold approval_step calls s1) = (s2, Inr out')"
    and "ac_request out' = ac_request out"
  shows "\<not> ac_activated out' \<and> ap_authorizations s2 = ap_authorizations (fold approval_step calls s1)"
proof -
  let ?t = "fold approval_step calls s1"
  have s1: "s1 = fst (activate_companion_approval C now g own t cs seen1 seen2 s)" using assms(2) by simp
  from assms(2) obtain gid owner token sender n h where chk: "activation_checks C now gid owner token cs seen1 seen2 = Inr (sender, n, h)"
    and b: "activate_body (ext_of C) now gid owner token sender n h s = Inr (s1, out)" by (rule activate_Inr)
  from activate_authorization [OF assms(1) b] obtain a where a: "find_authorization s1 (ac_request out) = Some a" by blast
  then have a1: "a \<in> set (ap_authorizations s1)" "az_request a = ac_request out" by (auto simp: find_authorization_def dest: find_SomeD)
  from chk obtain i where "claimed_decision (ext_of C) now gid owner token (ap_core seen1) = Inr (i, n)" by (rule activation_checks_Inr)
  then have "decision_message (ext_of C) i = Inr n" by (rule claimed_decision_Inr)
  then have "0 \<le> decided_uses n \<and> decided_uses n \<le> 100" using decision_uses by (fastforce simp: decision_message_def)
  from change_activate [OF assms(1) this b] have inv1: "approval_inv s1" using assms(1) by (rule approval_inv_change)
  have inv: "approval_inv ?t" by (rule approving.inv_run [OF inv1])
  have "a \<in> set (ap_authorizations ?t)" using authorizations.fact_run [OF inv1] a1(1) by (simp add: authorized_def)
  from find_authorization_row [OF inv this] have at: "find_authorization ?t (ac_request out') = Some a" using a1(2) assms(4) by simp
  from assms(3) obtain gid' owner' token' sender' n' h' where "activate_body (ext_of C') now' gid' owner' token' sender' n' h' ?t = Inr (s2, out')"
    by (rule activate_Inr)
  from activate_authorization [OF inv this] at show ?thesis by auto
qed


section \<open>An example\<close>

text \<open>
  A request is registered, and its decision waits in two messages under claims of one worker; the device is
  granted in the control-plane store.  The decoder knows the two bodies.
\<close>

abbreviation ap_id :: string where "ap_id \<equiv> cmp_hex32 CHR ''a''"
abbreviation ap_effect_id :: string where "ap_effect_id \<equiv> cmp_hex32 CHR ''1''"

definition ap_decoder :: "bytes \<Rightarrow> exn + pyval" where
  "ap_decoder b = (if b = [1] then Inr (PDict (cmp_request ap_id)) else if b = [2] then Inr (PDict (cmp_decision ap_id)) else Inr PNone)"

abbreviation ap_env :: control_env where "ap_env \<equiv> demo_env ap_decoder"
abbreviation ap_control :: control_store where "ap_control \<equiv> demo_granted ap_decoder"

definition ap_hash :: string where "ap_hash = hex_of_bytes (replicate 32 1)"

definition ap_message :: "string \<Rightarrow> int \<Rightarrow> inbox_row" where
  "ap_message p n = demo_row\<lparr>ib_rowid := n, ib_packet := p, ib_sender := demo_device_id, ib_kind := ''companion.approval.decision'',
     ib_body := [2], ib_trusted := True\<rparr>"

definition ap_store :: store where
  "ap_store = empty_store\<lparr>t_inbox := [ap_message ''p'' 1, ap_message ''q'' 2],
     t_claims := [demo_claim_row ''p'' CHR ''1'', demo_claim_row ''q'' CHR ''2'']\<rparr>"

definition ap_request_row :: request_row where
  "ap_request_row = \<lparr>rq_id = ap_id, rq_human = demo_human_id, rq_device = demo_device_id, rq_nonce = cmp_hex32 CHR ''1'',
     rq_hash = ap_hash, rq_body = [1], rq_created_ms = 1000, rq_expires_ms = 3000, rq_registered_ms = 1000\<rparr>"

definition ap_waiting :: approvals where
  "ap_waiting = \<lparr>ap_core = ap_store, ap_requests = [ap_request_row], ap_authorizations = [], ap_effects = []\<rparr>"

definition ap_authorization :: authorization_row where
  "ap_authorization = \<lparr>az_request = ap_id, az_decision_id = cmp_hex32 CHR ''2'', az_packet = ''p'', az_hash = ap_hash,
     az_sender = demo_device_id, az_human = demo_human_id, az_device = demo_device_id, az_nonce = cmp_hex32 CHR ''1'',
     az_decision = ''approved'', az_state = AuthActive, az_max_uses = 1, az_grant_expires_ms = 5000, az_activated_ms = 2000\<rparr>"

definition ap_active :: approvals where
  "ap_active = ap_waiting\<lparr>ap_core := ack_where (owned_lease ''g'' ''w'' (demo_token CHR ''1'')) 2000 ap_store,
     ap_authorizations := [ap_authorization]\<rparr>"

lemma store_inv_ap_store: "store_inv ap_store"
  by (simp add: store_inv_def ap_store_def packet_inv_def prekey_inv_def inbox_inv_def consumer_inv_def claims_ok_def task_inv_def
      tasks_ok_def path_inv_def empty_store_def unique_key_def demo_claim_row_def claim_key_def demo_token_def ap_message_def
      replicate_eq_replicate)

lemma ap_waiting_inv: "approval_inv ap_waiting"
  by (simp add: approval_inv_def ap_waiting_def store_inv_ap_store effects_ok_def unique_key_def)

lemma ap_active_inv: "approval_inv ap_active"
  by (simp add: approval_inv_def ap_active_def ap_waiting_def store_inv_ack store_inv_ap_store effects_ok_def unique_key_def
      ap_authorization_def ap_request_row_def count_where_def)

lemma ap_control_inv: "control_inv ap_env ap_control"
  by (rule demo_inv)

lemma ap_grant_ok: "require_approval_grant ap_env 2000 demo_human_id demo_device_id ap_control = Inr demo_grant"
proof -
  have "is_human_device_revoked demo_human_id demo_device_id ap_control = Inr False"
    by (simp add: is_human_device_revoked_def demo_row check_human_id_def check_node_id_def demo_id_match require_def)
  moreover have "''approval.sign'' \<in> set (gr_capabilities demo_grant)" by (simp add: demo_grant_def)
  ultimately show ?thesis unfolding require_approval_grant_Inr using demo_reported by blast
qed

theorem approval_uses_bounded_witness:
  "int (count_where (reserved_use (az_request ap_authorization))
     (ap_effects (fold approval_step [BeginEffect ap_env 7 2000 ap_id ap_effect_id ''w'' 60 ap_control ap_active] ap_active))) \<le> az_max_uses ap_authorization"
proof -
  have "ap_authorization \<in> set (ap_authorizations ap_active)" by (simp add: ap_active_def)
  from approval_uses_bounded [OF ap_active_inv this] show ?thesis by blast
qed

lemma ap_ids:
  "companion_approval_id ''request_id'' ap_id = Inr ap_id" "companion_approval_id ''effect_id'' ap_effect_id = Inr ap_effect_id"
  "consumer_id ''owner'' ''w'' = Inr ''w''"
  by (simp add: companion_approval_id_def Let_def, simp add: companion_approval_id_def Let_def, code_simp)

lemma ap_active_find: "active_authorization ap_active ap_id = Some ap_authorization" "find_effect ap_active k = None"
  by (simp_all add: active_authorization_def ap_active_def ap_waiting_def ap_authorization_def find_effect_def)

text \<open>The first effect, acquired and then executed.\<close>

definition ap_first :: effect_row where
  "ap_first = new_effect (ext_of ap_env) ap_id ap_effect_id ''w'' (token_hex 7) (2000 + lease_duration 60) 2000"

definition ap_working :: approvals where
  "ap_working = ap_active\<lparr>ap_effects := [ap_first]\<rparr>"

lemma ap_uses: "az_max_uses ap_authorization = 1" "az_grant_expires_ms ap_authorization = 5000"
  "az_human ap_authorization = demo_human_id" "az_device ap_authorization = demo_device_id"
  by (simp_all add: ap_authorization_def)

lemma ap_begin: "\<exists>item. begin_companion_approval_effect ap_env 7 2000 ap_id ap_effect_id ''w'' 60 ap_control ap_active ap_active
    = (ap_working, Inr (item, token_hex 7, True))"
proof -
  have perm: "effect_permission ap_env 2000 ap_id ap_control ap_active = Inr demo_grant"
    unfolding effect_permission_Inr by (intro exI [of _ ap_authorization]) (simp add: ap_active_find ap_uses ap_grant_ok)
  have none: "ap_effects ap_active = []" by (simp add: ap_active_def ap_waiting_def)
  have "find_effect ap_working (ap_id, ap_effect_id) = Some ap_first"
    by (simp add: find_effect_def ap_working_def ap_first_def)
  then have "begin_effect_body (ext_of ap_env) 7 2000 ''w'' (lease_duration 60) ap_id ap_effect_id ap_active
      = Inr (ap_working, Some ap_first, token_hex 7, True)"
    by (simp add: begin_effect_body_def ap_active_find ap_uses insert_effect_def none count_where_def token_taken_def Let_def
        flip: ap_first_def ap_working_def)
  moreover have "\<exists>item. selected_item (ext_of ap_env) (Some ap_first) = Inr item"
    by (simp add: selected_item_def companion_effect_item_def ap_first_def)
  ultimately show ?thesis
    by (auto simp: begin_companion_approval_effect_def ap_ids perm transaction_def after_commit_def)
qed


theorem revoked_device_begins_nothing_witness:
  "\<exists>e. begin_companion_approval_effect ap_env 7 2000 ap_id ap_effect_id ''w'' 60
     (fold (control_step ap_env) [AcceptGrant 5000 demo_grant demo_device] (put_revocation ap_env demo_revocation ap_control)) ap_active ap_active
     = (ap_active, Inl e)"
proof (rule revoked_device_begins_nothing [OF ap_control_inv demo_device_revoke ap_active_find(1)])
  show "az_human ap_authorization = rv_human_id demo_revocation" "az_device ap_authorization = rv_device demo_revocation"
    by (simp_all add: ap_uses demo_revocation_def)
qed (rule ap_ids)

theorem due_effect_acquired_witness:
  "\<exists>s' item. begin_companion_approval_effect ap_env 7 2000 ap_id ap_effect_id ''w'' 60 ap_control ap_active ap_active
     = (s', Inr (item, token_hex 7, True))"
proof -
  have none: "ap_effects ap_active = []" by (simp add: ap_active_def ap_waiting_def)
  have grant: "is_human_device_revoked (az_human ap_authorization) (az_device ap_authorization) ap_control = Inr False"
    "human_device_grant ap_env 2000 2000 (az_human ap_authorization) (az_device ap_authorization) ap_control = Inr (Some demo_grant)"
    "''approval.sign'' \<in> set (gr_capabilities demo_grant)"
    using ap_grant_ok unfolding ap_uses require_approval_grant_Inr by blast+
  have due: "2000 < az_grant_expires_ms ap_authorization"
    "\<not> token_taken (ap_id, ap_effect_id) (token_hex 7) (ap_effects ap_active)"
    "case find_effect ap_active (ap_id, ap_effect_id) of
        None \<Rightarrow> int (count_where (reserved_use ap_id) (ap_effects ap_active)) < az_max_uses ap_authorization
          \<and> \<not> exists_where (\<lambda>x. ef_idempotency x = idempotency_key (ext_of ap_env) ap_id ap_effect_id) (ap_effects ap_active)
      | Some x \<Rightarrow> ef_result x = None \<and> (ef_state x = EfWorking \<and> ef_lease_until_ms x \<le> 2000 \<or> ef_state x = EfRetry \<and> ef_retry_after_ms x \<le> 2000)"
    by (simp_all add: ap_uses token_taken_def none ap_active_find(2) count_where_def)
  show ?thesis using due_effect_acquired [OF ap_ids ap_active_find(1) due(1) grant due(2,3)] by blast
qed

lemma ap_working_inv: "approval_inv ap_working"
proof -
  obtain item where "begin_companion_approval_effect ap_env 7 2000 ap_id ap_effect_id ''w'' 60 ap_control ap_active ap_active
    = (ap_working, Inr (item, token_hex 7, True))" using ap_begin by blast
  then have "approval_step (BeginEffect ap_env 7 2000 ap_id ap_effect_id ''w'' 60 ap_control ap_active) ap_active = ap_working" by simp
  from approval_inv_step [OF ap_active_inv, of "BeginEffect ap_env 7 2000 ap_id ap_effect_id ''w'' 60 ap_control ap_active", unfolded this]
  show ?thesis .
qed

lemma ap_tokens: "claim_token (cmp_hex32 CHR ''2'') = Inr (cmp_hex32 CHR ''2'')" "claim_token (token_hex 7) = Inr (token_hex 7)"
  "cmp_hex32 CHR ''2'' \<noteq> token_hex 7"
  by (simp add: claim_token_def Let_def, code_simp, code_simp)

theorem stale_effect_token_fenced_witness:
  "\<exists>e. settle_companion_approval_effect (ext_of ap_env) 2500 ap_id ap_effect_id (cmp_hex32 CHR ''2'') ''executed'' PNone [] 0 ap_working
     = (ap_working, Inl e)"
proof -
  obtain item where "begin_companion_approval_effect ap_env 7 2000 ap_id ap_effect_id ''w'' 60 ap_control ap_active ap_active
    = (ap_working, Inr (item, token_hex 7, True))" using ap_begin by blast
  from stale_effect_token_fenced [OF ap_active_inv this ap_tokens(1,3)] show ?thesis .
qed

definition ap_done_row :: effect_row where
  "ap_done_row = settled_effect 2500 (2500 + retry_duration 0) EfExecuted None [] ap_first"

definition ap_done :: approvals where
  "ap_done = ap_active\<lparr>ap_effects := [ap_done_row]\<rparr>"

lemma ap_done_find: "find_effect ap_done (ap_id, ap_effect_id) = Some ap_done_row" "ef_result ap_done_row = None" "ef_state ap_done_row = EfExecuted"
  by (simp_all add: find_effect_def ap_done_def ap_done_row_def ap_first_def, simp add: settled_effect_def Let_def)

lemma ap_settle: "\<exists>item. settle_companion_approval_effect (ext_of ap_env) 2500 ap_id ap_effect_id (token_hex 7) ''executed'' PNone [] 0 ap_working
    = (ap_done, Inr item) \<and> ei_state item = EfExecuted"
proof -
  have "lower (strip ''executed'') = ''executed''" by code_simp
  then have set: "effect_settlement (ext_of ap_env) ''executed'' PNone [] = Inr (EfExecuted, None, [])"
    by (simp add: effect_settlement_def settle_outcome_def Let_def)
  have "ap_working\<lparr>ap_effects := update_where (\<lambda>e. effect_key e = (ap_id, ap_effect_id))
      (settled_effect 2500 (2500 + retry_duration 0) EfExecuted None []) (ap_effects ap_working)\<rparr> = ap_done"
    by (simp add: ap_working_def ap_done_def ap_done_row_def ap_first_def)
  moreover have "\<exists>e\<in>set (ap_effects ap_working). effect_key e = (ap_id, ap_effect_id) \<and> ef_token e = token_hex 7 \<and> ef_state e = EfWorking"
    by (simp add: ap_working_def ap_first_def)
  ultimately have "settle_effect_body 2500 (2500 + retry_duration 0) (ap_id, ap_effect_id) (token_hex 7) EfExecuted None [] ap_working
      = Inr (ap_done, Some ap_done_row)"
    by (simp add: settle_effect_body_def Let_def ap_done_find)
  then show ?thesis
    by (simp add: settle_companion_approval_effect_def ap_ids ap_tokens(2) set transaction_def after_commit_def selected_item_def
        companion_effect_item_def ap_done_find)
qed

lemma ap_done_inv: "approval_inv ap_done"
proof -
  obtain item where "settle_companion_approval_effect (ext_of ap_env) 2500 ap_id ap_effect_id (token_hex 7) ''executed'' PNone [] 0 ap_working
    = (ap_done, Inr item)" using ap_settle by blast
  then have "approval_step (SettleEffect (ext_of ap_env) 2500 ap_id ap_effect_id (token_hex 7) ''executed'' PNone [] 0) ap_working = ap_done" by simp
  from approval_inv_step [OF ap_working_inv, of "SettleEffect (ext_of ap_env) 2500 ap_id ap_effect_id (token_hex 7) ''executed'' PNone [] 0", unfolded this]
  show ?thesis .
qed

text \<open>The settlement is repeated, with the token it had; then the effect is begun again.\<close>

abbreviation ap_repeated :: approval_call where
  "ap_repeated \<equiv> SettleEffect (ext_of ap_env) 2500 ap_id ap_effect_id (token_hex 7) ''executed'' PNone [] 0"

lemma ap_repeat: "fold approval_step [ap_repeated] ap_done = ap_done"
proof -
  have "lower (strip ''executed'') = ''executed''" by code_simp
  then have "effect_settlement (ext_of ap_env) ''executed'' PNone [] = Inr (EfExecuted, None, [])"
    by (simp add: effect_settlement_def settle_outcome_def Let_def)
  moreover have "\<not> exists_where (\<lambda>e. effect_key e = (ap_id, ap_effect_id) \<and> ef_token e = token_hex 7 \<and> ef_state e = EfWorking) (ap_effects ap_done)"
    by (simp add: ap_done_def ap_done_row_def)
  then have "settle_effect_body 2500 (2500 + retry_duration 0) (ap_id, ap_effect_id) (token_hex 7) EfExecuted None [] ap_done
      = Inl (ValueError ''approval execution token is stale or fenced'')"
    unfolding settle_effect_body_def Let_def by (rule if_not_P)
  ultimately show ?thesis
    by (simp add: settle_companion_approval_effect_def ap_ids ap_tokens(2) transaction_def after_commit_def)
qed

lemma ap_begin_again: "\<exists>item. begin_companion_approval_effect ap_env 9 2000 ap_id ap_effect_id ''w'' 60 ap_control ap_done ap_done
    = (ap_done, Inr (item, '''', False))"
proof -
  have a: "active_authorization ap_done ap_id = Some ap_authorization"
    using ap_active_find(1) by (simp add: active_authorization_def ap_done_def)
  have perm: "effect_permission ap_env 2000 ap_id ap_control ap_done = Inr demo_grant"
    unfolding effect_permission_Inr by (intro exI [of _ ap_authorization]) (simp add: a ap_uses ap_grant_ok)
  have "begin_effect_body (ext_of ap_env) 9 2000 ''w'' (lease_duration 60) ap_id ap_effect_id ap_done
      = Inr (ap_done, Some ap_done_row, '''', False)"
    by (simp add: begin_effect_body_def a ap_uses ap_done_find reacquire_effect_def effect_final_def Let_def)
  moreover have "\<exists>item. selected_item (ext_of ap_env) (Some ap_done_row) = Inr item"
    by (simp add: selected_item_def companion_effect_item_def ap_done_find)
  ultimately show ?thesis
    by (auto simp: begin_companion_approval_effect_def ap_ids perm transaction_def after_commit_def)
qed

theorem settled_effect_not_repeated_witness:
  "\<exists>item. begin_companion_approval_effect ap_env 9 2000 ap_id ap_effect_id ''w'' 60 ap_control ap_done (fold approval_step [ap_repeated] ap_done)
     = (ap_done, Inr (item, '''', False)) \<and> ei_state item = EfExecuted"
proof -
  obtain item where s: "settle_companion_approval_effect (ext_of ap_env) 2500 ap_id ap_effect_id (token_hex 7) ''executed'' PNone [] 0 ap_working
    = (ap_done, Inr item)" "ei_state item = EfExecuted" using ap_settle by blast
  obtain again where b: "begin_companion_approval_effect ap_env 9 2000 ap_id ap_effect_id ''w'' 60 ap_control ap_done (fold approval_step [ap_repeated] ap_done)
    = (ap_done, Inr (again, '''', False))" using ap_begin_again unfolding ap_repeat by blast
  have "ei_state item \<noteq> EfRetry" using s(2) by simp
  from settled_effect_not_repeated [OF ap_working_inv s(1) this b] b s(2) show ?thesis by (intro exI [of _ again] conjI) simp_all
qed

section \<open>An activation\<close>

lemma ap_unpack: "unpack (ext_of ap_env) [1] = Inr (PDict (cmp_request ap_id))" "unpack (ext_of ap_env) [2] = Inr (PDict (cmp_decision ap_id))"
  by (simp_all add: unpack_def MAX_WIRE_BYTES_def demo_env_def ap_decoder_def ext_of_def ext.truncate_def)

lemma ap_decision_ok: "decision_message (ext_of ap_env) (ap_message p n) = Inr (cmp_decision ap_id)"
proof -
  have "kind_of_text (lower (strip ''companion.approval.decision'')) = Some ApprovalDecision" by code_simp
  then show ?thesis
    by (simp add: decision_message_def ap_message_def ap_unpack validate_companion_message_def validate_kind_def cmp_decision_ok)
qed

lemma ap_hash_ok: "companion_approval_hash (ext_of ap_env) d = ap_hash"
  by (simp add: companion_approval_hash_def ap_hash_def demo_env_def ext_of_def ext.truncate_def)

lemma ap_names: "cmp_device = demo_device_id" "cmp_human = demo_human_id"
  by (simp_all add: cmp_device_def cmp_human_def demo_device_id_def demo_human_id_def)

lemma ap_decision_fields:
  "dict_get (cmp_decision ap_id) ''device_node_id'' PNone = PStr demo_device_id" "str_field (cmp_decision ap_id) ''request_id'' = ap_id"
  "str_field (cmp_decision ap_id) ''human_id'' = demo_human_id" "str_field (cmp_decision ap_id) ''device_node_id'' = demo_device_id"
  "str_field (cmp_decision ap_id) ''nonce'' = cmp_hex32 CHR ''1''" "str_field (cmp_decision ap_id) ''decision'' = ''approved''"
  "dict_get (cmp_decision ap_id) ''decision_id'' PNone = PStr (cmp_hex32 CHR ''2'')"
  "time_field (cmp_decision ap_id) ''expires_ms'' = 3000" "grant_expiry (cmp_decision ap_id) = 5000" "approved (cmp_decision ap_id)"
  "decided_state (cmp_decision ap_id) = AuthActive" "decided_uses (cmp_decision ap_id) = 1"
  by (simp_all add: cmp_decision_def dict_get_Cons str_field_def time_field_def grant_expiry_def scope_of_def cmp_scope_def approved_def
      decided_state_def decided_uses_def ap_names)

lemma ap_checks:
  assumes "leased_claim ap_store ''g'' ''w'' token = Some (demo_claim_row p c, ap_message p n)"
  shows "activation_checks ap_env 2000 ''g'' ''w'' token ap_control ap_waiting ap_waiting = Inr (demo_device_id, cmp_decision ap_id, ap_hash)"
proof -
  have core: "ap_core ap_waiting = ap_store" by (simp add: ap_waiting_def)
  have "claimed_decision (ext_of ap_env) 2000 ''g'' ''w'' token (ap_core ap_waiting) = Inr (ap_message p n, cmp_decision ap_id)"
    by (simp add: claimed_decision_def core assms ap_decision_ok ap_decision_fields) (simp add: demo_claim_row_def ap_message_def)
  moreover have "find_request ap_waiting ap_id = Some ap_request_row" by (simp add: find_request_def ap_waiting_def ap_request_row_def)
  moreover have "rq_body ap_request_row = [1]" "rq_hash ap_request_row = ap_hash" "ib_sender (ap_message p n) = demo_device_id"
    by (simp_all add: ap_request_row_def ap_message_def)
  ultimately show ?thesis
    by (simp add: activation_checks_def ap_decision_fields ap_unpack cmp_message_ok cmp_binding_ok ap_grant_ok)
qed

lemma ap_activation_first: "activate_companion_approval ap_env 2000 ''g'' ''w'' (demo_token CHR ''1'') ap_control ap_waiting ap_waiting ap_waiting
    = (ap_active, Inr \<lparr>ac_request = ap_id, ac_decision_id = PStr (cmp_hex32 CHR ''2''), ac_state = AuthActive, ac_activated = True,
         ac_max_uses = 1, ac_grant_expires_ms = 5000\<rparr>)"
proof -
  have core: "ap_core ap_waiting = ap_store" "ap_authorizations ap_waiting = []" "ap_requests ap_waiting = [ap_request_row]"
    by (simp_all add: ap_waiting_def)
  have l: "leased_claim ap_store ''g'' ''w'' (demo_token CHR ''1'') = Some (demo_claim_row ''p'' CHR ''1'', ap_message ''p'' 1)"
    "live_claim ap_store 2000 ''g'' ''w'' (demo_token CHR ''1'') = Some (demo_claim_row ''p'' CHR ''1'', ap_message ''p'' 1)"
    by (simp_all add: leased_claim_def live_claim_def ap_store_def owned_lease_def demo_claim_row_def in_inbox_def ap_message_def)
  have c: "count_where (owned_lease ''g'' ''w'' (demo_token CHR ''1'')) (t_claims ap_store) = 1"
    by (simp add: count_where_def ap_store_def owned_lease_def demo_claim_row_def demo_token_eq)
  have r: "map_option rq_hash (find_request ap_waiting ap_id) = Some ap_hash" by (simp add: find_request_def core ap_request_row_def)
  have a: "new_authorization (ext_of ap_env) 2000 demo_device_id ''p'' (cmp_hex32 CHR ''2'') (cmp_decision ap_id) = ap_authorization"
    by (simp add: new_authorization_def ap_authorization_def ap_decision_fields ap_hash_ok)
  have m: "ib_sender (ap_message ''p'' 1) = demo_device_id" "ib_packet (ap_message ''p'' 1) = ''p''" by (simp_all add: ap_message_def)
  have "enter_authorization (ext_of ap_env) 2000 demo_device_id ''p'' (cmp_decision ap_id) ap_waiting
      = Inr (ap_waiting\<lparr>ap_authorizations := [ap_authorization]\<rparr>, True)"
    by (simp add: enter_authorization_def ap_decision_fields find_authorization_def core id_parameter_def a Let_def)
  then have "activate_body (ext_of ap_env) 2000 ''g'' ''w'' (demo_token CHR ''1'') demo_device_id (cmp_decision ap_id) ap_hash ap_waiting
      = Inr (ap_active, \<lparr>ac_request = ap_id, ac_decision_id = PStr (cmp_hex32 CHR ''2''), ac_state = AuthActive, ac_activated = True,
         ac_max_uses = 1, ac_grant_expires_ms = 5000\<rparr>)"
    by (simp add: activate_body_def core l ap_decision_ok ap_hash_ok ap_decision_fields m r c) (simp add: ap_active_def core)
  then show ?thesis by (simp add: activate_companion_approval_def demo_args ap_checks [OF l(1)] transaction_def)
qed


text \<open>The same decision arrived again, in another message.\<close>

lemma ap_activation_second: "\<exists>s2 out. activate_companion_approval ap_env 2000 ''g'' ''w'' (demo_token CHR ''2'') ap_control ap_waiting ap_waiting ap_active
    = (s2, Inr out) \<and> ac_request out = ap_id"
proof -
  have core: "ap_core ap_active = ack_where (owned_lease ''g'' ''w'' (demo_token CHR ''1'')) 2000 ap_store"
    "ap_authorizations ap_active = [ap_authorization]" "ap_requests ap_active = [ap_request_row]"
    by (simp_all add: ap_active_def ap_waiting_def)
  have claims: "t_claims (ap_core ap_active) = [ack_row 2000 (demo_claim_row ''p'' CHR ''1''), demo_claim_row ''q'' CHR ''2'']"
    "t_inbox (ap_core ap_active) = t_inbox ap_store"
    by (simp_all add: core ack_where_def ap_store_def owned_lease_def demo_claim_row_def demo_token_eq)
  have l: "leased_claim ap_store ''g'' ''w'' (demo_token CHR ''2'') = Some (demo_claim_row ''q'' CHR ''2'', ap_message ''q'' 2)"
    by (simp add: leased_claim_def ap_store_def owned_lease_def demo_claim_row_def in_inbox_def ap_message_def demo_token_eq)
  have o: "\<not> owned_lease ''g'' ''w'' (demo_token CHR ''2'') (ack_row 2000 (demo_claim_row ''p'' CHR ''1''))"
    "owned_lease ''g'' ''w'' (demo_token CHR ''2'') (demo_claim_row ''q'' CHR ''2'')"
    by (simp_all add: owned_lease_def ack_row_def demo_claim_row_def)
  have i: "in_inbox (ap_core ap_active) ''q''" "cd_packet (demo_claim_row ''q'' CHR ''2'') = ''q''" "cd_lease_until_ms (demo_claim_row ''q'' CHR ''2'') = 6000"
    by (simp_all add: in_inbox_def claims(2) ap_store_def ap_message_def demo_claim_row_def)
  have live: "live_claim (ap_core ap_active) 2000 ''g'' ''w'' (demo_token CHR ''2'') = Some (demo_claim_row ''q'' CHR ''2'', ap_message ''q'' 2)"
    by (simp add: live_claim_def claims(1) o i) (simp add: claims(2) ap_store_def ap_message_def)
  have c: "count_where (owned_lease ''g'' ''w'' (demo_token CHR ''2'')) (t_claims (ap_core ap_active)) = 1"
    by (simp add: count_where_def claims(1) o)
  have r: "map_option rq_hash (find_request ap_active ap_id) = Some ap_hash" by (simp add: find_request_def core ap_request_row_def)
  have m: "ib_sender (ap_message ''q'' 2) = demo_device_id" "ib_packet (ap_message ''q'' 2) = ''q''" by (simp_all add: ap_message_def)
  have "enter_authorization (ext_of ap_env) 2000 demo_device_id ''q'' (cmp_decision ap_id) ap_active = Inr (ap_active, False)"
    by (simp add: enter_authorization_def ap_decision_fields find_authorization_def core ap_hash_ok) (simp add: ap_authorization_def)
  then have "\<exists>s2 out. activate_body (ext_of ap_env) 2000 ''g'' ''w'' (demo_token CHR ''2'') demo_device_id (cmp_decision ap_id) ap_hash ap_active
      = Inr (s2, out) \<and> ac_request out = ap_id"
    by (simp add: activate_body_def live ap_decision_ok ap_hash_ok ap_decision_fields m r c)
  then show ?thesis by (auto simp: activate_companion_approval_def demo_args ap_checks [OF l] transaction_def)
qed

theorem request_decided_once_witness:
  "\<exists>s2 out. activate_companion_approval ap_env 2000 ''g'' ''w'' (demo_token CHR ''2'') ap_control ap_waiting ap_waiting
     (fold approval_step [] ap_active) = (s2, Inr out) \<and> \<not> ac_activated out \<and> ap_authorizations s2 = [ap_authorization]"
proof -
  obtain s2 out where a: "activate_companion_approval ap_env 2000 ''g'' ''w'' (demo_token CHR ''2'') ap_control ap_waiting ap_waiting
     (fold approval_step [] ap_active) = (s2, Inr out)" "ac_request out = ap_id" using ap_activation_second by auto
  from request_decided_once [OF ap_waiting_inv ap_activation_first a(1)] a(2) have "\<not> ac_activated out \<and> ap_authorizations s2 = ap_authorizations ap_active" by simp
  with a(1) show ?thesis by (simp add: ap_active_def)
qed

end
