(* ===== verification/A2A.thy ===== *)
theory A2A
  imports Locator Base64
begin

text \<open>
  \<open>a2a_v1.py\<close>: the messages of the A2A gateway.  An inbound A2A message becomes a task request, a status or
  result of a task becomes stream events, and both are validated at the boundary.  JSON values are the
  dynamic values of \<open>Values\<close>; \<open>json.dumps\<close> is modelled to the length of its text, and reading that text back
  gives the value itself, so a clone is the value.  The limit of the interpreter on nested values is not modelled.
\<close>

section \<open>Environment\<close>

text \<open>
  Beside the codec and the hash functions: the library's check of a bracketed host and of an IPv6 loopback
  address, which differ between releases, and the character U+2026, which is not a Latin-1 character.
\<close>

record a2a_env = ext +
  url_brackets :: "string \<Rightarrow> bool"
  v6_loopback :: "string \<Rightarrow> bool"
  ellipsis :: char

definition A2A_PROTOCOL_VERSION :: string where "A2A_PROTOCOL_VERSION = ''1.0''"

definition A2A_STATE_BY_ANET :: "(string \<times> string) list" where
  "A2A_STATE_BY_ANET = [(''submitted'', ''TASK_STATE_SUBMITTED''), (''working'', ''TASK_STATE_WORKING''),
     (''completed'', ''TASK_STATE_COMPLETED''), (''failed'', ''TASK_STATE_FAILED''), (''canceled'', ''TASK_STATE_CANCELED''),
     (''input-required'', ''TASK_STATE_INPUT_REQUIRED''), (''rejected'', ''TASK_STATE_REJECTED''),
     (''auth-required'', ''TASK_STATE_AUTH_REQUIRED'')]"

definition ANET_STATE_BY_A2A :: "(string \<times> string) list" where
  "ANET_STATE_BY_A2A = map (\<lambda>(k, v). (v, k)) A2A_STATE_BY_ANET"

definition MAX_JSON_BYTES :: nat where "MAX_JSON_BYTES = 7 * 1024 * 1024"
definition MAX_PARTS :: nat where "MAX_PARTS = 64"
definition MAX_ID_CHARS :: nat where "MAX_ID_CHARS = 1024"
definition A2A_OBJECTIVE_CHARS :: nat where "A2A_OBJECTIVE_CHARS = 16000"

definition MESSAGE_FIELDS :: "string list" where
  "MESSAGE_FIELDS = [''messageId'', ''contextId'', ''taskId'', ''role'', ''parts'', ''metadata'', ''extensions'', ''referenceTaskIds'']"

definition PART_FIELDS :: "string list" where
  "PART_FIELDS = [''text'', ''raw'', ''url'', ''data'', ''metadata'', ''filename'', ''mediaType'']"

definition PART_CONTENT_FIELDS :: "string list" where
  "PART_CONTENT_FIELDS = [''text'', ''raw'', ''url'', ''data'']"

definition REQUEST_FIELDS :: "string list" where
  "REQUEST_FIELDS = [''tenant'', ''message'', ''configuration'', ''metadata'']"

definition CANCEL_REQUEST_FIELDS :: "string list" where
  "CANCEL_REQUEST_FIELDS = [''tenant'', ''id'', ''metadata'']"

section \<open>JSON text\<close>

text \<open>\<open>sep.join(texts)\<close>, and \<open>text.encode("utf-8")\<close>.\<close>

fun join :: "string \<Rightarrow> string list \<Rightarrow> string" where
  "join sep [] = []"
| "join sep [t] = t"
| "join sep (t # u # ts) = t @ sep @ join sep (u # ts)"

definition utf8 :: "string \<Rightarrow> bytes" where
  "utf8 s = concat (map (\<lambda>c. let n = code c in
     if n < 128 then [of_nat n] else [of_nat (192 + n div 64), of_nat (128 + n mod 64)]) s)"

definition json_char :: "char \<Rightarrow> string" where
  "json_char c = (let n = code c; esc = char_of (92 :: nat) in
     if n = 34 \<or> n = 92 then [esc, c]
     else if n = 10 then esc # ''n'' else if n = 13 then esc # ''r'' else if n = 9 then esc # ''t''
     else if n = 8 then esc # ''b'' else if n = 12 then esc # ''f''
     else if n < 32 then esc # ''u00'' @ [hex_digit (n div 16), hex_digit (n mod 16)]
     else [c])"

definition json_string :: "string \<Rightarrow> string" where
  "json_string s = [char_of (34 :: nat)] @ concat (map json_char s) @ [char_of (34 :: nat)]"

text \<open>What \<open>json.dumps\<close> accepts: everything but byte strings.  Floats are finite, dictionary keys are text.\<close>

primrec json_value :: "pyval \<Rightarrow> bool" where
  "json_value PNone = True"
| "json_value (PBool b) = True"
| "json_value (PInt i) = True"
| "json_value (PFloat q) = True"
| "json_value (PStr s) = True"
| "json_value (PBytes b) = False"
| "json_value (PList vs) = list_all id (map json_value vs)"
| "json_value (PDict kvs) = list_all snd (map (map_prod id json_value) kvs)"

primrec json_text :: "ext \<Rightarrow> pyval \<Rightarrow> string" where
  "json_text E PNone = ''null''"
| "json_text E (PBool b) = (if b then ''true'' else ''false'')"
| "json_text E (PInt i) = text_of_int i"
| "json_text E (PFloat q) = repr E (PFloat q)"
| "json_text E (PStr s) = json_string s"
| "json_text E (PBytes b) = []"
| "json_text E (PList vs) = ''['' @ join '','' (map (json_text E) vs) @ '']''"
| "json_text E (PDict kvs) =
     ''{'' @ join '','' (map (\<lambda>(k, t). json_string k @ '':'' @ t) (map (map_prod id (json_text E)) kvs)) @ ''}''"

definition json_clone :: "ext \<Rightarrow> string \<Rightarrow> pyval \<Rightarrow> exn + pyval" where
  "json_clone E name v =
     (if \<not> json_value v then Inl (ValueError (name @ '' must contain JSON values''))
      else if MAX_JSON_BYTES < length (utf8 (json_text E v)) then Inl (ValueError (name @ '' is too large''))
      else Inr v)"

text \<open>The clone of a map is the map.\<close>

definition json_map :: "ext \<Rightarrow> string \<Rightarrow> pyval \<Rightarrow> exn + pydict" where
  "json_map E name v = (case v of
      PNone \<Rightarrow> Inr []
    | PDict d \<Rightarrow> and_then (json_clone E name v) (\<lambda>_. Inr d)
    | _ \<Rightarrow> Inl (ValueError (name @ '' must be an object'')))"

section \<open>Fields\<close>

definition required_string :: "nat \<Rightarrow> string \<Rightarrow> pyval \<Rightarrow> exn + string" where
  "required_string limit name v = (case v of
      PStr s \<Rightarrow>
        if strip s = '''' then Inl (ValueError (name @ '' is required''))
        else if limit < length (strip s) then Inl (ValueError (name @ '' is too long''))
        else Inr (strip s)
    | _ \<Rightarrow> Inl (ValueError (name @ '' is required'')))"

abbreviation required_id :: "string \<Rightarrow> pyval \<Rightarrow> exn + string" where
  "required_id \<equiv> required_string MAX_ID_CHARS"

definition string_list :: "string \<Rightarrow> pyval \<Rightarrow> exn + string list" where
  "string_list name v = (case v of
      PNone \<Rightarrow> Inr []
    | PList vs \<Rightarrow>
        if 64 < length vs then Inl (ValueError (name @ '' must be a bounded list''))
        else map_result (required_id (name @ '' item'')) vs
    | _ \<Rightarrow> Inl (ValueError (name @ '' must be a bounded list'')))"

text \<open>\<open>set(d) - allowed\<close>, sorted as in the message of the exception.\<close>

definition unknown_fields :: "string list \<Rightarrow> pydict \<Rightarrow> string list" where
  "unknown_fields allowed d = sort (filter (\<lambda>k. k \<notin> set allowed) (map fst d))"

definition unsupported :: "ext \<Rightarrow> string \<Rightarrow> string list \<Rightarrow> exn" where
  "unsupported E what ks = ValueError (''unsupported A2A '' @ what @ '' fields: '' @ repr E (PList (map PStr ks)))"

definition has_field :: "pydict \<Rightarrow> string \<Rightarrow> bool" where
  "has_field d k = (map_of d k \<noteq> None)"

definition safe_id :: "string \<Rightarrow> string \<Rightarrow> exn + string" where
  "safe_id name v =
     and_then (required_string 128 name (PStr v)) (\<lambda>s.
       if capability_match (lower s) then Inr (lower s)
       else Inl (ValueError (name @ '' must use lowercase capability-style syntax'')))"

text \<open>
  \<open>ipaddress.ip_address(host).is_loopback\<close>: a dotted quad of 127/8 without leading zeros.  A host with a colon is
  a bracketed IPv6 address.
\<close>

definition octet_match :: "string \<Rightarrow> bool" where
  "octet_match s = (s \<noteq> [] \<and> list_all is_digit s \<and> length s \<le> 3 \<and> (s = ''0'' \<or> hd s \<noteq> CHR ''0'')
     \<and> (case parse_digits 0 False s of None \<Rightarrow> False | Some n \<Rightarrow> n \<le> 255))"

definition loopback_address :: "'a a2a_env_scheme \<Rightarrow> string \<Rightarrow> bool" where
  "loopback_address E host =
     (if CHR '':'' \<in> set host then v6_loopback E host
      else (let os = split_on (CHR ''.'') host
            in length os = 4 \<and> list_all octet_match os \<and> hd os = ''127''))"

text \<open>A non-empty user name or password.\<close>

definition has_credentials :: "url \<Rightarrow> bool" where
  "has_credentials u = (case rpartition (CHR ''@'') (netloc u) of (info, found, _) \<Rightarrow>
     found \<and> (case partition (CHR '':'') info of (user, _, password) \<Rightarrow> user \<noteq> [] \<or> password \<noteq> []))"

definition endpoint_url :: "'a a2a_env_scheme \<Rightarrow> string \<Rightarrow> exn + string" where
  "endpoint_url E v =
     and_then (required_string 2048 ''A2A endpoint'' (PStr v)) (\<lambda>s.
     and_then (urlsplit (url_brackets E) s) (\<lambda>u.
       if scheme u \<notin> {''http'', ''https''} \<or> hostname u = []
       then Inl (ValueError ''A2A endpoint must be an absolute HTTP(S) URL'')
       else if has_credentials u \<or> query u \<noteq> [] \<or> fragment u \<noteq> []
       then Inl (ValueError ''A2A endpoint cannot contain credentials, query, or fragment'')
       else if scheme u = ''http'' \<and> \<not> (lower (hostname u) = ''localhost'' \<or> loopback_address E (lower (hostname u)))
       then Inl (ValueError ''non-loopback A2A endpoints must use HTTPS'')
       else Inr s))"

definition derived_id :: "ext \<Rightarrow> string \<Rightarrow> string \<Rightarrow> string \<Rightarrow> exn + string" where
  "derived_id E person sender external =
     and_then (required_string 512 ''authenticated sender ID'' (PStr sender)) (\<lambda>s.
     and_then (required_id ''A2A messageId'' (PStr external)) (\<lambda>x.
       Inr (hex_of_bytes (blake2s E 16 person (utf8 (s @ [char_of (0 :: nat)] @ x))))))"

section \<open>Base 64 of the standard alphabet\<close>

definition std_value :: "char \<Rightarrow> bool" where
  "std_value c = (c \<noteq> CHR ''-'' \<and> c \<noteq> CHR ''_'' \<and> b64_value c \<noteq> None)"

text \<open>
  \<open>base64.b64decode(text, validate=True)\<close>, as whether it returns: the position in the group of four, the padding
  characters in a row, and whether padding began.
\<close>

fun std_scan :: "nat \<Rightarrow> nat \<Rightarrow> bool \<Rightarrow> string \<Rightarrow> bool" where
  "std_scan quad pads padded [] = (quad = 0)"
| "std_scan quad pads padded (c # cs) =
     (if c = CHR ''='' then
        (if 2 \<le> quad \<and> 4 \<le> quad + pads + 1 then cs = []
         else std_scan quad (if 2 \<le> quad then pads + 1 else pads) True cs)
      else std_value c \<and> \<not> padded \<and> std_scan (if quad = 3 then 0 else quad + 1) 0 padded cs)"

definition valid_base64 :: "string \<Rightarrow> bool" where
  "valid_base64 s = (list_all (\<lambda>c. code c < 128) s \<and> (s = [] \<or> hd s \<noteq> CHR ''='') \<and> std_scan 0 0 False s)"

definition std_b64encode :: "bytes \<Rightarrow> string" where
  "std_b64encode bs =
     (let t = map (\<lambda>c. if c = CHR ''-'' then CHR ''+'' else if c = CHR ''_'' then CHR ''/'' else c) (b64e bs)
      in t @ replicate ((4 - length t mod 4) mod 4) (CHR ''=''))"

section \<open>Agent cards\<close>

record skill_binding =
  sk_id :: string
  sk_name :: string
  sk_description :: string
  sk_tags :: "string list"
  sk_required :: "string list"
  sk_examples :: "string list"
  sk_inputs :: "string list"
  sk_outputs :: "string list"

definition required_texts :: "nat \<Rightarrow> string \<Rightarrow> string list \<Rightarrow> exn + string list" where
  "required_texts limit name ts = map_result (\<lambda>t. required_string limit name (PStr t)) ts"

text \<open>\<open>dict.fromkeys(texts)\<close>: the first occurrence of each.\<close>

definition fromkeys :: "string list \<Rightarrow> string list" where
  "fromkeys ts = rev (remdups (rev ts))"

definition texts_field :: "string \<Rightarrow> string list \<Rightarrow> pydict" where
  "texts_field k ts = (if ts = [] then [] else [(k, PList (map PStr ts))])"

definition agent_skill :: "skill_binding \<Rightarrow> exn + pydict" where
  "agent_skill k =
     and_then (safe_id ''A2A skill id'' (sk_id k)) (\<lambda>i.
     and_then (required_texts MAX_ID_CHARS ''A2A skill tag'' (sk_tags k)) (\<lambda>tags.
       if tags = [] then Inl (ValueError ''A2A skill requires at least one tag'')
       else and_then (required_id ''A2A skill name'' (PStr (sk_name k))) (\<lambda>name.
         and_then (required_string 8192 ''A2A skill description'' (PStr (sk_description k))) (\<lambda>descr.
         and_then (required_texts 8192 ''A2A skill example'' (sk_examples k)) (\<lambda>examples.
         and_then (required_texts MAX_ID_CHARS ''A2A input mode'' (sk_inputs k)) (\<lambda>inputs.
         and_then (required_texts MAX_ID_CHARS ''A2A output mode'' (sk_outputs k)) (\<lambda>outputs.
           Inr ([(''id'', PStr i), (''name'', PStr name), (''description'', PStr descr),
                 (''tags'', PList (map PStr (fromkeys tags)))]
             @ texts_field ''examples'' examples @ texts_field ''inputModes'' inputs @ texts_field ''outputModes'' outputs)))))))) "

definition bearer_security :: "string \<Rightarrow> string \<Rightarrow> string \<Rightarrow> exn + pydict \<times> pyval list" where
  "bearer_security scheme_name descr bearer_format =
     and_then (safe_id ''A2A security scheme name'' scheme_name) (\<lambda>s.
     and_then (required_id ''A2A security description'' (PStr descr)) (\<lambda>d.
     and_then (if bearer_format = '''' then Inr []
         else and_then (required_id ''A2A bearer format'' (PStr bearer_format)) (\<lambda>f. Inr [(''bearerFormat'', PStr f)])) (\<lambda>fmt.
       Inr ([(s, PDict [(''httpAuthSecurityScheme'', PDict ([(''scheme'', PStr ''Bearer''), (''description'', PStr d)] @ fmt))])],
            [PDict [(''schemes'', PDict [(s, PDict [(''list'', PList [])])])]]))))"

definition scheme_scopes :: "pydict \<Rightarrow> string \<times> pyval \<Rightarrow> exn + unit" where
  "scheme_scopes schemes kv = (case kv of (name, scopes) \<Rightarrow>
     if \<not> has_field schemes name then Inl (ValueError (''unknown A2A security scheme in requirement: '' @ name))
     else case scopes of
       PDict sc \<Rightarrow> (case dict_get sc ''list'' PNone of
           PList vs \<Rightarrow> and_then (string_list ''A2A security scopes'' (PList vs)) (\<lambda>_. Inr ())
         | _ \<Rightarrow> Inl (ValueError ''invalid A2A security requirement scopes''))
     | _ \<Rightarrow> Inl (ValueError ''invalid A2A security requirement scopes''))"

definition security_requirement :: "pydict \<Rightarrow> pyval \<Rightarrow> exn + unit" where
  "security_requirement schemes v = (case v of
      PDict d \<Rightarrow> (case dict_get d ''schemes'' PNone of
          PDict ss \<Rightarrow> checks (map (scheme_scopes schemes) ss)
        | _ \<Rightarrow> Inl (ValueError ''invalid A2A security requirement''))
    | _ \<Rightarrow> Inl (ValueError ''invalid A2A security requirement''))"

definition validate_security :: "ext \<Rightarrow> pyval \<Rightarrow> pyval \<Rightarrow> bool \<Rightarrow> exn + pydict \<times> pyval list" where
  "validate_security E schemes requirements allow =
     and_then (json_map E ''A2A securitySchemes'' schemes) (\<lambda>ss.
     and_then (json_clone E ''A2A securityRequirements'' (if truthy requirements then requirements else PList [])) (\<lambda>r.
       case r of
         PList rs \<Rightarrow>
           if ss = [] \<or> rs = [] then
             (if \<not> allow then Inl (ValueError ''A2A Agent Card requires explicit security or allow_unauthenticated=True'')
              else if ss \<noteq> [] \<or> rs \<noteq> []
              then Inl (ValueError ''A2A security schemes and requirements must be configured together'')
              else Inr ([], []))
           else and_then (checks (map (security_requirement ss) rs)) (\<lambda>_. Inr (ss, rs))
       | _ \<Rightarrow> Inl (ValueError ''A2A securityRequirements must be a list'')))"

record card_args =
  ca_name :: string
  ca_description :: string
  ca_endpoint :: string
  ca_version :: string
  ca_skills :: "skill_binding list"
  ca_schemes :: pyval
  ca_requirements :: pyval
  ca_binding :: string
  ca_tenant :: string
  ca_inputs :: "string list"
  ca_outputs :: "string list"
  ca_streaming :: bool
  ca_allow_unauthenticated :: bool

definition card_interface :: "'a a2a_env_scheme \<Rightarrow> card_args \<Rightarrow> exn + pydict" where
  "card_interface E a =
     and_then (endpoint_url E (ca_endpoint a)) (\<lambda>u.
     and_then (required_id ''A2A protocol binding'' (PStr (ca_binding a))) (\<lambda>b.
     and_then (if ca_tenant a = '''' then Inr []
         else and_then (required_id ''A2A tenant'' (PStr (ca_tenant a))) (\<lambda>t. Inr [(''tenant'', PStr t)])) (\<lambda>tenant.
       Inr ([(''url'', PStr u), (''protocolBinding'', PStr b), (''protocolVersion'', PStr A2A_PROTOCOL_VERSION)] @ tenant))))"

definition build_agent_card :: "'a a2a_env_scheme \<Rightarrow> card_args \<Rightarrow> exn + pydict" where
  "build_agent_card E a =
     and_then (map_result agent_skill (ca_skills a)) (\<lambda>skills.
       if skills = [] then Inl (ValueError ''A2A Agent Card requires at least one skill'')
       else if \<not> distinct (map (\<lambda>k. dict_get k ''id'' PNone) skills)
       then Inl (ValueError ''A2A Agent Card skill IDs must be unique'')
       else and_then (validate_security (ext_of E) (ca_schemes a) (ca_requirements a) (ca_allow_unauthenticated a)) (\<lambda>(schemes, requirements).
         and_then (card_interface E a) (\<lambda>interface.
         and_then (required_id ''A2A agent name'' (PStr (ca_name a))) (\<lambda>name.
         and_then (required_string 8192 ''A2A agent description'' (PStr (ca_description a))) (\<lambda>descr.
         and_then (required_id ''A2A agent version'' (PStr (ca_version a))) (\<lambda>version.
         and_then (required_texts MAX_ID_CHARS ''A2A default input mode'' (ca_inputs a)) (\<lambda>inputs.
         and_then (required_texts MAX_ID_CHARS ''A2A default output mode'' (ca_outputs a)) (\<lambda>outputs.
           if inputs = [] \<or> outputs = [] then Inl (ValueError ''A2A Agent Card requires default input and output modes'')
           else Inr ([(''name'', PStr name), (''description'', PStr descr), (''supportedInterfaces'', PList [PDict interface]),
               (''version'', PStr version),
               (''capabilities'', PDict [(''streaming'', PBool (ca_streaming a)), (''pushNotifications'', PBool False),
                  (''extendedAgentCard'', PBool False)]),
               (''defaultInputModes'', PList (map PStr inputs)), (''defaultOutputModes'', PList (map PStr outputs)),
               (''skills'', PList (map PDict skills))]
             @ (if schemes = [] then []
                else [(''securitySchemes'', PDict schemes), (''securityRequirements'', PList requirements)]))))))))))"

section \<open>Messages\<close>

definition part_content :: "ext \<Rightarrow> string \<Rightarrow> pyval \<Rightarrow> exn + pyval" where
  "part_content E k content =
     (if k = ''data'' then json_clone E ''A2A data Part'' content
      else case content of
        PStr s \<Rightarrow>
          if k = ''raw'' \<and> \<not> valid_base64 s then Inl (ValueError ''A2A raw Part must be valid base64'')
          else if k = ''url'' \<and> strip s = '''' then Inl (ValueError ''A2A URL Part cannot be empty'')
          else Inr content
      | _ \<Rightarrow> Inl (ValueError (''A2A Part '' @ k @ '' must be a string'')))"

definition optional_id :: "pydict \<Rightarrow> string \<Rightarrow> string \<Rightarrow> exn + pydict" where
  "optional_id d k name =
     (if has_field d k then and_then (required_id name (dict_get d k PNone)) (\<lambda>s. Inr [(k, PStr s)]) else Inr [])"

definition optional_map :: "ext \<Rightarrow> pydict \<Rightarrow> string \<Rightarrow> exn + pydict" where
  "optional_map E d name =
     (if has_field d ''metadata''
      then and_then (json_map E name (dict_get d ''metadata'' PNone)) (\<lambda>m. Inr [(''metadata'', PDict m)]) else Inr [])"

definition optional_list :: "pydict \<Rightarrow> string \<Rightarrow> string \<Rightarrow> exn + pydict" where
  "optional_list d k name =
     (if has_field d k then and_then (string_list name (dict_get d k PNone)) (\<lambda>ts. Inr [(k, PList (map PStr ts))]) else Inr [])"

definition normalize_part :: "ext \<Rightarrow> pyval \<Rightarrow> exn + pyval" where
  "normalize_part E v = (case v of
      PDict d \<Rightarrow>
        (case unknown_fields PART_FIELDS d of
           [] \<Rightarrow>
             (case filter (has_field d) PART_CONTENT_FIELDS of
                [k] \<Rightarrow>
                  and_then (part_content E k (dict_get d k PNone)) (\<lambda>content.
                  and_then (optional_map E d ''A2A Part metadata'') (\<lambda>meta.
                  and_then (optional_id d ''filename'' ''A2A Part filename'') (\<lambda>filename.
                  and_then (optional_id d ''mediaType'' ''A2A Part mediaType'') (\<lambda>media.
                    Inr (PDict ([(k, content)] @ meta @ filename @ media))))))
              | _ \<Rightarrow> Inl (ValueError ''A2A Part must contain exactly one content member''))
         | ks \<Rightarrow> Inl (unsupported E ''Part'' ks))
    | _ \<Rightarrow> Inl (ValueError ''A2A message parts must be objects''))"

definition bounded_parts :: "pyval \<Rightarrow> pyval list option" where
  "bounded_parts v = (case v of
      PList ps \<Rightarrow> if 1 \<le> length ps \<and> length ps \<le> MAX_PARTS then Some ps else None
    | _ \<Rightarrow> None)"

definition normalize_message :: "ext \<Rightarrow> pyval \<Rightarrow> exn + pydict" where
  "normalize_message E v = (case v of
      PDict d \<Rightarrow>
        (case unknown_fields MESSAGE_FIELDS d of
           [] \<Rightarrow>
             and_then (required_id ''A2A messageId'' (dict_get d ''messageId'' PNone)) (\<lambda>i.
               if dict_get d ''role'' PNone \<noteq> PStr ''ROLE_USER'' then Inl (ValueError ''A2A inbound Message role must be ROLE_USER'')
               else if truthy (dict_get d ''taskId'' PNone)
               then Inl (ValueError ''A2A follow-up taskId requires a persisted gateway task mapping'')
               else case bounded_parts (dict_get d ''parts'' PNone) of
                 None \<Rightarrow> Inl (ValueError ''A2A Message requires a bounded non-empty parts list'')
               | Some ps \<Rightarrow>
                   and_then (map_result (normalize_part E) ps) (\<lambda>parts.
                   and_then (if truthy (dict_get d ''contextId'' PNone) then optional_id d ''contextId'' ''A2A contextId''
                       else Inr []) (\<lambda>ctx.
                   and_then (optional_map E d ''A2A Message metadata'') (\<lambda>meta.
                   and_then (optional_list d ''extensions'' ''A2A Message extensions'') (\<lambda>exts.
                   and_then (optional_list d ''referenceTaskIds'' ''A2A Message referenceTaskIds'') (\<lambda>refs.
                     Inr ([(''messageId'', PStr i), (''role'', PStr ''ROLE_USER''), (''parts'', PList parts)]
                       @ ctx @ meta @ exts @ refs)))))))
         | ks \<Rightarrow> Inl (unsupported E ''Message'' ks))
    | _ \<Rightarrow> Inl (ValueError ''A2A SendMessageRequest.message must be an object''))"

definition part_text :: "pyval \<Rightarrow> string list" where
  "part_text v = (case v of
      PDict p \<Rightarrow> (case map_of p ''text'' of
          Some (PStr t) \<Rightarrow> if strip t = '''' then [] else [strip t] | _ \<Rightarrow> [])
    | _ \<Rightarrow> [])"

definition objective_text :: "char \<Rightarrow> string \<Rightarrow> pyval list \<Rightarrow> string" where
  "objective_text dots message_id parts =
     (let text = join [char_of (10 :: nat)] (concat (map part_text parts))
      in if text = '''' then ''Handle A2A message '' @ message_id
         else if length text \<le> A2A_OBJECTIVE_CHARS then text
         else take (A2A_OBJECTIVE_CHARS - 1) text @ [dots])"

record inbound_task =
  in_task :: string
  in_a2a_task :: string
  in_context :: string
  in_message_id :: string
  in_skill :: string
  in_message :: pydict
  in_body :: pydict

definition EXISTING_FIELDS :: "string list" where
  "EXISTING_FIELDS = [''a2a_task_id'', ''context_id'', ''sender_node_id'', ''skill_id'', ''tenant'', ''protocol_version'']"

text \<open>\<open>str(message.get("taskId", "")).strip()\<close> of a message that is a map.\<close>

definition raw_task_id :: "ext \<Rightarrow> pyval \<Rightarrow> string" where
  "raw_task_id E v = (case v of PDict d \<Rightarrow> strip (py_str E (dict_get d ''taskId'' (PStr ''''))) | _ \<Rightarrow> '''')"

definition without_task_id :: "pyval \<Rightarrow> pyval" where
  "without_task_id v = (case v of PDict d \<Rightarrow> PDict (filter (\<lambda>kv. fst kv \<noteq> ''taskId'') d) | _ \<Rightarrow> v)"

text \<open>The task id and context of a message that starts a task.\<close>

definition first_mapping :: "ext \<Rightarrow> string \<Rightarrow> string \<Rightarrow> string \<Rightarrow> pydict \<Rightarrow> exn + string \<times> string \<times> pydict" where
  "first_mapping E sender task_id message_id message =
     (case dict_get message ''contextId'' PNone of
        PStr c \<Rightarrow> Inr (task_id, c, message)
      | _ \<Rightarrow> and_then (derived_id E ''a2a-ctx1'' sender message_id) (\<lambda>c. Inr (task_id, ''anet-'' @ c, message)))"

text \<open>Those of a message that continues the task \<open>t\<close>.\<close>

definition follow_up_mapping ::
    "string \<Rightarrow> string \<Rightarrow> string \<Rightarrow> string \<Rightarrow> pydict \<Rightarrow> pydict \<Rightarrow> exn + string \<times> string \<times> pydict" where
  "follow_up_mapping sender skill_id tenant raw_id t message =
     (if \<not> list_all (has_field t) EXISTING_FIELDS then Inl (ValueError ''incomplete persisted A2A task mapping'')
      else and_then (required_id ''persisted A2A task ID'' (dict_get t ''a2a_task_id'' PNone)) (\<lambda>a2a_task.
        and_then (required_id ''persisted A2A context ID'' (dict_get t ''context_id'' PNone)) (\<lambda>context.
          if raw_id \<noteq> a2a_task then Inl (ValueError ''A2A follow-up taskId does not match persisted mapping'')
          else if dict_get t ''sender_node_id'' PNone \<noteq> PStr sender
          then Inl (PermissionError ''A2A follow-up sender does not match persisted task mapping'')
          else if dict_get t ''skill_id'' PNone \<noteq> PStr skill_id
          then Inl (PermissionError ''A2A follow-up skill does not match persisted task mapping'')
          else if dict_get t ''tenant'' PNone \<noteq> PStr tenant
          then Inl (PermissionError ''A2A follow-up tenant does not match persisted task mapping'')
          else if dict_get t ''protocol_version'' PNone \<noteq> PStr A2A_PROTOCOL_VERSION
          then Inl (ValueError ''persisted A2A task uses another protocol version'')
          else if has_field message ''contextId'' \<and> dict_get message ''contextId'' PNone \<noteq> PStr context
          then Inl (ValueError ''A2A follow-up contextId does not match persisted task mapping'')
          else Inr (a2a_task, context, dict_set ''contextId'' (PStr context) (dict_set ''taskId'' (PStr a2a_task) message)))))"

definition gateway_context :: "string \<Rightarrow> string \<Rightarrow> string \<Rightarrow> string \<Rightarrow> string \<Rightarrow> pydict" where
  "gateway_context message_id context a2a_task skill_id tenant =
     [(''protocolVersion'', PStr A2A_PROTOCOL_VERSION), (''messageId'', PStr message_id), (''contextId'', PStr context),
      (''taskId'', PStr a2a_task), (''skillId'', PStr skill_id), (''tenant'', PStr tenant)]"

text \<open>The task request of a message; the task id is given, so no random one is drawn.\<close>

definition inbound_body ::
    "'a a2a_env_scheme \<Rightarrow> 128 word \<Rightarrow> skill_binding \<Rightarrow> string \<Rightarrow> string \<Rightarrow> string \<Rightarrow> string \<Rightarrow> string \<Rightarrow> string
      \<Rightarrow> pydict \<Rightarrow> pydict \<Rightarrow> exn + pydict" where
  "inbound_body E random k task_id message_id context a2a_task skill_id tenant message request =
     and_then (json_map (ext_of E) ''A2A SendMessageRequest.configuration'' (dict_get request ''configuration'' PNone)) (\<lambda>conf.
     and_then (json_map (ext_of E) ''A2A SendMessageRequest.metadata'' (dict_get request ''metadata'' PNone)) (\<lambda>meta.
       task_request (ext_of E) random
         (objective_text (ellipsis E) message_id (case dict_get message ''parts'' PNone of PList ps \<Rightarrow> ps | _ \<Rightarrow> []))
         (PDict [(''a2aMessage'', PDict message), (''configuration'', PDict conf), (''metadata'', PDict meta)])
         (PList (map PStr (sk_required k))) task_id
         (PDict [(''a2a'', PDict (gateway_context message_id context a2a_task skill_id tenant))])))"

definition message_id_of :: "pydict \<Rightarrow> string" where
  "message_id_of message = (case dict_get message ''messageId'' PNone of PStr s \<Rightarrow> s | _ \<Rightarrow> '''')"

text \<open>A request whose tenant and task id were checked.\<close>

definition translate_message ::
    "'a a2a_env_scheme \<Rightarrow> 128 word \<Rightarrow> pydict \<Rightarrow> string \<Rightarrow> skill_binding \<Rightarrow> string \<Rightarrow> string \<Rightarrow> pydict option
      \<Rightarrow> pydict \<Rightarrow> exn + inbound_task" where
  "translate_message E random d sender k tenant raw_id existing message =
     and_then (derived_id (ext_of E) ''a2a-task'' sender (message_id_of message)) (\<lambda>task_id.
     and_then (safe_id ''A2A skill id'' (sk_id k)) (\<lambda>skill_id.
     and_then (case existing of None \<Rightarrow> first_mapping (ext_of E) sender task_id (message_id_of message) message
         | Some t \<Rightarrow> follow_up_mapping sender skill_id tenant raw_id t message) (\<lambda>(a2a_task, context, message').
     and_then (inbound_body E random k task_id (message_id_of message) context a2a_task skill_id tenant message' d) (\<lambda>body.
       Inr \<lparr>in_task = task_id, in_a2a_task = a2a_task, in_context = context, in_message_id = message_id_of message,
            in_skill = skill_id, in_message = message', in_body = body\<rparr>))))"

definition inbound_message_to_task ::
    "'a a2a_env_scheme \<Rightarrow> 128 word \<Rightarrow> pyval \<Rightarrow> string \<Rightarrow> skill_binding \<Rightarrow> string \<Rightarrow> pydict option \<Rightarrow> exn + inbound_task" where
  "inbound_message_to_task E random request_arg sender k expected_tenant existing =
     (case request_arg of
        PDict d \<Rightarrow>
          if unknown_fields REQUEST_FIELDS d \<noteq> []
          then Inl (unsupported (ext_of E) ''SendMessageRequest'' (unknown_fields REQUEST_FIELDS d))
          else and_then (json_clone (ext_of E) ''A2A SendMessageRequest'' request_arg) (\<lambda>_.
            let tenant = py_str (ext_of E) (dict_get d ''tenant'' (PStr ''''));
                raw = dict_get d ''message'' PNone; raw_id = raw_task_id (ext_of E) raw
            in if tenant \<noteq> expected_tenant then Inl (PermissionError ''A2A tenant does not match the selected interface'')
               else if raw_id \<noteq> '''' \<and> existing = None
               then Inl (ValueError ''A2A follow-up taskId requires a persisted gateway task mapping'')
               else if existing \<noteq> None \<and> raw_id = ''''
               then Inl (ValueError ''persisted A2A task mapping requires a follow-up taskId'')
               else and_then (normalize_message (ext_of E) (if raw_id \<noteq> '''' then without_task_id raw else raw))
                 (translate_message E random d sender k tenant raw_id existing))
      | _ \<Rightarrow> Inl (ValueError ''A2A SendMessageRequest must be an object''))"

definition initial_a2a_task :: "inbound_task \<Rightarrow> pydict" where
  "initial_a2a_task v =
     [(''id'', PStr (in_a2a_task v)), (''contextId'', PStr (in_context v)),
      (''status'', PDict [(''state'', PStr ''TASK_STATE_SUBMITTED'')]), (''history'', PList [PDict (in_message v)]),
      (''metadata'', PDict [(''anet'', PDict [(''skillId'', PStr (in_skill v))])])]"

section \<open>Cancellation\<close>

definition CANCEL_EXISTING_FIELDS :: "string list" where
  "CANCEL_EXISTING_FIELDS = [''a2a_task_id'', ''sender_node_id'', ''tenant'', ''state'', ''protocol_version'']"

definition terminal_state :: "pyval \<Rightarrow> bool" where
  "terminal_state v = (v \<in> PStr ` set TERMINAL_TASK_STATES)"

text \<open>The persisted task belongs to the caller and can still be canceled.\<close>

definition cancelable :: "string \<Rightarrow> string \<Rightarrow> pydict \<Rightarrow> exn + unit" where
  "cancelable sender tenant t =
     (if dict_get t ''sender_node_id'' PNone \<noteq> PStr sender
      then Inl (PermissionError ''A2A cancellation sender does not match persisted task mapping'')
      else if dict_get t ''tenant'' PNone \<noteq> PStr tenant
      then Inl (PermissionError ''A2A cancellation tenant does not match persisted task mapping'')
      else if dict_get t ''protocol_version'' PNone \<noteq> PStr A2A_PROTOCOL_VERSION
      then Inl (ValueError ''persisted A2A task uses another protocol version'')
      else if terminal_state (dict_get t ''state'' PNone)
        \<and> \<not> (dict_get t ''state'' PNone = PStr ''canceled'' \<and> dict_get t ''cancel_state'' PNone = PStr ''confirmed'')
      then Inl (ValueError ''terminal A2A task is not cancelable'')
      else Inr ())"

definition normalize_cancel_task_request :: "ext \<Rightarrow> pyval \<Rightarrow> string \<Rightarrow> pydict \<Rightarrow> string \<Rightarrow> exn + pydict" where
  "normalize_cancel_task_request E request_arg sender t expected_tenant = (case request_arg of
      PDict d \<Rightarrow>
        (case unknown_fields CANCEL_REQUEST_FIELDS d of
           [] \<Rightarrow>
             and_then (json_clone E ''A2A CancelTaskRequest'' request_arg) (\<lambda>_.
               let tenant = py_str E (dict_get d ''tenant'' (PStr ''''))
               in if tenant \<noteq> expected_tenant then Inl (PermissionError ''A2A tenant does not match the selected interface'')
                  else if \<not> list_all (has_field t) CANCEL_EXISTING_FIELDS
                  then Inl (ValueError ''incomplete persisted A2A task mapping'')
                  else and_then (required_id ''A2A task ID'' (dict_get d ''id'' PNone)) (\<lambda>task_id.
                    if dict_get t ''a2a_task_id'' PNone \<noteq> PStr task_id
                    then Inl (ValueError ''A2A cancellation task ID does not match persisted mapping'')
                    else and_then (cancelable sender tenant t) (\<lambda>_.
                      and_then (json_map E ''A2A CancelTaskRequest.metadata'' (dict_get d ''metadata'' PNone)) (\<lambda>meta.
                        Inr [(''tenant'', PStr tenant), (''id'', PStr task_id), (''metadata'', PDict meta)]))))
         | ks \<Rightarrow> Inl (unsupported E ''CancelTaskRequest'' ks))
    | _ \<Rightarrow> Inl (ValueError ''A2A CancelTaskRequest must be an object''))"

section \<open>Stream events\<close>

definition agent_status_message :: "ext \<Rightarrow> string \<Rightarrow> string \<Rightarrow> string \<Rightarrow> string \<Rightarrow> string \<Rightarrow> pyval" where
  "agent_status_message E source_task a2a_task context st text =
     (let zero = [char_of (0 :: nat)];
          i = hex_of_bytes (blake2s E 16 ''a2a-msg1'' (utf8 (source_task @ zero @ st @ zero @ text)))
      in PDict [(''messageId'', PStr i), (''contextId'', PStr context), (''taskId'', PStr a2a_task),
           (''role'', PStr ''ROLE_AGENT''), (''parts'', PList [PDict [(''text'', PStr text), (''mediaType'', PStr ''text/plain'')]])])"

definition output_part :: "ext \<Rightarrow> pyval \<Rightarrow> exn + pyval" where
  "output_part E output = (case output of
      PStr s \<Rightarrow> Inr (PDict [(''text'', output), (''mediaType'', PStr ''text/plain'')])
    | PBytes b \<Rightarrow> Inr (PDict [(''raw'', PStr (std_b64encode b)), (''mediaType'', PStr ''application/octet-stream'')])
    | _ \<Rightarrow> and_then (json_clone E ''Anet task output'' output) (\<lambda>v.
        Inr (PDict [(''data'', v), (''mediaType'', PStr ''application/json'')])))"

definition artifact_event :: "ext \<Rightarrow> string \<Rightarrow> string \<Rightarrow> pyval \<Rightarrow> exn + pyval list" where
  "artifact_event E a2a_task context output =
     (if output = PNone then Inr []
      else and_then (output_part E output) (\<lambda>part.
        Inr [PDict [(''artifactUpdate'', PDict [(''taskId'', PStr a2a_task), (''contextId'', PStr context),
           (''artifact'', PDict [(''artifactId'', PStr ''result''), (''name'', PStr ''Anet task result''), (''parts'', PList [part])]),
           (''append'', PBool False), (''lastChunk'', PBool True)])]]))"

definition status_event :: "ext \<Rightarrow> string \<Rightarrow> string \<Rightarrow> string \<Rightarrow> string \<Rightarrow> string \<Rightarrow> string \<Rightarrow> pyval \<Rightarrow> pyval" where
  "status_event E source_task a2a_task context st a2a_state text progress =
     PDict [(''statusUpdate'', PDict ([(''taskId'', PStr a2a_task), (''contextId'', PStr context),
       (''status'', PDict ([(''state'', PStr a2a_state)]
          @ (if text = '''' then [] else [(''message'', agent_status_message E source_task a2a_task context st text)])))]
       @ (if progress = PNone then [] else [(''metadata'', PDict [(''anetProgress'', progress)])])))]"

definition task_event_to_a2a_stream_events ::
    "ext \<Rightarrow> 128 word \<Rightarrow> string \<Rightarrow> pyval \<Rightarrow> string \<Rightarrow> string \<Rightarrow> exn + pyval list" where
  "task_event_to_a2a_stream_events E random kind body context_arg a2a_task_arg =
     (if kind \<notin> {''agent.task.status'', ''agent.task.result''}
      then Inl (ValueError ''only Anet task status and result events map to A2A streams'')
      else and_then (required_id ''A2A contextId'' (PStr context_arg)) (\<lambda>context.
        and_then (validate_task_message E random kind body) (\<lambda>n.
          let result = (kind = ''agent.task.result''); text = (\<lambda>k. py_str E (dict_get n k (PStr '''')));
              source_task = text ''task_id''; st = text ''state'';
              message = strip (if result then text ''error'' else text ''message'');
              output = (if result then dict_get n ''output'' PNone else PNone);
              progress = (if result then PNone else dict_get n ''progress'' PNone)
          in and_then (if a2a_task_arg = '''' then Inr source_task else required_id ''A2A taskId'' (PStr a2a_task_arg)) (\<lambda>a2a_task.
             case map_of A2A_STATE_BY_ANET st of
               None \<Rightarrow> Inl (KeyError st)
             | Some a2a_state \<Rightarrow>
                 and_then (artifact_event E a2a_task context output) (\<lambda>artifact.
                   Inr (artifact @ [status_event E source_task a2a_task context st a2a_state message progress]))))))"

text \<open>A list or a map cannot be a key, so testing membership of one raises.\<close>

definition known_state :: "pyval \<Rightarrow> exn + bool" where
  "known_state v = (case v of
      PStr s \<Rightarrow> Inr (has_field (map (map_prod id PStr) ANET_STATE_BY_A2A) s)
    | PList _ \<Rightarrow> Inl (TypeError ''unhashable type: list'') | PDict _ \<Rightarrow> Inl (TypeError ''unhashable type: dict'')
    | _ \<Rightarrow> Inr False)"

definition status_message :: "ext \<Rightarrow> string \<Rightarrow> string \<Rightarrow> pyval \<Rightarrow> exn + unit" where
  "status_message E task_id context v = (case v of
      PNone \<Rightarrow> Inr ()
    | PDict m \<Rightarrow>
        if dict_get m ''role'' PNone \<noteq> PStr ''ROLE_AGENT'' \<or> dict_get m ''taskId'' PNone \<noteq> PStr task_id
          \<or> dict_get m ''contextId'' PNone \<noteq> PStr context
        then Inl (ValueError ''A2A status message is not bound to the task'')
        else and_then (required_id ''A2A status messageId'' (dict_get m ''messageId'' PNone)) (\<lambda>_.
          case bounded_parts (dict_get m ''parts'' PNone) of
            None \<Rightarrow> Inl (ValueError ''A2A status message requires parts'')
          | Some ps \<Rightarrow> and_then (map_result (normalize_part E) ps) (\<lambda>_. Inr ()))
    | _ \<Rightarrow> Inl (ValueError ''A2A status message must be an object''))"

definition status_update :: "ext \<Rightarrow> string \<Rightarrow> string \<Rightarrow> pydict \<Rightarrow> exn + unit" where
  "status_update E task_id context u =
     (if unknown_fields [''taskId'', ''contextId'', ''status'', ''metadata''] u \<noteq> []
      then Inl (ValueError ''unsupported A2A status update fields'')
      else case dict_get u ''status'' PNone of
        PDict st \<Rightarrow>
          if unknown_fields [''state'', ''message'', ''timestamp''] st \<noteq> [] then Inl (ValueError ''invalid A2A task status'')
          else and_then (known_state (dict_get st ''state'' PNone)) (\<lambda>known.
            if \<not> known then Inl (ValueError ''invalid A2A task state'')
            else and_then (status_message E task_id context (dict_get st ''message'' PNone)) (\<lambda>_.
              and_then (optional_map E u ''A2A status update metadata'') (\<lambda>_. Inr ())))
      | _ \<Rightarrow> Inl (ValueError ''invalid A2A task status''))"

definition boolean_field :: "pydict \<Rightarrow> string \<Rightarrow> exn + unit" where
  "boolean_field u k = require (case map_of u k of None \<Rightarrow> True | Some (PBool _) \<Rightarrow> True | _ \<Rightarrow> False)
     (''A2A artifact update '' @ k @ '' must be boolean'')"

definition artifact_update :: "ext \<Rightarrow> pydict \<Rightarrow> exn + unit" where
  "artifact_update E u =
     (if unknown_fields [''taskId'', ''contextId'', ''artifact'', ''append'', ''lastChunk'', ''metadata''] u \<noteq> []
      then Inl (ValueError ''unsupported A2A artifact update fields'')
      else case dict_get u ''artifact'' PNone of
        PDict a \<Rightarrow>
          if unknown_fields [''artifactId'', ''name'', ''description'', ''parts'', ''metadata'', ''extensions''] a \<noteq> []
          then Inl (ValueError ''invalid A2A artifact'')
          else and_then (required_id ''A2A artifactId'' (dict_get a ''artifactId'' PNone)) (\<lambda>_.
            case bounded_parts (dict_get a ''parts'' PNone) of
              None \<Rightarrow> Inl (ValueError ''A2A artifact requires parts'')
            | Some ps \<Rightarrow>
                and_then (map_result (normalize_part E) ps) (\<lambda>_.
                and_then (checks (map (boolean_field u) [''append'', ''lastChunk''])) (\<lambda>_.
                and_then (optional_map E u ''A2A artifact update metadata'') (\<lambda>_. Inr ()))))
      | _ \<Rightarrow> Inl (ValueError ''invalid A2A artifact''))"

text \<open>The result is the wrapper and its update; the event itself is \<open>PDict [(wrapper, PDict update)]\<close>.\<close>

definition validate_a2a_stream_event :: "ext \<Rightarrow> string \<Rightarrow> string \<Rightarrow> pyval \<Rightarrow> exn + pydict" where
  "validate_a2a_stream_event E task_arg context_arg v =
     and_then (required_id ''A2A taskId'' (PStr task_arg)) (\<lambda>task_id.
     and_then (required_id ''A2A contextId'' (PStr context_arg)) (\<lambda>context.
     and_then (json_clone E ''A2A stream event'' v) (\<lambda>n. case n of
       PDict [(wrapper, update)] \<Rightarrow>
         if wrapper \<notin> {''statusUpdate'', ''artifactUpdate''} then Inl (ValueError ''unsupported A2A stream event wrapper'')
         else (case update of
           PDict u \<Rightarrow>
             if dict_get u ''taskId'' PNone \<noteq> PStr task_id \<or> dict_get u ''contextId'' PNone \<noteq> PStr context
             then Inl (ValueError ''A2A stream event task or context does not match mapping'')
             else and_then (if wrapper = ''statusUpdate'' then status_update E task_id context u else artifact_update E u) (\<lambda>_.
               Inr [(wrapper, update)])
         | _ \<Rightarrow> Inl (ValueError ''A2A stream event update must be an object''))
     | _ \<Rightarrow> Inl (ValueError ''A2A stream event requires exactly one wrapper member''))))"

section \<open>Encoded output is valid base 64\<close>

definition std_char :: "char \<Rightarrow> char" where
  "std_char c = (if c = CHR ''-'' then CHR ''+'' else if c = CHR ''_'' then CHR ''/'' else c)"

lemma std_char_ok:
  assumes "n < 64"
  shows "std_value (std_char (b64_char n))" "std_char (b64_char n) \<noteq> CHR ''=''" "code (std_char (b64_char n)) < 128"
proof -
  have "std_value (CHR ''+'')" "std_value (CHR ''/'')" "code (CHR ''+'') < 128" "code (CHR ''/'') < 128" by code_simp+
  then show "std_value (std_char (b64_char n))" "std_char (b64_char n) \<noteq> CHR ''=''" "code (std_char (b64_char n)) < 128"
    using b64_char_plain [OF assms] b64_value_char [OF assms] by (auto simp: std_char_def) (simp add: std_value_def)
qed

lemma std_scan_char: "n < 64 \<Longrightarrow> std_scan quad pads False (std_char (b64_char n) # cs)
    = std_scan (if quad = 3 then 0 else quad + 1) 0 False cs"
  by (simp add: std_char_ok)

lemma std_b64encode_eq: "std_b64encode bs = map std_char (b64e bs) @ replicate ((4 - length (b64e bs) mod 4) mod 4) (CHR ''='')"
  by (simp add: std_b64encode_def std_char_def [abs_def] Let_def)

lemma std_b64encode_rec:
  "std_b64encode (a # b # c # rest) = map std_char [b64_char (unat a div 4), b64_char (unat a mod 4 * 16 + unat b div 16),
      b64_char (unat b mod 16 * 4 + unat c div 64), b64_char (unat c mod 64)] @ std_b64encode rest"
  by (simp add: std_b64encode_eq mod_add_self2 [of _ 4, simplified])

lemma sextet_bounds:
  "unat (a :: byte) div 4 < 64" "unat a mod 4 * 16 < 64" "unat a mod 4 * 16 + unat (b :: byte) div 16 < 64"
  "unat b mod 16 * 4 < 64" "unat b mod 16 * 4 + unat (c :: byte) div 64 < 64" "unat c mod 64 < 64"
  using unat_byte_less [of a] unat_byte_less [of b] unat_byte_less [of c] by (linarith | simp)+

lemma std_scan_encode: "std_scan 0 0 False (std_b64encode bs)"
proof (induction bs rule: b64e.induct)
  case (4 a b c rest)
  then show ?case by (simp add: std_b64encode_rec std_scan_char sextet_bounds del: std_scan.simps(2))
qed (simp_all add: std_b64encode_eq std_scan_char sextet_bounds del: std_scan.simps(2), simp_all add: numeral_2_eq_2)

lemma valid_base64_encode: "valid_base64 (std_b64encode bs)"
proof -
  have "list_all (\<lambda>c. code c < 128) (std_b64encode bs)"
  proof (induction bs rule: b64e.induct)
    case (4 a b c rest)
    then show ?case by (simp add: std_b64encode_rec std_char_ok sextet_bounds)
  qed (simp_all add: std_b64encode_eq std_char_ok sextet_bounds list_all_iff code_literals)
  moreover have "std_b64encode bs = [] \<or> hd (std_b64encode bs) \<noteq> CHR ''=''"
    by (cases bs rule: b64e.cases) (simp_all add: std_b64encode_eq std_char_ok sextet_bounds)
  ultimately show ?thesis using std_scan_encode by (simp add: valid_base64_def)
qed

section \<open>Fields that were checked\<close>

lemma required_string_Inr:
  "required_string limit name v = Inr s \<longleftrightarrow> (\<exists>t. v = PStr t \<and> s = strip t \<and> s \<noteq> '''' \<and> length s \<le> limit)"
  by (auto simp: required_string_def not_less split: pyval.splits)

lemma required_string_id: "strip s = s \<Longrightarrow> s \<noteq> '''' \<Longrightarrow> length s \<le> limit \<Longrightarrow> required_string limit name (PStr s) = Inr s"
  by (simp add: required_string_def)

lemma required_string_again: "required_string limit name v = Inr s \<Longrightarrow> required_string limit name' (PStr s) = Inr s"
  by (auto simp: required_string_Inr)

text \<open>What a clone of a value accepts by its length.\<close>

definition fits :: "ext \<Rightarrow> pyval \<Rightarrow> bool" where
  "fits E v = (length (utf8 (json_text E v)) \<le> MAX_JSON_BYTES)"

lemma json_clone_Inr: "json_clone E name v = Inr w \<longleftrightarrow> w = v \<and> json_value v \<and> fits E v"
  by (auto simp: json_clone_def fits_def)

lemma json_clone_ok: "json_value v \<Longrightarrow> fits E v \<Longrightarrow> json_clone E name v = Inr v"
  by (simp add: json_clone_Inr)

lemma hex_not_space: "is_lower_hex c \<Longrightarrow> \<not> py_space c"
  by (auto simp: is_lower_hex_def is_digit_def py_space_def Let_def)

lemma lower_hex: "hex_string n t \<Longrightarrow> lower t = t"
proof -
  have "lower_char c = c" if "is_lower_hex c" for c
    using that by (auto simp: is_lower_hex_def is_digit_def lower_char_def Let_def)
  then show "hex_string n t \<Longrightarrow> lower t = t" by (auto simp: hex_string_def lower_def list_all_iff intro!: map_idI)
qed

lemma strip_hex: "hex_string n t \<Longrightarrow> strip t = t"
  by (rule strip_clean) (auto simp: hex_string_def list_all_iff hex_not_space)

section \<open>Events of the gateway validate\<close>

text \<open>The size of the texts inside an event is bounded by that of the event.\<close>

lemma media_types: "strip ''text/plain'' = ''text/plain''" "strip ''application/octet-stream'' = ''application/octet-stream''"
  "strip ''application/json'' = ''application/json''" "strip ''result'' = ''result''"
  by code_simp+

lemma part_one:
  assumes "k \<in> {''text'', ''raw'', ''data''}" and "part_content E k v = Inr w"
    and "m \<in> {''text/plain'', ''application/octet-stream'', ''application/json''}"
  shows "\<exists>q. normalize_part E (PDict [(k, v), (''mediaType'', PStr m)]) = Inr q"
proof -
  have "unknown_fields PART_FIELDS [(k, v), (''mediaType'', PStr m)] = []"
    using assms(1) by (auto simp: unknown_fields_def PART_FIELDS_def)
  moreover have "filter (has_field [(k, v), (''mediaType'', PStr m)]) PART_CONTENT_FIELDS = [k]"
    using assms(1) by (auto simp: PART_CONTENT_FIELDS_def has_field_def)
  moreover have "dict_get [(k, v), (''mediaType'', PStr m)] k PNone = v" by (simp add: dict_get_def)
  moreover have "optional_map E [(k, v), (''mediaType'', PStr m)] name = Inr []" "optional_id [(k, v), (''mediaType'', PStr m)] ''filename'' name = Inr []" for name
    using assms(1) by (auto simp: optional_map_def optional_id_def has_field_def)
  moreover have "required_id name (PStr m) = Inr m" for name
    using assms(3) by (auto simp: required_string_def media_types MAX_ID_CHARS_def)
  then have "optional_id [(k, v), (''mediaType'', PStr m)] ''mediaType'' name = Inr [(''mediaType'', PStr m)]" for name
    using assms(1) by (auto simp: optional_id_def has_field_def dict_get_def)
  ultimately show ?thesis using assms(2) by (simp add: normalize_part_def)
qed

lemma output_part_ok:
  assumes "output_part E v = Inr p"
  shows "(\<exists>q. normalize_part E p = Inr q) \<and> json_value p"
proof (cases "(\<exists>s. v = PStr s) \<or> (\<exists>b. v = PBytes b)")
  case True
  then show ?thesis
  proof
    assume "\<exists>s. v = PStr s"
    then obtain s where s: "v = PStr s" by blast
    have "part_content E ''text'' (PStr s) = Inr (PStr s)" by (simp add: part_content_def)
    from part_one [where m = "''text/plain''", OF _ this] assms show ?thesis by (auto simp: s output_part_def)
  next
    assume "\<exists>b. v = PBytes b"
    then obtain b where b: "v = PBytes b" by blast
    have "part_content E ''raw'' (PStr (std_b64encode b)) = Inr (PStr (std_b64encode b))"
      by (simp add: part_content_def valid_base64_encode)
    from part_one [where m = "''application/octet-stream''", OF _ this] assms show ?thesis by (auto simp: b output_part_def)
  qed
next
  case False
  then have c: "json_clone E ''Anet task output'' v = Inr v" and p: "p = PDict [(''data'', v), (''mediaType'', PStr ''application/json'')]"
    using assms by (cases v; auto simp: output_part_def json_clone_Inr)+
  then have "part_content E ''data'' v = Inr v" "json_value v" by (simp_all add: part_content_def json_clone_Inr)
  with part_one [of "''data''" E v v "''application/json''"] p show ?thesis by simp
qed

text \<open>An identifier as the events carry it.\<close>

definition clean_id :: "string \<Rightarrow> bool" where
  "clean_id t = (strip t = t \<and> t \<noteq> '''' \<and> length t \<le> MAX_ID_CHARS)"

lemma clean_id_required: "clean_id t \<Longrightarrow> required_id name (PStr t) = Inr t"
  by (simp add: clean_id_def required_string_def)

lemma required_clean: "required_id name v = Inr t \<Longrightarrow> clean_id t"
  by (auto simp: required_string_Inr clean_id_def)

lemma artifact_event_valid:
  assumes "artifact_event E t c out = Inr evs" and "v \<in> set evs" and "clean_id t" "clean_id c" and "fits E v"
  shows "\<exists>d. v = PDict d \<and> validate_a2a_stream_event E t c v = Inr d"
proof -
  obtain p where p: "output_part E out = Inr p" and v: "v = PDict [(''artifactUpdate'', PDict [(''taskId'', PStr t), (''contextId'', PStr c),
           (''artifact'', PDict [(''artifactId'', PStr ''result''), (''name'', PStr ''Anet task result''), (''parts'', PList [p])]),
           (''append'', PBool False), (''lastChunk'', PBool True)])]"
    using assms(1,2) by (auto simp: artifact_event_def split: if_splits)
  let ?u = "[(''taskId'', PStr t), (''contextId'', PStr c),
           (''artifact'', PDict [(''artifactId'', PStr ''result''), (''name'', PStr ''Anet task result''), (''parts'', PList [p])]),
           (''append'', PBool False), (''lastChunk'', PBool True)]"
  obtain q where q: "normalize_part E p = Inr q" "json_value p" using output_part_ok [OF p] by blast
  have "artifact_update E ?u = Inr ()"
    by (simp add: artifact_update_def unknown_fields_def dict_get_def required_string_def media_types MAX_ID_CHARS_def bounded_parts_def
        MAX_PARTS_def q boolean_field_def require_def optional_map_def has_field_def)
  moreover have "json_clone E ''A2A stream event'' v = Inr v" using assms(5) q(2) by (intro json_clone_ok) (simp_all add: v)
  ultimately show ?thesis
    by (simp add: validate_a2a_stream_event_def clean_id_required assms(3,4)) (simp add: v dict_get_def)
qed

lemma known_a2a_state: "map_of A2A_STATE_BY_ANET st = Some x \<Longrightarrow> known_state (PStr x) = Inr True"
  by (auto simp: A2A_STATE_BY_ANET_def ANET_STATE_BY_A2A_def known_state_def has_field_def split: if_splits)

lemma agent_message_ok:
  assumes "\<forall>p m. length (blake2s E 16 p m) = 16"
  shows "status_message E t c (agent_status_message E src t c st msg) = Inr ()" "json_value (agent_status_message E src t c st msg)"
proof -
  let ?i = "hex_of_bytes (blake2s E 16 ''a2a-msg1'' (utf8 (src @ [char_of (0 :: nat)] @ st @ [char_of (0 :: nat)] @ msg)))"
  have h: "hex_string 32 ?i" using hex_string_hex_of_bytes assms by (metis mult_2 numeral_Bit0)
  have "?i \<noteq> ''''" using hex_string_nonempty [OF h] by simp
  moreover have "length ?i \<le> MAX_ID_CHARS" using h by (simp add: hex_string_def MAX_ID_CHARS_def)
  ultimately have i: "required_id n (PStr ?i) = Inr ?i" for n using strip_hex [OF h] by (intro required_string_id)
  have "part_content E ''text'' (PStr msg) = Inr (PStr msg)" by (simp add: part_content_def)
  from part_one [where m = "''text/plain''", OF _ this] obtain q where
    q: "normalize_part E (PDict [(''text'', PStr msg), (''mediaType'', PStr ''text/plain'')]) = Inr q" by auto
  show "status_message E t c (agent_status_message E src t c st msg) = Inr ()"
    unfolding agent_status_message_def Let_def status_message_def
    by (simp only: pyval.simps) (simp add: dict_get_def i [simplified] bounded_parts_def MAX_PARTS_def q)
  show "json_value (agent_status_message E src t c st msg)" by (simp add: agent_status_message_def Let_def)
qed

text \<open>A part of a value fits when the value does.\<close>

lemma utf8_append [simp]: "utf8 (s @ t) = utf8 s @ utf8 t"
  by (simp add: utf8_def)

lemma length_utf8_Cons: "length (utf8 s) \<le> length (utf8 (c # s))"
  by (simp add: utf8_def)

lemma join_member: "t \<in> set ts \<Longrightarrow> length (utf8 t) \<le> length (utf8 (join sep ts))"
proof (induction sep ts rule: join.induct)
  case (3 sep t' u ts)
  then show ?case by (cases "t = t'") auto
qed simp_all

lemma fits_entry:
  assumes "(k, v) \<in> set kvs" and "fits E (PDict kvs)"
  shows "fits E v"
proof -
  let ?item = "\<lambda>(k, t). json_string k @ '':'' @ t"
  let ?ts = "map ?item (map (map_prod id (json_text E)) kvs)"
  have "map_prod id (json_text E) (k, v) \<in> set (map (map_prod id (json_text E)) kvs)"
    unfolding set_map by (rule imageI [OF assms(1)])
  then have "?item (map_prod id (json_text E) (k, v)) \<in> set ?ts" unfolding set_map [of ?item] by (rule imageI)
  then have t: "json_string k @ '':'' @ json_text E v \<in> set ?ts" by (simp only: map_prod_simp prod.case id_apply)
  have "length (utf8 (json_text E v)) \<le> length (utf8 (json_string k @ '':'' @ json_text E v))"
    unfolding utf8_append length_append by (intro trans_le_add2 order_refl)
  also have "\<dots> \<le> length (utf8 (join '','' ?ts))" by (rule join_member [OF t])
  also have "\<dots> \<le> length (utf8 (json_text E (PDict kvs)))"
    unfolding json_text.simps utf8_append length_append by (intro trans_le_add2 trans_le_add1 order_refl)
  also have "\<dots> \<le> MAX_JSON_BYTES" using assms(2) unfolding fits_def .
  finally show ?thesis unfolding fits_def .
qed

lemma status_event_valid:
  assumes "map_of A2A_STATE_BY_ANET st = Some x" and "progress = PNone \<or> (\<exists>r. progress = PFloat r)"
    and "clean_id t" "clean_id c" and "\<forall>p m. length (blake2s E 16 p m) = 16" and "fits E (status_event E src t c st x text progress)"
  shows "\<exists>d. status_event E src t c st x text progress = PDict d
    \<and> validate_a2a_stream_event E t c (status_event E src t c st x text progress) = Inr d"
proof -
  let ?st = "[(''state'', PStr x)] @ (if text = '''' then [] else [(''message'', agent_status_message E src t c st text)])"
  let ?u = "[(''taskId'', PStr t), (''contextId'', PStr c), (''status'', PDict ?st)]
       @ (if progress = PNone then [] else [(''metadata'', PDict [(''anetProgress'', progress)])])"
  note msg = agent_message_ok [where t = t and c = c and src = src and st = st and msg = "text", OF assms(5)]
  have st: "dict_get ?u ''status'' PNone = PDict ?st" "dict_get ?st ''state'' PNone = PStr x"
    "dict_get ?st ''message'' PNone = (if text = '''' then PNone else agent_status_message E src t c st text)"
    by (simp_all add: dict_get_def)
  have pj: "json_value progress" using assms(2) by auto
  have v: "status_event E src t c st x text progress = PDict [(''statusUpdate'', PDict ?u)]" by (simp add: status_event_def)
  have u: "fits E (PDict ?u)" by (rule fits_entry [of "''statusUpdate''" _ "[(''statusUpdate'', PDict ?u)]"]) (use assms(6) v in simp_all)
  have "progress \<noteq> PNone \<Longrightarrow> fits E (PDict [(''anetProgress'', progress)])"
    by (rule fits_entry [of "''metadata''" _ ?u, OF _ u]) simp
  then have "optional_map E ?u ''A2A status update metadata'' = Inr (if progress = PNone then [] else [(''metadata'', PDict [(''anetProgress'', progress)])])"
    using pj by (auto simp: optional_map_def has_field_def dict_get_def json_map_def json_clone_ok)
  moreover have "unknown_fields [''taskId'', ''contextId'', ''status'', ''metadata''] ?u = []" "unknown_fields [''state'', ''message'', ''timestamp''] ?st = []"
    by (simp_all add: unknown_fields_def)
  moreover have "status_message E t c (dict_get ?st ''message'' PNone) = Inr ()" unfolding st(3) using msg(1) by (simp add: status_message_def)
  ultimately have "status_update E t c ?u = Inr ()"
    unfolding status_update_def by (simp only: st pyval.simps known_a2a_state [OF assms(1)]) simp
  moreover have "json_value (status_event E src t c st x text progress)" using msg(2) pj by (simp add: v)
  ultimately show ?thesis
    using assms(6) by (simp add: validate_a2a_stream_event_def clean_id_required assms(3,4) json_clone_ok) (simp add: v dict_get_def)
qed

lemma task_message_id:
  assumes "kind \<in> {''agent.task.status'', ''agent.task.result''}" and "validate_task_message E rnd kind body = Inr n"
  shows "\<exists>t. dict_get n ''task_id'' x = PStr t \<and> hex_string 32 t"
    and "kind = ''agent.task.status'' \<Longrightarrow> dict_get n ''progress'' PNone = PNone \<or> (\<exists>r. dict_get n ''progress'' PNone = PFloat r)"
proof -
  have k: "lower (strip ''agent.task.status'') = ''agent.task.status''" "lower (strip ''agent.task.result'') = ''agent.task.result''" by code_simp+
  have s: "\<exists>a b c p. task_status a b c p = Inr n" if "kind = ''agent.task.status''"
    using assms(2) unfolding that validate_task_message_def k Let_def by (cases body) (simp_all add: TASK_KINDS_def, blast)
  have r: "\<exists>a b c d. task_result a b c d = Inr n" if "kind = ''agent.task.result''"
    using assms(2) unfolding that validate_task_message_def k Let_def by (cases body) (simp_all add: TASK_KINDS_def, blast)
  show "\<exists>t. dict_get n ''task_id'' x = PStr t \<and> hex_string 32 t"
  proof (cases "kind = ''agent.task.status''")
    case True
    then obtain a b c p where "task_status a b c p = Inr n" using s by blast
    from task_status_normal [OF this] show ?thesis
      by (elim exE conjE) (auto simp: task_status_def task_base_Inr Let_def dict_get_def dest: task_id_arg_Inr)
  next
    case False
    then obtain a b c p where "task_result a b c p = Inr n" using r assms(1) by blast
    from task_result_normal [OF this] show ?thesis
      by (elim exE conjE) (auto simp: task_result_def task_base_Inr Let_def dict_get_def dest: task_id_arg_Inr)
  qed
  show "dict_get n ''progress'' PNone = PNone \<or> (\<exists>r. dict_get n ''progress'' PNone = PFloat r)" if k: "kind = ''agent.task.status''"
  proof -
    obtain a b c p where "task_status a b c p = Inr n" using s [OF k] by blast
    then obtain base q where n: "n = base @ [(''state'', PStr (lower (strip b))), (''message'', PStr (strip c)), (''progress'', q)]" "task_base a = Inr base"
      and q: "q = PNone \<or> (\<exists>r. q = PFloat r)"
      by (auto simp: task_status_def Let_def split: option.splits if_splits)
    from n(2) have "dict_get n ''progress'' PNone = q" by (auto simp: n(1) task_base_Inr dict_get_def)
    with q show ?thesis by simp
  qed
qed

lemma hex_clean: "hex_string 32 t \<Longrightarrow> clean_id t"
  using strip_hex [of 32 t] hex_string_nonempty [of 32 t] by (auto simp: clean_id_def hex_string_def MAX_ID_CHARS_def)


section \<open>What a request can influence\<close>

lemma translate_Inr:
  assumes "translate_message E rnd d sender k tenant rw existing message = Inr t"
  obtains message' where "derived_id (ext_of E) ''a2a-task'' sender (in_message_id t) = Inr (in_task t)"
    "safe_id ''A2A skill id'' (sk_id k) = Inr (in_skill t)" "in_message_id t = message_id_of message"
    "(case existing of None \<Rightarrow> first_mapping (ext_of E) sender (in_task t) (in_message_id t) message
       | Some x \<Rightarrow> follow_up_mapping sender (in_skill t) tenant rw x message) = Inr (in_a2a_task t, in_context t, message')"
    "inbound_body E rnd k (in_task t) (in_message_id t) (in_context t) (in_a2a_task t) (in_skill t) tenant message' d = Inr (in_body t)"
  using assms unfolding translate_message_def by (cases existing) (auto split del: if_split)

lemma inbound_Inr:
  assumes "inbound_message_to_task E rnd req sender k tenant existing = Inr t"
  obtains d message where "req = PDict d" "py_str (ext_of E) (dict_get d ''tenant'' (PStr '''')) = tenant"
    "raw_task_id (ext_of E) (dict_get d ''message'' PNone) = '''' \<longleftrightarrow> existing = None"
    "normalize_message (ext_of E) (if existing = None then dict_get d ''message'' PNone else without_task_id (dict_get d ''message'' PNone)) = Inr message"
    "translate_message E rnd d sender k tenant (raw_task_id (ext_of E) (dict_get d ''message'' PNone)) existing message = Inr t"
  using assms by (cases req) (auto simp: inbound_message_to_task_def Let_def)

lemma inbound_body_fields:
  assumes "inbound_body E rnd k i m c a s tenant message d = Inr b" and "i = lower (strip i)" "i \<noteq> ''''"
  shows "\<exists>caps inp obj. capabilities (ext_of E) (PList (map PStr (sk_required k))) = Inr caps
    \<and> b = [(''protocol'', PStr AGENT_PROTOCOL), (''version'', PInt AGENT_PROTOCOL_VERSION), (''task_id'', PStr i), (''objective'', PStr obj),
        (''input'', inp), (''required_capabilities'', PList (map PStr caps)), (''context'', PDict [(''a2a'', PDict (gateway_context m c a s tenant))])]
    \<and> hex_string 32 i \<and> obj \<noteq> '''' \<and> strip obj = obj \<and> length obj \<le> MAX_OBJECTIVE_CHARS"
proof -
  obtain obj inp where t: "task_request (ext_of E) rnd obj inp (PList (map PStr (sk_required k))) i (PDict [(''a2a'', PDict (gateway_context m c a s tenant))]) = Inr b"
    using assms(1) by (auto simp: inbound_body_def)
  obtain caps j where caps: "capabilities (ext_of E) (PList (map PStr (sk_required k))) = Inr caps" and j: "task_id_arg i = Inr j"
    and b: "b = [(''protocol'', PStr AGENT_PROTOCOL), (''version'', PInt AGENT_PROTOCOL_VERSION), (''task_id'', PStr j), (''objective'', PStr (strip obj)),
        (''input'', inp), (''required_capabilities'', PList (map PStr caps)), (''context'', PDict [(''a2a'', PDict (gateway_context m c a s tenant))])]"
    and o: "strip obj \<noteq> ''''" "length (strip obj) \<le> MAX_OBJECTIVE_CHARS"
    using t assms(3) by (auto simp: task_request_def task_base_Inr py_dict_def Let_def not_less split: if_splits)
  from task_id_arg_Inr [OF j] assms(2) have "j = i" "hex_string 32 i" by metis+
  with caps b o show ?thesis by (intro exI [of _ caps] exI [of _ inp] exI [of _ "strip obj"]) simp
qed


text \<open>
  A field that is \<open>null\<close> in JSON is absent for every check of a message, but not for the first one: \<open>str(None)\<close> is the text
  \<open>None\<close>.  So a message with \<open>"taskId": null\<close> that is valid as a message is refused as a follow-up of an unknown task.
\<close>
theorem null_task_id_refused:
  assumes "normalize_message (ext_of E) (PDict m) = Inr n" and "map_of m ''taskId'' = Some PNone" and "dict_get d ''message'' PNone = PDict m"
  shows "\<exists>e. inbound_message_to_task E rnd (PDict d) sender k tenant None = Inl e"
proof (cases "inbound_message_to_task E rnd (PDict d) sender k tenant None")
  case (Inr t)
  have "raw_task_id (ext_of E) (PDict m) = strip ''None''" using assms(2) by (simp add: raw_task_id_def dict_get_def py_str_def)
  moreover have "strip ''None'' \<noteq> ''''" by code_simp
  ultimately have r: "raw_task_id (ext_of E) (PDict m) \<noteq> ''''" by simp
  from Inr obtain d' where "PDict d = PDict d'" "raw_task_id (ext_of E) (dict_get d' ''message'' PNone) = '''' \<longleftrightarrow> (None :: pydict option) = None"
    by (rule inbound_Inr) blast
  then show ?thesis using r assms(3) by simp
qed simp

section \<open>Examples\<close>

definition a2a_demo :: a2a_env where
  "a2a_demo = \<lparr>packb = (\<lambda>v. []), unpackb = (\<lambda>b. Inr PNone), repr = (\<lambda>v. ''''), blake2s = (\<lambda>n p b. replicate n 170),
     sha256 = (\<lambda>b. replicate 32 0), url_brackets = (\<lambda>_. True), v6_loopback = (\<lambda>h. h = ''::1''), ellipsis = CHR ''.''\<rparr>"

lemma a2a_demo_digest: "\<forall>p m. length (blake2s a2a_demo 16 p m) = 16" "\<forall>p m. length (blake2s (ext_of a2a_demo) 16 p m) = 16"
  by (simp_all add: a2a_demo_def ext_of_def ext.truncate_def)

lemma fits_short: "length (utf8 (json_text E v)) \<le> 400 \<Longrightarrow> fits E v"
  by (simp add: fits_def MAX_JSON_BYTES_def)

text \<open>A completed task with an output.\<close>

definition a2a_result :: pyval where
  "a2a_result = PDict [(''protocol'', PStr AGENT_PROTOCOL), (''version'', PInt 1), (''task_id'', PStr (replicate 32 CHR ''a'')),
     (''state'', PStr ''completed''), (''output'', PStr ''ok''), (''error'', PStr '''')]"

definition a2a_artifact :: pyval where
  "a2a_artifact = PDict [(''artifactUpdate'', PDict [(''taskId'', PStr ''t''), (''contextId'', PStr ''c''),
     (''artifact'', PDict [(''artifactId'', PStr ''result''), (''name'', PStr ''Anet task result''),
        (''parts'', PList [PDict [(''text'', PStr ''ok''), (''mediaType'', PStr ''text/plain'')]])]),
     (''append'', PBool False), (''lastChunk'', PBool True)])]"

definition a2a_completed :: pyval where
  "a2a_completed = PDict [(''statusUpdate'', PDict [(''taskId'', PStr ''t''), (''contextId'', PStr ''c''),
     (''status'', PDict [(''state'', PStr ''TASK_STATE_COMPLETED'')])])]"

lemma a2a_result_ok:
  "validate_task_message E rnd ''agent.task.result'' a2a_result = Inr [(''protocol'', PStr AGENT_PROTOCOL), (''version'', PInt AGENT_PROTOCOL_VERSION),
     (''task_id'', PStr (replicate 32 CHR ''a'')), (''state'', PStr ''completed''), (''output'', PStr ''ok''), (''error'', PStr '''')]"
proof -
  have t: "lower (strip ''agent.task.result'') = ''agent.task.result''" "lower (strip ''completed'') = ''completed''" by code_simp+
  have "hex_string 32 (replicate 32 CHR ''a'')" by code_simp
  then have "task_id_arg (replicate 32 CHR ''a'') = Inr (replicate 32 CHR ''a'')" by (simp only: task_id_arg_def Let_def strip_hex lower_hex if_True)
  then show ?thesis
    by (simp add: validate_task_message_def a2a_result_def t TASK_KINDS_def dict_get_def text_field_def py_str_def AGENT_PROTOCOL_VERSION_def
        task_result_def TERMINAL_TASK_STATES_def MAX_MESSAGE_CHARS_def task_base_def)
qed

lemma a2a_events: "task_event_to_a2a_stream_events (ext_of a2a_demo) 0 ''agent.task.result'' a2a_result ''c'' ''t'' = Inr [a2a_artifact, a2a_completed]"
proof -
  have "strip ''c'' = ''c''" "strip ''t'' = ''t''" by code_simp+
  then show ?thesis
    by (simp add: task_event_to_a2a_stream_events_def a2a_result_ok required_string_def MAX_ID_CHARS_def dict_get_def py_str_def
        A2A_STATE_BY_ANET_def artifact_event_def output_part_def status_event_def a2a_artifact_def a2a_completed_def)
qed


text \<open>A message of one text part, for a skill that needs one capability.\<close>

definition a2a_skill :: skill_binding where
  "a2a_skill = \<lparr>sk_id = ''echo'', sk_name = ''Echo'', sk_description = ''d'', sk_tags = [''t''], sk_required = [''text.echo''],
     sk_examples = [], sk_inputs = [], sk_outputs = []\<rparr>"

definition a2a_message :: pydict where
  "a2a_message = [(''messageId'', PStr ''m''), (''role'', PStr ''ROLE_USER''), (''parts'', PList [PDict [(''text'', PStr ''hi'')]])]"

definition a2a_request :: pydict where
  "a2a_request = [(''message'', PDict a2a_message)]"

lemma a2a_texts: "strip ''m'' = ''m''" "strip ''hi'' = ''hi''" "strip ''echo'' = ''echo''" "lower ''echo'' = ''echo''" "strip ''an1'' = ''an1''"
  "capability_match ''echo''"
  by code_simp+

lemma a2a_message_ok: "normalize_message E (PDict a2a_message) = Inr a2a_message"
proof -
  let ?p = "[(''text'', PStr ''hi'')]"
  have "unknown_fields PART_FIELDS ?p = []" "filter (has_field ?p) PART_CONTENT_FIELDS = [''text'']"
    by (simp_all add: unknown_fields_def PART_FIELDS_def PART_CONTENT_FIELDS_def has_field_def)
  then have p: "normalize_part E (PDict ?p) = Inr (PDict ?p)"
    by (simp add: normalize_part_def part_content_def dict_get_def optional_map_def optional_id_def has_field_def)
  have "unknown_fields MESSAGE_FIELDS a2a_message = []" by (simp add: unknown_fields_def MESSAGE_FIELDS_def a2a_message_def)
  then show ?thesis
    by (simp add: normalize_message_def) (simp add: a2a_message_def dict_get_def required_string_def a2a_texts MAX_ID_CHARS_def bounded_parts_def
        MAX_PARTS_def p optional_map_def optional_list_def has_field_def)
qed

lemma a2a_inbound: "\<exists>t. inbound_message_to_task a2a_demo 0 (PDict a2a_request) ''an1'' a2a_skill '''' None = Inr t \<and> in_message_id t = ''m''
    \<and> in_task t = replicate 32 CHR ''a'' \<and> in_skill t = ''echo''"
proof -
  let ?X = "ext_of a2a_demo" and ?t = "replicate 32 CHR ''a''"
  have hexa: "hex_of_bytes (replicate 16 170) = ?t" by code_simp
  have "blake2s ?X 16 p x = replicate 16 170" for p x by (simp add: a2a_demo_def ext_of_def ext.truncate_def)
  then have der: "derived_id ?X p ''an1'' ''m'' = Inr ?t" for p
    by (simp add: derived_id_def required_string_def a2a_texts MAX_ID_CHARS_def hexa del: utf8_append)
  have sk: "safe_id n (sk_id a2a_skill) = Inr ''echo''" for n
    by (simp add: safe_id_def a2a_skill_def required_string_def a2a_texts)
  have m: "message_id_of a2a_message = ''m''" "dict_get a2a_message ''contextId'' PNone = PNone" "dict_get a2a_message ''parts'' PNone = PList [PDict [(''text'', PStr ''hi'')]]"
    by (simp_all add: message_id_of_def a2a_message_def dict_get_def)
  have first: "first_mapping ?X ''an1'' ?t ''m'' a2a_message = Inr (?t, ''anet-'' @ ?t, a2a_message)"
    by (simp only: first_mapping_def m pyval.simps der and_then_simps)
  have obj: "objective_text x ''m'' [PDict [(''text'', PStr ''hi'')]] = ''hi''" for x
    by (simp add: objective_text_def part_text_def a2a_texts A2A_OBJECTIVE_CHARS_def)
  have caps: "capabilities ?X (PList (map PStr (sk_required a2a_skill))) = Inr [''text.echo'']"
  proof -
    have "lower (strip ''text.echo'') = ''text.echo''" "capability_match ''text.echo''" by code_simp+
    then show ?thesis by (simp add: capabilities_def a2a_skill_def py_str_def Let_def MAX_CAPABILITIES_def)
  qed
  have tid: "task_id_arg ?t = Inr ?t"
  proof -
    have "hex_string 32 ?t" by code_simp
    then show ?thesis by (simp only: task_id_arg_def Let_def strip_hex lower_hex if_True)
  qed
  have ne: "?t \<noteq> ''''" by simp
  have req: "\<exists>b. task_request ?X 0 ''hi'' inp (PList (map PStr (sk_required a2a_skill))) ?t (PDict [x]) = Inr b" for inp x
    unfolding task_request_def Let_def if_not_P [OF ne] task_base_def tid caps
    by (simp add: a2a_texts MAX_OBJECTIVE_CHARS_def py_dict_def)
  have maps: "json_map ?X n (dict_get a2a_request ''configuration'' PNone) = Inr []" "json_map ?X n (dict_get a2a_request ''metadata'' PNone) = Inr []" for n
    by (simp_all add: json_map_def a2a_request_def dict_get_def)
  have "\<exists>b. inbound_body a2a_demo 0 a2a_skill ?t ''m'' (''anet-'' @ ?t) ?t ''echo'' '''' a2a_message a2a_request = Inr b"
    unfolding inbound_body_def maps m and_then_simps pyval.simps obj by (rule req)
  then obtain b where b: "inbound_body a2a_demo 0 a2a_skill ?t ''m'' (''anet-'' @ ?t) ?t ''echo'' '''' a2a_message a2a_request = Inr b" ..
  have tr: "translate_message a2a_demo 0 a2a_request ''an1'' a2a_skill '''' '''' None a2a_message
      = Inr \<lparr>in_task = ?t, in_a2a_task = ?t, in_context = ''anet-'' @ ?t, in_message_id = ''m'', in_skill = ''echo'', in_message = a2a_message, in_body = b\<rparr>"
    unfolding translate_message_def m der sk and_then_simps option.simps first prod.case b ..
  have f: "fits ?X (PDict a2a_request)" by (rule fits_short, code_simp)
  then have cl: "json_clone ?X n (PDict a2a_request) = Inr (PDict a2a_request)" for n
    by (rule json_clone_ok [rotated]) (simp add: a2a_request_def a2a_message_def)
  have r: "unknown_fields REQUEST_FIELDS a2a_request = []" "py_str ?X (dict_get a2a_request ''tenant'' (PStr '''')) = ''''"
    "dict_get a2a_request ''message'' PNone = PDict a2a_message" "raw_task_id ?X (PDict a2a_message) = ''''"
    by (simp_all add: unknown_fields_def REQUEST_FIELDS_def a2a_request_def dict_get_def py_str_def raw_task_id_def a2a_message_def)
  have "inbound_message_to_task a2a_demo 0 (PDict a2a_request) ''an1'' a2a_skill '''' None
      = Inr \<lparr>in_task = ?t, in_a2a_task = ?t, in_context = ''anet-'' @ ?t, in_message_id = ''m'', in_skill = ''echo'', in_message = a2a_message, in_body = b\<rparr>"
    unfolding inbound_message_to_task_def pyval.simps r Let_def cl and_then_simps by (simp add: a2a_message_ok tr)
  then show ?thesis by (intro exI conjI, assumption) (simp_all only: inbound_task.select_convs)
qed


end
