(* ===== verification/Spec2Isabelle.thy ===== *)
theory Spec2Isabelle
  imports Store_Machine Routing Scheduling Control_Store Companion_Protocol Store_Approvals A2A
begin

text \<open>
  Verification of the core of Anet, a network of agents that exchange sealed messages over whatever
  path is available.  A node (\<open>src/src/anet/node.py\<close>) seals messages into packets (\<open>packet.py\<close>), keeps
  everything it knows in one SQLite database (\<open>store.py\<close>), chooses a path for every peer (\<open>routing.py\<close>)
  and probes the paths on a jittered schedule (\<open>scheduling.py\<close>).  Applications read the inbox through
  consumer groups with leased claims and execute typed tasks (\<open>agent_protocol.py\<close>) under them.  The control plane (\<open>control_plane.py\<close>) decides which devices may act for a human.

  Theories, in the order of their imports:

  \<^item> \<open>Prelude\<close>: exceptions as values, transactions (an exception rolls the state back), Python string
    functions, SQL statements on lists of rows (\<open>UPDATE ... WHERE\<close>, upserts, unique keys), and the
    interfaces: \<open>machine\<close> (an invariant kept by every call), \<open>stable_machine\<close> (a fact that lasts),
    \<open>refinement_map\<close> (a view that moves along an abstract transition relation) and
    \<open>exclusive_grants\<close> (items handed out to holders).  All of them are interpreted on the store.
  \<^item> \<open>Values\<close>: MessagePack values and \<open>encoding.py\<close>; the codec itself is a parameter (\<open>ext\<close>).
  \<^item> \<open>Packets\<close>: \<open>packet.py\<close> and the key derivation of \<open>identity.py\<close>: sealing, inspecting and opening.
    The primitives (X25519, HKDF, ChaCha20-Poly1305, Ed25519, BLAKE2s) are fields of a
    \<open>crypto_scheme\<close>; the round trip assumes their documented correctness laws by name.
  \<^item> \<open>Store_State\<close>: the tables of \<open>PacketStore\<close> as records of rows in rowid order.
  \<^item> \<open>Store_Packets\<close>, \<open>Store_Prekeys\<close>, \<open>Store_Inbox\<close>, \<open>Store_Consumers\<close>, \<open>Store_Tasks\<close>, \<open>Store_Paths\<close>,
    \<open>Store_Admin\<close>: the operations of \<open>PacketStore\<close> by table group, each with its invariant, a datatype
    of calls and the properties of the group.  \<open>Agent_Protocol\<close>: \<open>agent_protocol.py\<close>, the messages of typed
    tasks, their validation and the capability policy, which \<open>Store_Tasks\<close> uses.
  \<^item> \<open>Routing\<close>, \<open>Scheduling\<close>: \<open>AdaptiveRouter\<close> and \<open>AdaptiveSchedule\<close>.
  \<^item> \<open>Base64\<close>, \<open>Locator\<close>: the base 64 helpers of \<open>encoding.py\<close>, and \<open>locator.py\<close> with the functions of
    \<open>urllib.parse\<close> it uses.
  \<^item> \<open>Control_Plane\<close>, \<open>Control_Store\<close>: \<open>control_plane.py\<close>, the signed objects (node descriptors,
    reachability records, device grants and revocations), the in-memory revision tracker and the durable
    store, which implements the tracker (interface \<open>simulation\<close>).
  \<^item> \<open>Companion_Protocol\<close>: \<open>companion_protocol.py\<close>, the messages of a companion device.  The six validators
    share one form (\<open>validated\<close>); the interface \<open>companion_object\<close>, interpreted on each of them, gives that a
    validated message is its own normal form.
  \<^item> \<open>Store_Approvals\<close>: the companion approvals of \<open>store.py\<close> (registering a request, activating a decision
    under a consumer claim, and the leased effects of an approval), over the store of \<open>Store_Machine\<close>, a
    control-plane store and the messages of \<open>Companion_Protocol\<close>.  A call that reads before its transaction takes
    what it read as a state of its own, so the properties hold for any calls in between.
  \<^item> \<open>A2A\<close>: \<open>a2a_v1.py\<close>, the mapping between A2A messages and typed tasks: inbound messages, cancellation
    requests, agent cards and stream events.
  \<^item> \<open>Store_Machine\<close>: a call of any part as one step on the store, the frames of the parts (which
    tables each leaves alone), the invariant of the whole store and the interpretations.

  How the model follows the code.  A method that opens a transaction is a body that returns an
  exception or a new store, wrapped by \<open>transaction\<close>; a statement is an operation on the list of rows
  of its table; the clock, the random source and file-independent configuration are arguments.  A
  method that reads the clock several times takes one argument per reading.  Times are integers in
  milliseconds, as in the code; Python integers are unbounded and need no width, claim and
  execution tokens are 128-bit words in hexadecimal.  Durations, latencies and scores, floats in the
  code, are exact rationals.  The order of rows that compare equal in an \<open>ORDER BY\<close>, which SQL leaves
  open, is their rowid order, as SQLite's sorter gives it.  Every definition is total and
  executable; no fuel is used: the loops of the modelled code run over lists.

  What the properties of this theory say, over arbitrary sequences of calls: all invariants hold
  (\<open>store_always_well_formed\<close>); a one-time key is used once; a peer's key is reserved by one holder; the
  outcome and the cancellation of a task are final and its recorded state follows the abstract
  life cycle \<open>task_flow\<close>.  \<open>latest_group_misses_message\<close> shows a fault: the rowid remembered for a group
  opened at the latest message can be reused after a purge.

  Not modelled: the write-ahead-log checkpoints, database migrations and locks (file I/O and threads;
  the store runs one call at a time under its lock), the aggregates for status reports, transports,
  carriers, the node's event loop, command line, HTTP and MCP handlers, and the application
  protocols on top of messages (relations, friendship, social), and the tables of the A2A gateway in the store.  Text is Latin-1;
  SQLite's 64-bit limit on integers is not modelled, the clocks and counters of the code stay far below it.
\<close>

section \<open>What successful calls did\<close>

lemma claimed_passes_filters:
  assumes "claim_consumer_messages E now rnd g owner limit secs s = (s', Inr out)" and "c \<in> set out"
    and "consumer_id ''group ID'' g = Inr gid" and "find_group s gid = Some grp"
  shows "\<exists>i\<in>set (t_inbox s). it_packet_id (cl_item c) = ib_packet i \<and> consumer_filters grp i"
  using assms(1)
proof (rule claim_call)
  fix gid' owner' grp' cs
  assume a: "consumer_id ''group ID'' g = Inr gid'" "find_group s gid' = Some grp'"
    and each: "claim_each E gid' owner' (now + lease_duration secs)
       (claim_plan s rnd gid' (claim_selection s now gid' grp' limit)) (t_claims s) = Inr (cs, out)"
  have "it_packet_id (cl_item c) \<in> set (map ib_packet (claim_selection s now gid' grp' limit))"
    unfolding claim_call_packets [OF each, symmetric] using assms(2) by simp
  moreover have "grp' = grp" using a assms(3,4) by simp
  ultimately show ?thesis using in_claim_selection by auto
qed

lemma settled_task:
  assumes "task_inv s" and "settle_agent_task E now g own tk x st out err secs s = (s', Inr (item, ra))"
  shows "\<exists>t. find_task s' (item_key item) = Some t \<and> agent_task_item E t = Inr item"
  using assms
proof (rule settle_agent_task_Inr)
  fix gid owner token xtoken st' e b t
  assume t: "find_task s (task_key t) = Some t"
    and s': "s' = settled_store now (now + retry_duration secs) gid owner token st' e b (task_key t) s"
    and item: "agent_task_item E (settled_row now st' e b t) = Inr item"
  have "item_key item = task_key t" using agent_task_item_key [OF item] by simp
  then have "find_task s' (item_key item) = Some (settled_row now st' e b t)"
    by (simp add: s' task_simps t)
  with item show ?thesis by blast
qed

lemma executed_task:
  assumes inv: "consumer_inv s" "task_inv s"
    and "begin_agent_task E random id_random now g own tk allowed caps s = (s', Inr (item, f))" and "bf_execute f"
  shows "\<exists>t. find_task s' (item_key item) = Some t \<and> tx_state t = Working"
  using inv assms(3)
proof (rule begin_agent_task_Inr)
  fix gid owner token d i n row
  assume row: "find_task s' (item_key item) = Some row"
    and dec: "begin_decide random now gid owner token (cd_packet d) (message_hash E ''anettsk1'' n) (item_key item) s = Inr (s', row, f)"
  from inv dec assms(4) show ?thesis
    by (cases rule: begin_decide_execute) (use row acquire_execute(2) in blast)+
qed

lemma replayed_outcome:
  assumes "consumer_inv s" and "task_inv s"
    and "begin_agent_task E random id_random now g own tk allowed caps s = (s', Inr (item, f))"
    and "find_task s (item_key item) = Some t" and "terminal (tx_state t)"
  shows "agent_task_item E t = Inr item \<and> \<not> bf_execute f \<and> bf_duplicate f"
  using assms(1-3)
proof (rule begin_agent_task_Inr)
  fix gid owner token d i n row
  assume item: "agent_task_item E row = Inr item"
    and dec: "begin_decide random now gid owner token (cd_packet d) (message_hash E ''anettsk1'' n) (item_key item) s = Inr (s', row, f)"
  have "row = t \<and> f = flags False True True '''' False"
    using dec assms(4,5) by (simp add: begin_defs Let_def split: if_splits)
  with item show ?thesis by simp
qed

section \<open>Properties of the whole store\<close>

text \<open>
  C1: the store stays well formed.  From the empty store and after any sequence of calls of any part
  of the store, successful or not, the invariants of all tables hold: keys are unique, hop counts
  are within their limits, a local private key is present exactly while its key is available, every
  peer key belongs to an imported bundle, claims carry distinct tokens, tasks and cancellations agree,
  and the counters of a path add up.
\<close>

theorem store_always_well_formed:
  "store_inv (fold store_step cs empty_store)"
  by (rule store.inv_reachable)

text \<open>
  C2: forward secrecy of one-time keys.  Once a message sealed to a one-time key was committed, the
  private part of that key is gone for good: whatever calls follow, the key cannot be looked up, and
  no other message sealed to it is ever committed, the attempt raises and changes nothing.
\<close>

theorem one_time_key_used_once:
  assumes "store_inv s" and "commit_local_message E now m tr v s = (s1, Inr True)" and "om_key_mode m = Opk"
    and "hex_string 32 (om_prekey_id m)"
    and "om_key_mode m' = Opk" and "om_prekey_id m' = om_prekey_id m"
    and "\<not> in_inbox (fold store_step cs s1) (om_packet_id m')"
  shows "commit_local_message E' now' m' tr' v' (fold store_step cs s1)
      = (fold store_step cs s1, Inl (ValueError ''packet one-time prekey was already consumed''))
    \<and> (\<forall>r\<in>set (t_local_prekeys (fold store_step cs s1)). lk_id r = om_prekey_id m \<longrightarrow> lk_private r = None)"
proof -
  have s1: "s1 = store_step (InboxCall (CommitMessage E now m tr v)) s" using assms(2) by simp
  have inv: "store_inv s1" unfolding s1 using assms(1) by (rule store.inv_step)
  note later = store.inv_run [OF inv, of cs]
  have gone: "erased (om_prekey_id m) (fold store_step cs s1)"
    using inv commit_erases [OF assms(2,3)] by (rule keys.fact_run)
  then have "\<forall>r\<in>set (t_local_prekeys (fold store_step cs s1)). lk_id r = om_prekey_id m \<longrightarrow> lk_private r = None"
    using store_invD(2) [OF later] unique_keyD unfolding erased_def exists_where_iff prekey_inv_def by metis
  with commit_rejects_erased [OF store_invD(2) [OF later], of m'] gone assms(4-7) show ?thesis by simp
qed

text \<open>
  C6: a peer key has one holder.  Whatever happens in between, a peer's one-time key that was handed
  out under a reservation is never handed out under another one.
\<close>

theorem reservation_exclusive:
  assumes "store_inv s" and "reserve_peer_prekey now rnd peer res minv s = (s1, Inr (Some g))"
    and "reserve_peer_prekey now' rnd' peer' res' minv' (fold store_step cs s1) = (s2, Inr (Some h))"
    and "gr_peer h = gr_peer g" and "gr_id h = gr_id g"
  shows "gr_reservation h = gr_reservation g"
proof -
  let ?c = "PrekeyCall (ReservePrekey now rnd peer res minv)"
  let ?d = "PrekeyCall (ReservePrekey now' rnd' peer' res' minv')"
  have s1: "s1 = store_step ?c s" using assms(2) by simp
  have "granted_key ?c s = Some ((gr_peer g, gr_id g), gr_reservation g)"
    using assms(2) by (simp add: grant_key_def)
  moreover have "granted_key ?d (fold store_step cs (store_step ?c s)) = Some ((gr_peer g, gr_id g), gr_reservation h)"
    using assms(3-5) unfolding s1 [symmetric] by (simp add: grant_key_def)
  ultimately show ?thesis by (rule grants.granted_once [OF assms(1)])
qed

text \<open>
  C5: the life of a task.  Over any calls on the store, what is recorded of a task and of its
  cancellation moves along the specified life cycle only, and the pair of states always makes sense.
\<close>

theorem task_life_refines_flow:
  assumes "store_inv s"
  shows "task_flow\<^sup>*\<^sup>* (task_view k s) (task_view k (fold store_step cs s))
    \<and> view_ok (task_view k (fold store_step cs s))"
  using life.view_run [OF assms] task_inv_view [OF store_invD(5) [OF store.inv_run [OF assms]]] by blast

text \<open>
  C3: the outcome of a task is final.  After a worker settled a task as completed, failed, canceled or
  rejected, whatever calls follow, everybody who begins the task again is told the same outcome and
  is not told to execute it.
\<close>

theorem settled_outcome_is_final:
  assumes "store_inv s" and "settle_agent_task E now g own tk x st out err secs s = (s1, Inr (item, ra))"
    and "terminal (ti_state item)"
    and "begin_agent_task E random id_random now' g' own' tk' allowed caps (fold store_step cs s1) = (s2, Inr (item', f))"
    and "item_key item' = item_key item"
  shows "item' = item \<and> \<not> bf_execute f \<and> bf_duplicate f"
proof -
  note inv = store_invD(4,5) [OF assms(1)]
  obtain t where t: "find_task s1 (item_key item) = Some t" "agent_task_item E t = Inr item"
    using settled_task [OF inv(2) assms(2)] by blast
  have s1: "s1 = store_step (TaskCall (SettleTask E now g own tk x st out err secs)) s" using assms(2) by simp
  have inv1: "store_inv s1" unfolding s1 using assms(1) by (rule store.inv_step)
  have tt: "terminal (tx_state t)" using assms(3) agent_task_item_key [OF t(2)] by simp
  have "finished (item_key item, t) (fold store_step cs s1)"
    by (rule outcomes.fact_run [OF inv1]) (simp add: finished_def t tt)
  then have "find_task (fold store_step cs s1) (item_key item') = Some t" by (simp add: finished_def assms(5))
  from replayed_outcome [OF store_invD(4,5) [OF store.inv_run [OF inv1]] assms(4) this tt] t(2)
  show ?thesis by simp
qed

text \<open>
  C4: a cancellation is final.  After the cancellation of a task was applied, whatever calls follow,
  nobody is ever told to execute that task again.
\<close>

theorem canceled_never_executed:
  assumes "store_inv s" and "apply_agent_task_cancellation E rnd now g own tk allowed s = (s1, Inr (c, cooperative))"
    and "begin_agent_task E' random id_random now' g' own' tk' allowed' caps (fold store_step cs s1) = (s2, Inr (item, f))"
    and "item_key item = cancel_key c"
  shows "\<not> bf_execute f"
proof
  assume ex: "bf_execute f"
  have s1: "s1 = store_step (TaskCall (CancelTask E rnd now g own tk allowed)) s" using assms(2) by simp
  have inv1: "store_inv s1" unfolding s1 using assms(1) by (rule store.inv_step)
  note inv = store.inv_run [OF inv1, of cs]
  have s2: "s2 = store_step (TaskCall (BeginTask E' random id_random now' g' own' tk' allowed' caps)) (fold store_step cs s1)"
    using assms(3) by simp
  obtain gid owner token where body: "cancel_body E rnd now gid owner token allowed s = Inr (s1, c, cooperative)"
    using assms(2) by (auto simp: apply_agent_task_cancellation_def checked_Inr transaction_Inr)
  have "snd (task_view (cancel_key c) s1) \<noteq> None"
    using cancel_body_Inr [OF store_invD(4,5) [OF assms(1)] body] by (simp add: task_view_def)
  then have "snd (task_view (cancel_key c) s2) \<noteq> None"
    using flow_cancel [OF life.view_run [OF inv1]] flow_cancel [OF r_into_rtranclp] life.view_step [OF inv]
    unfolding s2 by metis
  moreover obtain t where "find_task s2 (item_key item) = Some t" "tx_state t = Working"
    using executed_task [OF store_invD(4,5) [OF inv] assms(3) ex] by blast
  moreover have "task_inv s2" unfolding s2 by (rule store_invD(5) [OF store.inv_step [OF inv]])
  ultimately show False using canceled_not_working assms(4) by metis
qed

lemma max_or_zero_le: "(\<And>x. x \<in> set xs \<Longrightarrow> x \<le> b) \<Longrightarrow> 0 \<le> b \<Longrightarrow> max_or_zero xs \<le> b"
  by (cases xs) (simp_all add: max_or_zero_def Max.set_eq_fold [symmetric])

lemma commit_new_tables:
  assumes "commit_local_message E now m tr v s = (s', Inr True)"
  shows "t_inbox s' = t_inbox s @ [inbox_row_of E now m tr v (new_rowid s)] \<and> t_groups s' = t_groups s"
  using assms unfolding commit_local_message_Inr
  by (cases rule: commit_body_cases) (simp_all add: insert_inbox_def)

lemma opened_group:
  assumes "open_consumer_group now g ''latest'' prefix sender tr it s = (s1, Inr (grp, True))"
  obtains gid where "consumer_id ''group ID'' g = Inr gid" "find_group s gid = None" "cg_group grp = gid"
    "cg_start_after grp = max_or_zero (map ib_rowid (t_inbox s))" "s1 = s\<lparr>t_groups := t_groups s @ [grp]\<rparr>"
proof -
  have latest: "lower (strip ''latest'') = ''latest''" by code_simp
  obtain gid where gid: "consumer_id ''group ID'' g = Inr gid"
    using assms by (auto simp: open_consumer_group_def checked_Inr)
  have "find_group s gid = None"
    using assms latest gid by (cases "find_group s gid") (auto simp: open_consumer_group_def checked_Inr Let_def split: if_splits)
  then show thesis using assms latest gid that
    by (auto simp: open_consumer_group_def checked_Inr Let_def split: if_splits)
qed

text \<open>
  C26: what \<open>latest\<close> means after a purge.  The group remembers the largest rowid of the inbox, but SQLite
  reuses the rowids of deleted rows at the end of a table.  When a group is opened at the latest
  message, the last row is hidden and later purged, then the next message is stored with a rowid the
  group has already passed: it is in the inbox, visible and trusted, and the group never gets it.
\<close>

theorem latest_group_misses_message:
  assumes inv: "store_inv s"
    and op: "open_consumer_group t0 g ''latest'' prefix sender tr it s = (s1, Inr (grp, True))"
    and tail: "x \<in> set (t_inbox s)" "\<forall>i\<in>set (t_inbox s). ib_rowid i \<le> ib_rowid x" "stale_transient t1 retention x"
    and commit: "commit_local_message E t2 m True True (fst (purge t1 retention s1)) = (s2, Inr True)"
    and claim: "claim_consumer_messages E' t3 rnd g owner limit secs s2 = (s3, Inr out)"
  shows "in_inbox s2 (om_packet_id m) \<and> om_packet_id m \<notin> (\<lambda>c. it_packet_id (cl_item c)) ` set out"
proof -
  let ?p = "fst (purge t1 retention s1)"
  let ?row = "inbox_row_of E t2 m True True (new_rowid ?p)"
  obtain gid where g: "consumer_id ''group ID'' g = Inr gid" "find_group s gid = None" "cg_group grp = gid"
    and start: "cg_start_after grp = max_or_zero (map ib_rowid (t_inbox s))" and s1: "s1 = s\<lparr>t_groups := t_groups s @ [grp]\<rparr>"
    using op by (rule opened_group)
  have inbox: "t_inbox ?p = filter (\<lambda>i. \<not> stale_transient t1 retention i) (t_inbox s)"
    by (simp add: purge_def Let_def delete_where_def s1)
  have s2: "t_inbox s2 = t_inbox ?p @ [?row]" "t_groups s2 = t_groups s @ [grp]"
    using commit_new_tables [OF commit] by (simp_all add: s1)
  have uniq: "unique_key ib_rowid (t_inbox s)" "1 \<le> ib_rowid x"
    using store_invD(3) [OF inv] tail(1) by (simp_all add: inbox_inv_def)
  have "ib_rowid i \<le> ib_rowid x - 1" if "i \<in> set (t_inbox ?p)" for i
  proof -
    have i: "i \<in> set (t_inbox s)" "i \<noteq> x" using that tail(3) unfolding inbox by auto
    then have "ib_rowid i \<noteq> ib_rowid x" using unique_keyD [OF uniq(1) i(1) tail(1)] by blast
    then show ?thesis using tail(2) i(1) by force
  qed
  then have "max_or_zero (map ib_rowid (t_inbox ?p)) \<le> ib_rowid x - 1"
    using uniq(2) by (intro max_or_zero_le) auto
  then have "new_rowid ?p \<le> ib_rowid x" by (simp add: new_rowid_def)
  also have "\<dots> \<le> cg_start_after grp" unfolding start using tail(1) by (intro max_or_zero_ge) simp
  finally have passed: "\<not> consumer_filters grp ?row" by (simp add: consumer_filters_def inbox_row_of_def)
  have chain: "s2 = fold store_step [ConsumerCall (OpenGroup t0 g ''latest'' prefix sender tr it),
      AdminCall (Purge t1 retention), InboxCall (CommitMessage E t2 m True True)] s"
    using op commit by simp
  have inv2: "store_inv s2" unfolding chain by (rule store.inv_run [OF inv])
  have "find_group s2 gid = Some grp"
    using g(2,3) by (simp add: find_group_def s2(2) find_append)
  note got = claimed_passes_filters [OF claim _ g(1) this]
  have "om_packet_id m \<noteq> it_packet_id (cl_item c)" if co: "c \<in> set out" for c
  proof
    assume m: "om_packet_id m = it_packet_id (cl_item c)"
    obtain i where i: "i \<in> set (t_inbox s2)" "it_packet_id (cl_item c) = ib_packet i" "consumer_filters grp i"
      using got [OF co] by blast
    have "ib_packet i = ib_packet ?row" using m i(2) by (simp add: inbox_row_of_def)
    moreover have "unique_key ib_packet (t_inbox s2)" using store_invD(3) [OF inv2] by (simp add: inbox_inv_def)
    ultimately have "i = ?row" using unique_keyD i(1) s2(1) by (metis in_set_conv_decomp)
    with i(3) passed show False by simp
  qed
  moreover have "in_inbox s2 (om_packet_id m)" by (simp add: in_inbox_def s2(1) inbox_row_of_def)
  ultimately show ?thesis by blast
qed

section \<open>Examples\<close>

lemma demo_local_ok: "store_inv demo_local"
  using store.inv_step [OF store_inv_empty, of "PrekeyCall (AddLocalBatch [(demo_kid, replicate 32 0, replicate 32 1)] demo_id 2 1 10 1000)"]
  by (simp add: demo_local_def)

lemma in_inbox_mark_read: "in_inbox (mark_read pids s) pid = in_inbox s pid"
proof -
  have "list_ex (\<lambda>r. ib_packet r = pid) (update_where P (\<lambda>r. r\<lparr>ib_is_read := True\<rparr>) rs)
      = list_ex (\<lambda>r. ib_packet r = pid) rs" for P rs
    by (induction rs) simp_all
  then show ?thesis by (simp add: in_inbox_def mark_read_def exists_where_def del: exists_where_iff)
qed

theorem one_time_key_used_once_witness:
  "\<exists>s1. commit_local_message demo_ext 100 (demo_message ''p'') True True demo_local = (s1, Inr True)
     \<and> commit_local_message demo_ext 200 (demo_message ''q'') True True (mark_read [''p''] s1)
       = (mark_read [''p''] s1, Inl (ValueError ''packet one-time prekey was already consumed''))"
proof -
  obtain s1 where c: "commit_local_message demo_ext 100 (demo_message ''p'') True True demo_local = (s1, Inr True)"
    using demo_commit by (cases "commit_local_message demo_ext 100 (demo_message ''p'') True True demo_local") auto
  have "s1 = fst (commit_local_message demo_ext 100 (demo_message ''p'') True True demo_local)" using c by simp
  moreover have "\<not> in_inbox (fst (commit_local_message demo_ext 100 (demo_message ''p'') True True demo_local)) ''q''"
    by code_simp
  ultimately have "\<not> in_inbox (fold store_step [InboxCall (MarkRead [''p''])] s1) (om_packet_id (demo_message ''q''))"
    by (simp add: in_inbox_mark_read demo_message_def)
  from one_time_key_used_once [OF demo_local_ok c _ _ _ _ this] c show ?thesis
    by (simp add: demo_message_def demo_kid_hex)
qed

lemma demo_keys_ok: "store_inv demo_keys"
  using store.inv_step [OF store_inv_empty, of "PrekeyCall (ImportBundle 100 100 demo_bundle)"]
  by (simp add: demo_keys_def)

abbreviation demo_reservation :: "store \<Rightarrow> (store, prekey_grant option) outcome" where
  "demo_reservation \<equiv> reserve_peer_prekey 100 5 ''peer'' demo_kid 1"

lemma demo_reserved_twice:
  "map_sum id (map_option grant_key) (snd (demo_reservation demo_keys)) = Inr (Some ((''peer'', demo_kid), demo_kid))"
  "map_sum id (map_option grant_key) (snd (demo_reservation (fst (demo_reservation demo_keys))))
     = Inr (Some ((''peer'', demo_kid), demo_kid))"
  by code_simp+

lemma demo_grant:
  assumes "map_sum id (map_option grant_key) (snd q) = Inr (Some ((''peer'', demo_kid), demo_kid))"
  obtains s' g where "q = (s', Inr (Some g))" "gr_peer g = ''peer''" "gr_id g = demo_kid"
  using assms by (cases q; cases "snd q") (auto simp: grant_key_def)

theorem reservation_exclusive_witness:
  "\<exists>s1 g s2 h. demo_reservation demo_keys = (s1, Inr (Some g)) \<and> demo_reservation s1 = (s2, Inr (Some h))
     \<and> gr_id h = gr_id g \<and> gr_reservation h = gr_reservation g"
proof -
  obtain s1 g where g: "demo_reservation demo_keys = (s1, Inr (Some g))" "gr_peer g = ''peer''" "gr_id g = demo_kid"
    by (rule demo_grant [OF demo_reserved_twice(1)])
  have "demo_reservation (fst (demo_reservation demo_keys)) = demo_reservation (fold store_step [] s1)" using g(1) by simp
  then obtain s2 h where h: "demo_reservation (fold store_step [] s1) = (s2, Inr (Some h))" "gr_peer h = ''peer''" "gr_id h = demo_kid"
    using demo_grant [OF demo_reserved_twice(2)] by metis
  have "gr_reservation h = gr_reservation g"
    by (rule reservation_exclusive [OF demo_keys_ok g(1) h(1)]) (simp_all add: g h)
  then show ?thesis using g h by auto
qed

lemma demo_tasks_ok: "store_inv demo_tasks" "store_inv (demo_tasks\<lparr>t_tasks := [demo_task]\<rparr>)"
  using demo_tasks_inv demo_running_inv(1,2)
  by (simp_all add: store_inv_def demo_tasks_def packet_inv_def prekey_inv_def inbox_inv_def path_inv_def
      empty_store_def unique_key_def demo_message_row_def)

theorem task_life_refines_flow_witness:
  "task_flow\<^sup>*\<^sup>* (task_view demo_key demo_tasks) (task_view demo_key (fold store_step
     [TaskCall (BeginTask task_ext 7 0 1000 ''g'' ''w'' (demo_token CHR ''1'') [''*''] [])] demo_tasks))"
  using task_life_refines_flow [OF demo_tasks_ok(1)] by blast

text \<open>The task is settled, and the worker of the repeated request is told its outcome.\<close>

definition demo_after :: store where
  "demo_after = demo_tasks\<lparr>t_tasks := [demo_done],
     t_claims := [ack_row 2000 (demo_claim_row ''p'' CHR ''1''), demo_claim_row ''q'' CHR ''2'', demo_claim_row ''r'' CHR ''3'']\<rparr>"

lemma demo_settled:
  "\<exists>item. settle_agent_task task_ext 2000 ''g'' ''w'' (demo_token CHR ''1'') (token_hex 7) ''completed'' PNone '''' 0
      (demo_tasks\<lparr>t_tasks := [demo_task]\<rparr>) = (demo_after, Inr (item, None)) \<and> agent_task_item task_ext demo_done = Inr item"
proof -
  let ?s = "demo_tasks\<lparr>t_tasks := [demo_task]\<rparr>"
  obtain s' item where r: "settle_agent_task task_ext 2000 ''g'' ''w'' (demo_token CHR ''1'') (token_hex 7) ''completed'' PNone '''' 0 ?s
      = (s', Inr (item, None))"
    using demo_settle by blast
  have "lower (strip ''completed'') = ''completed''" by code_simp
  then have checks: "settle_checks task_ext ''completed'' PNone '''' = Inr (Completed, '''', [])"
    by (simp add: settle_checks_def Let_def settle_state_def task_ext_def demo_ext_def pack_def)
  from settle_agent_task_Inr [OF demo_running_inv(2) r] obtain gid owner token xtoken st' e b t where
    a: "claim_args ''g'' ''w'' (demo_token CHR ''1'') = Inr (gid, owner, token)" "settle_checks task_ext ''completed'' PNone '''' = Inr (st', e, b)"
      "find_task ?s (task_key t) = Some t"
      "s' = settled_store 2000 (2000 + retry_duration 0) gid owner token st' e b (task_key t) ?s"
      "agent_task_item task_ext (settled_row 2000 st' e b t) = Inr item"
    by metis
  have c: "gid = ''g''" "owner = ''w''" "token = demo_token CHR ''1''" "st' = Completed" "e = ''''" "b = []"
    using a(1,2) demo_args checks by simp_all
  have t: "t = demo_task" using a(3) by (simp add: find_task_def split: if_splits)
  have "s' = demo_after"
    by (simp add: a(4) c t settled_store_def Let_def set_task_def demo_after_def demo_done_def demo_task_simps demo_tasks_def
        demo_claim_row_def owned_lease_def demo_token_eq)
  then show ?thesis using r a(5) by (auto simp: c t demo_done_def)
qed

lemma demo_begin_body:
  assumes "live_claim s 1000 ''g'' ''w'' (demo_token c)
      = Some (demo_claim_row pid c, demo_message_row pid ''agent.task.request'' [1])"
  shows "begin_body task_ext x 0 1000 ''g'' ''w'' (demo_token c) [''*''] [] s
    = begin_decide x 1000 ''g'' ''w'' (demo_token c) pid (message_hash task_ext ''anettsk1'' demo_request) demo_key s"
proof -
  have claimed: "claimed_message task_ext 0 1000 ''agent.task.request'' u v ''g'' ''w'' (demo_token c) s =
     Inr (demo_claim_row pid c, demo_message_row pid ''agent.task.request'' [1], demo_request)" for u v
    by (simp only: claimed_message_def assms option.case prod.case demo_message_row_def demo_row_def
        inbox_row.simps if_False if_True not_True_eq_False simp_thms demo_unpack and_then_simps demo_valid_request)
  have k: "(''g'', ib_sender (demo_message_row pid ''agent.task.request'' [1]), demo_token CHR ''a'') = demo_key"
    by (simp add: demo_message_row_def demo_row_def demo_key_def)
  show ?thesis unfolding begin_body_def claimed by (simp add: Let_def demo_fields k demo_claim_row_def)
qed

lemma demo_done_simps:
  "task_key demo_done = demo_key" "tx_state demo_done = Completed" "tx_output demo_done = Some []"
  "tx_request_hash demo_done = message_hash task_ext ''anettsk1'' demo_request"
  by (simp_all add: demo_done_def demo_task_def settled_row_def new_task_def task_key_def demo_key_def)

theorem settled_outcome_is_final_witness:
  "\<exists>item s2 f. settle_agent_task task_ext 2000 ''g'' ''w'' (demo_token CHR ''1'') (token_hex 7) ''completed'' PNone '''' 0
        (demo_tasks\<lparr>t_tasks := [demo_task]\<rparr>) = (demo_after, Inr (item, None))
     \<and> begin_agent_task task_ext 9 0 1000 ''g'' ''w'' (demo_token CHR ''3'') [''*''] [] demo_after = (s2, Inr (item, f))
     \<and> \<not> bf_execute f"
proof -
  obtain item where s: "settle_agent_task task_ext 2000 ''g'' ''w'' (demo_token CHR ''1'') (token_hex 7) ''completed'' PNone '''' 0
        (demo_tasks\<lparr>t_tasks := [demo_task]\<rparr>) = (demo_after, Inr (item, None))"
    and item: "agent_task_item task_ext demo_done = Inr item"
    using demo_settled by blast
  have live: "live_claim demo_after 1000 ''g'' ''w'' (demo_token CHR ''3'')
      = Some (demo_claim_row ''r'' CHR ''3'', demo_message_row ''r'' ''agent.task.request'' [1])"
    by (simp add: live_claim_def demo_after_def demo_tasks_def demo_claim_row_def owned_lease_def in_inbox_def
        demo_message_row_def demo_token_eq demo_row_def ack_row_def)
  have t: "find_task demo_after demo_key = Some demo_done" by (simp add: find_task_def demo_after_def demo_done_simps)
  have "begin_decide 9 1000 ''g'' ''w'' (demo_token CHR ''3'') ''r'' (message_hash task_ext ''anettsk1'' demo_request) demo_key demo_after
      = Inr (ack_where (owned_lease ''g'' ''w'' (demo_token CHR ''3'')) 1000 demo_after, demo_done, flags False True True '''' False)"
    by (simp add: begin_defs Let_def t demo_done_simps)
  then obtain s2 f where b: "begin_agent_task task_ext 9 0 1000 ''g'' ''w'' (demo_token CHR ''3'') [''*''] [] (fold store_step [] demo_after)
      = (s2, Inr (item, f))"
    using demo_begin_body [OF live] item
    by (simp add: begin_agent_task_def demo_args demo_fields transaction_def after_commit_def)
  have "terminal (ti_state item)" using agent_task_item_key [OF item] by (simp add: demo_done_simps)
  from settled_outcome_is_final [OF demo_tasks_ok(2) s this b refl] b s show ?thesis by auto
qed

text \<open>The cancellation arrives before the request.\<close>

definition demo_cancel_row :: cancel_row where
  "demo_cancel_row = \<lparr>tc_group = ''g'', tc_sender = ''a'', tc_task = demo_token CHR ''a'', tc_packet = ''q'',
     tc_hash = message_hash task_ext ''anetcxl1'' demo_cancel_normal, tc_reason = ''stop'', tc_state = Requested,
     tc_terminal_state = None, tc_requested_ms = 1000, tc_updated_ms = 1000, tc_applied_ms = 0\<rparr>"

definition demo_stopped :: store where
  "demo_stopped = demo_tasks\<lparr>t_cancels := [demo_cancel_row],
     t_claims := [demo_claim_row ''p'' CHR ''1'', ack_row 1000 (demo_claim_row ''q'' CHR ''2''), demo_claim_row ''r'' CHR ''3'']\<rparr>"

lemma demo_cancel:
  "apply_agent_task_cancellation task_ext 0 1000 ''g'' ''w'' (demo_token CHR ''2'') [''*''] demo_tasks
     = (demo_stopped, Inr (demo_cancel_row, False))"
proof -
  have ts: "demo_tasks\<lparr>t_tasks := []\<rparr> = demo_tasks" by (simp add: demo_tasks_def empty_store_def)
  have k: "(''g'', ib_sender (demo_message_row ''q'' ''agent.task.cancel'' [2]), demo_token CHR ''a'') = demo_key"
    by (simp add: demo_message_row_def demo_row_def demo_key_def)
  have none: "find_task demo_tasks demo_key = None" "find_cancel demo_tasks demo_key = None" "t_cancels demo_tasks = []"
    by (simp_all add: demo_tasks_def empty_store_def find_task_def find_cancel_def)
  have row: "record_cancel ''q'' (message_hash task_ext ''anetcxl1'' demo_cancel_normal) ''stop'' 1000 demo_key demo_tasks
      = demo_tasks\<lparr>t_cancels := [demo_cancel_row]\<rparr>"
    by (simp add: record_cancel_def none) (simp add: demo_cancel_row_def demo_key_def)
  have key: "cancel_key demo_cancel_row = demo_key" by (simp add: demo_cancel_row_def cancel_key_def demo_key_def)
  have eff: "cancel_effect 1000 ''stop'' demo_key (demo_tasks\<lparr>t_cancels := [demo_cancel_row]\<rparr>)
      = (demo_tasks\<lparr>t_cancels := [demo_cancel_row]\<rparr>, Requested, None, False)"
    using none(1) by (simp add: cancel_effect_def find_task_def)
  have set_same: "set_cancel demo_key (\<lambda>c. c\<lparr>tc_state := Requested, tc_terminal_state := None, tc_updated_ms := 1000\<rparr>)
        (demo_tasks\<lparr>t_cancels := [demo_cancel_row]\<rparr>)
      = demo_tasks\<lparr>t_cancels := [demo_cancel_row]\<rparr>"
    by (simp add: set_cancel_def key) (simp add: demo_cancel_row_def)
  have "cancel_body task_ext 0 1000 ''g'' ''w'' (demo_token CHR ''2'') [''*''] demo_tasks
      = Inr (ack_where (owned_lease ''g'' ''w'' (demo_token CHR ''2'')) 1000 (demo_tasks\<lparr>t_cancels := [demo_cancel_row]\<rparr>),
          demo_cancel_row, False)"
    unfolding cancel_body_def demo_claimed(2) [where ts = "[]", unfolded ts]
    by (simp add: Let_def demo_fields k none row eff set_same demo_claim_row_def [of "''q''"] find_cancel_def key)
      (simp add: count_where_def demo_tasks_def demo_claim_row_def owned_lease_def demo_token_eq)
  then show ?thesis
    by (simp add: apply_agent_task_cancellation_def demo_args transaction_def demo_stopped_def ack_where_def demo_tasks_def
        demo_claim_row_def owned_lease_def demo_token_eq)
qed

theorem canceled_never_executed_witness:
  "\<exists>s2 item f. apply_agent_task_cancellation task_ext 0 1000 ''g'' ''w'' (demo_token CHR ''2'') [''*''] demo_tasks
        = (demo_stopped, Inr (demo_cancel_row, False))
     \<and> begin_agent_task task_ext 9 0 1000 ''g'' ''w'' (demo_token CHR ''1'') [''*''] [] demo_stopped = (s2, Inr (item, f))
     \<and> \<not> bf_execute f"
proof -
  have live: "live_claim demo_stopped 1000 ''g'' ''w'' (demo_token CHR ''1'')
      = Some (demo_claim_row ''p'' CHR ''1'', demo_message_row ''p'' ''agent.task.request'' [1])"
    by (simp add: live_claim_def demo_stopped_def demo_tasks_def demo_claim_row_def owned_lease_def in_inbox_def
        demo_message_row_def demo_token_eq demo_row_def ack_row_def)
  let ?row = "new_task demo_key ''p'' (message_hash task_ext ''anettsk1'' demo_request) Canceled '''' '''' '''' 0 0 1000 1000 ''stop''"
  have key: "cancel_key demo_cancel_row = demo_key" "tc_state demo_cancel_row = Requested" "tc_reason demo_cancel_row = ''stop''"
    by (simp_all add: demo_cancel_row_def cancel_key_def demo_key_def)
  have none: "find_task demo_stopped demo_key = None" "t_tasks demo_stopped = []" "t_cancels demo_stopped = [demo_cancel_row]"
    by (simp_all add: demo_stopped_def demo_tasks_def empty_store_def find_task_def)
  obtain s2 where dec: "begin_decide 9 1000 ''g'' ''w'' (demo_token CHR ''1'') ''p'' (message_hash task_ext ''anettsk1'' demo_request)
      demo_key demo_stopped = Inr (s2, ?row, flags False False True '''' True)"
    by (simp add: begin_defs Let_def none key reread_def find_task_def ack_where_def set_cancel_def task_key_def)
      (simp add: new_task_def)
  obtain item where item: "agent_task_item task_ext ?row = Inr item" "item_key item = cancel_key demo_cancel_row"
    by (simp add: agent_task_item_def item_key_def key) (simp add: new_task_def)
  have b: "begin_agent_task task_ext 9 0 1000 ''g'' ''w'' (demo_token CHR ''1'') [''*''] [] (fold store_step [] demo_stopped)
      = (s2, Inr (item, flags False False True '''' True))"
    using demo_begin_body [OF live] dec item
    by (simp add: begin_agent_task_def demo_args demo_fields transaction_def after_commit_def)
  from canceled_never_executed [OF demo_tasks_ok(1) demo_cancel b item(2)] b demo_cancel show ?thesis by auto
qed

definition demo_hidden :: store where
  "demo_hidden = empty_store\<lparr>t_inbox := [demo_row\<lparr>ib_packet := ''t'', ib_visible := False\<rparr>]\<rparr>"

lemma demo_hidden_ok: "store_inv demo_hidden"
  by (simp add: store_inv_def demo_hidden_def packet_inv_def prekey_inv_def inbox_inv_def path_inv_def consumer_inv_def
      claims_ok_def task_inv_def tasks_ok_def empty_store_def unique_key_def demo_row_def)

definition demo_open :: "store \<times> (exn + group_row \<times> bool)" where
  "demo_open = open_consumer_group 50 ''g'' ''latest'' '''' '''' True False demo_hidden"

definition demo_static :: opened_message where
  "demo_static = (demo_message ''n'')\<lparr>om_key_mode := Static\<rparr>"

definition demo_late :: "store \<times> (exn + bool)" where
  "demo_late = commit_local_message demo_ext 800000000 demo_static True True (fst (purge 700000000 604800000 (fst demo_open)))"

lemma demo_late_runs:
  "map_sum id snd (snd demo_open) = Inr True" "snd demo_late = Inr True"
  "map_sum id length (snd (claim_consumer_messages demo_ext 800000001 (\<lambda>n. 0) ''g'' ''w'' 10 60 (fst demo_late))) = Inr 0"
  by code_simp+

theorem latest_group_misses_message_witness:
  "\<exists>out. snd (claim_consumer_messages demo_ext 800000001 (\<lambda>n. 0) ''g'' ''w'' 10 60 (fst demo_late)) = Inr out
     \<and> in_inbox (fst demo_late) ''n'' \<and> ''n'' \<notin> (\<lambda>c. it_packet_id (cl_item c)) ` set out"
proof -
  obtain grp where o: "open_consumer_group 50 ''g'' ''latest'' '''' '''' True False demo_hidden = (fst demo_open, Inr (grp, True))"
    using demo_late_runs(1) unfolding demo_open_def
    by (cases "open_consumer_group 50 ''g'' ''latest'' '''' '''' True False demo_hidden";
        cases "snd (open_consumer_group 50 ''g'' ''latest'' '''' '''' True False demo_hidden)") auto
  have c: "commit_local_message demo_ext 800000000 demo_static True True (fst (purge 700000000 604800000 (fst demo_open)))
      = (fst demo_late, Inr True)"
    using demo_late_runs(2) unfolding demo_late_def by (simp add: prod_eq_iff)
  obtain s3 out where out: "claim_consumer_messages demo_ext 800000001 (\<lambda>n. 0) ''g'' ''w'' 10 60 (fst demo_late) = (s3, Inr out)"
    using demo_late_runs(3)
    by (cases "claim_consumer_messages demo_ext 800000001 (\<lambda>n. 0) ''g'' ''w'' 10 60 (fst demo_late)";
        cases "snd (claim_consumer_messages demo_ext 800000001 (\<lambda>n. 0) ''g'' ''w'' 10 60 (fst demo_late))") auto
  let ?x = "demo_row\<lparr>ib_packet := ''t'', ib_visible := False\<rparr>"
  have x: "?x \<in> set (t_inbox demo_hidden)" "\<forall>i\<in>set (t_inbox demo_hidden). ib_rowid i \<le> ib_rowid ?x"
    "stale_transient 700000000 604800000 ?x"
    by (simp_all add: demo_hidden_def stale_transient_def transient_cutoff_def demo_row_def)
  from latest_group_misses_message [OF demo_hidden_ok o x c out] out show ?thesis
    by (simp add: demo_static_def demo_message_def)
qed

end
